(* ===== verification/Health.thy ===== *)
theory Health
  imports Nyx_Prelude
begin

text \<open>
  Container health checks (src/internal/health/health.go): the configuration with its
  defaults, one probe, the checker's counter and status, and the readiness wait. What a probe
  meets outside the daemon (a process run by crun, an HTTP answer, a TCP connection) is the
  argument \<open>probe_world\<close>. The background loop is the sequence of its checks.
\<close>

section \<open>Configuration\<close>

record health_config =
  h_type :: string
  h_command :: "string list"
  h_url :: string
  h_address :: string
  h_interval :: int
  h_timeout :: int
  h_retries :: int
  h_start_period :: int

definition Normalize :: "health_config \<Rightarrow> health_config" where
  "Normalize cfg0 =
     (let cfg1 = (if h_interval cfg0 = 0 then cfg0\<lparr>h_interval := 30 * 1000000000\<rparr> else cfg0);
          cfg2 = (if h_timeout cfg1 = 0 then cfg1\<lparr>h_timeout := 10 * 1000000000\<rparr> else cfg1)
      in if h_retries cfg2 = 0 then cfg2\<lparr>h_retries := 3\<rparr> else cfg2)"

definition no_probe :: "health_config \<Rightarrow> bool" where
  "no_probe cfg \<longleftrightarrow> h_type cfg = ''none'' \<or> h_type cfg = []"

section \<open>One probe\<close>

datatype probe_error =
    ExecNoCommand | ExecFailed string | RequestError string | HttpStatus int | DialFailed string
  | UnknownType string

record probe_world =
  w_run :: "string list \<Rightarrow> string option"
  w_get :: "string \<Rightarrow> string + int"
  w_dial :: "string \<Rightarrow> string option"

definition probeExec ::
  "probe_world \<Rightarrow> health_config \<Rightarrow> string \<Rightarrow> string \<Rightarrow> string \<Rightarrow> probe_error option" where
  "probeExec w cfg containerID crunBin crunRoot =
     (if h_command cfg = [] then Some ExecNoCommand
      else case w_run w (crunBin # [''--root'', crunRoot, ''exec'', containerID] @ h_command cfg) of
             Some e \<Rightarrow> Some (ExecFailed e)
           | None \<Rightarrow> None)"

definition probeHTTP :: "probe_world \<Rightarrow> health_config \<Rightarrow> probe_error option" where
  "probeHTTP w cfg =
     (case w_get w (h_url cfg) of
        Inl e \<Rightarrow> Some (RequestError e)
      | Inr code \<Rightarrow> if code < 200 \<or> code \<ge> 300 then Some (HttpStatus code) else None)"

definition probeTCP :: "probe_world \<Rightarrow> health_config \<Rightarrow> probe_error option" where
  "probeTCP w cfg = map_option DialFailed (w_dial w (h_address cfg))"

definition Probe ::
  "probe_world \<Rightarrow> health_config \<Rightarrow> string \<Rightarrow> string \<Rightarrow> string \<Rightarrow> probe_error option" where
  "Probe w cfg containerID crunBin crunRoot =
     (if no_probe cfg then None
      else if h_type cfg = ''exec'' then probeExec w cfg containerID crunBin crunRoot
      else if h_type cfg = ''http'' then probeHTTP w cfg
      else if h_type cfg = ''tcp'' then probeTCP w cfg
      else Some (UnknownType (h_type cfg)))"

section \<open>The checker\<close>

datatype status = Starting | Healthy | Unhealthy

record checker =
  c_cfg :: health_config
  c_status :: status
  c_consecutive :: int

definition New :: "health_config \<Rightarrow> checker" where
  "New cfg = \<lparr>c_cfg = Normalize cfg, c_status = Starting, c_consecutive = 0\<rparr>"

text \<open>One check with the outcome of its probe (True: the probe failed). The second component
  says whether the callback onUnhealthy is started.\<close>

definition check :: "checker \<Rightarrow> bool \<Rightarrow> checker \<times> bool" where
  "check c failed =
     (if no_probe (c_cfg c) then (c, False)
      else if failed then
        (let c' = c\<lparr>c_consecutive := c_consecutive c + 1\<rparr>
         in if c_consecutive c' \<ge> h_retries (c_cfg c') \<and> c_status c' \<noteq> Unhealthy
            then (c'\<lparr>c_status := Unhealthy\<rparr>, True) else (c', False))
      else (c\<lparr>c_consecutive := 0, c_status := Healthy\<rparr>, False))"

text \<open>The loop: one check after the start period and one per tick; the outcomes are the
  results of the successive probes. The result is the checker and the callbacks made.\<close>

fun checks :: "checker \<Rightarrow> bool list \<Rightarrow> checker \<times> bool list" where
  "checks c [] = (c, [])"
| "checks c (f # fs) =
     (let (c', fired) = check c f; (c'', rest) = checks c' fs in (c'', fired # rest))"

section \<open>WaitReady\<close>

text \<open>What one round of the readiness loop observes: the context is done before the probe, the
  error of the probe, the context is done during the pause.\<close>

record round =
  done_before :: bool
  probe_result :: "probe_error option"
  done_pause :: bool

datatype ready = Ready | ContextDone

text \<open>\<open>None\<close>: the observed rounds are over and the wait goes on.\<close>

fun ready_rounds :: "round list \<Rightarrow> ready option" where
  "ready_rounds [] = None"
| "ready_rounds (r # rs) =
     (if done_before r then Some ContextDone
      else if probe_result r = None then Some Ready
      else if done_pause r then Some ContextDone
      else ready_rounds rs)"

definition WaitReady :: "health_config \<Rightarrow> bool \<Rightarrow> round list \<Rightarrow> ready option" where
  "WaitReady cfg done_start rs =
     (if no_probe cfg then Some Ready
      else if h_start_period cfg > 0 \<and> done_start then Some ContextDone
      else ready_rounds rs)"

section \<open>The status is a function of the outcomes\<close>

text \<open>How many probes failed since the last success.\<close>

definition streak :: "bool list \<Rightarrow> int" where
  "streak fs = int (length (takeWhile id (rev fs)))"

definition status_after :: "int \<Rightarrow> bool list \<Rightarrow> status" where
  "status_after retries fs =
     (if streak fs > 0 \<and> streak fs \<ge> retries then Unhealthy
      else if False \<in> set fs then Healthy else Starting)"

lemma streak_snoc: "streak (fs @ [f]) = (if f then streak fs + 1 else 0)"
  by (simp add: streak_def)

lemma streak_nonneg: "0 \<le> streak fs"
  by (simp add: streak_def)

lemma checks_snoc:
  "checks c (fs @ [f]) =
     (fst (check (fst (checks c fs)) f), snd (checks c fs) @ [snd (check (fst (checks c fs)) f)])"
  by (induction fs arbitrary: c) (auto simp: Let_def split: prod.split)

lemma checks_invariant:
  assumes "\<not> no_probe (c_cfg (New cfg))"
  shows "fst (checks (New cfg) fs) =
     \<lparr>c_cfg = Normalize cfg, c_status = status_after (h_retries (Normalize cfg)) fs,
      c_consecutive = streak fs\<rparr>"
proof (induction fs rule: rev_induct)
  case Nil
  show ?case by (simp add: New_def status_after_def streak_def)
next
  case (snoc f fs)
  have "\<not> no_probe (Normalize cfg)" using assms by (simp add: New_def)
  with snoc show ?case
    using streak_nonneg [of fs]
    by (auto simp: checks_snoc check_def streak_snoc status_after_def Let_def)
qed

lemma snd_check_iff:
  "snd (check c f) \<longleftrightarrow> \<not> no_probe (c_cfg c) \<and> f \<and> c_consecutive c + 1 \<ge> h_retries (c_cfg c)
     \<and> c_status c \<noteq> Unhealthy"
  by (simp add: check_def Let_def)

section \<open>Properties\<close>

text \<open>The reported status is exactly a function of the probe history: unhealthy while at
  least Retries probes have failed in a row, else healthy once any probe has succeeded, else
  starting.\<close>

theorem checker_status:
  assumes "\<not> no_probe (Normalize cfg)"
  shows "c_status (fst (checks (New cfg) fs)) = status_after (h_retries (Normalize cfg)) fs
       \<and> c_consecutive (fst (checks (New cfg) fs)) = streak fs"
  using checks_invariant [of cfg fs] assms by (simp add: New_def)

definition demo_health :: health_config where
  "demo_health = \<lparr>h_type = ''tcp'', h_command = [], h_url = [], h_address = ''10.88.0.2:80'',
     h_interval = 0, h_timeout = 0, h_retries = 2, h_start_period = 0\<rparr>"

theorem checker_status_witness:
  "c_status (fst (checks (New demo_health) [False, True, True])) =
     status_after (h_retries (Normalize demo_health)) [False, True, True]
   \<and> c_consecutive (fst (checks (New demo_health) [False, True, True])) = streak [False, True, True]"
  by (rule checker_status) code_simp

text \<open>The restart callback is started exactly when a run of failures reaches Retries (or at
  the first failure, if Retries is not positive): once per run of failures, never after a
  success and never again while the container stays unhealthy.\<close>

theorem unhealthy_once_per_streak:
  assumes "\<not> no_probe (Normalize cfg)"
  shows "last (snd (checks (New cfg) (fs @ [f]))) \<longleftrightarrow>
     f \<and> streak (fs @ [f]) = max 1 (h_retries (Normalize cfg))"
proof -
  have "\<not> no_probe (c_cfg (New cfg))" using assms by (simp add: New_def)
  from checks_invariant [OF this, of fs] assms show ?thesis
    using streak_nonneg [of fs]
    by (auto simp: checks_snoc snd_check_iff streak_snoc status_after_def max_def)
qed

theorem unhealthy_once_per_streak_witness:
  "last (snd (checks (New demo_health) ([True] @ [True]))) \<longleftrightarrow>
     True \<and> streak ([True] @ [True]) = max 1 (h_retries (Normalize demo_health))"
  by (rule unhealthy_once_per_streak) code_simp

text \<open>A round that neither succeeds nor sees the context done passes on to the next one.\<close>

definition won_at :: "round list \<Rightarrow> nat \<Rightarrow> bool" where
  "won_at rs i \<longleftrightarrow> i < length rs \<and> probe_result (rs ! i) = None \<and> \<not> done_before (rs ! i) \<and>
     (\<forall>j < i. \<not> done_before (rs ! j) \<and> \<not> done_pause (rs ! j))"

lemma won_at_Cons:
  "(\<exists>i. won_at (r # rs) i) \<longleftrightarrow>
     \<not> done_before r \<and> (probe_result r = None \<or> (\<not> done_pause r \<and> (\<exists>i. won_at rs i)))"
proof -
  have "won_at (r # rs) 0 \<longleftrightarrow> probe_result r = None \<and> \<not> done_before r" by (simp add: won_at_def)
  moreover have "won_at (r # rs) (Suc i) \<longleftrightarrow> \<not> done_before r \<and> \<not> done_pause r \<and> won_at rs i" for i
    by (auto simp: won_at_def All_less_Suc2)
  ultimately show ?thesis by (metis not0_implies_Suc)
qed

lemma ready_rounds_iff: "ready_rounds rs = Some Ready \<longleftrightarrow> (\<exists>i. won_at rs i)"
proof (induction rs)
  case Nil
  show ?case by (simp add: won_at_def)
next
  case (Cons r rs)
  then show ?case by (auto simp: won_at_Cons)
qed


end
