(* ===== verification/Go_Path.thy ===== *)
theory Go_Path
  imports Nyx_Prelude
begin

text \<open>
  Facts about the string and path helpers of \<open>Nyx_Prelude\<close>: splitting and joining, trimming,
  decimal numbers, and cleaned absolute paths as lists of plain elements. The component
  theories reason about paths through \<open>path_elems\<close> and \<open>render_abs\<close>, never through characters.
\<close>

section \<open>Splitting and joining\<close>

lemma split_on_nonempty [simp]: "split_on d s \<noteq> []"
  by (induction s) (auto split: list.splits)

lemma split_on_append:
  "split_on d (xs @ d # ys) = split_on d xs @ split_on d ys"
  by (induction xs) (auto split: list.splits)

lemma split_on_no_sep: "w \<in> set (split_on d s) \<Longrightarrow> d \<notin> set w"
  by (induction s arbitrary: w) (auto split: list.splits if_splits)

lemma split_on_single: "d \<notin> set s \<Longrightarrow> split_on d s = [s]"
  by (induction s) auto

lemma join_split: "join_with [d] (split_on d s) = s"
proof (induction s)
  case (Cons c s)
  obtain w ws where ws: "split_on d s = w # ws" by (cases "split_on d s") auto
  then show ?case using Cons.IH by (cases ws) auto
qed simp

lemma split_join:
  "ws \<noteq> [] \<Longrightarrow> list_all (\<lambda>w. d \<notin> set w) ws \<Longrightarrow> split_on d (join_with [d] ws) = ws"
proof (induction ws rule: induct_list012)
  case (3 w w' ws)
  then show ?case by (simp add: split_on_append split_on_single)
qed (simp_all add: split_on_single)

lemma join_with_append:
  "xs \<noteq> [] \<Longrightarrow> ys \<noteq> [] \<Longrightarrow> join_with d (xs @ ys) = join_with d xs @ d @ join_with d ys"
proof (induction xs rule: induct_list012)
  case (2 x)
  then show ?case by (cases ys) auto
qed auto

section \<open>Cutting\<close>

lemma index_str_single: "c \<notin> set k \<Longrightarrow> index_str (k @ c # v) [c] = Some (length k)"
  by (induction k) (auto simp: has_prefix_def)

lemma index_str_single_None: "c \<notin> set s \<Longrightarrow> index_str s [c] = None"
  by (induction s) (auto simp: has_prefix_def)

lemma cut_single [simp]: "c \<notin> set k \<Longrightarrow> cut_str (k @ c # v) [c] = (k, v, True)"
  by (simp add: cut_str_def index_str_single)

lemma cut_single_None [simp]: "c \<notin> set s \<Longrightarrow> cut_str s [c] = (s, [], False)"
  by (simp add: cut_str_def index_str_single_None)

lemma index_str_double: "c \<notin> set k \<Longrightarrow> index_str (k @ c # d # v) [c, d] = Some (length k)"
  by (induction k) (auto simp: has_prefix_def)

lemma cut_double: "c \<notin> set k \<Longrightarrow> cut_str (k @ c # d # v) [c, d] = (k, v, True)"
  by (simp add: cut_str_def index_str_double)

lemma index_str_absent: "c \<notin> set s \<Longrightarrow> index_str s (c # p) = None"
  by (induction s) (auto simp: has_prefix_def)

section \<open>Trimming\<close>

lemma trim_left_idem [simp]: "trim_left p (trim_left p s) = trim_left p s"
  by (simp add: trim_left_def dropWhile_idem)

lemma trim_by_hd: "trim_by p s \<noteq> [] \<Longrightarrow> \<not> p (hd (trim_by p s))"
proof -
  assume ne: "trim_by p s \<noteq> []"
  let ?t = "dropWhile p s"
  obtain u where u: "?t = trim_by p s @ u"
    unfolding trim_by_def trim_right_def trim_left_def
    by (metis rev_append rev_rev_ident takeWhile_dropWhile_id)
  then have "?t \<noteq> []" "hd ?t = hd (trim_by p s)" using ne by auto
  then show ?thesis using hd_dropWhile by metis
qed

lemma trim_by_last: "trim_by p s \<noteq> [] \<Longrightarrow> \<not> p (last (trim_by p s))"
  unfolding trim_by_def trim_right_def by (metis hd_dropWhile last_rev rev_is_Nil_conv)

lemma trim_by_id: "s = [] \<or> (\<not> p (hd s) \<and> \<not> p (last s)) \<Longrightarrow> trim_by p s = s"
proof (cases s)
  case (Cons c cs)
  assume h: "s = [] \<or> (\<not> p (hd s) \<and> \<not> p (last s))"
  with Cons have "dropWhile p s = s" by auto
  moreover have "\<not> p (hd (rev s))" using h Cons by (metis hd_rev list.distinct(1))
  ultimately show ?thesis using Cons
    by (metis dropWhile_eq_self_iff rev_rev_ident trim_by_def trim_left_def trim_right_def)
qed (simp add: trim_by_def trim_left_def trim_right_def)

lemma trim_by_idem [simp]: "trim_by p (trim_by p s) = trim_by p s"
  by (rule trim_by_id) (use trim_by_hd trim_by_last in blast)

lemma trim_space_idem [simp]: "trim_space (trim_space s) = trim_space s"
  by (simp add: trim_space_def)

lemma trim_by_all: "list_all p s \<Longrightarrow> trim_by p s = []"
  by (induction s) (auto simp: trim_by_def trim_left_def trim_right_def)

lemma trim_space_none: "list_all (\<lambda>c. \<not> is_space c) s \<Longrightarrow> trim_space s = s"
  unfolding trim_space_def by (rule trim_by_id) (cases s; simp add: list_all_iff)

lemma set_trim_by: "set (trim_by p s) \<subseteq> set s"
  unfolding trim_by_def trim_right_def trim_left_def
  by (metis order_trans set_dropWhileD set_rev subsetI)

lemma to_lower_idem [simp]: "to_lower (to_lower s) = to_lower s"
  by (simp add: to_lower_def)

section \<open>Decimal numbers\<close>

lemma digit_char:
  "n < 10 \<Longrightarrow> is_digit (char_of (48 + n)) \<and> digit_val (char_of (48 + n)) = n"
  by (simp add: is_digit_def digit_val_def Let_def)

lemma itoa_nat_digits: "all_digits (itoa_nat n)"
proof (induction n rule: itoa_nat.induct)
  case (1 n)
  then show ?case
    by (cases "n < 10") (simp_all add: itoa_nat.simps [of n] all_digits_def digit_char)
qed

lemma digits_val_snoc: "digits_val (s @ [c]) = 10 * digits_val s + digit_val c"
  by (simp add: digits_val_def)

lemma digits_val_itoa_nat: "digits_val (itoa_nat n) = n"
proof (induction n rule: itoa_nat.induct)
  case (1 n)
  show ?case
  proof (cases "n < 10")
    case True
    then show ?thesis by (simp add: itoa_nat.simps [of n] digits_val_def digit_char)
  next
    case False
    with 1 show ?thesis
      by (simp add: itoa_nat.simps [of n] digits_val_snoc digit_char)
  qed
qed

lemma parse_uint_itoa: "n < 2 ^ bits \<Longrightarrow> parse_uint bits (itoa_nat n) = Some n"
  by (simp add: parse_uint_def itoa_nat_digits digits_val_itoa_nat)

lemma all_digits_head: "all_digits (c # s) \<Longrightarrow> c \<noteq> CHR ''-'' \<and> c \<noteq> CHR ''+''"
  by (auto simp: all_digits_def is_digit_def Let_def)

lemma atoi_itoa_nat:
  assumes "n < 2 ^ 63"
  shows "atoi (itoa_nat n) = Some (int n)"
proof -
  obtain c s where cs: "itoa_nat n = c # s"
    using itoa_nat_digits [of n] by (cases "itoa_nat n") (auto simp: all_digits_def)
  have "int n < 2 ^ 63" using assms by (metis of_nat_less_iff of_nat_numeral of_nat_power)
  with cs itoa_nat_digits [of n] digits_val_itoa_nat [of n] all_digits_head [of c s] show ?thesis
    by (simp add: atoi_def)
qed

section \<open>Cleaned absolute paths\<close>

definition plain :: "string \<Rightarrow> bool" where
  "plain e \<longleftrightarrow> e \<noteq> [] \<and> e \<noteq> ''.'' \<and> e \<noteq> ''..'' \<and> CHR ''/'' \<notin> set e"

definition path_elems :: "string \<Rightarrow> string list" where
  "path_elems p = clean_elems True [] (split_on (CHR ''/'') p)"

definition render_abs :: "string list \<Rightarrow> string" where
  "render_abs es = CHR ''/'' # join_with ''/'' es"

lemma clean_elems_append:
  "clean_elems r acc (es @ fs) = clean_elems r (rev (clean_elems r acc es)) fs"
  by (induction r acc es rule: clean_elems.induct) (auto split: list.splits)

lemma clean_elems_plain:
  "list_all plain es \<Longrightarrow> clean_elems r acc es = rev acc @ es"
  by (induction es arbitrary: acc) (auto simp: plain_def)

lemma clean_elems_rooted_plain:
  "list_all plain acc \<Longrightarrow> list_all (\<lambda>e. CHR ''/'' \<notin> set e) es \<Longrightarrow>
     list_all plain (clean_elems True acc es)"
proof (induction es arbitrary: acc)
  case (Cons e es)
  then show ?case by (auto simp: plain_def split: list.splits)
qed (simp add: list_all_iff)

lemma path_elems_plain [simp]: "list_all plain (path_elems p)"
  unfolding path_elems_def
  by (rule clean_elems_rooted_plain) (auto simp: list_all_iff dest: split_on_no_sep)

lemma is_abs_render [simp]: "is_abs (render_abs es)"
  by (simp add: render_abs_def is_abs_def has_prefix_def)

lemma split_render:
  "list_all plain es \<Longrightarrow> split_on (CHR ''/'') (render_abs es) = (if es = [] then [[], []] else [] # es)"
  by (auto simp: render_abs_def split_join list_all_iff plain_def)

lemma path_elems_render [simp]: "list_all plain es \<Longrightarrow> path_elems (render_abs es) = es"
  by (simp add: path_elems_def split_render clean_elems_plain)

lemma path_clean_abs: "is_abs p \<Longrightarrow> path_clean p = render_abs (path_elems p)"
  by (simp add: path_clean_def path_elems_def render_abs_def)

lemma path_elems_clean [simp]: "is_abs p \<Longrightarrow> path_elems (path_clean p) = path_elems p"
  by (simp add: path_clean_abs)

lemma is_abs_clean [simp]: "is_abs p \<Longrightarrow> is_abs (path_clean p)"
  by (simp add: path_clean_abs)

lemma path_clean_idem: "is_abs p \<Longrightarrow> path_clean (path_clean p) = path_clean p"
  by (simp add: path_clean_abs)

lemma path_elems_snoc:
  "path_elems (p @ CHR ''/'' # q) = clean_elems True (rev (path_elems p)) (split_on (CHR ''/'') q)"
  by (simp add: path_elems_def split_on_append clean_elems_append)

text \<open>Joining plain elements to an absolute directory extends its elements.\<close>

lemma is_abs_append: "is_abs p \<Longrightarrow> is_abs (p @ q)"
  by (cases p) (auto simp: is_abs_def has_prefix_def)

lemma is_abs_nonempty: "is_abs p \<Longrightarrow> p \<noteq> []"
  by (auto simp: is_abs_def has_prefix_def)

lemma split_join_plain:
  "es \<noteq> [] \<Longrightarrow> list_all plain es \<Longrightarrow> split_on (CHR ''/'') (join_with ''/'' es) = es"
  by (rule split_join) (auto simp: list_all_iff plain_def)

lemma path_join_plain:
  assumes "is_abs p" and "es \<noteq> []" and "list_all plain es"
  shows "path_join (p # es) = render_abs (path_elems p @ es)"
proof -
  have "join_with ''/'' (p # es) = p @ CHR ''/'' # join_with ''/'' es"
    using assms(2) join_with_append [of "[p]" es "''/''"] by simp
  moreover have "path_elems (p @ CHR ''/'' # join_with ''/'' es) = path_elems p @ es"
    using assms by (simp add: path_elems_snoc split_join_plain clean_elems_plain)
  ultimately show ?thesis
    using assms(1) is_abs_nonempty [OF assms(1)]
    by (simp add: path_join_def path_clean_abs is_abs_append)
qed

text \<open>The containment test of the code: equal to the base, or below it after a separator.\<close>

lemma prefix_render_elems:
  assumes "list_all plain bs" "list_all plain rs" "bs \<noteq> []"
    and "has_prefix (render_abs rs) (render_abs bs @ ''/'')"
  obtains more where "rs = bs @ more" and "more \<noteq> []"
proof -
  from assms(4) obtain t where t: "render_abs rs = render_abs bs @ CHR ''/'' # t"
    by (metis append.assoc append_Cons append_Nil append_take_drop_id has_prefix_def)
  have "split_on (CHR ''/'') (render_abs rs) = ([] # bs) @ split_on (CHR ''/'') t"
    unfolding t using assms(1,3) by (simp add: split_on_append split_render)
  moreover have "split_on (CHR ''/'') (render_abs rs) = (if rs = [] then [[], []] else [] # rs)"
    by (rule split_render [OF assms(2)])
  ultimately have "rs = bs @ split_on (CHR ''/'') t \<or> (rs = [] \<and> [[]] = bs @ split_on (CHR ''/'') t)"
    by (auto split: if_splits)
  with assms(3) that show thesis by (cases bs) auto
qed

end
