(* ===== verification/Go_Net.thy ===== *)
theory Go_Net
  imports Go_Path "HOL-Library.Word"
begin

text \<open>
  IPv4 addresses and prefixes as Go's package net has them, as far as nyxd uses them: an address
  is a uint32 in host order, i.e. a \<^typ>\<open>32 word\<close>. Text forms of IPv6 addresses, those of
  IPv4-mapped ones included, are not addresses here.
\<close>

unbundle bit_operations_syntax

type_synonym ip4 = "32 word"

section \<open>Text form of an address\<close>

definition parse_octet :: "string \<Rightarrow> nat option" where
  "parse_octet s =
     (if all_digits s \<and> (hd s \<noteq> CHR ''0'' \<or> length s = 1) \<and> digits_val s \<le> 255
      then Some (digits_val s) else None)"

definition of_octets :: "nat \<Rightarrow> nat \<Rightarrow> nat \<Rightarrow> nat \<Rightarrow> ip4" where
  "of_octets a b c d = word_of_nat (((a * 256 + b) * 256 + c) * 256 + d)"

definition parse_ip4 :: "string \<Rightarrow> ip4 option" where
  "parse_ip4 s =
     (case map parse_octet (split_on (CHR ''.'') s) of
        [Some a, Some b, Some c, Some d] \<Rightarrow> Some (of_octets a b c d)
      | _ \<Rightarrow> None)"

definition octet :: "nat \<Rightarrow> ip4 \<Rightarrow> nat" where
  "octet i w = unat w div 256 ^ i mod 256"

definition ip4_string :: "ip4 \<Rightarrow> string" where
  "ip4_string w = join_with ''.'' (map (\<lambda>i. itoa_nat (octet i w)) [3, 2, 1, 0])"

text \<open>The same on int, for evaluation.\<close>

lemma of_octets_code [code]:
  "of_octets a b c d = word_of_int (((int a * 256 + int b) * 256 + int c) * 256 + int d)"
  by (simp add: of_octets_def)

lemma unat_digit: "unat w div b ^ i mod b = nat (uint w div int b ^ i mod int b)"
proof -
  have "int (unat w div b ^ i mod b) = uint w div int b ^ i mod int b" by (simp add: of_nat_mod of_nat_div)
  then show ?thesis by (metis nat_int)
qed

lemma octet_code [code]: "octet i w = nat (uint w div 256 ^ i mod 256)"
  using unat_digit [of w 256 i] by (simp add: octet_def)

section \<open>Prefixes\<close>

record cidr =
  cidr_base :: ip4
  cidr_ones :: nat

definition mask_of :: "nat \<Rightarrow> ip4" where
  "mask_of ones = push_bit (32 - ones) (-1)"

text \<open>ParseCIDR: the address before the first slash, the prefix length after it; the network is the
  masked address.\<close>

definition parse_cidr :: "string \<Rightarrow> (ip4 \<times> cidr) option" where
  "parse_cidr s =
     (case cut_str s ''/'' of (a, m, ok) \<Rightarrow>
        if \<not> ok then None
        else case parse_ip4 a of
               None \<Rightarrow> None
             | Some w \<Rightarrow> if all_digits m \<and> digits_val m \<le> 32
                         then Some (w, \<lparr>cidr_base = w AND mask_of (digits_val m), cidr_ones = digits_val m\<rparr>)
                         else None)"

definition cidr_contains :: "cidr \<Rightarrow> ip4 \<Rightarrow> bool" where
  "cidr_contains n w \<longleftrightarrow> w AND mask_of (cidr_ones n) = cidr_base n"

section \<open>Round trip\<close>

lemma octet_bound: "octet i w \<le> 255"
  using mod_less_divisor [of 256 "unat w div 256 ^ i"] by (simp add: octet_def del: mod_less_divisor)

lemma itoa_nat_head: "itoa_nat n = [CHR ''0''] \<or> hd (itoa_nat n) \<noteq> CHR ''0''"
proof (induction n rule: itoa_nat.induct)
  case (1 n)
  show ?case
  proof (cases "n < 10")
    case True
    have "n = 0 \<or> char_of (48 + n) \<noteq> CHR ''0''"
    proof (rule disjCI)
      assume "\<not> char_of (48 + n) \<noteq> CHR ''0''"
      then have "of_char (char_of (48 + n) :: char) = (of_char (CHR ''0'') :: nat)" by simp
      with True show "n = 0" by simp
    qed
    with True show ?thesis by (auto simp: itoa_nat.simps [of n])
  next
    case False
    have "itoa_nat (n div 10) \<noteq> []" using itoa_nat_digits [of "n div 10"] by (simp add: all_digits_def)
    moreover have "itoa_nat (n div 10) \<noteq> [CHR ''0'']"
    proof
      assume "itoa_nat (n div 10) = [CHR ''0'']"
      then have "digits_val (itoa_nat (n div 10)) = 0" by (simp add: digits_val_def digit_val_def)
      with False show False by (simp add: digits_val_itoa_nat)
    qed
    ultimately show ?thesis using 1 False by (simp add: itoa_nat.simps [of n])
  qed
qed

lemma parse_octet_itoa: "n \<le> 255 \<Longrightarrow> parse_octet (itoa_nat n) = Some n"
  using itoa_nat_head [of n] by (auto simp: parse_octet_def itoa_nat_digits digits_val_itoa_nat)

lemma of_octets_octet: "of_octets (octet 3 w) (octet 2 w) (octet 1 w) (octet 0 w) = w"
proof -
  have "unat w < 256 * 16777216" using unsigned_less [of w] by simp
  then have 3: "octet 3 w = unat w div 256 div 256 div 256"
    by (simp add: octet_def less_mult_imp_div_less div_mult2_eq [symmetric])
  have 2: "octet 2 w = unat w div 256 div 256 mod 256" "octet 1 w = unat w div 256 mod 256" "octet 0 w = unat w mod 256"
    by (simp_all add: octet_def div_mult2_eq [symmetric])
  have "((octet 3 w * 256 + octet 2 w) * 256 + octet 1 w) * 256 + octet 0 w = unat w"
    unfolding 2 3 by (simp only: div_mult_mod_eq)
  then show ?thesis by (simp add: of_octets_def)
qed

lemma parse_ip4_string: "parse_ip4 (ip4_string w) = Some w"
proof -
  have "CHR ''.'' \<notin> set (itoa_nat n)" for n
    using itoa_nat_digits [of n] by (auto simp: all_digits_def list_all_iff is_digit_def Let_def)
  then have "split_on (CHR ''.'') (ip4_string w) = map (\<lambda>i. itoa_nat (octet i w)) [3, 2, 1, 0]"
    unfolding ip4_string_def by (intro split_join) simp_all
  then show ?thesis
    using of_octets_octet [of w] by (simp add: parse_ip4_def parse_octet_itoa octet_bound)
qed

section \<open>Masks\<close>

lemma and_mask: "(w :: ip4) AND mask_of ones = push_bit (32 - ones) (drop_bit (32 - ones) w)"
  by (rule bit_word_eqI) (auto simp: mask_of_def bit_simps)

lemma unat_and_mask: "unat (w AND mask_of ones) = unat w div 2 ^ (32 - ones) * 2 ^ (32 - ones)"
proof -
  have "unat w div 2 ^ (32 - ones) * 2 ^ (32 - ones) < 2 ^ 32"
  proof (rule order.strict_trans1 [OF div_times_less_eq_dividend])
    show "unat w < 2 ^ 32" using unsigned_less [of w, where 'a = nat] by simp
  qed
  moreover have "unat (w AND mask_of ones) = take_bit 32 (push_bit (32 - ones) (drop_bit (32 - ones) (unat w)))"
    using unsigned_take_bit_eq [of 32 w, where 'a = nat]
    unfolding and_mask by (simp add: unsigned_push_bit_eq unsigned_drop_bit_eq take_bit_word_eq_self)
  ultimately show ?thesis
    by (simp add: take_bit_nat_eq_self push_bit_nat_def drop_bit_nat_def)
qed

lemma not_mask: "NOT (mask_of ones) = (mask (32 - ones) :: ip4)"
  by (rule bit_word_eqI) (auto simp: mask_of_def bit_simps)

lemma broadcast_plus:
  assumes "w AND mask_of ones = w"
  shows "w OR NOT (mask_of ones) = w + mask (32 - ones)"
proof -
  have "w AND mask (32 - ones) = 0"
  proof (rule bit_word_eqI)
    fix n assume "n < LENGTH(32)"
    moreover have "bit w n = bit (w AND mask_of ones) n" by (simp add: assms)
    ultimately show "bit (w AND mask (32 - ones)) n = bit (0 :: ip4) n"
      by (auto simp: mask_of_def bit_simps)
  qed
  then show ?thesis by (simp add: not_mask disjunctive_add_eq_or)
qed

end
