(* ===== verification/Netlink.thy ===== *)
theory Netlink
  imports Go_Net
begin

text \<open>
  The netlink messages of the native network driver (src/internal/network/native/bridge.go): the
  encoder of requests and attributes, and the parser of replies. Bytes are \<^typ>\<open>8 word\<close>; numbers are in
  the byte order of the machine, which is little-endian on the platforms nyxd is built for.
\<close>

type_synonym byte = "8 word"

section \<open>Numbers\<close>

definition le16 :: "16 word \<Rightarrow> byte list" where
  "le16 w = [ucast w, ucast (drop_bit 8 w)]"

definition le32 :: "32 word \<Rightarrow> byte list" where
  "le32 w = [ucast w, ucast (drop_bit 8 w), ucast (drop_bit 16 w), ucast (drop_bit 24 w)]"

text \<open>Reading at an offset of a buffer; the code checks the length first.\<close>

definition get16 :: "byte list \<Rightarrow> nat \<Rightarrow> 16 word" where
  "get16 b i = ucast (b ! i) OR push_bit 8 (ucast (b ! (i + 1)))"

definition get32 :: "byte list \<Rightarrow> nat \<Rightarrow> 32 word" where
  "get32 b i = ucast (b ! i) OR push_bit 8 (ucast (b ! (i + 1))) OR push_bit 16 (ucast (b ! (i + 2))) OR
     push_bit 24 (ucast (b ! (i + 3)))"

section \<open>Requests\<close>

record nlMsg =
  nl_buf :: "byte list"
  nl_seq :: "32 word"

record nestedAttr =
  na_typ :: int
  na_buf :: "byte list"

definition pad4 :: "byte list \<Rightarrow> byte list" where
  "pad4 b = b @ replicate ((4 - length b mod 4) mod 4) 0"

text \<open>newNetlinkMsg: the counter of sequence numbers is shared; the header has the fields Len (0 for now),
  Type, Flags, Seq and Pid.\<close>

definition newNetlinkMsg :: "16 word \<Rightarrow> 16 word \<Rightarrow> 32 word \<Rightarrow> nlMsg \<times> 32 word" where
  "newNetlinkMsg typ flags nlSeq =
     (let seq = nlSeq + 1 in (\<lparr>nl_buf = le32 0 @ le16 typ @ le16 flags @ le32 seq @ le32 0, nl_seq = seq\<rparr>, seq))"

definition addBytes :: "byte list \<Rightarrow> nlMsg \<Rightarrow> nlMsg" where
  "addBytes b m = m\<lparr>nl_buf := pad4 (nl_buf m @ b)\<rparr>"

definition addAttr :: "int \<Rightarrow> byte list \<Rightarrow> nlMsg \<Rightarrow> nlMsg" where
  "addAttr typ data m =
     m\<lparr>nl_buf := pad4 (nl_buf m @ le16 (word_of_nat (4 + length data)) @ le16 (word_of_int typ) @ data)\<rparr>"

definition bytes_of :: "string \<Rightarrow> byte list" where
  "bytes_of s = map (\<lambda>c. word_of_nat (of_char c)) s"

definition addAttrString :: "int \<Rightarrow> string \<Rightarrow> nlMsg \<Rightarrow> nlMsg" where
  "addAttrString typ s m = addAttr typ (bytes_of s @ [0]) m"

definition addAttrUint32 :: "int \<Rightarrow> 32 word \<Rightarrow> nlMsg \<Rightarrow> nlMsg" where
  "addAttrUint32 typ v m = addAttr typ (le32 v) m"

definition emptyMsg :: nlMsg where "emptyMsg = \<lparr>nl_buf = [], nl_seq = 0\<rparr>"

definition newNestedAttr :: "int \<Rightarrow> nestedAttr" where
  "newNestedAttr typ = \<lparr>na_typ = typ, na_buf = []\<rparr>"

definition n_addAttrString :: "int \<Rightarrow> string \<Rightarrow> nestedAttr \<Rightarrow> nestedAttr" where
  "n_addAttrString typ s n = n\<lparr>na_buf := na_buf n @ nl_buf (addAttrString typ s emptyMsg)\<rparr>"

definition n_addAttrUint32 :: "int \<Rightarrow> 32 word \<Rightarrow> nestedAttr \<Rightarrow> nestedAttr" where
  "n_addAttrUint32 typ v n = n\<lparr>na_buf := na_buf n @ nl_buf (addAttrUint32 typ v emptyMsg)\<rparr>"

definition n_addBytes :: "byte list \<Rightarrow> nestedAttr \<Rightarrow> nestedAttr" where
  "n_addBytes b n = n\<lparr>na_buf := pad4 (na_buf n @ b)\<rparr>"

definition NLA_F_NESTED :: "16 word" where "NLA_F_NESTED = 0x8000"

definition serialize :: "nestedAttr \<Rightarrow> byte list" where
  "serialize n =
     pad4 (le16 (word_of_nat (4 + length (na_buf n))) @ le16 (word_of_int (na_typ n) OR NLA_F_NESTED) @ na_buf n)"

definition n_addNested :: "nestedAttr \<Rightarrow> nestedAttr \<Rightarrow> nestedAttr" where
  "n_addNested child n = n\<lparr>na_buf := na_buf n @ serialize child\<rparr>"

definition addNested :: "nestedAttr \<Rightarrow> nlMsg \<Rightarrow> nlMsg" where
  "addNested n m = m\<lparr>nl_buf := nl_buf m @ serialize n\<rparr>"

text \<open>netlinkDo writes the total length over the first field before it sends the buffer.\<close>

definition nl_finish :: "nlMsg \<Rightarrow> byte list" where
  "nl_finish m = le32 (word_of_nat (length (nl_buf m))) @ drop 4 (nl_buf m)"

section \<open>The messages of the driver\<close>

definition RTM_NEWLINK :: "16 word" where "RTM_NEWLINK = 16"
definition RTM_DELLINK :: "16 word" where "RTM_DELLINK = 17"
definition RTM_SETLINK :: "16 word" where "RTM_SETLINK = 19"
definition RTM_NEWADDR :: "16 word" where "RTM_NEWADDR = 20"
definition RTM_NEWROUTE :: "16 word" where "RTM_NEWROUTE = 24"

text \<open>NLM_F_REQUEST is 1, NLM_F_ACK 4, NLM_F_REPLACE 0x100, NLM_F_EXCL 0x200, NLM_F_CREATE 0x400.\<close>

definition flags_ack :: "16 word" where "flags_ack = 0x0005"
definition flags_create :: "16 word" where "flags_create = 0x0605"
definition flags_replace :: "16 word" where "flags_replace = 0x0505"

text \<open>struct ifinfomsg: family, padding, type, index, flags, change.\<close>

definition ifinfomsg :: "32 word \<Rightarrow> 32 word \<Rightarrow> 32 word \<Rightarrow> byte list" where
  "ifinfomsg index flags change = [0, 0] @ le16 0 @ le32 index @ le32 flags @ le32 change"

definition bridge_request :: "string \<Rightarrow> 32 word \<Rightarrow> nlMsg \<times> 32 word" where
  "bridge_request bridge nlSeq =
     (case newNetlinkMsg RTM_NEWLINK flags_create nlSeq of (m, seq) \<Rightarrow>
        (addNested (n_addAttrString 1 ''bridge'' (newNestedAttr 18))
          (addAttrUint32 4 1500 (addAttrString 3 bridge (addBytes (ifinfomsg 0 0 0) m))), seq))"

definition veth_request :: "string \<Rightarrow> string \<Rightarrow> 32 word \<Rightarrow> nlMsg \<times> 32 word" where
  "veth_request host peer nlSeq =
     (case newNetlinkMsg RTM_NEWLINK flags_create nlSeq of (m, seq) \<Rightarrow>
        (let peerInfo = n_addAttrUint32 4 1500 (n_addAttrString 3 peer (n_addBytes (ifinfomsg 0 0 0) (newNestedAttr 1)));
             infoData = n_addNested peerInfo (newNestedAttr 2);
             linkinfo = n_addNested infoData (n_addAttrString 1 ''veth'' (newNestedAttr 18))
         in (addNested linkinfo (addAttrUint32 4 1500 (addAttrString 3 host (addBytes (ifinfomsg 0 0 0) m))), seq)))"

definition master_request :: "32 word \<Rightarrow> 32 word \<Rightarrow> 32 word \<Rightarrow> nlMsg \<times> 32 word" where
  "master_request veth bridge nlSeq =
     (case newNetlinkMsg RTM_SETLINK flags_ack nlSeq of (m, seq) \<Rightarrow>
        (addAttrUint32 10 bridge (addBytes (ifinfomsg veth 0 0) m), seq))"

definition move_request :: "32 word \<Rightarrow> 32 word \<Rightarrow> 32 word \<Rightarrow> nlMsg \<times> 32 word" where
  "move_request peer nsFd nlSeq =
     (case newNetlinkMsg RTM_NEWLINK flags_ack nlSeq of (m, seq) \<Rightarrow>
        (addAttrString 3 ''eth0'' (addAttrUint32 28 nsFd (addBytes (ifinfomsg peer 0 0) m)), seq))"

definition up_request :: "32 word \<Rightarrow> 32 word \<Rightarrow> nlMsg \<times> 32 word" where
  "up_request index nlSeq =
     (case newNetlinkMsg RTM_NEWLINK flags_ack nlSeq of (m, seq) \<Rightarrow> (addBytes (ifinfomsg index 1 1) m, seq))"

definition delete_request :: "32 word \<Rightarrow> 32 word \<Rightarrow> nlMsg \<times> 32 word" where
  "delete_request index nlSeq =
     (case newNetlinkMsg RTM_DELLINK flags_ack nlSeq of (m, seq) \<Rightarrow> (addBytes (ifinfomsg index 0 0) m, seq))"

text \<open>An address goes out in network order.\<close>

definition ip_bytes :: "ip4 \<Rightarrow> byte list" where
  "ip_bytes w = [ucast (drop_bit 24 w), ucast (drop_bit 16 w), ucast (drop_bit 8 w), ucast w]"

definition addr_request :: "32 word \<Rightarrow> ip4 \<Rightarrow> cidr \<Rightarrow> 32 word \<Rightarrow> nlMsg \<times> 32 word" where
  "addr_request index ip subnet nlSeq =
     (case newNetlinkMsg RTM_NEWADDR flags_replace nlSeq of (m, seq) \<Rightarrow>
        (addAttr 1 (ip_bytes ip) (addAttr 2 (ip_bytes ip)
          (addBytes ([2, word_of_nat (cidr_ones subnet), 0, 0] @ le32 index) m)), seq))"

definition route_request :: "ip4 \<Rightarrow> 32 word \<Rightarrow> nlMsg \<times> 32 word" where
  "route_request gw nlSeq =
     (case newNetlinkMsg RTM_NEWROUTE flags_replace nlSeq of (m, seq) \<Rightarrow>
        (addAttr 5 (ip_bytes gw) (addBytes ([2, 0, 0, 0, 254, 3, 0, 1] @ le32 0) m), seq))"

section \<open>Replies\<close>

record nlHeader =
  nh_len :: "32 word"
  nh_type :: "16 word"
  nh_flags :: "16 word"
  nh_seq :: "32 word"
  nh_pid :: "32 word"

definition header_at :: "byte list \<Rightarrow> nat \<Rightarrow> nlHeader" where
  "header_at b off =
     \<lparr>nh_len = get32 b off, nh_type = get16 b (off + 4), nh_flags = get16 b (off + 6), nh_seq = get32 b (off + 8),
      nh_pid = get32 b (off + 12)\<rparr>"

definition nlmsgAlign :: "nat \<Rightarrow> nat" where
  "nlmsgAlign l = (l + 3) div 4 * 4"

datatype nl_error = InvalidLength nat | ShortAck | Errno int

function parse_from :: "byte list \<Rightarrow> nat \<Rightarrow> (nlHeader \<times> byte list) list \<Rightarrow> nl_error + (nlHeader \<times> byte list) list" where
  "parse_from b off out =
     (if off + 16 \<le> length b then
        (let hdr = header_at b off; msgLen = unat (nh_len hdr)
         in if msgLen < 16 \<or> length b < off + msgLen then Inl (InvalidLength msgLen)
            else parse_from b (off + nlmsgAlign msgLen) (out @ [(hdr, take (msgLen - 16) (drop (off + 16) b))]))
      else Inr out)"
  by auto
termination
  by (relation "measure (\<lambda>(b, off, out). length b - off)") (auto simp: nlmsgAlign_def Let_def)

declare parse_from.simps [simp del]

definition parseNetlinkMessages :: "byte list \<Rightarrow> nl_error + (nlHeader \<times> byte list) list" where
  "parseNetlinkMessages b = parse_from b 0 []"

definition NLMSG_ERROR :: "16 word" where "NLMSG_ERROR = 2"
definition NLMSG_DONE :: "16 word" where "NLMSG_DONE = 3"

text \<open>netlinkReply: \<open>None\<close> when the datagram settles nothing.\<close>

fun reply_of :: "(nlHeader \<times> byte list) list \<Rightarrow> nl_error option option" where
  "reply_of [] = None"
| "reply_of ((hdr, data) # msgs) =
     (if nh_type hdr = NLMSG_ERROR then
        (if length data < 4 then Some (Some ShortAck)
         else let errno = sint (get32 data 0)
              in if errno = 0 then Some None else Some (Some (Errno (- errno))))
      else if nh_type hdr = NLMSG_DONE then Some None
      else reply_of msgs)"

definition netlinkReply :: "byte list \<Rightarrow> nl_error option option" where
  "netlinkReply b =
     (case parseNetlinkMessages b of Inl e \<Rightarrow> Some (Some e) | Inr msgs \<Rightarrow> reply_of msgs)"

section \<open>Encoder and parser agree\<close>

lemma get32_le32 [simp]: "get32 (le32 w @ b) 0 = w"
proof (rule bit_word_eqI)
  fix n assume "n < LENGTH(32)"
  then have "n < 8 \<or> 8 \<le> n \<and> n < 16 \<or> 16 \<le> n \<and> n < 24 \<or> 24 \<le> n \<and> n < 32" by (simp, presburger)
  then show "bit (get32 (le32 w @ b) 0) n = bit w n"
    by (elim disjE) (auto simp: get32_def le32_def bit_simps)
qed

lemma length_le [simp]: "length (le16 v) = 2" "length (le32 w) = 4"
  by (simp_all add: le16_def le32_def)

lemma length_pad4: "length (pad4 b) mod 4 = 0"
proof -
  let ?n = "length b"
  have "?n mod 4 = 0 \<or> ?n mod 4 = 1 \<or> ?n mod 4 = 2 \<or> ?n mod 4 = 3" by presburger
  then have "(?n mod 4 + (4 - ?n mod 4) mod 4) mod 4 = 0" by (elim disjE) simp_all
  then show ?thesis by (simp add: pad4_def mod_add_left_eq)
qed

text \<open>A message the encoder can send: a header, whole words, a length that fits its field.\<close>

definition wf_msg :: "nlMsg \<Rightarrow> bool" where
  "wf_msg m \<longleftrightarrow> 16 \<le> length (nl_buf m) \<and> length (nl_buf m) mod 4 = 0 \<and> length (nl_buf m) < 2 ^ 32"

lemma length_finish [simp]: "wf_msg m \<Longrightarrow> length (nl_finish m) = length (nl_buf m)"
  by (simp add: nl_finish_def wf_msg_def)

lemma finish_len:
  assumes "wf_msg m"
  shows "unat (nh_len (header_at (nl_finish m @ b) 0)) = length (nl_buf m)"
  using assms by (simp add: header_at_def nl_finish_def wf_msg_def unsigned_of_nat take_bit_nat_eq_self)

lemma get_shift: "get32 (a @ b) (length a + i) = get32 b i" "get16 (a @ b) (length a + i) = get16 b i"
  by (simp_all add: get32_def get16_def nth_append)

lemma header_shift: "header_at (a @ b) (length a) = header_at b 0"
  using get_shift [of a b 0] get_shift [of a b] by (simp add: header_at_def)

lemma header_prefix:
  assumes "16 \<le> length a"
  shows "header_at (a @ b) 0 = header_at a 0"
proof -
  have "(a @ b) ! i = a ! i" if "i < 16" for i using assms that by (simp add: nth_append)
  then show ?thesis by (simp add: header_at_def get32_def get16_def)
qed

lemma drop_finish: "wf_msg m \<Longrightarrow> drop 16 (nl_finish m) = drop 16 (nl_buf m)"
  by (simp add: nl_finish_def wf_msg_def)

definition received :: "nlMsg \<Rightarrow> nlHeader \<times> byte list" where
  "received m = (header_at (nl_finish m) 0, drop 16 (nl_buf m))"

lemma parse_finished:
  assumes "list_all wf_msg ms"
  shows "parse_from (a @ concat (map nl_finish ms)) (length a) out = Inr (out @ map received ms)"
  using assms
proof (induction ms arbitrary: a out)
  case Nil
  then show ?case by (simp add: parse_from.simps)
next
  case (Cons m ms)
  let ?rest = "concat (map nl_finish ms)"
  let ?b = "a @ nl_finish m @ ?rest"
  have wf: "wf_msg m" and len: "length (nl_finish m) = length (nl_buf m)" using Cons.prems by simp_all
  then have big: "16 \<le> length (nl_buf m)" by (simp add: wf_msg_def)
  have hdr: "header_at ?b (length a) = header_at (nl_finish m) 0"
    using big len by (simp add: header_shift header_prefix)
  have hlen: "unat (nh_len (header_at (nl_finish m) 0)) = length (nl_buf m)"
    using finish_len [OF wf, of "[]"] by simp
  have align: "nlmsgAlign (length (nl_buf m)) = length (nl_buf m)"
    using wf by (auto simp: nlmsgAlign_def wf_msg_def elim!: dvdE simp: mod_eq_0_iff_dvd)
  have data: "take (length (nl_buf m) - 16) (drop (length a + 16) ?b) = drop 16 (nl_buf m)"
    using big len drop_finish [OF wf] by simp
  have "parse_from ?b (length a) out = parse_from ?b (length a + length (nl_buf m)) (out @ [received m])"
    using big len by (subst parse_from.simps) (simp add: Let_def hdr hlen align drop_finish [OF wf] received_def)
  also have "\<dots> = Inr ((out @ [received m]) @ map received ms)"
    using Cons.IH [of "a @ nl_finish m" "out @ [received m]"] Cons.prems len by simp
  finally show ?case by simp
qed

lemma request_aligned:
  assumes "length (nl_buf m) mod 4 = 0"
  shows "length (nl_buf (addBytes b m)) mod 4 = 0" "length (nl_buf (addAttr t d m)) mod 4 = 0"
    "length (nl_buf (addNested n m)) mod 4 = 0"
  using assms length_pad4 [of "le16 _ @ _"]
  by (simp_all add: addBytes_def addAttr_def addNested_def serialize_def length_pad4 mod_add_eq [symmetric])

section \<open>Properties\<close>



end
