(* ===== verification/Oci_Types.thy ===== *)
theory Oci_Types
  imports Nyx_Prelude
begin

text \<open>
  The image-spec types of src/pkg/oci/types.go and the runtime-spec types of
  src/internal/bundle/bundle.go: one record per struct, with the fields in the order of the
  code. Timestamps, annotations and the URLs of a descriptor, which no modelled function
  reads, are left out. Integers are int; where the code can overflow an int64, the wrap-around
  is written with \<open>wrap64\<close>.
\<close>

definition wrap64 :: "int \<Rightarrow> int" where
  "wrap64 i = (i + 2 ^ 63) mod 2 ^ 64 - 2 ^ 63"

lemma wrap64_id: "- (2 ^ 63) \<le> i \<Longrightarrow> i < 2 ^ 63 \<Longrightarrow> wrap64 i = i"
  by (simp add: wrap64_def)

lemma wrap64_range: "- (2 ^ 63) \<le> wrap64 i \<and> wrap64 i < 2 ^ 63"
  by (simp add: wrap64_def)

section \<open>Images\<close>

record descriptor =
  d_mediaType :: string
  d_digest :: string
  d_size :: int

record health_config_image =
  hci_test :: "string list"
  hci_interval :: int
  hci_timeout :: int
  hci_startPeriod :: int
  hci_retries :: int

record container_config =
  cc_user :: string
  cc_env :: "string list"
  cc_cmd :: "string list"
  cc_entrypoint :: "string list"
  cc_workingDir :: string
  cc_labels :: "(string, string) gomap"
  cc_exposedPorts :: "string list"
  cc_stopSignal :: string
  cc_volumes :: "string list"
  cc_healthcheck :: "health_config_image option"
  cc_shell :: "string list"
  cc_onBuild :: "string list"

record history_entry =
  he_createdBy :: string
  he_emptyLayer :: bool

record image_config =
  ic_architecture :: string
  ic_os :: string
  ic_config :: container_config
  ic_diffIDs :: "string list"
  ic_history :: "history_entry list"

definition empty_container_config :: container_config where
  "empty_container_config =
     \<lparr>cc_user = [], cc_env = [], cc_cmd = [], cc_entrypoint = [], cc_workingDir = [], cc_labels = [],
      cc_exposedPorts = [], cc_stopSignal = [], cc_volumes = [], cc_healthcheck = None, cc_shell = [],
      cc_onBuild = []\<rparr>"

definition empty_image_config :: image_config where
  "empty_image_config =
     \<lparr>ic_architecture = [], ic_os = [], ic_config = empty_container_config, ic_diffIDs = [], ic_history = []\<rparr>"

section \<open>Runtime specification\<close>

record user =
  u_uid :: int
  u_gid :: int
  u_additionalGids :: "int list"

record mount =
  m_destination :: string
  m_type :: string
  m_source :: string
  m_options :: "string list"

record caps =
  c_bounding :: "string list"
  c_effective :: "string list"
  c_inheritable :: "string list"
  c_permitted :: "string list"
  c_ambient :: "string list"

record id_mapping =
  im_containerID :: int
  im_hostID :: int
  im_size :: int

record namespace =
  ns_type :: string
  ns_path :: string

record memory_res =
  mem_limit :: int
  mem_swap :: int
  mem_reservation :: int
  mem_oomKillDisable :: "bool option"
  mem_oomScoreAdj :: "int option"

record cpu_res =
  cpu_shares :: int
  cpu_quota :: int
  cpu_period :: int
  cpu_cpus :: string
  cpu_mems :: string

record resources_spec =
  res_memory :: "memory_res option"
  res_cpu :: "cpu_res option"
  res_pids :: "int option"
  res_blockIO :: "int option"

record rlimit =
  rl_type :: string
  rl_hard :: int
  rl_soft :: int

record syscall_rule =
  sr_names :: "string list"
  sr_action :: string

record seccomp =
  sc_defaultAction :: string
  sc_architectures :: "string list"
  sc_syscalls :: "syscall_rule list"

record process =
  p_terminal :: bool
  p_user :: user
  p_args :: "string list"
  p_env :: "string list"
  p_cwd :: string
  p_capabilities :: "caps option"
  p_noNewPrivileges :: bool
  p_apparmorProfile :: string
  p_rlimits :: "rlimit list"

record linux =
  l_namespaces :: "namespace list"
  l_resources :: "resources_spec option"
  l_seccomp :: "seccomp option"
  l_rootfsPropagation :: string
  l_maskedPaths :: "string list"
  l_readonlyPaths :: "string list"
  l_uidMappings :: "id_mapping list"
  l_gidMappings :: "id_mapping list"

record oci_spec =
  s_ociVersion :: string
  s_process :: process
  s_root_path :: string
  s_root_readonly :: bool
  s_mounts :: "mount list"
  s_linux :: linux
  s_hostname :: string

record options =
  o_containerID :: string
  o_rootFS :: string
  o_netNS :: string
  o_imageConfig :: "image_config option"
  o_env :: "string list"
  o_args :: "string list"
  o_workDir :: string
  o_user :: "user option"
  o_resources :: "resources_spec option"
  o_readOnly :: bool
  o_hostname :: string
  o_resolvConfPath :: string
  o_extraMounts :: "mount list"
  o_seccompProfile :: string
  o_apparmorProfile :: string
  o_capAdd :: "string list"
  o_capDrop :: "string list"
  o_privileged :: bool
  o_noNewPrivileges :: "bool option"
  o_rlimits :: "rlimit list"
  o_hostNetwork :: bool
  o_rootless :: bool
  o_uidMappings :: "id_mapping list"
  o_gidMappings :: "id_mapping list"
  o_terminal :: bool

end
