(* ===== verification/Bundle.thy ===== *)
theory Bundle
  imports Oci_Types Go_Path "HOL-Library.AList"
begin

text \<open>
  Generation of the OCI runtime bundle (src/internal/bundle): capability sets (caps.go), the
  seccomp profile (seccomp.go) and buildSpec with its mounts, environment and resource limits
  (bundle.go). Reading and decoding a seccomp file is a parameter. The order in which Go visits
  the environment map is that of the association list, so the theorems on the environment speak
  of its contents only.
\<close>

section \<open>Capabilities\<close>

definition allCapabilityNames :: "string list" where
  "allCapabilityNames =
    [''CAP_CHOWN'', ''CAP_DAC_OVERRIDE'', ''CAP_DAC_READ_SEARCH'', ''CAP_FOWNER'', ''CAP_FSETID'',
     ''CAP_KILL'', ''CAP_SETGID'', ''CAP_SETUID'', ''CAP_SETPCAP'', ''CAP_LINUX_IMMUTABLE'',
     ''CAP_NET_BIND_SERVICE'', ''CAP_NET_BROADCAST'', ''CAP_NET_ADMIN'', ''CAP_NET_RAW'',
     ''CAP_IPC_LOCK'', ''CAP_IPC_OWNER'', ''CAP_SYS_MODULE'', ''CAP_SYS_RAWIO'', ''CAP_SYS_CHROOT'',
     ''CAP_SYS_PTRACE'', ''CAP_SYS_PACCT'', ''CAP_SYS_ADMIN'', ''CAP_SYS_BOOT'', ''CAP_SYS_NICE'',
     ''CAP_SYS_RESOURCE'', ''CAP_SYS_TIME'', ''CAP_SYS_TTY_CONFIG'', ''CAP_MKNOD'', ''CAP_LEASE'',
     ''CAP_AUDIT_WRITE'', ''CAP_AUDIT_CONTROL'', ''CAP_SETFCAP'', ''CAP_MAC_OVERRIDE'', ''CAP_MAC_ADMIN'',
     ''CAP_SYSLOG'', ''CAP_WAKE_ALARM'', ''CAP_BLOCK_SUSPEND'', ''CAP_AUDIT_READ'', ''CAP_PERFMON'',
     ''CAP_BPF'', ''CAP_CHECKPOINT_RESTORE'']"

definition allCaps :: caps where
  "allCaps = (let names = sort_strings allCapabilityNames
     in \<lparr>c_bounding = names, c_effective = names, c_inheritable = names, c_permitted = names, c_ambient = names\<rparr>)"

definition normalizeCap :: "string \<Rightarrow> string" where
  "normalizeCap s = (let t = trim_space s; u = to_upper t
     in if t = [] then [] else if u = ''ALL'' then ''ALL''
        else if has_prefix u ''CAP_'' then u else ''CAP_'' @ u)"

text \<open>The sets dropSet and capset of the code are maps with empty values; the names end up sorted,
  so only membership counts.\<close>

definition drop_set :: "string list \<Rightarrow> string list" where
  "drop_set capDrop = filter (\<lambda>n. n \<noteq> ''ALL'' \<and> n \<noteq> []) (map normalizeCap capDrop)"

definition cap_set :: "string list \<Rightarrow> string list \<Rightarrow> string list \<Rightarrow> string list" where
  "cap_set baseline capAdd capDrop =
     (if ''ALL'' \<in> set (map normalizeCap capDrop) then [] else baseline) @
     filter (\<lambda>n. n \<noteq> [] \<and> n \<noteq> ''ALL'') (map normalizeCap capAdd)"

definition mergeCapabilities :: "string list \<Rightarrow> string list \<Rightarrow> string list \<Rightarrow> caps" where
  "mergeCapabilities baseline capAdd capDrop =
     (let out = sort_strings (remdups (filter (\<lambda>c. c \<notin> set (drop_set capDrop)) (cap_set baseline capAdd capDrop)))
      in \<lparr>c_bounding = out, c_effective = out, c_inheritable = [], c_permitted = out, c_ambient = []\<rparr>)"

definition minimalCapNames :: "string list" where
  "minimalCapNames =
    [''CAP_CHOWN'', ''CAP_DAC_OVERRIDE'', ''CAP_FSETID'', ''CAP_FOWNER'',
     ''CAP_SETGID'', ''CAP_SETUID'', ''CAP_SETFCAP'', ''CAP_SETPCAP'',
     ''CAP_NET_BIND_SERVICE'', ''CAP_NET_RAW'', ''CAP_KILL'', ''CAP_AUDIT_WRITE'']"

section \<open>Seccomp\<close>

definition seccompArchitectures :: "string \<Rightarrow> string list" where
  "seccompArchitectures goarch =
     (if goarch = ''amd64'' then [''SCMP_ARCH_X86_64'', ''SCMP_ARCH_X86'', ''SCMP_ARCH_X32'']
      else if goarch = ''arm64'' then [''SCMP_ARCH_AARCH64'', ''SCMP_ARCH_ARM'']
      else if goarch = ''arm'' then [''SCMP_ARCH_ARM'']
      else if goarch = ''386'' then [''SCMP_ARCH_X86'']
      else if goarch = ''riscv64'' then [''SCMP_ARCH_RISCV64'']
      else [])"

definition defaultSeccompProfile :: "string \<Rightarrow> seccomp" where
  "defaultSeccompProfile goarch =
     \<lparr>sc_defaultAction = ''SCMP_ACT_ALLOW'', sc_architectures = seccompArchitectures goarch,
      sc_syscalls = [\<lparr>sr_names =
        [''add_key'', ''bpf'', ''delete_module'', ''finit_module'', ''init_module'',
         ''io_uring_setup'', ''keyctl'', ''kexec_file_load'', ''kexec_load'',
         ''open_by_handle_at'', ''perf_event_open'', ''personality'', ''ptrace'',
         ''request_key'', ''userfaultfd''], sr_action = ''SCMP_ACT_ERRNO''\<rparr>]\<rparr>"

datatype bundle_error =
    MkdirError string | SeccompRead string | SeccompParse string | SeccompNoAction string
  | MarshalError string | WriteError string

text \<open>\<open>rd\<close> is os.ReadFile, \<open>dec\<close> is json.Unmarshal into a Seccomp.\<close>

definition loadSeccompProfile ::
  "(string \<Rightarrow> string + string) \<Rightarrow> (string \<Rightarrow> string + seccomp) \<Rightarrow> string \<Rightarrow> bundle_error + seccomp" where
  "loadSeccompProfile rd dec path =
     (case rd path of
        Inl e \<Rightarrow> Inl (SeccompRead e)
      | Inr data \<Rightarrow> (case dec data of
            Inl e \<Rightarrow> Inl (SeccompParse e)
          | Inr sc \<Rightarrow> if sc_defaultAction sc = [] then Inl (SeccompNoAction path) else Inr sc))"

definition resolveSeccomp ::
  "string \<Rightarrow> (string \<Rightarrow> string + string) \<Rightarrow> (string \<Rightarrow> string + seccomp) \<Rightarrow> options \<Rightarrow> bundle_error + seccomp option" where
  "resolveSeccomp goarch rd dec opts =
     (if o_privileged opts then Inr None
      else let p = trim_space (o_seccompProfile opts); low = to_lower p
           in if low = [] \<or> low = ''default'' \<or> low = ''builtin'' \<or> low = ''runtime/default''
              then Inr (Some (defaultSeccompProfile goarch))
              else if low = ''unconfined'' \<or> low = ''disabled'' then Inr None
              else case loadSeccompProfile rd dec p of Inl e \<Rightarrow> Inl e | Inr sc \<Rightarrow> Inr (Some sc))"

section \<open>Mounts\<close>

definition mk_mount :: "string \<Rightarrow> string \<Rightarrow> string \<Rightarrow> string list \<Rightarrow> mount" where
  "mk_mount dst typ src opts = \<lparr>m_destination = dst, m_type = typ, m_source = src, m_options = opts\<rparr>"

definition defaultMounts :: "mount list" where
  "defaultMounts =
    [mk_mount ''/proc'' ''proc'' ''proc'' [''nosuid'', ''noexec'', ''nodev''],
     mk_mount ''/dev'' ''tmpfs'' ''tmpfs'' [''nosuid'', ''strictatime'', ''mode=755'', ''size=65536k''],
     mk_mount ''/dev/pts'' ''devpts'' ''devpts'' [''nosuid'', ''noexec'', ''newinstance'', ''ptmxmode=0666'', ''mode=0620''],
     mk_mount ''/dev/shm'' ''tmpfs'' ''shm'' [''nosuid'', ''noexec'', ''nodev'', ''mode=1777'', ''size=65536k''],
     mk_mount ''/dev/mqueue'' ''mqueue'' ''mqueue'' [''nosuid'', ''noexec'', ''nodev''],
     mk_mount ''/sys'' ''sysfs'' ''sysfs'' [''nosuid'', ''noexec'', ''nodev'', ''ro''],
     mk_mount ''/sys/fs/cgroup'' ''cgroup'' ''cgroup'' [''nosuid'', ''noexec'', ''nodev'', ''relatime'', ''ro''],
     mk_mount ''/run'' ''tmpfs'' ''tmpfs'' [''nosuid'', ''strictatime'', ''mode=755'', ''size=65536k'']]"

definition bind_sys :: "mount \<Rightarrow> mount" where
  "bind_sys m =
     (if m_destination m = ''/sys'' then
        mk_mount ''/sys'' ''bind'' ''/sys'' [''rbind'', ''nosuid'', ''noexec'', ''nodev'', ''ro'']
      else if m_destination m = ''/sys/fs/cgroup'' then m\<lparr>m_destination := []\<rparr>
      else m)"

definition resolvThenDefault :: "string \<Rightarrow> bool \<Rightarrow> mount list" where
  "resolvThenDefault resolvHost bindSys =
     (let base = (if bindSys then filter (\<lambda>m. m_destination m \<noteq> []) (map bind_sys defaultMounts)
                  else defaultMounts)
      in if trim_space resolvHost = [] then base
         else mk_mount ''/etc/resolv.conf'' ''bind'' resolvHost [''rbind'', ''ro'', ''nosuid'', ''nodev''] # base)"

definition taken :: "mount list \<Rightarrow> string list" where
  "taken extra = filter (\<lambda>d. d \<noteq> [] \<and> d \<noteq> ''.'') (map (\<lambda>m. path_clean (m_destination m)) extra)"

definition appendMounts :: "mount list \<Rightarrow> mount list \<Rightarrow> mount list" where
  "appendMounts base extra =
     (if extra = [] then base
      else filter (\<lambda>m. path_clean (m_destination m) \<notin> set (taken extra)) base @ extra)"

section \<open>buildSpec\<close>

definition maskedPaths :: "string list" where
  "maskedPaths =
    [''/proc/acpi'', ''/proc/asound'', ''/proc/kcore'', ''/proc/keys'',
     ''/proc/latency_stats'', ''/proc/timer_list'', ''/proc/timer_stats'',
     ''/proc/sched_debug'', ''/sys/firmware'', ''/proc/scsi'']"

definition readonlyPaths :: "string list" where
  "readonlyPaths = [''/proc/bus'', ''/proc/fs'', ''/proc/irq'', ''/proc/sys'', ''/proc/sysrq-trigger'']"

definition DefaultPath :: string where
  "DefaultPath = ''/usr/local/sbin:/usr/local/bin:/usr/sbin:/usr/bin:/sbin:/bin''"

definition env_put :: "(string, string) gomap \<Rightarrow> string \<Rightarrow> (string, string) gomap" where
  "env_put m e = (case cut_str e ''='' of (k, v, _) \<Rightarrow> AList.update k v m)"

definition mergeEnv :: "string list \<Rightarrow> string list \<Rightarrow> string list" where
  "mergeEnv base overrides =
     map (\<lambda>(k, v). k @ ''='' @ v) (foldl env_put (foldl env_put [] base) overrides)"

definition withSwapLimit :: "resources_spec option \<Rightarrow> resources_spec option" where
  "withSwapLimit r =
     (case r of
        None \<Rightarrow> None
      | Some rs \<Rightarrow> (case res_memory rs of
            None \<Rightarrow> r
          | Some mem \<Rightarrow>
              if mem_limit mem \<le> 0 \<or> mem_swap mem \<noteq> 0 then r
              else Some (rs\<lparr>res_memory := Some (mem\<lparr>mem_swap := wrap64 (2 * mem_limit mem)\<rparr>)\<rparr>)))"

definition spec_namespaces :: "options \<Rightarrow> namespace list" where
  "spec_namespaces opts =
     (if o_uidMappings opts \<noteq> [] then [\<lparr>ns_type = ''user'', ns_path = []\<rparr>] else []) @
     [\<lparr>ns_type = ''pid'', ns_path = []\<rparr>, \<lparr>ns_type = ''mount'', ns_path = []\<rparr>,
      \<lparr>ns_type = ''ipc'', ns_path = []\<rparr>, \<lparr>ns_type = ''uts'', ns_path = []\<rparr>] @
     (if o_hostNetwork opts then []
      else if o_netNS opts \<noteq> [] then [\<lparr>ns_type = ''network'', ns_path = o_netNS opts\<rparr>]
      else [\<lparr>ns_type = ''network'', ns_path = []\<rparr>])"

definition spec_env :: "container_config \<Rightarrow> options \<Rightarrow> string list" where
  "spec_env cfg opts =
     (let env = mergeEnv (cc_env cfg) (o_env opts)
      in if list_ex (\<lambda>e. has_prefix e ''PATH='') env then env else env @ [''PATH='' @ DefaultPath])"

definition buildSpec :: "options \<Rightarrow> seccomp option \<Rightarrow> oci_spec" where
  "buildSpec opts sec =
     (let cfg = (case o_imageConfig opts of None \<Rightarrow> empty_container_config | Some ic \<Rightarrow> ic_config ic);
          args = (if o_args opts = [] then cc_entrypoint cfg @ cc_cmd cfg else o_args opts);
          cwd0 = (if o_workDir opts = [] then cc_workingDir cfg else o_workDir opts);
          cwd = (if cwd0 = [] then ''/'' else cwd0);
          u = (case o_user opts of None \<Rightarrow> \<lparr>u_uid = 0, u_gid = 0, u_additionalGids = []\<rparr> | Some u \<Rightarrow> u);
          hostname = (if o_hostname opts = [] then o_containerID opts else o_hostname opts);
          capz = (if o_privileged opts then allCaps
                  else mergeCapabilities minimalCapNames (o_capAdd opts) (o_capDrop opts));
          noNewPriv = (if o_privileged opts then False
                       else case o_noNewPrivileges opts of None \<Rightarrow> True | Some b \<Rightarrow> b);
          rlimits = (if o_rlimits opts = [] then [\<lparr>rl_type = ''RLIMIT_NOFILE'', rl_hard = 1024, rl_soft = 1024\<rparr>]
                     else o_rlimits opts)
      in \<lparr>s_ociVersion = ''1.0.2'',
          s_process =
            \<lparr>p_terminal = o_terminal opts, p_user = u, p_args = args, p_env = spec_env cfg opts, p_cwd = cwd,
             p_capabilities = Some capz, p_noNewPrivileges = noNewPriv,
             p_apparmorProfile = trim_space (o_apparmorProfile opts), p_rlimits = rlimits\<rparr>,
          s_root_path = o_rootFS opts, s_root_readonly = o_readOnly opts,
          s_mounts = appendMounts (resolvThenDefault (o_resolvConfPath opts) (o_rootless opts \<and> o_hostNetwork opts))
                       (o_extraMounts opts),
          s_linux =
            \<lparr>l_namespaces = spec_namespaces opts, l_resources = withSwapLimit (o_resources opts),
             l_seccomp = (if o_privileged opts then None else sec), l_rootfsPropagation = ''rprivate'',
             l_maskedPaths = (if o_privileged opts then [] else maskedPaths),
             l_readonlyPaths = (if o_privileged opts then [] else readonlyPaths),
             l_uidMappings = o_uidMappings opts, l_gidMappings = o_gidMappings opts\<rparr>,
          s_hostname = hostname\<rparr>)"

text \<open>Generate, with the results of MkdirAll, MarshalIndent and WriteFile as arguments; what it
  writes to config.json is the spec.\<close>

definition Generate ::
  "string \<Rightarrow> (string \<Rightarrow> string + string) \<Rightarrow> (string \<Rightarrow> string + seccomp) \<Rightarrow> string option \<Rightarrow>
   (oci_spec \<Rightarrow> string + string) \<Rightarrow> (string \<Rightarrow> string \<Rightarrow> string option) \<Rightarrow> string \<Rightarrow> options \<Rightarrow>
   bundle_error + string" where
  "Generate goarch rd dec mkdir marshal wr bundleDir opts =
     (case mkdir of
        Some e \<Rightarrow> Inl (MkdirError e)
      | None \<Rightarrow> (case resolveSeccomp goarch rd dec opts of
            Inl e \<Rightarrow> Inl e
          | Inr sec \<Rightarrow> (case marshal (buildSpec opts sec) of
                Inl e \<Rightarrow> Inl (MarshalError e)
              | Inr data \<Rightarrow> (case wr (path_join [bundleDir, ''config.json'']) data of
                    Some e \<Rightarrow> Inl (WriteError e)
                  | None \<Rightarrow> Inr bundleDir))))"

section \<open>Environments as maps\<close>

definition env_pairs :: "string list \<Rightarrow> (string, string) gomap" where
  "env_pairs es = map (\<lambda>e. case cut_str e ''='' of (k, v, _) \<Rightarrow> (k, v)) es"

lemma env_fold:
  "map_of (foldl env_put m es) = map_of m ++ map_of (rev (env_pairs es))"
proof (induction es arbitrary: m)
  case (Cons e es)
  obtain k v ok where e: "cut_str e ''='' = (k, v, ok)" by (cases "cut_str e ''=''")
  then have "env_pairs (e # es) = (k, v) # env_pairs es" and "env_put m e = AList.update k v m"
    by (simp_all add: env_pairs_def env_put_def)
  then show ?case
    by (auto simp: Cons.IH update_conv' map_add_def fun_eq_iff split: option.splits)
qed (simp add: env_pairs_def)

lemma cut_key_no_sep:
  assumes "cut_str e [c] = (k, v, ok)"
  shows "c \<notin> set k"
proof (cases "c \<in> set e")
  case True
  then obtain a b where "e = a @ c # b" "c \<notin> set a" by (meson split_list_first)
  with assms show ?thesis by auto
qed (use assms in simp)

lemma env_put_keys:
  assumes "distinct (map fst m)" and "\<forall>k \<in> set (map fst m). CHR ''='' \<notin> set k"
  shows "distinct (map fst (env_put m e)) \<and> (\<forall>k \<in> set (map fst (env_put m e)). CHR ''='' \<notin> set k)"
proof -
  obtain k v ok where e: "cut_str e ''='' = (k, v, ok)" by (cases "cut_str e ''=''")
  from cut_key_no_sep [OF this] assms show ?thesis
    by (simp add: env_put_def e distinct_update update_keys)
qed

lemma env_fold_keys:
  assumes "distinct (map fst m)" and "\<forall>k \<in> set (map fst m). CHR ''='' \<notin> set k"
  shows "distinct (map fst (foldl env_put m es)) \<and> (\<forall>k \<in> set (map fst (foldl env_put m es)). CHR ''='' \<notin> set k)"
  using assms
proof (induction es arbitrary: m)
  case (Cons e es)
  note step = env_put_keys [OF Cons.prems, of e]
  show ?case using Cons.IH [OF step [THEN conjunct1] step [THEN conjunct2]] by simp
qed simp

lemma env_pairs_render:
  assumes "\<forall>k \<in> set (map fst m). CHR ''='' \<notin> set k"
  shows "env_pairs (map (\<lambda>(k, v). k @ ''='' @ v) m) = m"
  using assms by (induction m) (auto simp: env_pairs_def)

lemma env_pairs_mergeEnv:
  "env_pairs (mergeEnv base over) = foldl env_put (foldl env_put [] base) over"
  unfolding mergeEnv_def
  using env_fold_keys [of "[]" base] env_fold_keys [of "foldl env_put [] base" over]
  by (intro env_pairs_render) simp

lemma env_pairs_append: "env_pairs (a @ b) = env_pairs a @ env_pairs b"
  by (simp add: env_pairs_def)

lemma has_prefix_key:
  "list_all (\<lambda>e. CHR ''='' \<in> set e) env \<Longrightarrow> CHR ''='' \<notin> set k \<Longrightarrow>
   list_ex (\<lambda>e. has_prefix e (k @ ''='')) env \<longleftrightarrow> k \<in> fst ` set (env_pairs env)"
proof (induction env)
  case (Cons e env)
  then obtain a b where e: "e = a @ CHR ''='' # b" "CHR ''='' \<notin> set a"
    by (auto dest: split_list_first)
  have "has_prefix e (k @ ''='') \<longleftrightarrow> a = k"
  proof
    assume "has_prefix e (k @ ''='')"
    then have "e = (k @ ''='') @ drop (length (k @ ''='')) e"
      unfolding has_prefix_def using append_take_drop_id [of "length (k @ ''='')" e] by simp
    then obtain r where "e = k @ CHR ''='' # r" by simp
    then have "cut_str e ''='' = (k, r, True)" using Cons.prems(2) by simp
    moreover have "cut_str e ''='' = (a, b, True)" using e by simp
    ultimately show "a = k" by simp
  qed (simp add: e has_prefix_def)
  with Cons e show ?case by (auto simp: env_pairs_def image_iff)
qed (simp add: env_pairs_def)

lemma mergeEnv_sep: "list_all (\<lambda>e. CHR ''='' \<in> set e) (mergeEnv base over)"
  by (auto simp: mergeEnv_def list_all_iff)

section \<open>Mounts by destination\<close>

definition at :: "string \<Rightarrow> mount list \<Rightarrow> mount list" where
  "at d ms = filter (\<lambda>m. path_clean (m_destination m) = d) ms"

lemma at_append [simp]: "at d (a @ b) = at d a @ at d b"
  by (simp add: at_def)

lemma at_empty_iff: "at d ms = [] \<longleftrightarrow> d \<notin> (\<lambda>m. path_clean (m_destination m)) ` set ms"
  by (auto simp: at_def filter_empty_conv)

lemma path_clean_nonempty [simp]: "path_clean p \<noteq> []"
proof -
  have "clean_elems r acc es \<noteq> [] \<Longrightarrow> [] \<notin> set acc \<Longrightarrow> join_with ''/'' (clean_elems r acc es) \<noteq> []" for r acc es
  proof (induction r acc es rule: clean_elems.induct)
    case (1 r acc)
    then have "[] \<notin> set (rev acc)" "rev acc \<noteq> []" by auto
    then show ?case by (cases "rev acc"; cases "tl (rev acc)") auto
  next
    case (2 r acc e es)
    then show ?case by (auto split: list.splits if_splits)
  qed
  then show ?thesis by (auto simp: path_clean_def Let_def)
qed

lemma at_appendMounts:
  assumes "d \<noteq> ''.''"
  shows "at d (appendMounts base extra) = (if at d extra = [] then at d base else at d extra)"
proof (cases "at d extra = []")
  case True
  then have "d \<notin> set (taken extra)" by (auto simp: at_empty_iff taken_def)
  then have "at d (filter (\<lambda>m. path_clean (m_destination m) \<notin> set (taken extra)) base) = at d base"
    by (auto simp: at_def intro: filter_cong)
  with True show ?thesis by (simp add: appendMounts_def at_def)
next
  case False
  with assms have "d \<in> set (taken extra)" by (auto simp: at_empty_iff taken_def)
  then have "at d (filter (\<lambda>m. path_clean (m_destination m) \<notin> set (taken extra)) base) = []"
    by (auto simp: at_def filter_empty_conv)
  moreover from False have "extra \<noteq> []" by (auto simp: at_def)
  ultimately show ?thesis using False by (simp add: appendMounts_def)
qed

section \<open>Capabilities as sets\<close>

lemma mergeCapabilities_sets:
  "set (c_bounding (mergeCapabilities base add drp)) =
     (if ''ALL'' \<in> normalizeCap ` set drp then {} else set base) \<union> (normalizeCap ` set add - {[], ''ALL''})
       - (normalizeCap ` set drp - {[], ''ALL''})"
  by (auto simp: mergeCapabilities_def Let_def cap_set_def drop_set_def)

lemma mergeCapabilities_shape:
  "c_effective (mergeCapabilities base add drp) = c_bounding (mergeCapabilities base add drp)"
  "c_permitted (mergeCapabilities base add drp) = c_bounding (mergeCapabilities base add drp)"
  "c_inheritable (mergeCapabilities base add drp) = []"
  "c_ambient (mergeCapabilities base add drp) = []"
  "sorted (c_bounding (mergeCapabilities base add drp))"
  "distinct (c_bounding (mergeCapabilities base add drp))"
  by (simp_all add: mergeCapabilities_def Let_def sort_strings_def)

section \<open>Properties\<close>

text \<open>The capabilities of a container that is not privileged are the built-in minimum (nothing
  at all when ALL is dropped) and those added by name, less those dropped by name: a drop wins
  over an add, adding ALL adds nothing, and no capability is inheritable or ambient. The three
  sets that are granted agree, in sorted order and without repetition.\<close>

theorem capabilities_exact:
  "let C = mergeCapabilities base add drp in
     set (c_bounding C) =
       (if ''ALL'' \<in> normalizeCap ` set drp then {} else set base) \<union> (normalizeCap ` set add - {[], ''ALL''})
         - (normalizeCap ` set drp - {[], ''ALL''}) \<and>
     c_effective C = c_bounding C \<and> c_permitted C = c_bounding C \<and>
     c_inheritable C = [] \<and> c_ambient C = [] \<and> sorted (c_bounding C) \<and> distinct (c_bounding C)"
  by (simp add: mergeCapabilities_sets mergeCapabilities_shape)


definition demo_options :: options where
  "demo_options =
     \<lparr>o_containerID = ''web'', o_rootFS = ''/rootfs'', o_netNS = ''/run/nyxd/netns/web'', o_imageConfig = None,
      o_env = [''A=1''], o_args = [''sh''], o_workDir = [], o_user = None, o_resources = None, o_readOnly = False,
      o_hostname = [], o_resolvConfPath = [], o_extraMounts = [mk_mount ''/dev/shm/'' ''bind'' ''/srv'' []],
      o_seccompProfile = '' Default '', o_apparmorProfile = [], o_capAdd = [''net_admin''], o_capDrop = [''ALL''],
      o_privileged = False, o_noNewPrivileges = None, o_rlimits = [], o_hostNetwork = False, o_rootless = False,
      o_uidMappings = [], o_gidMappings = [], o_terminal = False\<rparr>"


text \<open>Caller mounts win on destination: at every path, after cleaning, the container sees the
  caller's mounts for that path if there are any, and otherwise exactly the generated ones. So
  no generated mount shadows or is shadowed by a compose volume.\<close>

theorem caller_mounts_win:
  "at d (s_mounts (buildSpec opts sec)) =
     (if at d (o_extraMounts opts) = []
      then at d (resolvThenDefault (o_resolvConfPath opts) (o_rootless opts \<and> o_hostNetwork opts))
      else at d (o_extraMounts opts))"
proof (cases "d = ''.''")
  case True
  have "at d (resolvThenDefault r b) = []" for r b
    unfolding at_empty_iff resolvThenDefault_def Let_def using True
    by (cases b; cases "trim_space r = []")
      (simp_all add: defaultMounts_def bind_sys_def mk_mount_def path_clean_def is_abs_def has_prefix_def)
  then show ?thesis
    by (auto simp: buildSpec_def Let_def appendMounts_def at_def filter_empty_conv)
qed (simp add: buildSpec_def Let_def at_appendMounts)

text \<open>The environment of the process: every variable is set once, to the caller's last value
  for it, else to the image's last value; PATH has a default, so it is always set.\<close>

theorem process_env:
  "let env = p_env (s_process (buildSpec opts sec));
       cfg = (case o_imageConfig opts of None \<Rightarrow> empty_container_config | Some ic \<Rightarrow> ic_config ic);
       given = map_of (rev (env_pairs (cc_env cfg))) ++ map_of (rev (env_pairs (o_env opts)))
   in distinct (map fst (env_pairs env)) \<and>
      map_of (env_pairs env) = (if given ''PATH'' = None then given(''PATH'' \<mapsto> DefaultPath) else given)"
proof -
  define cfg where "cfg = (case o_imageConfig opts of None \<Rightarrow> empty_container_config | Some ic \<Rightarrow> ic_config ic)"
  define given where "given = map_of (rev (env_pairs (cc_env cfg))) ++ map_of (rev (env_pairs (o_env opts)))"
  define ps where "ps = env_pairs (mergeEnv (cc_env cfg) (o_env opts))"
  have ps: "map_of ps = given"
    by (simp add: ps_def env_pairs_mergeEnv env_fold given_def)
  have dist: "distinct (map fst ps)"
    unfolding ps_def env_pairs_mergeEnv
    using env_fold_keys [of "[]" "cc_env cfg"] env_fold_keys [of "foldl env_put [] (cc_env cfg)" "o_env opts"] by simp
  have path: "list_ex (\<lambda>e. has_prefix e ''PATH='') (mergeEnv (cc_env cfg) (o_env opts)) \<longleftrightarrow> given ''PATH'' \<noteq> None"
    using has_prefix_key [OF mergeEnv_sep, of "''PATH''" "cc_env cfg" "o_env opts"] map_of_eq_None_iff [of ps "''PATH''"]
    unfolding ps by (auto simp flip: ps_def)
  have cut: "env_pairs [''PATH='' @ DefaultPath] = [(''PATH'', DefaultPath)]"
    by (simp add: env_pairs_def cut_str_def has_prefix_def)
  have "env_pairs (spec_env cfg opts) = (if given ''PATH'' = None then ps @ [(''PATH'', DefaultPath)] else ps)"
    unfolding spec_env_def Let_def path using cut by (simp add: env_pairs_append flip: ps_def)
  moreover have "map_of (ps @ [(''PATH'', DefaultPath)]) = given(''PATH'' \<mapsto> DefaultPath)" if "given ''PATH'' = None"
    using that by (auto simp: ps map_add_def fun_eq_iff split: option.splits)
  moreover have "''PATH'' \<notin> set (map fst ps)" if "given ''PATH'' = None"
    using that by (simp add: map_of_eq_None_iff flip: ps)
  ultimately have "distinct (map fst (env_pairs (spec_env cfg opts))) \<and>
      map_of (env_pairs (spec_env cfg opts)) = (if given ''PATH'' = None then given(''PATH'' \<mapsto> DefaultPath) else given)"
    using dist ps by simp
  moreover have "p_env (s_process (buildSpec opts sec)) = spec_env cfg opts"
    by (simp add: buildSpec_def Let_def cfg_def)
  ultimately show ?thesis
    unfolding Let_def cfg_def [symmetric] given_def [symmetric] by simp
qed

text \<open>A memory limit without a swap value caps memory plus swap at twice the limit, and leaves
  everything else as it was; up to the largest limit whose double fits an int64 the doubled value
  is not less than the limit.\<close>

theorem swap_capped:
  assumes "res_memory rs = Some mem" and "0 < mem_limit mem" and "mem_limit mem < 2 ^ 62" and "mem_swap mem = 0"
  shows "withSwapLimit (Some rs) = Some (rs\<lparr>res_memory := Some (mem\<lparr>mem_swap := 2 * mem_limit mem\<rparr>)\<rparr>)"
  using assms by (simp add: withSwapLimit_def wrap64_id)

definition demo_memory :: memory_res where
  "demo_memory = \<lparr>mem_limit = 1048576, mem_swap = 0, mem_reservation = 0, mem_oomKillDisable = None, mem_oomScoreAdj = None\<rparr>"

theorem swap_capped_witness:
  "withSwapLimit (Some \<lparr>res_memory = Some demo_memory, res_cpu = None, res_pids = None, res_blockIO = None\<rparr>)
     = Some \<lparr>res_memory = Some (demo_memory\<lparr>mem_swap := 2097152\<rparr>), res_cpu = None, res_pids = None, res_blockIO = None\<rparr>"
  using swap_capped [of "\<lparr>res_memory = Some demo_memory, res_cpu = None, res_pids = None, res_blockIO = None\<rparr>" demo_memory]
  by (simp add: demo_memory_def)

end
