(* ===== verification/Network_Publish.thy ===== *)
theory Network_Publish
  imports Go_Path
begin

text \<open>
  Published ports: the parser of --publish values (src/internal/network/publish.go), the two
  renderings of port mappings (src/internal/supervisor/bundle_meta.go and supervisor.go), the
  contract every network driver keeps (network.Backend, src/internal/network/backend.go) as the
  locale \<open>network_backend\<close>, and the host driver that implements it (host.go). A forwarder of the
  host driver is a pair of a handle and its port mapping; which handles are open is part of the
  state, so a forgotten listener shows up as one.
\<close>

record port_mapping =
  pm_host :: int
  pm_container :: int
  pm_protocol :: string

section \<open>ParseDockerPublish\<close>

datatype publish_error =
    EmptyPublish | InvalidProtocol string string | InvalidPort string | InvalidPublish string

text \<open>Cutting at the last occurrence of a character, as strings.LastIndex with slicing does.\<close>

definition cut_last :: "char \<Rightarrow> string \<Rightarrow> (string \<times> string) option" where
  "cut_last d s =
     (if d \<in> set s
      then Some (rev (tl (dropWhile (\<lambda>c. c \<noteq> d) (rev s))), rev (takeWhile (\<lambda>c. c \<noteq> d) (rev s)))
      else None)"

definition port_ok :: "int \<Rightarrow> bool" where
  "port_ok p \<longleftrightarrow> 1 \<le> p \<and> p \<le> 65535"

definition parse_pair :: "string \<Rightarrow> string \<Rightarrow> string \<Rightarrow> string \<Rightarrow> publish_error + port_mapping" where
  "parse_pair s proto h c =
     (case (atoi (trim_space h), atoi (trim_space c)) of
        (Some hp, Some cp) \<Rightarrow>
          if port_ok hp \<and> port_ok cp then Inr \<lparr>pm_host = hp, pm_container = cp, pm_protocol = proto\<rparr>
          else Inl (InvalidPublish s)
      | _ \<Rightarrow> Inl (InvalidPublish s))"

definition parse_ports :: "string \<Rightarrow> string \<Rightarrow> publish_error + port_mapping" where
  "parse_ports s proto =
     (case split_on (CHR '':'') s of
        [p] \<Rightarrow> (case atoi (trim_space p) of
            None \<Rightarrow> Inl (InvalidPort p)
          | Some n \<Rightarrow> if port_ok n then Inr \<lparr>pm_host = n, pm_container = n, pm_protocol = proto\<rparr>
                      else Inl (InvalidPort p))
      | [h, c] \<Rightarrow> parse_pair s proto h c
      | [ip, h, c] \<Rightarrow> parse_pair s proto h c
      | _ \<Rightarrow> Inl (InvalidPublish s))"

definition ParseDockerPublish :: "string \<Rightarrow> publish_error + port_mapping" where
  "ParseDockerPublish input =
     (let s = trim_space input
      in if s = [] then Inl EmptyPublish
         else case cut_last (CHR ''/'') s of
                None \<Rightarrow> parse_ports s ''tcp''
              | Some (a, b) \<Rightarrow>
                  (let p = to_lower (trim_space b); r = trim_space a
                   in if p = ''tcp'' \<or> p = ''udp'' then parse_ports r p else Inl (InvalidProtocol p r)))"

section \<open>Rendering\<close>

definition proto_name :: "port_mapping \<Rightarrow> string" where
  "proto_name p = (let proto = to_lower (trim_space (pm_protocol p)) in if proto = [] then ''tcp'' else proto)"

definition publish_string :: "port_mapping \<Rightarrow> string" where
  "publish_string p = itoa (pm_host p) @ '':'' @ itoa (pm_container p) @ ''/'' @ proto_name p"

definition portMappingsToPublishStrings :: "port_mapping list \<Rightarrow> string list" where
  "portMappingsToPublishStrings pm = map publish_string pm"

definition formatPortMappings :: "port_mapping list \<Rightarrow> string" where
  "formatPortMappings pm =
     join_with '', ''
       (map (\<lambda>p. ''0.0.0.0:'' @ itoa (pm_host p) @ ''->'' @ itoa (pm_container p) @ ''/'' @ proto_name p) pm)"

lemma cut_last_append: "d \<notin> set b \<Longrightarrow> cut_last d (a @ d # b) = Some (a, b)"
proof -
  assume "d \<notin> set b"
  then have "takeWhile (\<lambda>c. c \<noteq> d) (rev b @ d # rev a) = rev b"
    and "dropWhile (\<lambda>c. c \<noteq> d) (rev b @ d # rev a) = d # rev a"
    by (subst takeWhile_append2 dropWhile_append2; force)+
  then show ?thesis by (simp add: cut_last_def)
qed

lemma all_digits_clean:
  assumes "all_digits s"
  shows "s \<noteq> []" and "list_all (\<lambda>c. \<not> is_space c) s" and "CHR '':'' \<notin> set s" and "CHR ''/'' \<notin> set s"
  using assms
  by (auto simp: all_digits_def list_all_iff is_digit_def is_space_def Let_def)

lemma itoa_nonneg: "0 \<le> i \<Longrightarrow> itoa i = itoa_nat (nat i)"
  by (simp add: itoa_def)

lemma itoa_clean:
  assumes "0 \<le> i"
  shows "itoa i \<noteq> []" and "list_all (\<lambda>c. \<not> is_space c) (itoa i)" and "CHR '':'' \<notin> set (itoa i)"
    and "CHR ''/'' \<notin> set (itoa i)"
  using all_digits_clean [OF itoa_nat_digits, of "nat i"] by (simp_all add: itoa_nonneg assms)

lemma atoi_itoa_port: "port_ok i \<Longrightarrow> atoi (itoa i) = Some i"
  using atoi_itoa_nat [of "nat i"] by (simp add: port_ok_def itoa_nonneg nat_less_iff)

lemma punctuation_not_space [simp]: "\<not> is_space (CHR '':'')" "\<not> is_space (CHR ''/'')"
  by (simp_all add: is_space_def)

lemma parse_pair_itoa:
  assumes "port_ok h" and "port_ok c"
  shows "parse_ports (itoa h @ '':'' @ itoa c) proto = Inr \<lparr>pm_host = h, pm_container = c, pm_protocol = proto\<rparr>"
proof -
  have ge: "0 \<le> h" "0 \<le> c" using assms by (simp_all add: port_ok_def)
  have "split_on (CHR '':'') (itoa h @ CHR '':'' # itoa c) = [itoa h, itoa c]"
    by (simp add: split_on_append split_on_single itoa_clean ge)
  then show ?thesis
    using assms by (simp add: parse_ports_def parse_pair_def trim_space_none itoa_clean ge atoi_itoa_port)
qed

lemma ParseDockerPublish_publish_string:
  assumes "port_ok (pm_host p)" and "port_ok (pm_container p)" and "proto_name p \<in> {''tcp'', ''udp''}"
  shows "ParseDockerPublish (publish_string p) = Inr (p\<lparr>pm_protocol := proto_name p\<rparr>)"
proof -
  let ?r = "itoa (pm_host p) @ '':'' @ itoa (pm_container p)"
  have ge: "0 \<le> pm_host p" "0 \<le> pm_container p" using assms by (simp_all add: port_ok_def)
  have proto: "list_all (\<lambda>c. \<not> is_space c) (proto_name p)" "CHR ''/'' \<notin> set (proto_name p)"
    "to_lower (proto_name p) = proto_name p"
    using assms(3) by (auto simp: go_defs)
  have str: "publish_string p = ?r @ CHR ''/'' # proto_name p"
    by (simp add: publish_string_def)
  have sp: "list_all (\<lambda>c. \<not> is_space c) ?r" by (simp add: itoa_clean ge)
  then have "trim_space (publish_string p) = publish_string p"
    unfolding str by (intro trim_space_none) (simp add: itoa_clean ge proto)
  moreover have "cut_last (CHR ''/'') (publish_string p) = Some (?r, proto_name p)"
    unfolding str by (intro cut_last_append proto)
  moreover have "to_lower (trim_space (proto_name p)) = proto_name p"
    by (simp add: trim_space_none proto)
  moreover have "publish_string p \<noteq> []" by (simp add: str)
  ultimately have "ParseDockerPublish (publish_string p) = parse_ports ?r (proto_name p)"
    using assms(3) trim_space_none [OF sp] by (simp add: ParseDockerPublish_def Let_def del: append_Cons)
  then show ?thesis
    using parse_pair_itoa [OF assms(1,2), of "proto_name p"] by simp
qed

section \<open>The driver contract\<close>

text \<open>
  What the supervisor relies on: Setup and Teardown keep the driver's invariant, a failed Setup
  and a Teardown leave the container with no resources, and neither touches another container's.
  \<open>owned s cid\<close> is what the driver holds for a container.
\<close>

locale network_backend =
  fixes inv :: "'s \<Rightarrow> bool"
    and owned :: "'s \<Rightarrow> string \<Rightarrow> 'r set"
    and set_up :: "'e \<Rightarrow> string \<Rightarrow> port_mapping list \<Rightarrow> 's \<Rightarrow> 's \<times> ('err + string)"
    and tear_down :: "string \<Rightarrow> 's \<Rightarrow> 's"
  assumes set_up_inv: "inv s \<Longrightarrow> inv (fst (set_up e cid ports s))"
    and tear_down_inv: "inv s \<Longrightarrow> inv (tear_down cid s)"
    and set_up_failed: "inv s \<Longrightarrow> snd (set_up e cid ports s) = Inl err \<Longrightarrow> owned (fst (set_up e cid ports s)) cid = {}"
    and set_up_other: "cid' \<noteq> cid \<Longrightarrow> owned (fst (set_up e cid ports s)) cid' = owned s cid'"
    and tear_down_self: "owned (tear_down cid s) cid = {}"
    and tear_down_other: "cid' \<noteq> cid \<Longrightarrow> owned (tear_down cid s) cid' = owned s cid'"
begin

definition apply_call :: "'s \<Rightarrow> ('e \<times> port_mapping list) option \<times> string \<Rightarrow> 's" where
  "apply_call s c = (case c of (Some (e, ports), cid) \<Rightarrow> fst (set_up e cid ports s) | (None, cid) \<Rightarrow> tear_down cid s)"

lemma calls_inv: "inv s \<Longrightarrow> inv (foldl apply_call s cs)"
  by (induction cs arbitrary: s)
    (auto simp: apply_call_def set_up_inv tear_down_inv split: option.splits prod.splits)

lemma calls_other:
  "cid \<notin> snd ` set cs \<Longrightarrow> owned (foldl apply_call s cs) cid = owned s cid"
  by (induction cs arbitrary: s)
    (auto simp: apply_call_def set_up_other tear_down_other split: option.splits prod.splits)

lemma torn_down_owns_nothing:
  assumes "cid \<notin> snd ` set after"
  shows "owned (foldl apply_call s (before @ (None, cid) # after)) cid = {}"
  using calls_other [OF assms] by (simp add: apply_call_def tear_down_self)

end

section \<open>The host driver\<close>

record forwarder =
  fw_handle :: nat
  fw_pm :: port_mapping

record host_backend =
  hb_forwards :: "string \<Rightarrow> forwarder list"
  hb_open :: "nat set"
  hb_next :: nat

datatype forward_error = AddrInUse port_mapping | AccessDenied port_mapping | ForwardFails port_mapping string

text \<open>\<open>listen\<close> is what the operating system answers to the bind of a forwarder's host port.\<close>

definition startForwarder ::
  "(port_mapping \<Rightarrow> forward_error option) \<Rightarrow> port_mapping \<Rightarrow> host_backend \<Rightarrow> host_backend \<times> (forward_error + forwarder)" where
  "startForwarder listen pm h =
     (case listen pm of
        Some e \<Rightarrow> (h, Inl e)
      | None \<Rightarrow> (h\<lparr>hb_open := insert (hb_next h) (hb_open h), hb_next := Suc (hb_next h)\<rparr>,
                 Inr \<lparr>fw_handle = hb_next h, fw_pm = pm\<rparr>))"

definition close_fwd :: "forwarder \<Rightarrow> host_backend \<Rightarrow> host_backend" where
  "close_fwd f h = h\<lparr>hb_open := hb_open h - {fw_handle f}\<rparr>"

definition hb_stop :: "string \<Rightarrow> host_backend \<Rightarrow> host_backend" where
  "hb_stop cid h = fold close_fwd (hb_forwards h cid) (h\<lparr>hb_forwards := (hb_forwards h)(cid := [])\<rparr>)"

fun start_forwarders ::
  "(port_mapping \<Rightarrow> forward_error option) \<Rightarrow> port_mapping list \<Rightarrow> forwarder list \<Rightarrow> host_backend \<Rightarrow>
   host_backend \<times> (forward_error + forwarder list)" where
  "start_forwarders listen [] started h = (h, Inr started)"
| "start_forwarders listen (p # ps) started h =
     (if pm_host p \<le> 0 \<or> pm_host p = pm_container p then start_forwarders listen ps started h
      else case startForwarder listen p h of
             (h', Inl e) \<Rightarrow> (fold close_fwd started h', Inl e)
           | (h', Inr f) \<Rightarrow> start_forwarders listen ps (started @ [f]) h')"

definition Setup ::
  "(port_mapping \<Rightarrow> forward_error option) \<Rightarrow> string \<Rightarrow> port_mapping list \<Rightarrow> host_backend \<Rightarrow>
   host_backend \<times> (forward_error + string)" where
  "Setup listen cid ports h =
     (case start_forwarders listen ports [] (hb_stop cid h) of
        (h', Inl e) \<Rightarrow> (h', Inl e)
      | (h', Inr started) \<Rightarrow>
          (if started \<noteq> [] then h'\<lparr>hb_forwards := (hb_forwards h')(cid := started)\<rparr> else h', Inr []))"

definition Teardown :: "string \<Rightarrow> host_backend \<Rightarrow> host_backend" where
  "Teardown cid h = hb_stop cid h"

definition Forwarded :: "host_backend \<Rightarrow> string \<Rightarrow> string list" where
  "Forwarded h cid =
     map (\<lambda>f. itoa (pm_host (fw_pm f)) @ ''->'' @ itoa (pm_container (fw_pm f)) @ ''/'' @
              (if equal_fold (pm_protocol (fw_pm f)) ''udp'' then ''udp'' else ''tcp'')) (hb_forwards h cid)"

definition NewHostBackend :: host_backend where
  "NewHostBackend = \<lparr>hb_forwards = (\<lambda>_. []), hb_open = {}, hb_next = 0\<rparr>"


text \<open>The invariant: the open listeners are those of the forwarders in the map, each in one place,
  and handles are fresh.\<close>

definition handles :: "forwarder list \<Rightarrow> nat set" where
  "handles fs = fw_handle ` set fs"

definition hb_inv :: "host_backend \<Rightarrow> bool" where
  "hb_inv h \<longleftrightarrow>
     hb_open h = (\<Union>cid. handles (hb_forwards h cid)) \<and>
     (\<forall>n \<in> hb_open h. n < hb_next h) \<and>
     (\<forall>a b. a \<noteq> b \<longrightarrow> handles (hb_forwards h a) \<inter> handles (hb_forwards h b) = {})"

definition hb_owned :: "host_backend \<Rightarrow> string \<Rightarrow> nat set" where
  "hb_owned h cid = handles (hb_forwards h cid)"

lemma handles_simps [simp]:
  "handles [] = {}"
  "handles (fs @ gs) = handles fs \<union> handles gs"
  "handles [f] = {fw_handle f}"
  "handles (if b then fs else gs) = (if b then handles fs else handles gs)"
  by (simp_all add: handles_def image_Un)

lemma close_all:
  "hb_open (fold close_fwd fs h) = hb_open h - handles fs"
  "hb_forwards (fold close_fwd fs h) = hb_forwards h"
  "hb_next (fold close_fwd fs h) = hb_next h"
  by (induction fs arbitrary: h) (auto simp: close_fwd_def handles_def)

lemma hb_stop_simps [simp]:
  "hb_open (hb_stop cid h) = hb_open h - handles (hb_forwards h cid)"
  "hb_forwards (hb_stop cid h) = (hb_forwards h)(cid := [])"
  "hb_next (hb_stop cid h) = hb_next h"
  by (simp_all add: hb_stop_def close_all)

lemma hb_stop_inv: "hb_inv h \<Longrightarrow> hb_inv (hb_stop cid h)"
proof -
  assume inv: "hb_inv h"
  have "(\<Union>a. if a = cid then {} else handles (hb_forwards h a)) =
      (\<Union>a. handles (hb_forwards h a)) - handles (hb_forwards h cid)"
  proof (intro equalityI subsetI)
    fix n assume "n \<in> (\<Union>a. if a = cid then {} else handles (hb_forwards h a))"
    then obtain a where a: "a \<noteq> cid" "n \<in> handles (hb_forwards h a)" by (auto split: if_splits)
    moreover have "handles (hb_forwards h a) \<inter> handles (hb_forwards h cid) = {}"
      using inv a(1) unfolding hb_inv_def by blast
    ultimately show "n \<in> (\<Union>a. handles (hb_forwards h a)) - handles (hb_forwards h cid)" by blast
  qed auto
  with inv show ?thesis unfolding hb_inv_def by simp
qed

lemma startForwarder_cases:
  assumes "startForwarder listen p h = (h', r)"
  obtains e where "r = Inl e" and "h' = h"
  | "r = Inr \<lparr>fw_handle = hb_next h, fw_pm = p\<rparr>"
    and "h' = h\<lparr>hb_open := insert (hb_next h) (hb_open h), hb_next := Suc (hb_next h)\<rparr>"
proof (cases "listen p")
  case None
  with assms that(2) show ?thesis by (simp add: startForwarder_def)
next
  case (Some e)
  with assms have "r = Inl e" "h' = h" by (simp_all add: startForwarder_def)
  then show ?thesis by (rule that(1))
qed

text \<open>The loop of Setup opens fresh handles only, and closes all of them again when it fails.\<close>

lemma start_forwarders_result:
  assumes "start_forwarders listen ps started h = (h', r)"
    and "\<forall>n \<in> hb_open h. n < hb_next h" and "handles started \<subseteq> hb_open h"
  shows "hb_forwards h' = hb_forwards h \<and> hb_next h \<le> hb_next h' \<and> (\<forall>n \<in> hb_open h'. n < hb_next h') \<and>
    (case r of Inl e \<Rightarrow> hb_open h' = hb_open h - handles started
     | Inr fs \<Rightarrow> \<exists>new. handles fs = handles started \<union> new \<and> hb_open h' = hb_open h \<union> new \<and>
         (\<forall>n \<in> new. hb_next h \<le> n))"
  using assms
proof (induction ps arbitrary: started h)
  case Nil
  then show ?case by (auto intro: exI [of _ "{}"])
next
  case (Cons p ps)
  show ?case
  proof (cases "pm_host p \<le> 0 \<or> pm_host p = pm_container p")
    case True
    with Cons show ?thesis by simp
  next
    case False
    obtain h1 r1 where s: "startForwarder listen p h = (h1, r1)" by (cases "startForwarder listen p h")
    from s show ?thesis
    proof (cases rule: startForwarder_cases)
      case (1 e)
      with Cons.prems False s show ?thesis by (auto simp: close_all)
    next
      case 2
      let ?f = "\<lparr>fw_handle = hb_next h, fw_pm = p\<rparr>"
      from 2 Cons.prems(1) False s have run: "start_forwarders listen ps (started @ [?f]) h1 = (h', r)" by simp
      have fresh: "hb_next h \<notin> hb_open h" using Cons.prems(2) by blast
      have pre: "\<forall>n \<in> hb_open h1. n < hb_next h1" "handles (started @ [?f]) \<subseteq> hb_open h1"
        using 2 Cons.prems(2,3) by (auto simp: handles_def less_Suc_eq)
      note ih = Cons.IH [OF run pre]
      show ?thesis
      proof (cases r)
        case (Inl e)
        with ih 2 fresh Cons.prems(3) show ?thesis by auto
      next
        case (Inr fs)
        with ih obtain new where new: "handles fs = handles (started @ [?f]) \<union> new"
          "hb_open h' = hb_open h1 \<union> new" "\<forall>n \<in> new. hb_next h1 \<le> n" by auto
        then have "handles fs = handles started \<union> insert (hb_next h) new"
          "hb_open h' = hb_open h \<union> insert (hb_next h) new" "\<forall>n \<in> insert (hb_next h) new. hb_next h \<le> n"
          using 2 by auto
        with ih Inr 2 show ?thesis by auto
      qed
    qed
  qed
qed

lemma Setup_cases:
  assumes "hb_inv h"
  obtains (failed) e h' where "Setup listen cid ports h = (h', Inl e)" and "hb_inv h'"
      and "hb_forwards h' = (hb_forwards h)(cid := [])"
  | (ok) fs h' where "Setup listen cid ports h = (h', Inr [])" and "hb_inv h'"
      and "hb_forwards h' = (hb_forwards h)(cid := fs)"
proof -
  let ?g = "hb_stop cid h"
  have g: "hb_inv ?g" using hb_stop_inv [OF assms] .
  obtain h1 r where run: "start_forwarders listen ports [] ?g = (h1, r)"
    by (cases "start_forwarders listen ports [] ?g")
  have "\<forall>n \<in> hb_open ?g. n < hb_next ?g" using g by (simp add: hb_inv_def)
  note res = start_forwarders_result [OF run this]
  show ?thesis
  proof (cases r)
    case (Inl e)
    with res have "hb_forwards h1 = hb_forwards ?g" "hb_open h1 = hb_open ?g"
      "\<forall>n \<in> hb_open h1. n < hb_next h1" by simp_all
    with g have "hb_inv h1" unfolding hb_inv_def by simp
    with Inl run res show ?thesis by (intro failed [of h1 e]) (simp_all add: Setup_def)
  next
    case (Inr fs)
    with res obtain new where new: "handles fs = new" "hb_open h1 = hb_open ?g \<union> new" "\<forall>n \<in> new. hb_next ?g \<le> n"
      and h1: "hb_forwards h1 = hb_forwards ?g" "\<forall>n \<in> hb_open h1. n < hb_next h1" by auto
    let ?h2 = "h1\<lparr>hb_forwards := (hb_forwards h1)(cid := fs)\<rparr>"
    have old: "handles (hb_forwards ?g a) \<inter> handles fs = {}" for a
    proof -
      have "handles (hb_forwards ?g a) \<subseteq> hb_open ?g" using g unfolding hb_inv_def by blast
      moreover have "\<forall>n \<in> hb_open ?g. n < hb_next ?g" using g unfolding hb_inv_def by blast
      ultimately show ?thesis using new(1,3) by (meson disjoint_iff leD subsetD)
    qed
    have un: "(\<Union>a. handles ((hb_forwards ?h2) a)) = hb_open h1"
    proof -
      have "(\<Union>a. handles (hb_forwards ?h2 a)) = (\<Union>a. handles (hb_forwards ?g a)) \<union> handles fs"
        using h1(1) by auto
      also have "\<dots> = hb_open h1" using g new(1,2) by (simp add: hb_inv_def)
      finally show ?thesis .
    qed
    have dis: "handles (hb_forwards ?h2 a) \<inter> handles (hb_forwards ?h2 b) = {}" if "a \<noteq> b" for a b
    proof (cases "a = cid \<or> b = cid")
      case True
      with that old [of a] old [of b] h1(1) show ?thesis by auto
    next
      case False
      have "handles (hb_forwards ?g a) \<inter> handles (hb_forwards ?g b) = {}"
        using that g unfolding hb_inv_def by blast
      with False h1(1) show ?thesis by simp
    qed
    have inv: "hb_inv ?h2"
      unfolding hb_inv_def using un dis h1(2) by simp
    show ?thesis
    proof (cases "fs = []")
      case True
      have same: "?h2 = h1" using True h1(1) by (auto intro!: host_backend.equality)
      show ?thesis
        using True run Inr inv h1(1) unfolding same by (intro ok [of h1 fs]) (simp_all add: Setup_def)
    next
      case False
      with run Inr inv h1(1) show ?thesis by (intro ok [of ?h2 fs]) (simp_all add: Setup_def)
    qed
  qed
qed

interpretation host: network_backend hb_inv hb_owned Setup Teardown
proof unfold_locales
  fix h :: host_backend and listen and cid :: string and ports
  assume inv: "hb_inv h"
  from inv show "hb_inv (fst (Setup listen cid ports h))"
    by (rule Setup_cases [of h listen cid ports]) simp_all
  from inv show "hb_inv (Teardown cid h)" by (simp add: Teardown_def hb_stop_inv)
  show "hb_owned (fst (Setup listen cid ports h)) cid = {}" if "snd (Setup listen cid ports h) = Inl err" for err
    using inv by (rule Setup_cases [of h listen cid ports]) (use that in \<open>simp_all add: hb_owned_def\<close>)
next
  fix h :: host_backend and listen and cid cid' :: string and ports
  assume "cid' \<noteq> cid"
  have keep: "hb_forwards (fst (start_forwarders listen ps started g)) = hb_forwards g" for ps started and g :: host_backend
    by (induction ps arbitrary: started g)
      (auto simp: startForwarder_def close_all split: option.splits)
  show "hb_owned (fst (Setup listen cid ports h)) cid' = hb_owned h cid'"
    using keep [of ports "[]" "hb_stop cid h"] \<open>cid' \<noteq> cid\<close>
    by (auto simp: Setup_def hb_owned_def split: prod.splits sum.splits)
  show "hb_owned (Teardown cid h) cid' = hb_owned h cid'"
    using \<open>cid' \<noteq> cid\<close> by (simp add: Teardown_def hb_owned_def)
qed (simp add: Teardown_def hb_owned_def)

section \<open>Properties\<close>

text \<open>What nyxd writes into nyxd-meta.json for a published port is parsed back to the same
  port on re-adoption, with the protocol in its canonical spelling.\<close>

theorem publish_roundtrip:
  assumes "list_all (\<lambda>p. port_ok (pm_host p) \<and> port_ok (pm_container p) \<and> proto_name p \<in> {''tcp'', ''udp''}) pm"
  shows "map_res ParseDockerPublish (portMappingsToPublishStrings pm)
     = Inr (map (\<lambda>p. p\<lparr>pm_protocol := proto_name p\<rparr>) pm)"
  using assms
  by (induction pm) (auto simp: portMappingsToPublishStrings_def ParseDockerPublish_publish_string)

theorem publish_roundtrip_witness:
  "map_res ParseDockerPublish
     (portMappingsToPublishStrings [\<lparr>pm_host = 8080, pm_container = 80, pm_protocol = '' UDP''\<rparr>])
     = Inr [\<lparr>pm_host = 8080, pm_container = 80, pm_protocol = ''udp''\<rparr>]"
proof -
  let ?p = "\<lparr>pm_host = 8080, pm_container = 80, pm_protocol = '' UDP''\<rparr>"
  have "proto_name ?p = ''udp''" by code_simp
  then show ?thesis using publish_roundtrip [of "[?p]"] by (simp add: port_ok_def)
qed

text \<open>A publish value that is accepted has both ports between 1 and 65535 and the protocol tcp
  or udp, in lower case.\<close>

theorem publish_bounds:
  assumes "ParseDockerPublish s = Inr p"
  shows "port_ok (pm_host p) \<and> port_ok (pm_container p) \<and> pm_protocol p \<in> {''tcp'', ''udp''}"
proof -
  have "parse_ports r proto = Inr p \<Longrightarrow> port_ok (pm_host p) \<and> port_ok (pm_container p) \<and> pm_protocol p = proto"
    for r proto
    by (auto simp: parse_ports_def parse_pair_def split: list.splits option.splits if_splits)
  with assms show ?thesis
    by (auto simp: ParseDockerPublish_def Let_def split: if_splits option.splits prod.splits)
qed

theorem publish_bounds_witness:
  "port_ok (pm_host \<lparr>pm_host = 8080, pm_container = 80, pm_protocol = ''tcp''\<rparr>) \<and>
   port_ok (pm_container \<lparr>pm_host = 8080, pm_container = 80, pm_protocol = ''tcp''\<rparr>) \<and>
   pm_protocol \<lparr>pm_host = 8080, pm_container = 80, pm_protocol = ''tcp''\<rparr> \<in> {''tcp'', ''udp''}"
  by (rule publish_bounds [of "''127.0.0.1:8080:80''"]) code_simp

text \<open>C25. The host driver leaks no listener: after any sequence of Setup and Teardown calls, for
  any containers and whichever binds fail, the open listeners are exactly those recorded for the
  containers, and a container whose last call was Teardown has none.\<close>

theorem host_backend_no_leak:
  assumes "cid \<notin> snd ` set after"
  shows "let h = foldl host.apply_call NewHostBackend (before @ (None, cid) # after)
     in hb_open h = (\<Union>c. handles (hb_forwards h c)) \<and> handles (hb_forwards h cid) = {}"
proof -
  have "hb_inv NewHostBackend" by (simp add: hb_inv_def NewHostBackend_def)
  note inv = host.calls_inv [OF this, of "before @ (None, cid) # after"]
  show ?thesis
    unfolding Let_def using inv host.torn_down_owns_nothing [OF assms, of NewHostBackend before]
    by (simp only: hb_inv_def hb_owned_def)
qed

theorem host_backend_no_leak_witness:
  "let h = foldl host.apply_call NewHostBackend
       ([(Some (\<lambda>_. None, [\<lparr>pm_host = 8443, pm_container = 443, pm_protocol = ''tcp''\<rparr>]), ''web'')] @ (None, ''web'')
         # [(Some (\<lambda>_. None, []), ''db'')])
     in hb_open h = (\<Union>c. handles (hb_forwards h c)) \<and> handles (hb_forwards h ''web'') = {}"
  by (rule host_backend_no_leak) simp

end
