(* ===== verification/Supervisor_Spec.thy ===== *)
theory Supervisor_Spec
  imports Bundle Health Network_Publish Go_Net "HOL-Library.Product_Lexorder" "HOL-Library.Multiset"
begin

text \<open>
  What the supervisor decides without doing anything: the container specification and the
  restart policy (src/internal/supervisor/supervisor.go), the back-off and readiness budgets, the
  check of host ports (hostports.go), the resolv.conf, hosts and DNS policy (supervisor_dns.go),
  the policy names of nyxd-meta.json (bundle_meta.go) and the comparison that decides whether
  compose up recreates a container (compose_up.go). Durations are nanoseconds as int64, with the
  wrap-around written out.
\<close>

section \<open>Specifications\<close>

text \<open>Go's string type RestartPolicy; the four named values are those of the constants.\<close>

type_synonym restart_policy = string

abbreviation RestartAlways :: restart_policy where "RestartAlways \<equiv> ''always''"
abbreviation RestartOnFailure :: restart_policy where "RestartOnFailure \<equiv> ''on-failure''"
abbreviation RestartUnlessStopped :: restart_policy where "RestartUnlessStopped \<equiv> ''unless-stopped''"
abbreviation RestartNever :: restart_policy where "RestartNever \<equiv> ''never''"

record container_spec =
  cs_id :: string
  cs_image :: string
  cs_imageConfig :: "image_config option"
  cs_manifestLayers :: "descriptor list"
  cs_blobPaths :: "string list"
  cs_env :: "string list"
  cs_args :: "string list"
  cs_workDir :: string
  cs_user :: "user option"
  cs_resources :: "resources_spec option"
  cs_portMappings :: "port_mapping list"
  cs_readOnly :: bool
  cs_hostname :: string
  cs_restartPolicy :: restart_policy
  cs_maxRestarts :: int
  cs_stopTimeout :: int
  cs_healthcheck :: "health_config option"
  cs_extraMounts :: "mount list"
  cs_embedDNS :: bool
  cs_dns :: "string list"
  cs_hostAliases :: "string list"
  cs_composeInternalNet :: bool
  cs_networkBridge :: string
  cs_networkSubnet :: string
  cs_networkGateway :: string
  cs_privileged :: bool
  cs_seccompProfile :: string
  cs_apparmorProfile :: string
  cs_capAdd :: "string list"
  cs_capDrop :: "string list"
  cs_noNewPrivileges :: "bool option"
  cs_rlimits :: "rlimit list"
  cs_uidMappings :: "id_mapping list"
  cs_gidMappings :: "id_mapping list"
  cs_terminal :: bool
  cs_stdinOpen :: bool
  cs_autoRemove :: bool
  cs_hostNetwork :: bool

definition zero_spec :: container_spec where
  "zero_spec =
     \<lparr>cs_id = [], cs_image = [], cs_imageConfig = None, cs_manifestLayers = [], cs_blobPaths = [], cs_env = [],
      cs_args = [], cs_workDir = [], cs_user = None, cs_resources = None, cs_portMappings = [], cs_readOnly = False,
      cs_hostname = [], cs_restartPolicy = [], cs_maxRestarts = 0, cs_stopTimeout = 0, cs_healthcheck = None,
      cs_extraMounts = [], cs_embedDNS = False, cs_dns = [], cs_hostAliases = [], cs_composeInternalNet = False,
      cs_networkBridge = [], cs_networkSubnet = [], cs_networkGateway = [], cs_privileged = False,
      cs_seccompProfile = [], cs_apparmorProfile = [], cs_capAdd = [], cs_capDrop = [], cs_noNewPrivileges = None,
      cs_rlimits = [], cs_uidMappings = [], cs_gidMappings = [], cs_terminal = False, cs_stdinOpen = False,
      cs_autoRemove = False, cs_hostNetwork = False\<rparr>"

section \<open>Restart policy\<close>

text \<open>The entry matters through its number of restarts only.\<close>

definition shouldRestart :: "container_spec \<Rightarrow> int \<Rightarrow> int \<Rightarrow> bool" where
  "shouldRestart spec restarts exitCode =
     (if cs_maxRestarts spec > 0 \<and> restarts \<ge> cs_maxRestarts spec then False
      else if cs_restartPolicy spec = RestartAlways then True
      else if cs_restartPolicy spec = RestartOnFailure then exitCode \<noteq> 0
      else if cs_restartPolicy spec = RestartUnlessStopped then True
      else False)"

definition restartPolicyFromString :: "string \<Rightarrow> restart_policy" where
  "restartPolicyFromString s0 =
     (let s = to_lower (trim_space s0)
      in if s = [] \<or> s = ''unless-stopped'' \<or> s = ''unless_stopped'' then RestartUnlessStopped
         else if s = ''always'' then RestartAlways
         else if s = ''on-failure'' \<or> s = ''on_failure'' then RestartOnFailure
         else RestartNever)"

text \<open>\<open>backoff\<close>: \<open>rnd\<close> is what rand.Int64N returns for its bound; the function panics on a bound
  that is not positive, which is \<open>None\<close>.\<close>

definition backoff_base :: "int \<Rightarrow> int" where
  "backoff_base attempt =
     (let d = wrap64 (wrap64 (wrap64 (attempt * attempt) * 100) * 1000000)
      in if d > 30 * 1000000000 then 30 * 1000000000 else d)"

definition go_div :: "int \<Rightarrow> int \<Rightarrow> int" where
  "go_div a b = (if a < 0 then - (- a div b) else a div b)"

definition backoff :: "(int \<Rightarrow> int) \<Rightarrow> int \<Rightarrow> int option" where
  "backoff rnd attempt =
     (let d = backoff_base attempt; bound = go_div d 10 + 1
      in if bound \<le> 0 then None else Some (wrap64 (d + rnd bound)))"

definition readiness_budget :: "health_config \<Rightarrow> int" where
  "readiness_budget cfg =
     (let tick = 500 * 1000000;
          attempts0 = wrap64 (h_retries cfg + 8);
          attempts = (if attempts0 < 10 then 10 else attempts0);
          budget0 = wrap64 (h_start_period cfg + wrap64 (attempts * wrap64 (h_timeout cfg + tick)));
          budget1 = (if budget0 < 45 * 1000000000 then 45 * 1000000000 else budget0)
      in if budget1 > 15 * 60 * 1000000000 then 15 * 60 * 1000000000 else budget1)"

section \<open>Host ports\<close>

text \<open>The daemon's configuration: driver and DNS mode are lower-cased and trimmed by New.\<close>

record sup_config =
  cfg_netDriver :: string
  cfg_dnsMode :: string
  cfg_dnsGateway :: string
  cfg_rootless :: bool
  cfg_noCgroups :: bool
  cfg_hasLogs :: bool
  cfg_baseDir :: string

definition hostNetwork :: "sup_config \<Rightarrow> bool" where
  "hostNetwork c \<longleftrightarrow> cfg_netDriver c = ''host''"

definition onHostNetwork :: "sup_config \<Rightarrow> container_spec \<Rightarrow> bool" where
  "onHostNetwork c spec \<longleftrightarrow> hostNetwork c \<or> cs_hostNetwork spec"

definition low_ports :: "int \<Rightarrow> port_mapping list \<Rightarrow> int list" where
  "low_ports start pms =
     remdups (filter (\<lambda>p. p > 0 \<and> p < start) (concat (map (\<lambda>pm. [pm_container pm, pm_host pm]) pms)))"

text \<open>\<open>None\<close>: no error; otherwise the ports the message names, in order.\<close>

definition checkHostPorts :: "sup_config \<Rightarrow> int \<Rightarrow> container_spec \<Rightarrow> int list option" where
  "checkHostPorts c start spec =
     (if \<not> cfg_rootless c \<or> \<not> hostNetwork c \<or> cs_portMappings spec = [] then None
      else let low = low_ports start (cs_portMappings spec) in if low = [] then None else Some (sort low))"

section \<open>Names and resolvers\<close>

definition shouldRegisterDNS :: "sup_config \<Rightarrow> container_spec \<Rightarrow> bool" where
  "shouldRegisterDNS c spec =
     (if onHostNetwork c spec then False
      else let dm0 = to_lower (trim_space (cfg_dnsMode c)); dm = (if dm0 = [] then ''auto'' else dm0)
           in if dm = ''off'' \<or> dm = ''cni'' then False
              else if dm = ''embedded'' then True
              else if dm = ''auto'' then
                (if to_lower (trim_space (cfg_netDriver c)) = ''native'' then True else cs_embedDNS spec)
              else False)"

definition dnsHostForSpec :: "container_spec \<Rightarrow> string" where
  "dnsHostForSpec spec =
     (let h = trim_space (to_lower (cs_hostname spec))
      in if h \<noteq> [] then h else trim_space (to_lower (cs_id spec)))"

definition resolvGatewayIP :: "sup_config \<Rightarrow> container_spec \<Rightarrow> string" where
  "resolvGatewayIP c spec =
     (case (if trim_space (cs_networkGateway spec) = [] then None else parse_ip4 (trim_space (cs_networkGateway spec))) of
        Some ip \<Rightarrow> ip4_string ip
      | None \<Rightarrow> (case parse_ip4 (trim_space (cfg_dnsGateway c)) of
            Some ip \<Rightarrow> ip4_string ip
          | None \<Rightarrow> ''10.88.0.1''))"

definition mountHasResolvConf :: "mount list \<Rightarrow> bool" where
  "mountHasResolvConf ms \<longleftrightarrow> list_ex (\<lambda>m. path_clean (m_destination m) = ''/etc/resolv.conf'') ms"

definition nl :: string where "nl = [CHR 0x0A]"

text \<open>The path to mount at /etc/resolv.conf (empty: none) and the file written for it, if one is.
  \<open>hostResolv\<close> says whether the host has /etc/resolv.conf, \<open>wr\<close> is the error of WriteFile.\<close>

definition writeBundleResolv ::
  "sup_config \<Rightarrow> bool \<Rightarrow> string option \<Rightarrow> string \<Rightarrow> container_spec \<Rightarrow> string + (string \<times> string option)" where
  "writeBundleResolv c hostResolv wr bundleDir spec =
     (if mountHasResolvConf (cs_extraMounts spec) then Inr ([], None)
      else if onHostNetwork c spec then Inr (if hostResolv then ''/etc/resolv.conf'' else [], None)
      else let path = path_join [bundleDir, ''resolv.conf.host''];
               write = (\<lambda>content. case wr of Some e \<Rightarrow> Inl e | None \<Rightarrow> Inr (path, Some content))
           in if cs_dns spec \<noteq> [] then
                write (concat (map (\<lambda>ns. ''nameserver '' @ ns @ nl) (cs_dns spec)) @ ''options ndots:0'' @ nl)
              else if \<not> shouldRegisterDNS c spec then Inr ([], None)
              else write (''nameserver '' @ resolvGatewayIP c spec @ nl @ ''search nyxd.local.'' @ nl @
                          ''options ndots:0'' @ nl))"

fun alias_names :: "string list \<Rightarrow> string list \<Rightarrow> string list" where
  "alias_names seen [] = []"
| "alias_names seen (n0 # ns) =
     (let n = to_lower (trim_space n0)
      in if n \<noteq> [] \<and> n \<notin> set seen \<and>
            \<not> list_ex (\<lambda>c. c = CHR '' '' \<or> c = CHR 0x09 \<or> c = CHR 0x0A \<or> c = CHR ''#'') n
         then n # alias_names (n # seen) ns else alias_names seen ns)"

definition hosts_content :: "string option \<Rightarrow> container_spec \<Rightarrow> string" where
  "hosts_content hostFile spec =
     (let names = alias_names [] (cs_hostname spec # cs_hostAliases spec);
          base = (case hostFile of
              Some f \<Rightarrow> f @ (if f \<noteq> [] \<and> last f \<noteq> CHR 0x0A then nl else [])
            | None \<Rightarrow> ''127.0.0.1'' @ [CHR 0x09] @ ''localhost'' @ nl @ ''::1'' @ [CHR 0x09] @
                      ''localhost ip6-localhost ip6-loopback'' @ nl)
      in base @ (if names \<noteq> [] then
            ''# nyxd: services sharing the host network'' @ nl @
            ''127.0.0.1'' @ [CHR 0x09] @ join_with '' '' names @ nl else []))"

definition writeBundleHosts ::
  "sup_config \<Rightarrow> string option \<Rightarrow> string option \<Rightarrow> string \<Rightarrow> container_spec \<Rightarrow> string + (string \<times> string option)" where
  "writeBundleHosts c hostFile wr bundleDir spec =
     (if \<not> onHostNetwork c spec then Inr ([], None)
      else case wr of
             Some e \<Rightarrow> Inl e
           | None \<Rightarrow> Inr (path_join [bundleDir, ''hosts''], Some (hosts_content hostFile spec)))"

definition resolveApparmorProfile :: "bool \<Rightarrow> (string \<Rightarrow> bool) \<Rightarrow> string \<Rightarrow> string" where
  "resolveApparmorProfile available loaded profile0 =
     (let profile = trim_space profile0
      in if profile = [] \<or> \<not> available \<or> \<not> loaded profile then [] else profile)"

section \<open>When compose up recreates a container\<close>

text \<open>
  The struct whose JSON composeComparableJSON returns. Two blobs are equal exactly when the
  structs are, since the encoding of these types is injective, so the model compares structs.
  slices.SortFunc is a sort by the key its comparison function reads.
\<close>

record compose_key =
  k_id :: string
  k_image :: string
  k_layerDigests :: "string list"
  k_env :: "string list"
  k_args :: "string list"
  k_workDir :: string
  k_user :: "user option"
  k_ports :: "(int \<times> int \<times> string) list"
  k_readOnly :: bool
  k_hostname :: string
  k_restartPolicy :: restart_policy
  k_maxRestarts :: int
  k_stopTimeout :: int
  k_healthcheck :: "health_config option"
  k_mounts :: "mount list"
  k_embedDNS :: bool
  k_dns :: "string list"
  k_composeInternalNet :: bool
  k_networkBridge :: string
  k_networkSubnet :: string
  k_networkGateway :: string
  k_resources :: "resources_spec option"
  k_privileged :: bool
  k_seccompProfile :: string
  k_apparmorProfile :: string
  k_capAdd :: "string list"
  k_capDrop :: "string list"
  k_noNewPrivileges :: "bool option"
  k_rlimits :: "rlimit list"
  k_uidMappings :: "id_mapping list"
  k_gidMappings :: "id_mapping list"

definition mount_key :: "mount \<Rightarrow> string \<times> string \<times> string \<times> string" where
  "mount_key m = (m_destination m, m_source m, m_type m, join_with [CHR 0x00] (m_options m))"

definition mountsComparable :: "mount list \<Rightarrow> mount list" where
  "mountsComparable ms =
     sort_key mount_key (map (\<lambda>m. m\<lparr>m_options := sort_strings (m_options m)\<rparr>) ms)"

text \<open>A port key is (Container, Host, Proto): the order of the comparison.\<close>

definition port_key :: "port_mapping \<Rightarrow> int \<times> int \<times> string" where
  "port_key p = (pm_container p, pm_host p, pm_protocol p)"

definition sort_mappings :: "id_mapping list \<Rightarrow> id_mapping list" where
  "sort_mappings ms = sort_key (\<lambda>m. (im_containerID m, im_hostID m)) ms"

definition composeComparable :: "container_spec \<Rightarrow> compose_key" where
  "composeComparable s =
     \<lparr>k_id = cs_id s, k_image = cs_image s, k_layerDigests = map d_digest (cs_manifestLayers s),
      k_env = sort_strings (cs_env s), k_args = cs_args s, k_workDir = cs_workDir s, k_user = cs_user s,
      k_ports = sort (map port_key (cs_portMappings s)), k_readOnly = cs_readOnly s, k_hostname = cs_hostname s,
      k_restartPolicy = cs_restartPolicy s, k_maxRestarts = cs_maxRestarts s, k_stopTimeout = cs_stopTimeout s,
      k_healthcheck = cs_healthcheck s, k_mounts = mountsComparable (cs_extraMounts s), k_embedDNS = cs_embedDNS s,
      k_dns = sort_strings (cs_dns s), k_composeInternalNet = cs_composeInternalNet s,
      k_networkBridge = cs_networkBridge s, k_networkSubnet = cs_networkSubnet s,
      k_networkGateway = cs_networkGateway s, k_resources = cs_resources s, k_privileged = cs_privileged s,
      k_seccompProfile = cs_seccompProfile s, k_apparmorProfile = cs_apparmorProfile s,
      k_capAdd = sort_strings (cs_capAdd s), k_capDrop = sort_strings (cs_capDrop s),
      k_noNewPrivileges = cs_noNewPrivileges s, k_rlimits = sort_key rl_type (cs_rlimits s),
      k_uidMappings = sort_mappings (cs_uidMappings s), k_gidMappings = sort_mappings (cs_gidMappings s)\<rparr>"

definition composeSpecsEqual :: "container_spec \<Rightarrow> container_spec \<Rightarrow> bool" where
  "composeSpecsEqual a b \<longleftrightarrow> composeComparable a = composeComparable b"

lemma sort_strings_perm: "mset xs = mset ys \<Longrightarrow> sort_strings xs = sort_strings ys"
  unfolding sort_strings_def by (metis properties_for_sort sorted_sort mset_sort)

section \<open>Properties\<close>

text \<open>Whether a container that exited is started again, for every policy: never once the
  configured number of restarts is reached, always for always and unless-stopped, after a failure
  only for on-failure, and never for anything else.\<close>

theorem restart_decision:
  "shouldRestart spec restarts code \<longleftrightarrow>
     (cs_maxRestarts spec \<le> 0 \<or> restarts < cs_maxRestarts spec) \<and>
     (cs_restartPolicy spec \<in> {RestartAlways, RestartUnlessStopped} \<or>
      cs_restartPolicy spec = RestartOnFailure \<and> code \<noteq> 0)"
  by (auto simp: shouldRestart_def)



text \<open>The next attempt overflows the int64 multiplication: the delay is negative and the random
  number generator panics, which ends the daemon.\<close>

lemma backoff_overflow: "backoff rnd 303701 = None"
  by (simp add: backoff_def backoff_base_def go_div_def wrap64_def)

text \<open>The readiness wait of a container with a health check always ends: its budget is between
  45 seconds and 15 minutes, whatever the configured retries, timeout and start period are,
  overflow included.\<close>

theorem readiness_budget_bounds:
  "45 * 1000000000 \<le> readiness_budget cfg \<and> readiness_budget cfg \<le> 15 * 60 * 1000000000"
  by (simp add: readiness_budget_def Let_def)

text \<open>compose up is insensitive to the order in which a stack lists environment variables,
  capabilities, DNS servers and published ports: a specification that differs in these orders only
  counts as unchanged, so the container is left alone.\<close>

theorem compose_up_order_insensitive:
  assumes "mset env = mset (cs_env s)" and "mset add = mset (cs_capAdd s)" and "mset drp = mset (cs_capDrop s)"
    and "mset dns = mset (cs_dns s)" and "mset ports = mset (cs_portMappings s)"
  shows "composeSpecsEqual s
     (s\<lparr>cs_env := env, cs_capAdd := add, cs_capDrop := drp, cs_dns := dns, cs_portMappings := ports\<rparr>)"
proof -
  have "mset (map port_key ports) = mset (map port_key (cs_portMappings s))"
    using assms(5) by simp
  then have "sort (map port_key ports) = sort (map port_key (cs_portMappings s))"
    by (metis properties_for_sort sorted_sort mset_sort)
  with sort_strings_perm [OF assms(1)] sort_strings_perm [OF assms(2)] sort_strings_perm [OF assms(3)]
    sort_strings_perm [OF assms(4)] show ?thesis
    by (simp add: composeSpecsEqual_def composeComparable_def)
qed

theorem compose_up_order_insensitive_witness:
  "composeSpecsEqual (zero_spec\<lparr>cs_env := [''A=1'', ''B=2'']\<rparr>)
     (zero_spec\<lparr>cs_env := [''B=2'', ''A=1''], cs_capAdd := [], cs_capDrop := [], cs_dns := [], cs_portMappings := []\<rparr>)"
  using compose_up_order_insensitive [of "[''B=2'', ''A=1'']" "zero_spec\<lparr>cs_env := [''A=1'', ''B=2'']\<rparr>" "[]" "[]" "[]" "[]"]
  by (simp add: zero_spec_def)

text \<open>The comparison does not read HostNetwork, which compose sets from network_mode: host: a
  service moved to or from the host network counts as unchanged and keeps its old network.\<close>

theorem compose_up_misses_host_network: "composeSpecsEqual s (s\<lparr>cs_hostNetwork := b\<rparr>)"
  by (simp add: composeSpecsEqual_def composeComparable_def)

end
