(* ===== verification/Supervisor.thy ===== *)
theory Supervisor
  imports Supervisor_Spec
begin

text \<open>
  The lifecycle operations of the supervisor (src/internal/supervisor/supervisor.go): startOnce,
  Start, RunAttached, Stop, Kill, KillForRestart, Remove, the sections of supervise, and the
  helpers they share.

  Container entries are objects that the map of containers and a supervise goroutine both point
  to, and that stay alive after the map has dropped them, so the state keeps them in a store
  (\<open>sup_entries\<close>, addressed by index) and the map holds addresses. What the supervisor asks of the
  outside world is recorded in \<open>sup_log\<close>, newest call first: a request that acquires something is
  recorded when it succeeded, a request that releases something when it is made, since the code
  ignores the result of releases. What the outside world answers is the argument of each
  operation: \<open>start_env\<close>, \<open>stop_env\<close> and so on. Logging, and the file descriptors of the stdio
  pipes, are not modelled.
\<close>

section \<open>State\<close>

record entry =
  e_spec :: container_spec
  e_netNS :: string
  e_ip :: string
  e_bundleDir :: string
  e_rootFS :: string
  e_restarts :: int
  e_stopped :: bool
  e_logCancel :: bool
  e_checker :: bool
  e_runDone :: bool
  e_exited :: "bool option"
  e_stdinHold :: bool
  e_attached :: bool

text \<open>What nyxd writes beside the bundle, and what the network driver is asked for.\<close>

record bundle_run_meta =
  meta_image :: string
  meta_ip :: string
  meta_env :: "string list"
  meta_args :: "string list"
  meta_hostname :: string
  meta_restart :: string
  meta_publish :: "string list"

record setup_options =
  so_internal :: bool
  so_bridge :: string
  so_subnet :: string
  so_gateway :: string

datatype call =
    OvlPrepare string | OvlRemove string
  | NetNSCreate string | NetNSDelete string
  | NetSetup string | NetTeardown string string
  | BundleGenerate string options | BundleMeta string bundle_run_meta | BundleRemove string
  | CrunRun string | CrunKill string string | CrunDelete string bool
  | CancelRun string
  | DnsRegister string string string | DnsDeregister string string
  | PersistWrite string | PersistRemove string
  | LogsRemove string
  | HealthStart string | HealthStop string

record sup =
  sup_cfg :: sup_config
  sup_entries :: "entry list"
  sup_containers :: "string \<Rightarrow> nat option"
  sup_log :: "call list"

definition new_entry :: "container_spec \<Rightarrow> bool \<Rightarrow> entry" where
  "new_entry spec attached =
     \<lparr>e_spec = spec, e_netNS = [], e_ip = [], e_bundleDir = [], e_rootFS = [], e_restarts = 0, e_stopped = False,
      e_logCancel = False, e_checker = False, e_runDone = False, e_exited = None, e_stdinHold = False,
      e_attached = attached\<rparr>"

definition record_call :: "call \<Rightarrow> sup \<Rightarrow> sup" where
  "record_call c s = s\<lparr>sup_log := c # sup_log s\<rparr>"

definition upd_entry :: "nat \<Rightarrow> (entry \<Rightarrow> entry) \<Rightarrow> sup \<Rightarrow> sup" where
  "upd_entry i f s = s\<lparr>sup_entries := (sup_entries s)[i := f (sup_entries s ! i)]\<rparr>"

definition entry_at :: "sup \<Rightarrow> nat \<Rightarrow> entry" where
  "entry_at s i = sup_entries s ! i"

definition id_at :: "sup \<Rightarrow> nat \<Rightarrow> string" where
  "id_at s i = cs_id (e_spec (entry_at s i))"

definition drop_id :: "string \<Rightarrow> sup \<Rightarrow> sup" where
  "drop_id cid s = s\<lparr>sup_containers := (sup_containers s)(cid := None)\<rparr>"

section \<open>Helpers\<close>

definition removeBundle :: "string \<Rightarrow> sup \<Rightarrow> sup" where
  "removeBundle dir s = (if dir = [] then s else record_call (BundleRemove dir) s)"

definition removePersistedState :: "string \<Rightarrow> sup \<Rightarrow> sup" where
  "removePersistedState cid s = (if cid = [] then s else record_call (PersistRemove cid) s)"

definition removeLogs :: "string \<Rightarrow> sup \<Rightarrow> sup" where
  "removeLogs cid s = (if cfg_hasLogs (sup_cfg s) then record_call (LogsRemove cid) s else s)"

definition registerEmbeddedDNS :: "container_spec \<Rightarrow> string \<Rightarrow> sup \<Rightarrow> sup" where
  "registerEmbeddedDNS spec ip s =
     (if \<not> shouldRegisterDNS (sup_cfg s) spec \<or> trim_space ip = [] \<or> cs_dns spec \<noteq> [] then s
      else record_call (DnsRegister (resolvGatewayIP (sup_cfg s) spec) (dnsHostForSpec spec) ip) s)"

definition dnsDeregisterForSpec :: "container_spec \<Rightarrow> sup \<Rightarrow> sup" where
  "dnsDeregisterForSpec spec s =
     (if \<not> shouldRegisterDNS (sup_cfg s) spec \<or> cs_dns spec \<noteq> [] then s
      else record_call (DnsDeregister (resolvGatewayIP (sup_cfg s) spec) (dnsHostForSpec spec)) s)"

definition teardownNetwork :: "string \<Rightarrow> sup \<Rightarrow> sup" where
  "teardownNetwork cid s =
     (if hostNetwork (sup_cfg s) then record_call (NetTeardown cid []) s
      else case sup_containers s cid of
             Some i \<Rightarrow>
               if cs_hostNetwork (e_spec (entry_at s i)) then s
               else record_call (NetNSDelete cid) (record_call (NetTeardown cid (''/run/nyxd/netns/'' @ cid))
                      (dnsDeregisterForSpec (e_spec (entry_at s i)) s))
           | None \<Rightarrow> record_call (NetNSDelete cid) (record_call (NetTeardown cid (''/run/nyxd/netns/'' @ cid)) s))"

definition releaseNetAndOverlay :: "string \<Rightarrow> sup \<Rightarrow> sup" where
  "releaseNetAndOverlay cid s = record_call (OvlRemove cid) (teardownNetwork cid s)"

definition stopHealth :: "nat \<Rightarrow> sup \<Rightarrow> sup" where
  "stopHealth i s =
     (if e_checker (entry_at s i)
      then record_call (HealthStop (id_at s i)) (upd_entry i (\<lambda>e. e\<lparr>e_checker := False\<rparr>) s) else s)"

definition closeStdinHold :: "nat \<Rightarrow> sup \<Rightarrow> sup" where
  "closeStdinHold i s = upd_entry i (\<lambda>e. e\<lparr>e_stdinHold := False\<rparr>) s"

definition resetLogIO :: "nat \<Rightarrow> sup \<Rightarrow> sup" where
  "resetLogIO i s =
     (if e_logCancel (entry_at s i)
      then record_call (CancelRun (id_at s i)) (upd_entry i (\<lambda>e. e\<lparr>e_logCancel := False\<rparr>) s) else s)"

definition finishExited :: "nat \<Rightarrow> sup \<Rightarrow> sup" where
  "finishExited i s =
     (let cid = id_at s i;
          s1 = removeBundle (e_bundleDir (entry_at s i))
                 (removePersistedState cid (drop_id cid (closeStdinHold i s)))
      in if cs_autoRemove (e_spec (entry_at s i)) then removeLogs cid s1 else s1)"

definition cleanup :: "nat \<Rightarrow> sup \<Rightarrow> sup" where
  "cleanup i s =
     (let cid = id_at s i;
          s1 = removeLogs cid (closeStdinHold i (resetLogIO i (stopHealth i s)));
          s2 = (if e_netNS (entry_at s i) = [] then s1
                else record_call (NetNSDelete cid) (record_call (NetTeardown cid (e_netNS (entry_at s i)))
                       (dnsDeregisterForSpec (e_spec (entry_at s i)) s1)))
      in removePersistedState cid (removeBundle (e_bundleDir (entry_at s i)) (record_call (OvlRemove cid) s2)))"

definition finishForegroundFastExit :: "nat \<Rightarrow> sup \<Rightarrow> sup" where
  "finishForegroundFastExit i s =
     (let cid = id_at s i
      in record_call (CrunDelete cid False) (releaseNetAndOverlay cid (closeStdinHold i (resetLogIO i s))))"

definition startHealthMonitor :: "nat \<Rightarrow> sup \<Rightarrow> sup" where
  "startHealthMonitor i s =
     (case cs_healthcheck (e_spec (entry_at s i)) of
        None \<Rightarrow> s
      | Some hc \<Rightarrow>
          if no_probe hc then s
          else record_call (HealthStart (id_at s i)) (upd_entry i (\<lambda>e. e\<lparr>e_checker := True\<rparr>) s))"

section \<open>startOnce\<close>

datatype crun_result = CrunOk | CrunAbsent | CrunFails string

text \<open>What happens while the start is observed, before its deadline of 30 seconds: the foreground run
  returns (with an error or not), or a tick finds the container in a state.\<close>

datatype poll = RunReturned "string option" | Tick "string option"

record start_env =
  se_portStart :: int
  se_prepare :: "string \<Rightarrow> string list \<Rightarrow> image_config option \<Rightarrow> string + string"
  se_resolveUser :: "string \<Rightarrow> string \<Rightarrow> string + user"
  se_createNS :: "string + string"
  se_netSetup :: "string \<Rightarrow> port_mapping list \<Rightarrow> setup_options option \<Rightarrow> string + string"
  se_mkdir :: "string option"
  se_hostResolv :: bool
  se_writeResolv :: "string option"
  se_hostFile :: "string option"
  se_writeHosts :: "string option"
  se_apparmor :: "bool \<times> (string \<Rightarrow> bool)"
  se_generate :: "options \<Rightarrow> string option"
  se_writeMeta :: "string option"
  se_stateProbe :: crun_result
  se_pipes :: "string option \<times> string option \<times> string option"
  se_polls :: "poll list"
  se_persist :: "string option"

datatype start_error =
    LowPorts "int list" | OverlayPrepare string | ImageUser string | NetNS string | NetworkSetup string
  | BundleDir string | BundleResolv string | BundleError string | StdioPipe string | StdinPipe string
  | ExitedStarting string | StartTimeout | AlreadyRunning string | Readiness

text \<open>The user of the process: the caller's, else the image's.\<close>

definition start_user :: "start_env \<Rightarrow> string \<Rightarrow> container_spec \<Rightarrow> string + user option" where
  "start_user env rootFS spec =
     (case cs_user spec of
        Some u \<Rightarrow> Inr (Some u)
      | None \<Rightarrow> (case cs_imageConfig spec of
            None \<Rightarrow> Inr None
          | Some cfg \<Rightarrow>
              if trim_space (cc_user (ic_config cfg)) = [] then Inr None
              else case se_resolveUser env rootFS (cc_user (ic_config cfg)) of
                     Inl e \<Rightarrow> Inl e
                   | Inr u \<Rightarrow> Inr (Some u)))"

text \<open>The options of the network driver: none unless the container has a network of its own.\<close>

definition net_options :: "container_spec \<Rightarrow> setup_options option" where
  "net_options spec =
     (if cs_composeInternalNet spec \<or> trim_space (cs_networkBridge spec) \<noteq> []
      then Some \<lparr>so_internal = cs_composeInternalNet spec, so_bridge = trim_space (cs_networkBridge spec),
        so_subnet = trim_space (cs_networkSubnet spec), so_gateway = trim_space (cs_networkGateway spec)\<rparr>
      else None)"

text \<open>Overlay, namespace and driver: the resources a start acquires, with their release on every
  error. The result is the user, the path of the namespace and the address.\<close>

definition start_acquire ::
  "nat \<Rightarrow> start_env \<Rightarrow> sup \<Rightarrow> sup \<times> (start_error + (user option \<times> string \<times> string))" where
  "start_acquire i env s =
     (let spec = e_spec (entry_at s i); cid = cs_id spec; cfg = sup_cfg s
      in case checkHostPorts cfg (se_portStart env) spec of
           Some low \<Rightarrow> (s, Inl (LowPorts low))
         | None \<Rightarrow> (case se_prepare env cid (cs_blobPaths spec) (cs_imageConfig spec) of
             Inl e \<Rightarrow> (s, Inl (OverlayPrepare e))
           | Inr rootFS \<Rightarrow>
              (let s1 = upd_entry i (\<lambda>e. e\<lparr>e_rootFS := rootFS\<rparr>) (record_call (OvlPrepare cid) s)
               in case start_user env rootFS spec of
                    Inl e \<Rightarrow> (record_call (OvlRemove cid) s1, Inl (ImageUser e))
                  | Inr user \<Rightarrow>
                     (case (if onHostNetwork cfg spec then Inr [] else se_createNS env) of
                        Inl e \<Rightarrow> (record_call (OvlRemove cid) s1, Inl (NetNS e))
                      | Inr nsPath \<Rightarrow>
                         (let s2 = (if onHostNetwork cfg spec then s1 else record_call (NetNSCreate cid) s1);
                              s3 = upd_entry i (\<lambda>e. e\<lparr>e_netNS := nsPath\<rparr>) s2
                          in if cs_hostNetwork spec \<and> \<not> hostNetwork cfg
                             then (upd_entry i (\<lambda>e. e\<lparr>e_ip := []\<rparr>) s3, Inr (user, nsPath, []))
                             else case se_netSetup env nsPath (cs_portMappings spec) (net_options spec) of
                                    Inl e \<Rightarrow> (record_call (OvlRemove cid) (record_call (NetNSDelete cid) s3),
                                              Inl (NetworkSetup e))
                                  | Inr ip \<Rightarrow> (upd_entry i (\<lambda>e. e\<lparr>e_ip := ip\<rparr>) (record_call (NetSetup cid) s3),
                                               Inr (user, nsPath, ip)))))))"

definition hosts_mount :: "string \<Rightarrow> mount" where
  "hosts_mount path = mk_mount ''/etc/hosts'' ''bind'' path [''rbind'', ''ro'', ''nosuid'', ''nodev'']"

definition bundle_options ::
  "sup_config \<Rightarrow> start_env \<Rightarrow> container_spec \<Rightarrow> string \<Rightarrow> string \<Rightarrow> user option \<Rightarrow> string \<Rightarrow> string \<Rightarrow> options" where
  "bundle_options cfg env spec rootFS nsPath user resolvPath bundleDir =
     \<lparr>o_containerID = cs_id spec, o_rootFS = rootFS, o_netNS = nsPath, o_imageConfig = cs_imageConfig spec,
      o_env = cs_env spec, o_args = cs_args spec, o_workDir = cs_workDir spec, o_user = user,
      o_resources = (if cfg_noCgroups cfg then None else cs_resources spec), o_readOnly = cs_readOnly spec,
      o_hostname = cs_hostname spec, o_resolvConfPath = resolvPath,
      o_extraMounts =
        (case writeBundleHosts cfg (se_hostFile env) (se_writeHosts env) bundleDir spec of
           Inl e \<Rightarrow> cs_extraMounts spec
         | Inr (path, _) \<Rightarrow> if path = [] then cs_extraMounts spec else hosts_mount path # cs_extraMounts spec),
      o_seccompProfile = cs_seccompProfile spec,
      o_apparmorProfile = resolveApparmorProfile (fst (se_apparmor env)) (snd (se_apparmor env)) (cs_apparmorProfile spec),
      o_capAdd = cs_capAdd spec, o_capDrop = cs_capDrop spec, o_privileged = cs_privileged spec,
      o_noNewPrivileges = cs_noNewPrivileges spec, o_rlimits = cs_rlimits spec,
      o_hostNetwork = onHostNetwork cfg spec, o_rootless = cfg_rootless cfg,
      o_uidMappings = cs_uidMappings spec, o_gidMappings = cs_gidMappings spec, o_terminal = cs_terminal spec\<rparr>"

definition bundle_dir :: "sup_config \<Rightarrow> string \<Rightarrow> string" where
  "bundle_dir cfg cid = cfg_baseDir cfg @ ''/bundles/'' @ cid"

definition run_meta :: "container_spec \<Rightarrow> string \<Rightarrow> bundle_run_meta" where
  "run_meta spec ip =
     \<lparr>meta_image = cs_image spec, meta_ip = ip, meta_env = cs_env spec, meta_args = cs_args spec,
      meta_hostname = cs_hostname spec, meta_restart = cs_restartPolicy spec,
      meta_publish = portMappingsToPublishStrings (cs_portMappings spec)\<rparr>"

text \<open>The bundle: every error releases the network and the overlay.\<close>

definition start_bundle ::
  "nat \<Rightarrow> start_env \<Rightarrow> user option \<Rightarrow> string \<Rightarrow> sup \<Rightarrow> sup \<times> start_error option" where
  "start_bundle i env user nsPath s =
     (let spec = e_spec (entry_at s i); cid = cs_id spec; cfg = sup_cfg s; dir = bundle_dir cfg cid
      in case se_mkdir env of
           Some e \<Rightarrow> (releaseNetAndOverlay cid s, Some (BundleDir e))
         | None \<Rightarrow> (case writeBundleResolv cfg (se_hostResolv env) (se_writeResolv env) dir spec of
             Inl e \<Rightarrow> (releaseNetAndOverlay cid s, Some (BundleResolv e))
           | Inr (resolvPath, _) \<Rightarrow>
              (let opts = bundle_options cfg env spec (e_rootFS (entry_at s i)) nsPath user resolvPath dir
               in case se_generate env opts of
                    Some e \<Rightarrow> (releaseNetAndOverlay cid s, Some (BundleError e))
                  | None \<Rightarrow>
                      (let s1 = upd_entry i (\<lambda>e. e\<lparr>e_bundleDir := dir\<rparr>) (record_call (BundleGenerate dir opts) s)
                       in (if se_writeMeta env = None then record_call (BundleMeta dir (run_meta spec (e_ip (entry_at s i)))) s1
                           else s1, None)))))"

text \<open>A stale container of the same id in crun is deleted by force.\<close>

definition ensureCrunIDFreeForFreshStart :: "string \<Rightarrow> crun_result \<Rightarrow> sup \<Rightarrow> sup" where
  "ensureCrunIDFreeForFreshStart cid probe s =
     (case probe of CrunOk \<Rightarrow> record_call (CrunDelete cid True) s | _ \<Rightarrow> s)"

datatype start_outcome = ObservedRunning | ReturnedZero | ReturnedError string | DeadlinePassed

fun start_observe :: "poll list \<Rightarrow> start_outcome" where
  "start_observe [] = DeadlinePassed"
| "start_observe (RunReturned (Some e) # ps) = ReturnedError e"
| "start_observe (RunReturned None # ps) = ReturnedZero"
| "start_observe (Tick st # ps) = (if st = Some ''running'' then ObservedRunning else start_observe ps)"

definition abort_run :: "string \<Rightarrow> sup \<Rightarrow> sup" where
  "abort_run cid s = releaseNetAndOverlay cid (record_call (CancelRun cid) s)"

definition start_run :: "nat \<Rightarrow> start_env \<Rightarrow> string \<Rightarrow> sup \<Rightarrow> sup \<times> (start_error + bool)" where
  "start_run i env ip s0 =
     (let spec = e_spec (entry_at s0 i); cid = cs_id spec;
          s = upd_entry i (\<lambda>e. e\<lparr>e_logCancel := True\<rparr>) (resetLogIO i s0)
      in case se_pipes env of (p1, p2, p3) \<Rightarrow>
         (case p1 of Some e \<Rightarrow> (abort_run cid s, Inl (StdioPipe e))
          | None \<Rightarrow> (case p2 of Some e \<Rightarrow> (abort_run cid s, Inl (StdioPipe e))
          | None \<Rightarrow>
            (if \<not> e_attached (entry_at s i) \<and> cs_stdinOpen spec \<and> p3 \<noteq> None
             then (abort_run cid s, Inl (StdinPipe (the p3)))
             else
              (let s1 = (if \<not> e_attached (entry_at s i) \<and> cs_stdinOpen spec
                         then upd_entry i (\<lambda>e. e\<lparr>e_stdinHold := True\<rparr>) s else s);
                   s2 = record_call (CrunRun cid) s1
               in case start_observe (se_polls env) of
                    ReturnedError e \<Rightarrow> (abort_run cid s2, Inl (ExitedStarting e))
                  | ReturnedZero \<Rightarrow> (finishForegroundFastExit i s2, Inr True)
                  | DeadlinePassed \<Rightarrow> (abort_run cid s2, Inl StartTimeout)
                  | ObservedRunning \<Rightarrow>
                      (let s3 = registerEmbeddedDNS spec ip
                                  (upd_entry i (\<lambda>e. e\<lparr>e_runDone := True, e_exited := Some False\<rparr>) s2)
                       in (if se_persist env = None \<and> cid \<noteq> [] then record_call (PersistWrite cid) s3 else s3, Inr False)))))))"

definition startOnce :: "nat \<Rightarrow> start_env \<Rightarrow> sup \<Rightarrow> sup \<times> (start_error + bool)" where
  "startOnce i env s =
     (case start_acquire i env s of
        (s1, Inl e) \<Rightarrow> (s1, Inl e)
      | (s1, Inr (user, nsPath, ip)) \<Rightarrow>
          (case start_bundle i env user nsPath s1 of
             (s2, Some e) \<Rightarrow> (s2, Inl e)
           | (s2, None) \<Rightarrow>
               start_run i env ip (ensureCrunIDFreeForFreshStart (id_at s2 i) (se_stateProbe env) s2)))"

section \<open>Start and RunAttached\<close>

definition normalize_spec :: "container_spec \<Rightarrow> container_spec" where
  "normalize_spec spec = spec\<lparr>cs_healthcheck := map_option Normalize (cs_healthcheck spec)\<rparr>"

definition add_entry :: "container_spec \<Rightarrow> bool \<Rightarrow> sup \<Rightarrow> sup" where
  "add_entry spec attached s =
     s\<lparr>sup_entries := sup_entries s @ [new_entry spec attached],
       sup_containers := (sup_containers s)(cs_id spec \<mapsto> length (sup_entries s))\<rparr>"

text \<open>waitStoppedOrForceDelete: whether crun reported the container stopped in time, and else whether
  the forced delete worked.\<close>

record wait_env =
  we_stopped :: bool
  we_delete :: "string option"

definition waitStoppedOrForceDelete :: "string \<Rightarrow> wait_env \<Rightarrow> sup \<Rightarrow> sup \<times> string option" where
  "waitStoppedOrForceDelete cid w s =
     (if we_stopped w then (s, None) else (record_call (CrunDelete cid True) s, we_delete w))"

definition abortAfterFailedReadiness :: "nat \<Rightarrow> wait_env \<Rightarrow> sup \<Rightarrow> sup" where
  "abortAfterFailedReadiness i w s =
     (let cid = id_at s i;
          s1 = record_call (CrunKill cid ''KILL'') (resetLogIO i s);
          s2 = fst (waitStoppedOrForceDelete cid w s1)
      in record_call (CrunDelete cid True) (releaseNetAndOverlay cid s2))"

text \<open>What Start leaves behind: an error, a container that ran to completion during the start, or a
  supervise goroutine for the entry.\<close>

datatype start_result = StartFailed start_error | StartCompleted | StartSupervised nat

definition Start ::
  "start_env \<Rightarrow> ready \<Rightarrow> wait_env \<Rightarrow> container_spec \<Rightarrow> sup \<Rightarrow> sup \<times> start_result" where
  "Start env rdy w spec0 s =
     (let spec = normalize_spec spec0; cid = cs_id spec; i = length (sup_entries s)
      in if sup_containers s cid \<noteq> None then (s, StartFailed (AlreadyRunning cid))
         else case startOnce i env (add_entry spec False s) of
                (s1, Inl e) \<Rightarrow>
                  (removeBundle (path_join [cfg_baseDir (sup_cfg s), ''bundles'', cid]) (drop_id cid s1), StartFailed e)
              | (s1, Inr True) \<Rightarrow>
                  (let s2 = removeBundle (e_bundleDir (entry_at s1 i)) (removePersistedState cid (drop_id cid s1))
                   in (if cs_autoRemove spec then removeLogs cid s2 else s2, StartCompleted))
              | (s1, Inr False) \<Rightarrow>
                  (if cs_healthcheck spec \<noteq> None \<and> rdy \<noteq> Ready then
                     (removePersistedState cid (drop_id cid (abortAfterFailedReadiness i w s1)), StartFailed Readiness)
                   else (startHealthMonitor i s1, StartSupervised i)))"

text \<open>StartSequential stops at the first error.\<close>

fun StartSequential ::
  "(start_env \<times> ready \<times> wait_env \<times> container_spec) list \<Rightarrow> sup \<Rightarrow> sup \<times> start_error option" where
  "StartSequential [] s = (s, None)"
| "StartSequential ((env, rdy, w, spec) # rest) s =
     (case Start env rdy w spec s of
        (s1, StartFailed e) \<Rightarrow> (s1, Some e)
      | (s1, _) \<Rightarrow> StartSequential rest s1)"

text \<open>RunAttached: \<open>ctxDone\<close> says that the caller went away before the run returned.\<close>

definition RunAttached :: "start_env \<Rightarrow> bool \<Rightarrow> container_spec \<Rightarrow> sup \<Rightarrow> sup \<times> start_result" where
  "RunAttached env ctxDone spec s =
     (let cid = cs_id spec; i = length (sup_entries s)
      in if sup_containers s cid \<noteq> None then (s, StartFailed (AlreadyRunning cid))
         else case startOnce i env (add_entry spec True s) of
                (s1, Inl e) \<Rightarrow>
                  (removeBundle (path_join [cfg_baseDir (sup_cfg s), ''bundles'', cid]) (drop_id cid s1), StartFailed e)
              | (s1, Inr True) \<Rightarrow>
                  (let s2 = removeBundle (e_bundleDir (entry_at s1 i)) (removePersistedState cid (drop_id cid s1))
                   in (if cs_autoRemove spec then removeLogs cid s2 else s2, StartCompleted))
              | (s1, Inr False) \<Rightarrow>
                  (let s2 = (if ctxDone then record_call (CrunKill cid ''KILL'') s1 else s1);
                       s3 = resetLogIO i (upd_entry i (\<lambda>e. e\<lparr>e_exited := Some True\<rparr>) s2)
                   in (finishExited i (record_call (CrunDelete cid True) (releaseNetAndOverlay cid s3)), StartCompleted)))"

section \<open>Stop, Kill, KillForRestart, Remove\<close>

text \<open>
  The operations that wait. \<open>st_others\<close> is what the other goroutines do to the state while the
  operation waits for the foreground run to end: the wait is where they are interleaved.
\<close>

record stop_env =
  st_kill :: crun_result
  st_kill2 :: crun_result
  st_others :: "sup \<Rightarrow> sup"
  st_closed :: bool
  st_closed2 :: bool
  st_wait :: wait_env

datatype stop_error = NotFound string | KillFails string | WaitFails string

definition set_stopped :: "nat \<Rightarrow> bool \<Rightarrow> sup \<Rightarrow> sup" where
  "set_stopped i b s = upd_entry i (\<lambda>e. e\<lparr>e_stopped := b\<rparr>) s"

definition stop_signal_name :: "container_spec \<Rightarrow> string" where
  "stop_signal_name spec =
     (case cs_imageConfig spec of
        Some cfg \<Rightarrow> if cc_stopSignal (ic_config cfg) \<noteq> [] then cc_stopSignal (ic_config cfg) else ''TERM''
      | None \<Rightarrow> ''TERM'')"

text \<open>The signals: the graceful one, and KILL when that failed for another reason than absence.\<close>

definition stop_signals :: "stop_env \<Rightarrow> nat \<Rightarrow> sup \<Rightarrow> sup \<times> stop_error option" where
  "stop_signals env i s =
     (let cid = id_at s i; s1 = record_call (CrunKill cid (stop_signal_name (e_spec (entry_at s i)))) s
      in case st_kill env of
           CrunFails _ \<Rightarrow>
             (let s2 = record_call (CrunKill cid ''KILL'') s1
              in case st_kill2 env of
                   CrunFails e \<Rightarrow> (set_stopped i False s2, Some (KillFails e))
                 | _ \<Rightarrow> (s2, None))
         | _ \<Rightarrow> (s1, None))"

definition stop_poll :: "wait_env \<Rightarrow> nat \<Rightarrow> sup \<Rightarrow> sup \<times> stop_error option" where
  "stop_poll w i s =
     (case waitStoppedOrForceDelete (id_at s i) w (resetLogIO i s) of
        (s1, Some e) \<Rightarrow> (set_stopped i False s1, Some (WaitFails e))
      | (s1, None) \<Rightarrow> (s1, None))"

definition stop_wait :: "stop_env \<Rightarrow> nat \<Rightarrow> bool \<Rightarrow> sup \<Rightarrow> sup \<times> stop_error option" where
  "stop_wait env i attached s =
     (let s1 = st_others env s
      in if attached \<and> st_closed env then (s1, None)
         else if attached then
           (let s2 = record_call (CrunKill (id_at s i) ''KILL'') s1
            in if st_closed2 env then (s2, None) else stop_poll (st_wait env) i s2)
         else stop_poll (st_wait env) i s1)"

definition Stop :: "stop_env \<Rightarrow> string \<Rightarrow> sup \<Rightarrow> sup \<times> stop_error option" where
  "Stop env cid s =
     (case sup_containers s cid of
        None \<Rightarrow> (s, Some (NotFound cid))
      | Some i \<Rightarrow>
          (case stop_signals env i (set_stopped i True s) of
             (s1, Some e) \<Rightarrow> (s1, Some e)
           | (s1, None) \<Rightarrow> stop_wait env i (e_exited (entry_at s1 i) \<noteq> None) s1))"

definition Kill :: "stop_env \<Rightarrow> string \<Rightarrow> string \<Rightarrow> sup \<Rightarrow> sup \<times> stop_error option" where
  "Kill env signal0 cid s =
     (let signal = (if signal0 = [] then ''KILL'' else signal0)
      in case sup_containers s cid of
           None \<Rightarrow> (s, Some (NotFound cid))
         | Some i \<Rightarrow>
             (let s1 = record_call (CrunKill cid signal) (set_stopped i True s)
              in case st_kill env of
                   CrunFails e \<Rightarrow> (set_stopped i False s1, Some (KillFails e))
                 | _ \<Rightarrow>
                    (let s2 = st_others env s1
                     in if e_exited (entry_at s1 i) \<noteq> None \<and> st_closed env then (s2, None)
                        else if e_exited (entry_at s1 i) \<noteq> None \<and> signal \<noteq> ''KILL'' \<and> signal \<noteq> ''9''
                        then (set_stopped i False s2, None)
                        else stop_poll (st_wait env) i s2)))"

definition KillForRestart :: "stop_env \<Rightarrow> string \<Rightarrow> sup \<Rightarrow> sup \<times> stop_error option" where
  "KillForRestart env cid s =
     (case sup_containers s cid of
        None \<Rightarrow> (s, Some (NotFound cid))
      | Some i \<Rightarrow>
          (let s1 = record_call (CrunKill cid ''KILL'') s
           in case st_kill env of
                CrunFails e \<Rightarrow> (s1, Some (KillFails e))
              | _ \<Rightarrow>
                 (let s2 = st_others env s1
                  in if e_exited (entry_at s1 i) \<noteq> None \<and> st_closed env then (s2, None)
                     else case waitStoppedOrForceDelete cid (st_wait env) (resetLogIO i s2) of
                            (s3, Some e) \<Rightarrow> (s3, Some (WaitFails e))
                          | (s3, None) \<Rightarrow> (s3, None))))"

definition remove_rest :: "string \<Rightarrow> nat \<Rightarrow> sup \<Rightarrow> sup" where
  "remove_rest cid i s =
     (let s1 = record_call (CrunDelete cid True) s
      in case sup_containers s1 cid of
           Some j \<Rightarrow> cleanup j (drop_id cid s1)
         | None \<Rightarrow> removePersistedState cid (removeBundle (e_bundleDir (entry_at s1 i)) (removeLogs cid s1)))"

definition Remove :: "stop_env \<Rightarrow> string \<Rightarrow> sup \<Rightarrow> sup \<times> stop_error option" where
  "Remove env cid s =
     (case sup_containers s cid of
        None \<Rightarrow> (s, Some (NotFound cid))
      | Some i \<Rightarrow> (remove_rest cid i (fst (Stop env cid s)), None))"

section \<open>supervise\<close>

text \<open>
  The goroutine of an entry waits for the exit of the container (\<open>SvWait\<close>), sleeps before a restart
  (\<open>SvBackoff\<close>) or before another attempt after a failed one (\<open>SvRetry\<close>), or has returned
  (\<open>SvDone\<close>). \<open>supervise_exit\<close> is the section from the exit to the decision, \<open>supervise_restart\<close>
  the section after the sleep.
\<close>

datatype sv_pc = SvWait | SvBackoff | SvRetry | SvDone

definition supervise_take :: "nat \<Rightarrow> sup \<Rightarrow> sup" where
  "supervise_take i s =
     (if e_runDone (entry_at s i)
      then upd_entry i (\<lambda>e. e\<lparr>e_runDone := False, e_exited := Some True\<rparr>) s else s)"

definition supervise_exit :: "nat \<Rightarrow> int \<Rightarrow> sup \<Rightarrow> sup \<times> sv_pc" where
  "supervise_exit i code s =
     (let cid = id_at s i;
          s1 = stopHealth i (supervise_take i s);
          s2 = releaseNetAndOverlay cid (resetLogIO i s1)
      in if e_stopped (entry_at s1 i) then
           (finishExited i (record_call (CrunDelete cid False) s2), SvDone)
         else if \<not> shouldRestart (e_spec (entry_at s1 i)) (e_restarts (entry_at s1 i)) code then
           (finishExited i (record_call (CrunDelete cid False) s2), SvDone)
         else (upd_entry i (\<lambda>e. e\<lparr>e_restarts := e_restarts e + 1\<rparr>) s2, SvBackoff))"

definition forget :: "nat \<Rightarrow> sup \<Rightarrow> sup" where
  "forget i s =
     (let cid = id_at s i in removeBundle (e_bundleDir (entry_at s i)) (removePersistedState cid (drop_id cid s)))"

definition supervise_restart :: "nat \<Rightarrow> start_env \<Rightarrow> sup \<Rightarrow> sup \<times> sv_pc" where
  "supervise_restart i env s =
     (case startOnce i env s of
        (s1, Inl e) \<Rightarrow> (s1, SvRetry)
      | (s1, Inr False) \<Rightarrow> (startHealthMonitor i s1, SvWait)
      | (s1, Inr True) \<Rightarrow>
          (if e_stopped (entry_at s1 i) then (forget i s1, SvDone)
           else if \<not> shouldRestart (e_spec (entry_at s1 i)) (e_restarts (entry_at s1 i)) 0 then (forget i s1, SvDone)
           else (upd_entry i (\<lambda>e. e\<lparr>e_restarts := e_restarts e + 1\<rparr>) s1, SvBackoff)))"

section \<open>Queries\<close>

definition IsBindSourceInUse :: "string \<Rightarrow> entry list \<Rightarrow> bool" where
  "IsBindSourceInUse dir0 es =
     (let dir = path_clean dir0
      in if dir = [] \<or> dir = ''.'' then False
         else list_ex (\<lambda>e. list_ex (\<lambda>m. path_clean (m_source m) = dir \<or>
                has_prefix (path_clean (m_source m)) (dir @ ''/'')) (cs_extraMounts (e_spec e))) es)"

definition ImageRefsInUse :: "entry list \<Rightarrow> string list" where
  "ImageRefsInUse es = remdups (filter (\<lambda>r. r \<noteq> []) (map (\<lambda>e. trim_space (cs_image (e_spec e))) es))"

end
