(* ===== verification/Native_Ipam.thy ===== *)
theory Native_Ipam
  imports Go_Net Supervisor "HOL-Library.AList"
begin

text \<open>
  The IPv4 allocator and the bridge configuration of the native network driver
  (src/internal/network/native/bridge.go). A lease is a file of the allocator's directory, named by
  the address in eight hexadecimal digits, with the container as its contents; the directory is an
  association list from names to contents, and os.ReadDir visits it in the order of the names.
\<close>

type_synonym dir = "(string, string) gomap"

section \<open>File names\<close>

definition hex_digit :: "nat \<Rightarrow> char" where
  "hex_digit d = char_of (if d < 10 then 48 + d else 87 + d)"

text \<open>\<open>%08x\<close>\<close>

definition hex8 :: "ip4 \<Rightarrow> string" where
  "hex8 w = map (\<lambda>i. hex_digit (unat w div 16 ^ i mod 16)) [7, 6, 5, 4, 3, 2, 1, 0]"

definition hex_val :: "char \<Rightarrow> nat option" where
  "hex_val c =
     (let n = of_char c :: nat
      in if 48 \<le> n \<and> n \<le> 57 then Some (n - 48)
         else if 97 \<le> n \<and> n \<le> 102 then Some (n - 87)
         else if 65 \<le> n \<and> n \<le> 70 then Some (n - 55)
         else None)"

text \<open>Sscanf with \<open>%08x\<close>: leading space, then at most eight digits; zero when there is none.\<close>

definition scan_hex8 :: "string \<Rightarrow> ip4" where
  "scan_hex8 s =
     word_of_nat (foldl (\<lambda>n c. 16 * n + the (hex_val c)) 0
       (takeWhile (\<lambda>c. hex_val c \<noteq> None) (take 8 (dropWhile is_space s))))"

lemma hex8_code [code]: "hex8 w = map (\<lambda>i. hex_digit (nat (uint w div 16 ^ i mod 16))) [7, 6, 5, 4, 3, 2, 1, 0]"
  using unat_digit [of w 16] by (simp add: hex8_def)

lemma scan_hex8_code [code]:
  "scan_hex8 s =
     word_of_int (foldl (\<lambda>n c. 16 * n + int (the (hex_val c))) 0
       (takeWhile (\<lambda>c. hex_val c \<noteq> None) (take 8 (dropWhile is_space s))))"
proof -
  have f: "foldl (\<lambda>n c. 16 * n + int (the (hex_val c))) (int m) cs = int (foldl (\<lambda>n c. 16 * n + the (hex_val c)) m cs)" for m cs
  proof (induction cs arbitrary: m)
    case (Cons c cs)
    from Cons [of "16 * m + the (hex_val c)"] show ?case by simp
  qed simp
  show ?thesis unfolding scan_hex8_def using f [of 0] by simp
qed

section \<open>The allocator\<close>

record ipam =
  ia_subnet :: cidr
  ia_gwU :: ip4
  ia_baseU :: ip4
  ia_bcU :: ip4

datatype ipam_error =
    IpamDir string | IpamCidr string | IpamGateway string | GatewayOutside string string
  | IpamWrite string | IpamExhausted | IpamRead string | IpamRemove string

text \<open>newIPAM: the directory is created first (\<open>mkdir\<close>).\<close>

definition newIPAM :: "string option \<Rightarrow> string \<Rightarrow> string \<Rightarrow> ipam_error + ipam" where
  "newIPAM mkdir cidr gwStr =
     (case mkdir of
        Some e \<Rightarrow> Inl (IpamDir e)
      | None \<Rightarrow> (case parse_cidr cidr of
          None \<Rightarrow> Inl (IpamCidr cidr)
        | Some (_, subnet) \<Rightarrow> (case parse_ip4 (trim_space gwStr) of
            None \<Rightarrow> Inl (IpamGateway gwStr)
          | Some gwU \<Rightarrow>
              (let base = cidr_base subnet; broadcast = base OR NOT (mask_of (cidr_ones subnet))
               in if gwU \<le> base \<or> broadcast \<le> gwU then Inl (GatewayOutside gwStr cidr)
                  else Inr \<lparr>ia_subnet = subnet, ia_gwU = gwU, ia_baseU = base, ia_bcU = broadcast\<rparr>))))"

definition readDir :: "dir \<Rightarrow> dir" where
  "readDir d = sort_key fst d"

definition usedSet :: "dir \<Rightarrow> ip4 list" where
  "usedSet d = filter (\<lambda>v. v \<noteq> 0) (map (scan_hex8 \<circ> fst) (readDir d))"

text \<open>The search for a free address.\<close>

lemma unat_step: "(w :: ip4) < v \<Longrightarrow> unat (w + 1) = unat w + 1"
  using unsigned_less [of v, where 'a = nat] by (simp add: unat_word_ariths word_less_nat_alt)

function free_from :: "ipam \<Rightarrow> ip4 list \<Rightarrow> ip4 \<Rightarrow> ip4 option" where
  "free_from a used cand =
     (if cand < ia_bcU a then
        if cand = ia_gwU a \<or> cand \<in> set used then free_from a used (cand + 1) else Some cand
      else None)"
  by auto
termination
proof (relation "measure (\<lambda>(a, used, cand). unat (ia_bcU a) - unat cand)")
  fix a :: ipam and used and cand :: ip4
  assume c: "cand < ia_bcU a"
  from unat_step [OF c] c show "((a, used, cand + 1), (a, used, cand)) \<in> measure (\<lambda>(a, used, cand). unat (ia_bcU a) - unat cand)"
    by (simp add: word_less_nat_alt)
qed simp

declare free_from.simps [simp del]

text \<open>allocate: \<open>wr\<close> is the error of writing the lease file of that name.\<close>

definition allocate :: "(string \<Rightarrow> string option) \<Rightarrow> ipam \<Rightarrow> string \<Rightarrow> dir \<Rightarrow> dir \<times> (ipam_error + string)" where
  "allocate wr a cid d =
     (case free_from a (usedSet d) (ia_baseU a + 1) of
        None \<Rightarrow> (d, Inl IpamExhausted)
      | Some cand \<Rightarrow>
          (case wr (hex8 cand) of
             Some e \<Rightarrow> (d, Inl (IpamWrite e))
           | None \<Rightarrow> (AList.update (hex8 cand) cid d, Inr (ip4_string cand))))"

text \<open>release removes the first file of the container; \<open>unreadable\<close> names the files that cannot be read.\<close>

definition release ::
  "string option \<Rightarrow> (string \<Rightarrow> bool) \<Rightarrow> (string \<Rightarrow> string option) \<Rightarrow> string \<Rightarrow> dir \<Rightarrow> dir \<times> ipam_error option" where
  "release readErr unreadable remove cid d =
     (case readErr of
        Some e \<Rightarrow> (d, Some (IpamRead e))
      | None \<Rightarrow>
          (case find (\<lambda>(name, c). \<not> unreadable name \<and> c = cid) (readDir d) of
             None \<Rightarrow> (d, None)
           | Some (name, _) \<Rightarrow>
               (case remove name of
                  Some e \<Rightarrow> (d, Some (IpamRemove e))
                | None \<Rightarrow> (AList.delete name d, None))))"

section \<open>File names are a bijection\<close>

lemma of_char_hex_digit: "d < 16 \<Longrightarrow> (of_char (hex_digit d) :: nat) = (if d < 10 then 48 + d else 87 + d)"
  by (simp add: hex_digit_def)

lemma hex_val_digit [simp]: "d < 16 \<Longrightarrow> hex_val (hex_digit d) = Some d"
  unfolding hex_val_def by (simp add: of_char_hex_digit)

lemma hex_digits_val:
  "foldl (\<lambda>n c. 16 * n + the (hex_val c)) m (map (\<lambda>i. hex_digit (n div 16 ^ i mod 16)) (rev [0..<k])) =
     16 ^ k * m + n mod 16 ^ k"
proof (induction k arbitrary: m)
  case (Suc k)
  have "n mod 16 ^ Suc k = 16 ^ k * (n div 16 ^ k mod 16) + n mod 16 ^ k"
    using mod_mult2_eq [of n "16 ^ k" 16] by (simp add: mult.commute)
  with Suc show ?case by (simp add: algebra_simps)
qed simp

lemma scan_hex8_hex8 [simp]: "scan_hex8 (hex8 w) = w"
proof -
  have "\<not> is_space (hex_digit (unat w div 16 ^ 7 mod 16))"
    using of_char_hex_digit [of "unat w div 16 ^ 7 mod 16"] by (simp add: is_space_def Let_def)
  then have dw: "dropWhile is_space (hex8 w) = hex8 w" by (simp add: hex8_def)
  have tw: "takeWhile (\<lambda>c. hex_val c \<noteq> None) (hex8 w) = hex8 w" by (simp add: hex8_def)
  have tk: "take 8 (hex8 w) = hex8 w" by (simp add: hex8_def)
  have fo: "foldl (\<lambda>n c. 16 * n + the (hex_val c)) 0 (hex8 w) = unat w"
  proof -
    have "rev [0..<8] = [7, 6, 5, 4, 3, 2, 1, 0 :: nat]" by code_simp
    moreover have "unat w < 16 ^ 8" using unsigned_less [of w, where 'a = nat] by simp
    ultimately show ?thesis using hex_digits_val [of 0 "unat w" 8] by (simp add: hex8_def)
  qed
  show ?thesis unfolding scan_hex8_def dw tk tw fo by simp
qed

lemma hex8_inject [simp]: "hex8 v = hex8 w \<longleftrightarrow> v = w"
  by (metis scan_hex8_hex8)

section \<open>Address pools\<close>

text \<open>
  What the driver needs of an allocator: a view of its leases, the usable addresses, an operation
  that leases a free one and an operation that gives a lease of a container back.
\<close>

locale address_pool =
  fixes inv :: "'s \<Rightarrow> bool"
    and leases :: "'s \<Rightarrow> ip4 \<Rightarrow> string option"
    and usable :: "ip4 set"
    and take_address :: "string \<Rightarrow> 's \<Rightarrow> 's \<times> (ipam_error + string)"
    and give_back :: "string \<Rightarrow> 's \<Rightarrow> 's \<times> ipam_error option"
  assumes take_inv: "inv s \<Longrightarrow> take_address cid s = (s', r) \<Longrightarrow> inv s'"
    and take_ok: "inv s \<Longrightarrow> take_address cid s = (s', Inr ip) \<Longrightarrow>
      \<exists>w \<in> usable. ip = ip4_string w \<and> leases s w = None \<and> leases s' = (leases s)(w \<mapsto> cid)"
    and take_fails: "inv s \<Longrightarrow> take_address cid s = (s', Inl e) \<Longrightarrow> leases s' = leases s"
    and give_inv: "inv s \<Longrightarrow> give_back cid s = (s', q) \<Longrightarrow> inv s'"
    and give_ok: "inv s \<Longrightarrow> give_back cid s = (s', None) \<Longrightarrow>
      if Some cid \<in> range (leases s) then \<exists>w. leases s w = Some cid \<and> leases s' = (leases s)(w := None)
      else leases s' = leases s"
    and give_fails: "inv s \<Longrightarrow> give_back cid s = (s', Some e) \<Longrightarrow> leases s' = leases s"
begin

lemma take_give:
  assumes "inv s" and "Some cid \<notin> range (leases s)"
    and "take_address cid s = (s1, Inr ip)" and "give_back cid s1 = (s2, None)"
  shows "inv s2" and "leases s2 = leases s"
proof -
  obtain w where w: "leases s w = None" "leases s1 = (leases s)(w \<mapsto> cid)"
    using take_ok [OF assms(1,3)] by blast
  have "inv s1" by (rule take_inv [OF assms(1,3)])
  then show "inv s2" by (rule give_inv [OF _ assms(4)])
  have "Some cid \<in> range (leases s1)" using w(2) by (metis fun_upd_same rangeI)
  then obtain v where v: "leases s1 v = Some cid" "leases s2 = (leases s1)(v := None)"
    using give_ok [OF \<open>inv s1\<close> assms(4)] by auto
  have "v = w"
  proof (rule ccontr)
    assume "v \<noteq> w"
    with v(1) w(2) have "leases s v = Some cid" by simp
    with assms(2) show False by (metis rangeI)
  qed
  with v(2) w show "leases s2 = leases s" by auto
qed

text \<open>Any sequence of the two operations, with whatever outcome.\<close>

definition pool_op :: "'s \<Rightarrow> bool \<times> string \<Rightarrow> 's" where
  "pool_op s x = (case x of (True, cid) \<Rightarrow> fst (take_address cid s) | (False, cid) \<Rightarrow> fst (give_back cid s))"

lemma pool_op_kept:
  assumes "inv s" and "dom (leases s) \<subseteq> usable"
  shows "inv (pool_op s x) \<and> dom (leases (pool_op s x)) \<subseteq> usable"
proof (cases x)
  case (Pair b cid)
  show ?thesis
  proof (cases b)
    case True
    obtain s' r where t: "take_address cid s = (s', r)" by (cases "take_address cid s")
    have "dom (leases s') \<subseteq> usable"
    proof (cases r)
      case (Inl e)
      with t take_fails [OF assms(1), of cid s' e] assms(2) show ?thesis by simp
    next
      case (Inr ip)
      with t obtain w where "w \<in> usable" "leases s' = (leases s)(w \<mapsto> cid)" using take_ok [OF assms(1)] by blast
      with assms(2) show ?thesis by simp
    qed
    with t take_inv [OF assms(1) t] Pair True show ?thesis by (simp add: pool_op_def)
  next
    case False
    obtain s' r where t: "give_back cid s = (s', r)" by (cases "give_back cid s")
    have "dom (leases s') \<subseteq> dom (leases s)"
    proof (cases r)
      case None
      with t give_ok [OF assms(1), of cid s'] show ?thesis by (auto split: if_splits)
    next
      case (Some e)
      with t give_fails [OF assms(1), of cid s' e] show ?thesis by simp
    qed
    with t give_inv [OF assms(1) t] Pair False assms(2) show ?thesis by (auto simp: pool_op_def)
  qed
qed

lemma pool_run:
  "inv s \<Longrightarrow> dom (leases s) \<subseteq> usable \<Longrightarrow>
     inv (foldl pool_op s xs) \<and> dom (leases (foldl pool_op s xs)) \<subseteq> usable"
proof (induction xs arbitrary: s)
  case (Cons x xs)
  from pool_op_kept [OF Cons.prems, of x] Cons.IH show ?case by simp
qed simp

end

section \<open>The directory is a pool\<close>

definition hosts :: "ipam \<Rightarrow> ip4 set" where
  "hosts a = {w. ia_baseU a < w \<and> w < ia_bcU a \<and> w \<noteq> ia_gwU a}"

definition dir_leases :: "dir \<Rightarrow> ip4 \<Rightarrow> string option" where
  "dir_leases d w = map_of d (hex8 w)"

text \<open>Distinct names, each the name of a usable address.\<close>

definition dir_ok :: "ipam \<Rightarrow> dir \<Rightarrow> bool" where
  "dir_ok a d \<longleftrightarrow> distinct (map fst d) \<and> fst ` set d \<subseteq> hex8 ` hosts a"

definition ipam_ok :: "ipam \<Rightarrow> bool" where
  "ipam_ok a \<longleftrightarrow> ia_baseU a < ia_gwU a \<and> ia_gwU a < ia_bcU a"

lemma newIPAM_ok: "newIPAM mkdir cidr gw = Inr a \<Longrightarrow> ipam_ok a"
  by (auto simp: newIPAM_def ipam_ok_def Let_def not_le split: option.splits if_splits)

lemma host_nonzero: "w \<in> hosts a \<Longrightarrow> w \<noteq> 0"
  by (auto simp: hosts_def)

lemma set_readDir [simp]: "set (readDir d) = set d"
  by (simp add: readDir_def)

lemma usedSet_iff:
  assumes "dir_ok a d" and "w \<in> hosts a"
  shows "w \<in> set (usedSet d) \<longleftrightarrow> dir_leases d w \<noteq> None"
proof -
  have "name = hex8 w" if "name \<in> fst ` set d" "scan_hex8 name = w" for name
    using that assms(1) by (auto simp: dir_ok_def)
  moreover have "dir_leases d w \<noteq> None \<longleftrightarrow> hex8 w \<in> fst ` set d"
    by (simp add: dir_leases_def map_of_eq_None_iff)
  ultimately show ?thesis
    using host_nonzero [OF assms(2)] by (force simp: usedSet_def)
qed

lemma step_le: "(c :: ip4) < b \<Longrightarrow> c + 1 \<le> v \<longleftrightarrow> c < v"
  using unat_step [of c b] by (auto simp: word_le_nat_alt word_less_nat_alt)

lemma free_from_Some:
  "free_from a used c = Some w \<Longrightarrow>
     c \<le> w \<and> w < ia_bcU a \<and> w \<noteq> ia_gwU a \<and> w \<notin> set used \<and> (\<forall>v. c \<le> v \<and> v < w \<longrightarrow> v = ia_gwU a \<or> v \<in> set used)"
proof (induction a used c rule: free_from.induct)
  case (1 a used c)
  from "1.prems" have c: "c < ia_bcU a" by (subst (asm) free_from.simps) (simp split: if_splits)
  show ?case
  proof (cases "c = ia_gwU a \<or> c \<in> set used")
    case True
    with "1.prems" c have "free_from a used (c + 1) = Some w" by (subst (asm) free_from.simps) simp
    from "1.IH" [OF c True this] have IH: "c + 1 \<le> w" "w < ia_bcU a" "w \<noteq> ia_gwU a" "w \<notin> set used"
      "\<And>v. c + 1 \<le> v \<Longrightarrow> v < w \<Longrightarrow> v = ia_gwU a \<or> v \<in> set used" by auto
    have le: "c + 1 \<le> v \<longleftrightarrow> c < v" for v by (rule step_le [OF c])
    have "v = ia_gwU a \<or> v \<in> set used" if "c \<le> v" "v < w" for v
      using True IH(5) [of v] that le by (cases "v = c") auto
    with IH le show ?thesis by auto
  next
    case False
    with "1.prems" c have "c = w" by (subst (asm) free_from.simps) simp
    with False c show ?thesis by auto
  qed
qed

lemma free_from_None:
  "free_from a used c = None \<Longrightarrow> c \<le> v \<Longrightarrow> v < ia_bcU a \<Longrightarrow> v = ia_gwU a \<or> v \<in> set used"
proof (induction a used c rule: free_from.induct)
  case (1 a used c)
  then have c: "c < ia_bcU a" by simp
  with "1.prems"(1) have used: "c = ia_gwU a \<or> c \<in> set used" and "free_from a used (c + 1) = None"
    by (simp_all add: free_from.simps [of a used c] split: if_splits)
  moreover have "v = c \<or> c + 1 \<le> v" using "1.prems"(2) step_le [OF c, of v] by auto
  ultimately show ?case using "1.IH" [OF c] "1.prems"(3) by blast
qed

lemma first_host: "ipam_ok a \<Longrightarrow> ia_baseU a + 1 \<le> w \<longleftrightarrow> ia_baseU a < w"
  by (rule step_le) (auto simp: ipam_ok_def)

lemma free_host:
  assumes "ipam_ok a" and "free_from a used (ia_baseU a + 1) = Some w"
  shows "w \<in> hosts a" "w \<notin> set used"
  using free_from_Some [OF assms(2)] first_host [OF assms(1), of w] by (simp_all add: hosts_def)

lemma leases_update [simp]: "dir_leases (AList.update (hex8 w) cid d) = (dir_leases d)(w \<mapsto> cid)"
  by (rule ext) (simp add: dir_leases_def AList.update_conv')

lemma leases_delete: "dir_leases (AList.delete (hex8 w) d) = (dir_leases d)(w := None)"
  by (rule ext) (simp add: dir_leases_def AList.delete_conv')

interpretation pool: address_pool "\<lambda>d. ipam_ok a \<and> dir_ok a d" dir_leases "hosts a"
  "allocate wr a" "release readErr (\<lambda>_. False) remove"
  for a and wr and readErr and remove
proof (unfold_locales, goal_cases)
  case (1 d cid d' r)
  show ?case
  proof (cases "free_from a (usedSet d) (ia_baseU a + 1)")
    case (Some w)
    have "dir_ok a (AList.update (hex8 w) cid d)"
      using 1 free_host [OF _ Some]
      by (auto simp: dir_ok_def distinct_update dom_update)
    with 1 Some show ?thesis by (auto simp: allocate_def split: option.splits)
  qed (use 1 in \<open>simp add: allocate_def\<close>)
next
  case (2 d cid d' ip)
  then obtain w where w: "free_from a (usedSet d) (ia_baseU a + 1) = Some w"
    "ip = ip4_string w" "d' = AList.update (hex8 w) cid d"
    by (auto simp: allocate_def split: option.splits)
  from free_host [OF _ w(1)] 2 usedSet_iff [of a d w] have "w \<in> hosts a" "dir_leases d w = None" by auto
  with w show ?case by auto
next
  case (3 d cid d' e)
  then show ?case by (auto simp: allocate_def split: option.splits)
next
  case (4 d cid d' r)
  have "dir_ok a (AList.delete name d)" for name
  proof -
    have "map fst (AList.delete name d) = filter (\<lambda>n. n \<noteq> name) (map fst d)"
      by (simp add: AList.delete_eq filter_map comp_def split_def eq_commute)
    then have "distinct (map fst (AList.delete name d))" using 4(1) by (simp add: dir_ok_def)
    moreover have "set (AList.delete name d) \<subseteq> set d" by (auto simp: AList.delete_eq)
    ultimately show ?thesis using 4(1) unfolding dir_ok_def by blast
  qed
  with 4 show ?case by (auto simp: release_def split: option.splits)
next
  case (5 d cid d')
  show ?case
  proof (cases "find (\<lambda>(name, c). c = cid) (readDir d)")
    case None
    then have "Some cid \<notin> range (dir_leases d)"
      by (auto simp: find_None_iff dir_leases_def dest!: map_of_SomeD sym [of "Some cid"])
    moreover have "d' = d" using 5 None by (simp add: release_def split: option.splits)
    ultimately show ?thesis by simp
  next
    case (Some x)
    obtain name where x: "x = (name, cid)" "(name, cid) \<in> set d"
      using Some by (auto simp: find_Some_iff) (metis nth_mem set_readDir)
    then obtain w where w: "name = hex8 w" using 5(1) by (force simp: dir_ok_def)
    have "dir_leases d w = Some cid" using x(2) w 5(1) by (simp add: dir_leases_def dir_ok_def)
    moreover have "d' = AList.delete name d" using 5(2) Some x(1) by (simp add: release_def split: option.splits)
    ultimately show ?thesis using w leases_delete by (metis rangeI)
  qed
next
  case (6 d cid d' e)
  then show ?case by (auto simp: release_def split: option.splits)
qed

section \<open>Properties\<close>


definition demo_ipam :: ipam where
  "demo_ipam = \<lparr>ia_subnet = \<lparr>cidr_base = 0x0A590000, cidr_ones = 30\<rparr>, ia_gwU = 0x0A590001, ia_baseU = 0x0A590000,
     ia_bcU = 0x0A590003\<rparr>"

lemma demo_newIPAM: "newIPAM None ''10.89.0.0/30'' ''10.89.0.1'' = Inr demo_ipam"
  by code_simp




end
