(* ===== verification/Native_Nft.thy ===== *)
theory Native_Nft
  imports Native_Ipam "HOL-Library.Monad_Syntax"
begin

text \<open>
  The packet filter rules of the native network driver (src/internal/network/native/nft_helpers.go
  and bridge.go). The rules are kept by the nft program, which is not part of nyxd: it is the record
  \<open>nft\<close> of its observable answers on a kernel state of any type, and the functions here are the code
  that builds its command lines, reads its listings and loops over them.
\<close>

record 'k nft =
  nft_init :: "string option"
  nft_filter_init :: "string option"
  nft_output_chain :: "string option"
  nft_list :: "'k \<Rightarrow> string \<Rightarrow> string \<Rightarrow> string + string"
  nft_run :: "'k \<Rightarrow> string \<Rightarrow> 'k \<times> string option"

section \<open>Names and texts\<close>

text \<open>The comments carry the first digits of the SHA-256 of the container id; \<open>sha\<close> gives the digest in
  hexadecimal.\<close>

definition portmapCommentPrefix :: "(string \<Rightarrow> string) \<Rightarrow> string \<Rightarrow> string" where
  "portmapCommentPrefix sha cid = ''nyxdpm-'' @ take 24 (sha cid)"

definition internalEgressCommentPrefix :: "(string \<Rightarrow> string) \<Rightarrow> string \<Rightarrow> string" where
  "internalEgressCommentPrefix sha cid = ''nyxdint-'' @ take 24 (sha (''internal:'' @ cid))"

text \<open>strconv.Quote and \<open>%q\<close> on printable ASCII.\<close>

definition go_quote :: "string \<Rightarrow> string" where
  "go_quote s = CHR 0x22 # concat (map (\<lambda>c. if c = CHR 0x22 \<or> c = CHR 0x5C then [CHR 0x5C, c] else [c]) s) @ [CHR 0x22]"

section \<open>Reading the listing\<close>

definition nftListChainLines :: "'k nft \<Rightarrow> 'k \<Rightarrow> string \<Rightarrow> string \<Rightarrow> string + string list" where
  "nftListChainLines N k table chain =
     (case nft_list N k table chain of
        Inl e \<Rightarrow> Inl e
      | Inr out \<Rightarrow> Inr (filter (\<lambda>ln. ln \<noteq> []) (map trim_space (split_on (CHR 0x0A) out))))"

text \<open>The regular expression \<open>#\s*handle\s+(\d+)\s*$\<close>: the leftmost match.\<close>

definition re_space :: "char \<Rightarrow> bool" where
  "re_space c \<longleftrightarrow> c \<in> {CHR 0x09, CHR 0x0A, CHR 0x0C, CHR 0x0D, CHR 0x20}"

definition handle_here :: "string \<Rightarrow> string option" where
  "handle_here s =
     (if \<not> has_prefix s ''#'' then None
      else let s1 = dropWhile re_space (tl s)
           in if \<not> has_prefix s1 ''handle'' then None
              else let s2 = drop 6 s1; s3 = dropWhile re_space s2; ds = takeWhile is_digit s3
                   in if s3 = s2 \<or> ds = [] \<or> dropWhile re_space (drop (length ds) s3) \<noteq> [] then None
                      else Some ds)"

fun handle_suffix :: "string \<Rightarrow> string option" where
  "handle_suffix [] = None"
| "handle_suffix (c # s) = (case handle_here (c # s) of Some ds \<Rightarrow> Some ds | None \<Rightarrow> handle_suffix s)"

definition parseHandle :: "string \<Rightarrow> nat option" where
  "parseHandle line = (case handle_suffix line of None \<Rightarrow> None | Some ds \<Rightarrow> parse_uint 64 ds)"

section \<open>Running commands\<close>

definition runNft :: "'k nft \<Rightarrow> string \<Rightarrow> 'k \<Rightarrow> 'k \<times> string option" where
  "runNft N rule k = (case nft_init N of Some e \<Rightarrow> (k, Some e) | None \<Rightarrow> nft_run N k rule)"

definition tryEnsureNATOutputChain :: "'k nft \<Rightarrow> string option" where
  "tryEnsureNATOutputChain N =
     (case nft_init N of
        Some e \<Rightarrow> Some e
      | None \<Rightarrow> (case nft_output_chain N of
          None \<Rightarrow> None
        | Some out \<Rightarrow>
            (let s = to_lower (trim_space out)
             in if contains s ''file exists'' \<or> contains s ''exists'' then None else Some (trim_space out))))"

text \<open>Every rule runs; the errors are collected.\<close>

fun run_all :: "'k nft \<Rightarrow> string list \<Rightarrow> 'k \<Rightarrow> 'k \<times> string list" where
  "run_all N [] k = (k, [])"
| "run_all N (r # rs) k =
     (case runNft N r k of (k1, e) \<Rightarrow>
        (case run_all N rs k1 of (k2, es) \<Rightarrow> (k2, (case e of None \<Rightarrow> es | Some x \<Rightarrow> x # es))))"

section \<open>Port mappings\<close>

definition dnat_rule :: "string \<Rightarrow> string \<Rightarrow> string \<Rightarrow> port_mapping \<Rightarrow> string \<Rightarrow> string" where
  "dnat_rule chain proto ip p comment =
     ''nft add rule ip nyxd-nat '' @ chain @ '' '' @ proto @ '' dport '' @ itoa (pm_host p) @ '' dnat to '' @ ip @ '':'' @
     itoa (pm_container p) @ '' comment '' @ go_quote comment"

definition portmap_rules :: "string \<Rightarrow> string \<Rightarrow> port_mapping \<Rightarrow> string list" where
  "portmap_rules tag ip p =
     (let proto = (if pm_protocol p = [] then ''tcp'' else pm_protocol p); pre = tag @ ''-p'' @ itoa (pm_host p)
      in [dnat_rule ''prerouting'' proto ip p (pre @ ''-0''),
          dnat_rule ''output'' proto ip p (pre @ ''-1''),
          ''nft add rule ip nyxd-nat postrouting ip daddr '' @ ip @ '' '' @ proto @ '' dport '' @ itoa (pm_container p) @
          '' masquerade comment '' @ go_quote (pre @ ''-2'')])"

definition addPortMappings ::
  "(string \<Rightarrow> string) \<Rightarrow> 'k nft \<Rightarrow> string \<Rightarrow> string \<Rightarrow> port_mapping list \<Rightarrow> 'k \<Rightarrow> 'k \<times> string list" where
  "addPortMappings sha N cid ip ports k =
     (case tryEnsureNATOutputChain N of
        Some e \<Rightarrow> (k, [e])
      | None \<Rightarrow> run_all N (concat (map (portmap_rules (portmapCommentPrefix sha cid) ip) ports)) k)"

text \<open>The handles of the lines that mention the prefix, and the loop that deletes the highest until none
  is left. The loop has no bound of its own: it is a partial function, with \<open>None\<close> when it does not end.\<close>

fun handles_with :: "string \<Rightarrow> string list \<Rightarrow> nat list" where
  "handles_with pre [] = []"
| "handles_with pre (ln # lines) =
     (if contains ln pre then (case parseHandle ln of Some h \<Rightarrow> h # handles_with pre lines | None \<Rightarrow> handles_with pre lines)
      else handles_with pre lines)"

definition delete_rule :: "string \<Rightarrow> string \<Rightarrow> nat \<Rightarrow> string" where
  "delete_rule table chain h = ''nft delete rule ip '' @ table @ '' '' @ chain @ '' handle '' @ itoa_nat h"

partial_function (option) nftDeleteRulesWithCommentPrefix ::
  "'k nft \<Rightarrow> string \<Rightarrow> string \<Rightarrow> string \<Rightarrow> 'k \<Rightarrow> ('k \<times> string option) option" where
  [code]: "nftDeleteRulesWithCommentPrefix N table chain pre k =
     (case nftListChainLines N k table chain of
        Inl e \<Rightarrow> Some (k, Some e)
      | Inr lines \<Rightarrow>
          (case rev (sort (handles_with pre lines)) of
             [] \<Rightarrow> Some (k, None)
           | h # _ \<Rightarrow>
               (case runNft N (delete_rule table chain h) k of
                  (k1, Some e) \<Rightarrow> Some (k1, Some e)
                | (k1, None) \<Rightarrow> nftDeleteRulesWithCommentPrefix N table chain pre k1)))"

fun delete_chains :: "'k nft \<Rightarrow> string \<Rightarrow> string list \<Rightarrow> string \<Rightarrow> 'k \<Rightarrow> ('k \<times> string list) option" where
  "delete_chains N table [] pre k = Some (k, [])"
| "delete_chains N table (c # cs) pre k =
     (case nftDeleteRulesWithCommentPrefix N table c pre k of
        None \<Rightarrow> None
      | Some (k1, e) \<Rightarrow>
          (case delete_chains N table cs pre k1 of
             None \<Rightarrow> None
           | Some (k2, es) \<Rightarrow> Some (k2, (case e of None \<Rightarrow> es | Some x \<Rightarrow> x # es))))"

definition removePortMappings :: "(string \<Rightarrow> string) \<Rightarrow> 'k nft \<Rightarrow> string \<Rightarrow> 'k \<Rightarrow> ('k \<times> string list) option" where
  "removePortMappings sha N cid k =
     delete_chains N ''nyxd-nat'' [''prerouting'', ''output'', ''postrouting''] (portmapCommentPrefix sha cid) k"

section \<open>Egress of internal networks\<close>

definition addInternalEgressBlock ::
  "(string \<Rightarrow> string) \<Rightarrow> 'k nft \<Rightarrow> string \<Rightarrow> string \<Rightarrow> string \<Rightarrow> 'k \<Rightarrow> 'k \<times> string option" where
  "addInternalEgressBlock sha N cid ip cidr k =
     (case nft_filter_init N of
        Some e \<Rightarrow> (k, Some e)
      | None \<Rightarrow>
          if parse_cidr cidr = None then (k, Some (''internal filter: subnet '' @ go_quote cidr))
          else nft_run N k (''nft add rule ip nyxd-filter forward ip saddr '' @ ip @ '' ip daddr != '' @ cidr @
                 '' drop comment '' @ go_quote (internalEgressCommentPrefix sha cid @ ''-e0'')))"

definition removeInternalEgressBlock :: "(string \<Rightarrow> string) \<Rightarrow> 'k nft \<Rightarrow> string \<Rightarrow> 'k \<Rightarrow> ('k \<times> string option) option" where
  "removeInternalEgressBlock sha N cid k =
     (case nftDeleteRulesWithCommentPrefix N ''nyxd-filter'' ''forward'' (internalEgressCommentPrefix sha cid) k of
        None \<Rightarrow> None
      | Some (k1, None) \<Rightarrow> Some (k1, None)
      | Some (k1, Some e) \<Rightarrow>
          (let s = to_lower e
           in if contains s ''could not find'' \<or> contains s ''no such file'' \<or> contains s ''does not exist''
              then Some (k1, None) else Some (k1, Some e)))"

section \<open>Bridges\<close>

record bridge_conf =
  bc_bridge :: string
  bc_subnet :: string
  bc_gateway :: string

definition BridgeName :: string where "BridgeName = ''nyxbr0''"

definition egressNATCommentFor :: "bridge_conf \<Rightarrow> string" where
  "egressNATCommentFor conf =
     (if bc_bridge conf = BridgeName then ''nyxd-container-egress'' else ''nyxd-container-egress-'' @ bc_bridge conf)"

definition egress_rule :: "bridge_conf \<Rightarrow> string" where
  "egress_rule conf =
     ''nft add rule ip nyxd-nat postrouting ip saddr '' @ bc_subnet conf @ '' oifname != '' @ go_quote (bc_bridge conf) @
     '' masquerade comment '' @ go_quote (egressNATCommentFor conf)"

definition ensureContainerEgressNAT :: "'k nft \<Rightarrow> bridge_conf \<Rightarrow> 'k \<Rightarrow> 'k \<times> string option" where
  "ensureContainerEgressNAT N conf k =
     (case nft_init N of
        Some e \<Rightarrow> (k, Some e)
      | None \<Rightarrow>
          if parse_cidr (bc_subnet conf) = None then (k, Some (''egress nat: subnet '' @ go_quote (bc_subnet conf)))
          else (case nftListChainLines N k ''nyxd-nat'' ''postrouting'' of
                  Inl e \<Rightarrow> (k, Some e)
                | Inr lines \<Rightarrow>
                    if list_ex (\<lambda>ln. contains ln (egressNATCommentFor conf)) lines then (k, None)
                    else (case nft_run N k (egress_rule conf) of
                            (k1, None) \<Rightarrow> (k1, None)
                          | (k1, Some e) \<Rightarrow>
                              (let s = to_lower e
                               in if contains s ''file exists'' \<or> contains s ''exists'' then (k1, None) else (k1, Some e)))))"

definition iso_comment :: "string \<times> string \<Rightarrow> string" where
  "iso_comment p = ''nyxd-bridge-iso-'' @ fst p @ ''-'' @ snd p"

definition iso_rule :: "string \<times> string \<Rightarrow> string" where
  "iso_rule p =
     ''nft add rule ip nyxd-filter forward iifname '' @ go_quote (fst p) @ '' oifname '' @ go_quote (snd p) @
     '' drop comment '' @ go_quote (iso_comment p)"

text \<open>One pass over the ordered pairs with the other bridges; a listing that fails ends it, a rule that
  fails does not.\<close>

fun isolate :: "'k nft \<Rightarrow> (string \<times> string) list \<Rightarrow> 'k \<Rightarrow> 'k" where
  "isolate N [] k = k"
| "isolate N (p # ps) k =
     (case nftListChainLines N k ''nyxd-filter'' ''forward'' of
        Inl e \<Rightarrow> k
      | Inr lines \<Rightarrow>
          if list_ex (\<lambda>ln. contains ln (iso_comment p)) lines then isolate N ps k
          else isolate N ps (fst (nft_run N k (iso_rule p))))"

definition ensureBridgeIsolation :: "'k nft \<Rightarrow> string list \<Rightarrow> bridge_conf \<Rightarrow> 'k \<Rightarrow> 'k" where
  "ensureBridgeIsolation N ready conf k =
     (case nft_filter_init N of
        Some e \<Rightarrow> k
      | None \<Rightarrow>
          isolate N (concat (map (\<lambda>other. [(bc_bridge conf, other), (other, bc_bridge conf)])
            (filter (\<lambda>name. name \<noteq> bc_bridge conf) ready))) k)"

section \<open>The deletion loop ends\<close>

text \<open>What the loop relies on of nft: a delete that succeeds removes the line of that handle and keeps the
  others.\<close>

definition delete_removes :: "'k nft \<Rightarrow> string \<Rightarrow> string \<Rightarrow> bool" where
  "delete_removes N table chain \<longleftrightarrow>
     (\<forall>k k1 h lines. runNft N (delete_rule table chain h) k = (k1, None) \<longrightarrow>
        nftListChainLines N k table chain = Inr lines \<longrightarrow>
        nftListChainLines N k1 table chain = Inr (filter (\<lambda>ln. parseHandle ln \<noteq> Some h) lines))"

lemma handles_with_iff:
  "h \<in> set (handles_with pre lines) \<longleftrightarrow> (\<exists>ln \<in> set lines. contains ln pre \<and> parseHandle ln = Some h)"
  by (induction lines) (auto split: option.splits)

lemma handles_with_filter:
  "handles_with pre (filter (\<lambda>ln. parseHandle ln \<noteq> Some h) lines) = filter (\<lambda>x. x \<noteq> h) (handles_with pre lines)"
  by (induction lines) (auto split: option.splits)

lemma delete_loop_ends:
  assumes "delete_removes N table chain" and "nftListChainLines N k table chain = Inr lines"
  shows "\<exists>k1 e. nftDeleteRulesWithCommentPrefix N table chain pre k = Some (k1, e) \<and>
    (e = None \<longrightarrow> nftListChainLines N k1 table chain =
        Inr (filter (\<lambda>ln. parseHandle ln \<notin> Some ` set (handles_with pre lines)) lines))"
  using assms(2)
proof (induction "length (handles_with pre lines)" arbitrary: k lines rule: less_induct)
  case less
  note unfold = nftDeleteRulesWithCommentPrefix.simps [of N table chain pre k]
  show ?case
  proof (cases "rev (sort (handles_with pre lines))")
    case Nil
    then have "handles_with pre lines = []" by (metis rev_is_Nil_conv set_empty set_sort)
    with less.prems Nil show ?thesis by (simp add: unfold)
  next
    case (Cons h hs)
    have "set (rev (sort (handles_with pre lines))) = set (handles_with pre lines)" by simp
    with Cons have h: "h \<in> set (handles_with pre lines)" by auto
    obtain k1 e where r: "runNft N (delete_rule table chain h) k = (k1, e)" by fastforce
    show ?thesis
    proof (cases e)
      case (Some x)
      with less.prems Cons r show ?thesis by (simp add: unfold)
    next
      case None
      let ?lines = "filter (\<lambda>ln. parseHandle ln \<noteq> Some h) lines"
      have l: "nftListChainLines N k1 table chain = Inr ?lines"
        using assms(1) r less.prems None unfolding delete_removes_def by blast
      have hw: "handles_with pre ?lines = filter (\<lambda>x. x \<noteq> h) (handles_with pre lines)" by (rule handles_with_filter)
      have "length (handles_with pre ?lines) < length (handles_with pre lines)"
        unfolding hw using h by (intro length_filter_less) auto
      from less.hyps [OF this l] obtain k2 e2 where
        IH: "nftDeleteRulesWithCommentPrefix N table chain pre k1 = Some (k2, e2)"
        "e2 = None \<longrightarrow> nftListChainLines N k2 table chain =
          Inr (filter (\<lambda>ln. parseHandle ln \<notin> Some ` set (handles_with pre ?lines)) ?lines)" by blast
      have "filter (\<lambda>ln. parseHandle ln \<notin> Some ` set (handles_with pre ?lines)) ?lines =
          filter (\<lambda>ln. parseHandle ln \<notin> Some ` set (handles_with pre lines)) lines"
        unfolding hw filter_filter using h by (intro filter_cong) auto
      with IH less.prems Cons r None show ?thesis by (simp add: unfold)
    qed
  qed
qed

lemma has_prefix_append: "has_prefix s (p @ q) \<Longrightarrow> has_prefix s p"
proof -
  assume "has_prefix s (p @ q)"
  then have "take (length p) (take (length (p @ q)) s) = p" by (simp add: has_prefix_def)
  then show ?thesis by (simp add: has_prefix_def min_def split: if_splits)
qed

lemma contains_prefix: "contains s (p @ q) \<Longrightarrow> contains s p"
proof (induction s)
  case (Cons c s)
  then show ?case using has_prefix_append [of "c # s" p q] by (auto simp: contains_def split: if_splits)
qed (simp add: contains_def split: if_splits)

section \<open>A chain with one rule\<close>

definition demo_line :: string where
  "demo_line = ''tcp dport 80 dnat to 10.88.0.2:80 comment nyxdpm-1-p80-0 # handle 7''"

definition demo_nft :: "bool nft" where
  "demo_nft = \<lparr>nft_init = None, nft_filter_init = None, nft_output_chain = None,
     nft_list = (\<lambda>k _ _. Inr (if k then demo_line else [])),
     nft_run = (\<lambda>k cmd. if k \<and> cmd = delete_rule ''nyxd-nat'' ''output'' 7 then (False, None) else (k, Some ''no such rule''))\<rparr>"

lemma demo_lines: "nftListChainLines demo_nft k t c = Inr (if k then [demo_line] else [])"
proof -
  have "filter (\<lambda>ln. ln \<noteq> []) (map trim_space (split_on (CHR 0x0A) demo_line)) = [demo_line]"
    "filter (\<lambda>ln. ln \<noteq> []) (map trim_space (split_on (CHR 0x0A) [])) = []" by code_simp+
  then show ?thesis by (simp add: nftListChainLines_def demo_nft_def)
qed

lemma demo_delete: "delete_removes demo_nft ''nyxd-nat'' ''output''"
proof -
  have "parseHandle demo_line = Some 7" by code_simp
  moreover have "h = 7" if "delete_rule ''nyxd-nat'' ''output'' h = delete_rule ''nyxd-nat'' ''output'' 7" for h
    using that digits_val_itoa_nat [of h] digits_val_itoa_nat [of 7] by (simp add: delete_rule_def)
  ultimately show ?thesis
    unfolding delete_removes_def demo_lines by (auto simp: runNft_def demo_nft_def split: if_splits)
qed

text \<open>A chain that keeps every rule added to it.\<close>

definition demo_iso :: "string list nft" where
  "demo_iso = \<lparr>nft_init = None, nft_filter_init = None, nft_output_chain = None,
     nft_list = (\<lambda>k _ _. Inr (join_with [CHR 0x0A] k)), nft_run = (\<lambda>k cmd. (k @ [cmd], None))\<rparr>"

section \<open>Properties\<close>

text \<open>C29. Deleting the rules of a container ends, whatever other rules the chain has: the loop has no
  bound of its own, but with every delete that nft accepts one handle is gone. When it ends without
  an error no line with a handle mentions the prefix any more, and every line whose handle is not
  one of the deleted ones is still there.\<close>

theorem nft_delete_ends:
  assumes "delete_removes N table chain" and "nftListChainLines N k table chain = Inr lines"
  shows "\<exists>k1 e. nftDeleteRulesWithCommentPrefix N table chain pre k = Some (k1, e) \<and>
    (e = None \<longrightarrow> (\<exists>rest. nftListChainLines N k1 table chain = Inr rest \<and>
       (\<forall>ln \<in> set rest. contains ln pre \<longrightarrow> parseHandle ln = None) \<and>
       (\<forall>ln \<in> set lines. parseHandle ln \<notin> Some ` set (handles_with pre lines) \<longrightarrow> ln \<in> set rest)))"
proof -
  obtain k1 e where r: "nftDeleteRulesWithCommentPrefix N table chain pre k = Some (k1, e)"
    "e = None \<longrightarrow> nftListChainLines N k1 table chain =
        Inr (filter (\<lambda>ln. parseHandle ln \<notin> Some ` set (handles_with pre lines)) lines)"
    using delete_loop_ends [OF assms] by blast
  have "parseHandle ln = None"
    if "ln \<in> set (filter (\<lambda>ln. parseHandle ln \<notin> Some ` set (handles_with pre lines)) lines)" "contains ln pre" for ln
    using that handles_with_iff [of _ pre lines] by (cases "parseHandle ln") auto
  then have "e = None \<longrightarrow> (\<exists>rest. nftListChainLines N k1 table chain = Inr rest \<and>
      (\<forall>ln \<in> set rest. contains ln pre \<longrightarrow> parseHandle ln = None) \<and>
      (\<forall>ln \<in> set lines. parseHandle ln \<notin> Some ` set (handles_with pre lines) \<longrightarrow> ln \<in> set rest))"
    using r(2) by (intro impI exI [of _ "filter (\<lambda>ln. parseHandle ln \<notin> Some ` set (handles_with pre lines)) lines"]) simp
  with r(1) show ?thesis by blast
qed

theorem nft_delete_ends_witness:
  "\<exists>k1 e. nftDeleteRulesWithCommentPrefix demo_nft ''nyxd-nat'' ''output'' ''nyxdpm-1'' True = Some (k1, e)"
  using nft_delete_ends [OF demo_delete demo_lines] by blast

text \<open>The rule that keeps two bridges apart is not installed when another bridge has a longer name
  with the same beginning: the check for an existing rule looks for the comment as a substring, and
  \<open>nyxd-bridge-iso-a-nyxbr1\<close> is a substring of \<open>nyxd-bridge-iso-a-nyxbr10\<close>. Traffic from \<open>a\<close> to the
  shorter name is not dropped. The masquerade rule of a bridge is skipped in the same way.\<close>

theorem isolation_rule_skipped:
  assumes "nftListChainLines N k ''nyxd-filter'' ''forward'' = Inr lines"
    and "ln \<in> set lines" and "contains ln (iso_comment (a, b @ rest))"
  shows "isolate N [(a, b)] k = k"
proof -
  have "contains ln (iso_comment (a, b))"
    using contains_prefix [of ln "iso_comment (a, b)" rest] assms(3) by (simp add: iso_comment_def)
  with assms(1,2) show ?thesis by (auto simp: list_ex_iff)
qed

theorem isolation_rule_skipped_witness:
  "isolate demo_iso [(''nyxbr0'', ''nyxbr1'')] [iso_rule (''nyxbr0'', ''nyxbr10'')] = [iso_rule (''nyxbr0'', ''nyxbr10'')]"
proof -
  have l: "nftListChainLines demo_iso [iso_rule (''nyxbr0'', ''nyxbr10'')] ''nyxd-filter'' ''forward'' =
      Inr [iso_rule (''nyxbr0'', ''nyxbr10'')]" by code_simp
  have "contains (iso_rule (''nyxbr0'', ''nyxbr10'')) (iso_comment (''nyxbr0'', ''nyxbr1'' @ ''0''))" by code_simp
  from isolation_rule_skipped [OF l _ this] show ?thesis by simp
qed

end
