(* ===== verification/Native_Driver.thy ===== *)
theory Native_Driver
  imports Native_Nft
begin

text \<open>
  Setup and Teardown of the native network driver (src/internal/network/native/bridge.go) and its
  manager (manager.go). The state is what the driver owns: the lease directories, the cached
  allocators, the bridge each container is attached to, the bridges that are ready, and the kernel's
  packet filter; link operations are recorded in \<open>nv_log\<close>, newest first, when they succeeded
  (creation) or were asked for (deletion). What the kernel answers to each request is the
  environment. \<open>sha\<close> is SHA-256 in hexadecimal.
\<close>

datatype link_call =
    BridgeCreate string | BridgeAddr string ip4 nat | BridgeUp string
  | LinkDelete string | VethCreate string string | VethAttach string string
  | VethMove string string string | LoUp string

record 'k native =
  nv_kernel :: 'k
  nv_dirs :: "string \<Rightarrow> dir"
  nv_ipams :: "string \<Rightarrow> ipam option"
  nv_bridge :: "string \<Rightarrow> bridge_conf option"
  nv_ready :: "string list"
  nv_allocs :: "string \<Rightarrow> string option"
  nv_log :: "link_call list"

record native_env =
  ne_subnet :: string
  ne_gateway :: string
  ne_socket :: "string option"
  ne_linkExists :: bool
  ne_isBridge :: bool
  ne_create :: "string option"
  ne_addr :: "string option"
  ne_up :: "string option"
  ne_mkdir :: "string option"
  ne_wr :: "string \<Rightarrow> string option"
  ne_readErr :: "string option"
  ne_unreadable :: "string \<Rightarrow> bool"
  ne_remove :: "string \<Rightarrow> string option"
  ne_veth :: "string option"
  ne_attach :: "string option"
  ne_move :: "string option"
  ne_lo :: "string option"
  ne_deleteLink :: "string option"

datatype native_error =
    EmptyBridgeName | LongBridgeName string | ForeignBridgeName string | BridgeNameChar string char
  | BridgeNeeds string | BadSubnet string | WidePrefix string | BadGateway string
  | Bridge string | Ipam ipam_error | Veth string | AttachBridge string | MoveVeth string
  | PortMappings "string list" | InternalEgress string

section \<open>Configuration\<close>

definition defaultBridgeConf :: "native_env \<Rightarrow> bridge_conf" where
  "defaultBridgeConf env =
     (let cidr = trim_space (ne_subnet env); gw = trim_space (ne_gateway env)
      in \<lparr>bc_bridge = BridgeName, bc_subnet = (if cidr = [] then ''10.88.0.0/16'' else cidr),
          bc_gateway = (if gw = [] then ''10.88.0.1'' else gw)\<rparr>)"

definition bridge_char :: "char \<Rightarrow> bool" where
  "bridge_char c \<longleftrightarrow> is_lower c \<or> is_upper c \<or> is_digit c \<or> c = CHR ''-'' \<or> c = CHR ''_''"

definition validateNativeBridgeName :: "string \<Rightarrow> native_error option" where
  "validateNativeBridgeName name =
     (if name = [] then Some EmptyBridgeName
      else if length name > 15 then Some (LongBridgeName name)
      else if name \<noteq> BridgeName \<and> \<not> has_prefix name ''nyxbr'' then Some (ForeignBridgeName name)
      else map_option (BridgeNameChar name) (find (\<lambda>c. \<not> bridge_char c) name))"

definition bridgeConfFromOpts :: "native_env \<Rightarrow> setup_options option \<Rightarrow> native_error + bridge_conf" where
  "bridgeConfFromOpts env opts =
     (case opts of
        None \<Rightarrow> Inr (defaultBridgeConf env)
      | Some so \<Rightarrow>
          if trim_space (so_bridge so) = [] then Inr (defaultBridgeConf env)
          else
            (let conf = \<lparr>bc_bridge = trim_space (so_bridge so), bc_subnet = trim_space (so_subnet so),
                         bc_gateway = trim_space (so_gateway so)\<rparr>
             in case validateNativeBridgeName (bc_bridge conf) of
                  Some e \<Rightarrow> Inl e
                | None \<Rightarrow>
                    if bc_subnet conf = [] \<or> bc_gateway conf = [] then Inl (BridgeNeeds (bc_bridge conf))
                    else (case parse_cidr (bc_subnet conf) of
                            None \<Rightarrow> Inl (BadSubnet (bc_subnet conf))
                          | Some (_, n) \<Rightarrow>
                              if cidr_ones n > 30 then Inl (WidePrefix (bc_subnet conf))
                              else if parse_ip4 (bc_gateway conf) = None then Inl (BadGateway (bc_gateway conf))
                              else Inr conf)))"

section \<open>Bridges\<close>

definition link_op :: "link_call \<Rightarrow> 'k native \<Rightarrow> 'k native" where
  "link_op c s = s\<lparr>nv_log := c # nv_log s\<rparr>"

definition ensureBridgeIP :: "native_env \<Rightarrow> bridge_conf \<Rightarrow> 'k native \<Rightarrow> 'k native \<times> string option" where
  "ensureBridgeIP env conf s =
     (case parse_cidr (bc_subnet conf) of
        None \<Rightarrow> (s, Some ''bridge subnet'')
      | Some (_, n) \<Rightarrow> (case parse_ip4 (bc_gateway conf) of
          None \<Rightarrow> (s, Some ''bridge gateway'')
        | Some gw \<Rightarrow> (case ne_addr env of
            Some e \<Rightarrow> (s, Some e)
          | None \<Rightarrow> (link_op (BridgeAddr (bc_bridge conf) gw (cidr_ones n)) s, None))))"

definition createBridgeConf :: "native_env \<Rightarrow> bridge_conf \<Rightarrow> 'k native \<Rightarrow> 'k native \<times> string option" where
  "createBridgeConf env conf s =
     (case ne_socket env of
        Some e \<Rightarrow> (s, Some e)
      | None \<Rightarrow>
          if ne_linkExists env then
            (if ne_isBridge env then ensureBridgeIP env conf s else (s, Some ''exists but is not a Linux bridge''))
          else (case ne_create env of
                  Some e \<Rightarrow> (s, Some e)
                | None \<Rightarrow>
                    (case ensureBridgeIP env conf (link_op (BridgeCreate (bc_bridge conf)) s) of
                       (s1, Some e) \<Rightarrow> (s1, Some e)
                     | (s1, None) \<Rightarrow> (case ne_up env of
                         Some e \<Rightarrow> (s1, Some e)
                       | None \<Rightarrow> (link_op (BridgeUp (bc_bridge conf)) s1, None)))))"

text \<open>The rules a ready bridge gets again on every call.\<close>

definition reassert :: "'k nft \<Rightarrow> bridge_conf \<Rightarrow> 'k native \<Rightarrow> 'k native" where
  "reassert N conf s =
     s\<lparr>nv_kernel := ensureBridgeIsolation N (nv_ready s) conf (fst (ensureContainerEgressNAT N conf (nv_kernel s)))\<rparr>"

definition ensureBridgeConf :: "'k nft \<Rightarrow> native_env \<Rightarrow> bridge_conf \<Rightarrow> 'k native \<Rightarrow> 'k native \<times> string option" where
  "ensureBridgeConf N env conf s =
     (if bc_bridge conf \<in> set (nv_ready s) then (reassert N conf s, None)
      else (case createBridgeConf env conf s of
              (s1, Some e) \<Rightarrow> (s1, Some e)
            | (s1, None) \<Rightarrow> (reassert N conf (s1\<lparr>nv_ready := bc_bridge conf # nv_ready s1\<rparr>), None)))"

section \<open>Leases\<close>

definition ipam_key :: "string \<Rightarrow> string \<Rightarrow> string" where
  "ipam_key cidr gw = trim_space cidr @ ''|'' @ trim_space gw"

definition ipam_dir :: "(string \<Rightarrow> string) \<Rightarrow> bridge_conf \<Rightarrow> string" where
  "ipam_dir sha conf = take 16 (sha (ipam_key (bc_subnet conf) (bc_gateway conf)))"

definition getIPAMFor ::
  "native_env \<Rightarrow> bridge_conf \<Rightarrow> 'k native \<Rightarrow> 'k native \<times> (ipam_error + ipam)" where
  "getIPAMFor env conf s =
     (let key = ipam_key (bc_subnet conf) (bc_gateway conf)
      in case nv_ipams s key of
           Some a \<Rightarrow> (s, Inr a)
         | None \<Rightarrow> (case newIPAM (ne_mkdir env) (bc_subnet conf) (bc_gateway conf) of
             Inl e \<Rightarrow> (s, Inl e)
           | Inr a \<Rightarrow> (s\<lparr>nv_ipams := (nv_ipams s)(key \<mapsto> a)\<rparr>, Inr a)))"

definition set_dir :: "string \<Rightarrow> dir \<Rightarrow> 'k native \<Rightarrow> 'k native" where
  "set_dir name d s = s\<lparr>nv_dirs := (nv_dirs s)(name := d)\<rparr>"

definition rollbackIPAM :: "(string \<Rightarrow> string) \<Rightarrow> native_env \<Rightarrow> bridge_conf \<Rightarrow> string \<Rightarrow> 'k native \<Rightarrow> 'k native" where
  "rollbackIPAM sha env conf cid s =
     set_dir (ipam_dir sha conf)
       (fst (release (ne_readErr env) (ne_unreadable env) (ne_remove env) cid (nv_dirs s (ipam_dir sha conf)))) s"

definition vethNames :: "(string \<Rightarrow> string) \<Rightarrow> string \<Rightarrow> string \<times> string" where
  "vethNames sha cid = (''veth'' @ take 8 (sha cid) @ ''h'', ''veth'' @ take 8 (sha cid) @ ''p'')"

section \<open>Setup and Teardown\<close>

text \<open>The veth pair: stale interfaces go first, and every failure after the creation deletes the host side
  and gives the address back.\<close>

definition undo_link :: "(string \<Rightarrow> string) \<Rightarrow> native_env \<Rightarrow> bridge_conf \<Rightarrow> string \<Rightarrow> 'k native \<Rightarrow> 'k native" where
  "undo_link sha env conf cid s = rollbackIPAM sha env conf cid (link_op (LinkDelete (fst (vethNames sha cid))) s)"

definition plumb ::
  "(string \<Rightarrow> string) \<Rightarrow> native_env \<Rightarrow> bridge_conf \<Rightarrow> string \<Rightarrow> string \<Rightarrow> string \<Rightarrow> 'k native \<Rightarrow> 'k native \<times> native_error option" where
  "plumb sha env conf cid netNS ip s0 =
     (let (h, p) = vethNames sha cid;
          s1 = link_op (LinkDelete p) (link_op (LinkDelete h) s0)
      in case ne_veth env of
           Some e \<Rightarrow> (rollbackIPAM sha env conf cid s1, Some (Veth e))
         | None \<Rightarrow>
            (let s2 = link_op (VethCreate h p) s1
             in case ne_attach env of
                  Some e \<Rightarrow> (undo_link sha env conf cid s2, Some (AttachBridge e))
                | None \<Rightarrow>
                    (let s3 = link_op (VethAttach h (bc_bridge conf)) s2
                     in case ne_move env of
                          Some e \<Rightarrow> (undo_link sha env conf cid s3, Some (MoveVeth e))
                        | None \<Rightarrow>
                            (let s4 = link_op (VethMove p netNS ip) s3
                             in (if ne_lo env = None then link_op (LoUp netNS) s4 else s4, None)))))"

definition with_kernel :: "'k \<Rightarrow> 'k native \<Rightarrow> 'k native" where
  "with_kernel k s = s\<lparr>nv_kernel := k\<rparr>"

text \<open>Setup; the outer option is \<open>None\<close> when the loop over the rules of the container does not end.\<close>

definition native_Setup ::
  "(string \<Rightarrow> string) \<Rightarrow> 'k nft \<Rightarrow> native_env \<Rightarrow> string \<Rightarrow> string \<Rightarrow> port_mapping list \<Rightarrow> setup_options option \<Rightarrow>
   'k native \<Rightarrow> ('k native \<times> (native_error + string)) option" where
  "native_Setup sha N env cid netNS ports opts s =
     (case bridgeConfFromOpts env opts of
        Inl e \<Rightarrow> Some (s, Inl e)
      | Inr conf \<Rightarrow> (case ensureBridgeConf N env conf s of
          (s1, Some e) \<Rightarrow> Some (s1, Inl (Bridge e))
        | (s1, None) \<Rightarrow> (case getIPAMFor env conf s1 of
            (s2, Inl e) \<Rightarrow> Some (s2, Inl (Ipam e))
          | (s2, Inr a) \<Rightarrow> (case allocate (ne_wr env) a cid (nv_dirs s2 (ipam_dir sha conf)) of
              (d, Inl e) \<Rightarrow> Some (set_dir (ipam_dir sha conf) d s2, Inl (Ipam e))
            | (d, Inr ip) \<Rightarrow> (case plumb sha env conf cid netNS ip (set_dir (ipam_dir sha conf) d s2) of
                (s3, Some e) \<Rightarrow> Some (s3, Inl e)
              | (s3, None) \<Rightarrow>
                 (case (if ports = [] then (nv_kernel s3, []) else addPortMappings sha N cid ip ports (nv_kernel s3)) of
                    (k, e # es) \<Rightarrow> Some (undo_link sha env conf cid (with_kernel k s3), Inl (PortMappings (e # es)))
                  | (k, []) \<Rightarrow>
                     (if opts = None \<or> \<not> so_internal (the opts)
                      then Some (with_kernel k s3\<lparr>nv_bridge := (nv_bridge s3)(cid \<mapsto> conf)\<rparr>, Inr ip)
                      else (case addInternalEgressBlock sha N cid ip (bc_subnet conf) k of
                              (k1, None) \<Rightarrow> Some (with_kernel k1 s3\<lparr>nv_bridge := (nv_bridge s3)(cid \<mapsto> conf)\<rparr>, Inr ip)
                            | (k1, Some e) \<Rightarrow>
                                (case removePortMappings sha N cid k1 of
                                   None \<Rightarrow> None
                                 | Some (k2, _) \<Rightarrow>
                                     Some (undo_link sha env conf cid (with_kernel k2 s3), Inl (InternalEgress e)))))))))))"

datatype teardown_error = RemoveFilter string | RemovePortmap "string list" | DeleteVeth string | TeardownIpam ipam_error

definition native_Teardown ::
  "(string \<Rightarrow> string) \<Rightarrow> 'k nft \<Rightarrow> native_env \<Rightarrow> string \<Rightarrow> 'k native \<Rightarrow> ('k native \<times> teardown_error list) option" where
  "native_Teardown sha N env cid s =
     (case removeInternalEgressBlock sha N cid (nv_kernel s) of
        None \<Rightarrow> None
      | Some (k1, e1) \<Rightarrow> (case removePortMappings sha N cid k1 of
          None \<Rightarrow> None
        | Some (k2, e2) \<Rightarrow>
           (let s1 = link_op (LinkDelete (fst (vethNames sha cid))) (with_kernel k2 s);
                conf = (case nv_bridge s1 cid of Some c \<Rightarrow> c | None \<Rightarrow> defaultBridgeConf env);
                s2 = s1\<lparr>nv_bridge := (nv_bridge s1)(cid := None)\<rparr>;
                errs = (case e1 of Some e \<Rightarrow> [RemoveFilter e] | None \<Rightarrow> []) @
                       (if e2 = [] then [] else [RemovePortmap e2]) @
                       (case ne_deleteLink env of Some e \<Rightarrow> [DeleteVeth e] | None \<Rightarrow> [])
            in case getIPAMFor env conf s2 of
                 (s3, Inl e) \<Rightarrow> Some (s3, errs @ [TeardownIpam e])
               | (s3, Inr a) \<Rightarrow>
                   (case release (ne_readErr env) (ne_unreadable env) (ne_remove env) cid (nv_dirs s3 (ipam_dir sha conf)) of
                      (d, e) \<Rightarrow> Some (set_dir (ipam_dir sha conf) d s3,
                        errs @ (case e of Some x \<Rightarrow> [TeardownIpam x] | None \<Rightarrow> []))))))"

text \<open>The manager remembers the address of each container.\<close>

definition manager_Setup ::
  "(string \<Rightarrow> string) \<Rightarrow> 'k nft \<Rightarrow> native_env \<Rightarrow> string \<Rightarrow> string \<Rightarrow> port_mapping list \<Rightarrow> setup_options option \<Rightarrow>
   'k native \<Rightarrow> ('k native \<times> (native_error + string)) option" where
  "manager_Setup sha N env cid netNS ports opts s =
     (case native_Setup sha N env cid netNS ports opts s of
        Some (s1, Inr ip) \<Rightarrow> Some (s1\<lparr>nv_allocs := (nv_allocs s1)(cid \<mapsto> ip)\<rparr>, Inr ip)
      | r \<Rightarrow> r)"

definition manager_Teardown ::
  "(string \<Rightarrow> string) \<Rightarrow> 'k nft \<Rightarrow> native_env \<Rightarrow> string \<Rightarrow> 'k native \<Rightarrow> ('k native \<times> teardown_error list) option" where
  "manager_Teardown sha N env cid s =
     (case native_Teardown sha N env cid s of
        None \<Rightarrow> None
      | Some (s1, errs) \<Rightarrow> Some (s1\<lparr>nv_allocs := (nv_allocs s1)(cid := None)\<rparr>, errs))"

definition manager_IP :: "string \<Rightarrow> 'k native \<Rightarrow> string" where
  "manager_IP cid s = (case nv_allocs s cid of Some ip \<Rightarrow> ip | None \<Rightarrow> [])"

section \<open>What the parts leave alone\<close>

fun veth_up :: "string \<Rightarrow> link_call list \<Rightarrow> bool" where
  "veth_up h [] = False"
| "veth_up h (c # cs) =
     (case c of VethCreate x _ \<Rightarrow> x = h \<or> veth_up h cs | LinkDelete x \<Rightarrow> x \<noteq> h \<and> veth_up h cs | _ \<Rightarrow> veth_up h cs)"

definition same_owned :: "'k native \<Rightarrow> 'k native \<Rightarrow> bool" where
  "same_owned s s' \<longleftrightarrow> nv_dirs s' = nv_dirs s \<and> nv_bridge s' = nv_bridge s \<and> (\<forall>h. veth_up h (nv_log s') = veth_up h (nv_log s))"

lemma native_simps [simp]:
  "nv_dirs (link_op c s) = nv_dirs s" "nv_bridge (link_op c s) = nv_bridge s" "nv_ipams (link_op c s) = nv_ipams s"
  "nv_log (link_op c s) = c # nv_log s" "nv_kernel (link_op c s) = nv_kernel s"
  "nv_dirs (set_dir n d s) = (nv_dirs s)(n := d)" "nv_bridge (set_dir n d s) = nv_bridge s"
  "nv_ipams (set_dir n d s) = nv_ipams s" "nv_log (set_dir n d s) = nv_log s"
  "nv_dirs (with_kernel k s) = nv_dirs s" "nv_bridge (with_kernel k s) = nv_bridge s"
  "nv_ipams (with_kernel k s) = nv_ipams s" "nv_log (with_kernel k s) = nv_log s"
  "nv_dirs (reassert N conf s) = nv_dirs s" "nv_bridge (reassert N conf s) = nv_bridge s"
  "nv_ipams (reassert N conf s) = nv_ipams s" "nv_log (reassert N conf s) = nv_log s"
  by (simp_all add: link_op_def set_dir_def with_kernel_def reassert_def)

lemma ensureBridgeConf_owned:
  "ensureBridgeConf N env conf s = (s', e) \<Longrightarrow> same_owned s s' \<and> nv_ipams s' = nv_ipams s"
  by (auto simp: ensureBridgeConf_def createBridgeConf_def ensureBridgeIP_def same_owned_def
      split: if_splits option.splits prod.splits)

text \<open>The allocator of a configuration, cached or new, fits its directory.\<close>

definition pool_ok :: "(string \<Rightarrow> string) \<Rightarrow> bridge_conf \<Rightarrow> 'k native \<Rightarrow> bool" where
  "pool_ok sha conf s \<longleftrightarrow>
     (\<forall>a. nv_ipams s (ipam_key (bc_subnet conf) (bc_gateway conf)) = Some a \<or>
          newIPAM None (bc_subnet conf) (bc_gateway conf) = Inr a \<longrightarrow>
        ipam_ok a \<and> dir_ok a (nv_dirs s (ipam_dir sha conf)))"

lemma getIPAMFor_owned:
  assumes "getIPAMFor env conf s = (s', r)" and "pool_ok sha conf s"
  shows "same_owned s s'"
    and "r = Inr a \<Longrightarrow> ipam_ok a \<and> dir_ok a (nv_dirs s' (ipam_dir sha conf)) \<and>
      nv_ipams s' (ipam_key (bc_subnet conf) (bc_gateway conf)) = Some a"
proof -
  have new: "newIPAM None cidr gw = Inr x" if "newIPAM m cidr gw = Inr x" for m cidr gw x
    using that by (cases m) (simp_all add: newIPAM_def)
  show "same_owned s s'"
    using assms(1) by (auto simp: getIPAMFor_def Let_def same_owned_def split: option.splits sum.splits)
  show "ipam_ok a \<and> dir_ok a (nv_dirs s' (ipam_dir sha conf)) \<and>
      nv_ipams s' (ipam_key (bc_subnet conf) (bc_gateway conf)) = Some a" if "r = Inr a"
    using assms that new unfolding getIPAMFor_def Let_def pool_ok_def
    by (auto split: option.splits sum.splits)
qed

text \<open>Links: what is left after the plumbing failed, or when it worked.\<close>

abbreviation host_veth :: "(string \<Rightarrow> string) \<Rightarrow> string \<Rightarrow> string" where
  "host_veth sha cid \<equiv> fst (vethNames sha cid)"

lemma veth_names_differ: "fst (vethNames sha cid) \<noteq> snd (vethNames sha cid)"
  by (simp add: vethNames_def)

lemma rollback_simps [simp]:
  "nv_bridge (rollbackIPAM sha env conf cid s) = nv_bridge s" "nv_log (rollbackIPAM sha env conf cid s) = nv_log s"
  "nv_bridge (undo_link sha env conf cid s) = nv_bridge s"
  "nv_log (undo_link sha env conf cid s) = LinkDelete (host_veth sha cid) # nv_log s"
  "nv_dirs (undo_link sha env conf cid s) = nv_dirs (rollbackIPAM sha env conf cid s)"
  by (simp_all add: rollbackIPAM_def undo_link_def)

lemma rollback_dirs: "nv_dirs s = nv_dirs s' \<Longrightarrow> nv_dirs (rollbackIPAM sha env conf cid s) = nv_dirs (rollbackIPAM sha env conf cid s')"
  by (simp add: rollbackIPAM_def)

lemma plumb_result:
  assumes "plumb sha env conf cid ns ip s = (s', r)"
  shows "nv_bridge s' = nv_bridge s"
    and "r = None \<Longrightarrow> nv_dirs s' = nv_dirs s \<and> nv_ipams s' = nv_ipams s"
    and "r \<noteq> None \<Longrightarrow> nv_dirs s' = nv_dirs (rollbackIPAM sha env conf cid s)"
    and "r \<noteq> None \<Longrightarrow> \<not> veth_up (host_veth sha cid) (nv_log s')"
  using assms veth_names_differ [of sha cid]
  by (auto simp: plumb_def Let_def split: option.splits prod.splits if_splits intro!: rollback_dirs)

section \<open>Rollback\<close>

text \<open>The environment in which giving a lease back works.\<close>

definition release_works :: "native_env \<Rightarrow> bool" where
  "release_works env \<longleftrightarrow> ne_readErr env = None \<and> ne_unreadable env = (\<lambda>_. False) \<and> ne_remove env = (\<lambda>_. None)"

lemma release_ok: "release_works env \<Longrightarrow>
    snd (release (ne_readErr env) (ne_unreadable env) (ne_remove env) cid d) = None"
  by (auto simp: release_works_def release_def split: option.splits)

definition leases_of :: "'k native \<Rightarrow> string \<Rightarrow> ip4 \<Rightarrow> string option" where
  "leases_of s name = dir_leases (nv_dirs s name)"

lemma lease_undone:
  assumes "ipam_ok a" and "dir_ok a d" and "Some cid \<notin> range (dir_leases d)" and "release_works env"
    and "allocate wr a cid d = (d1, Inr ip)"
    and "release (ne_readErr env) (ne_unreadable env) (ne_remove env) cid d1 = (d2, e)"
  shows "dir_leases d2 = dir_leases d"
proof -
  have "e = None" using release_ok [OF assms(4), of cid d1] assms(6) by simp
  then have "release None (\<lambda>_. False) (\<lambda>_. None) cid d1 = (d2, None)" using assms(4,6) by (simp add: release_works_def)
  then show ?thesis using pool.take_give(2) [of a d cid wr d1 ip] assms by blast
qed

lemma undone_dirs:
  assumes "ipam_ok a" and "dir_ok a (nv_dirs s2 (ipam_dir sha conf))"
    and "Some cid \<notin> range (leases_of s2 (ipam_dir sha conf))" and "release_works env"
    and "allocate wr a cid (nv_dirs s2 (ipam_dir sha conf)) = (d, Inr ip)"
    and "nv_dirs s3 = (nv_dirs s2)(ipam_dir sha conf := d)"
    and "nv_dirs s4 = nv_dirs (rollbackIPAM sha env conf cid s3)"
  shows "leases_of s4 name = leases_of s2 name"
proof -
  obtain d2 e where r: "release (ne_readErr env) (ne_unreadable env) (ne_remove env) cid d = (d2, e)" by fastforce
  have "dir_leases d2 = dir_leases (nv_dirs s2 (ipam_dir sha conf))"
    by (rule lease_undone [OF assms(1,2) _ assms(4,5) r]) (use assms(3) in \<open>simp add: leases_of_def\<close>)
  with r assms(6,7) show ?thesis by (simp add: leases_of_def rollbackIPAM_def)
qed

text \<open>How far Setup got.\<close>

lemma Setup_stages [consumes 3, case_names early late]:
  fixes s s' :: "'k native"
  assumes "native_Setup sha N env cid ns ports opts s = Some (s', r)" and "bridgeConfFromOpts env opts = Inr conf"
    and "pool_ok sha conf s"
  obtains (early) "isl r" and "same_owned s s'"
  | (late) s2 a d ip and s3 :: "'k native" where "same_owned s s2" and "ipam_ok a" and "dir_ok a (nv_dirs s2 (ipam_dir sha conf))"
      and "allocate (ne_wr env) a cid (nv_dirs s2 (ipam_dir sha conf)) = (d, Inr ip)"
      and "nv_dirs s3 = (nv_dirs s2)(ipam_dir sha conf := d)" and "nv_bridge s3 = nv_bridge s2"
      and "case r of Inr ip' \<Rightarrow> ip' = ip \<and> nv_dirs s' = nv_dirs s3 \<and> nv_bridge s' = (nv_bridge s3)(cid \<mapsto> conf) \<and>
             nv_ipams s' (ipam_key (bc_subnet conf) (bc_gateway conf)) = Some a
         | Inl e \<Rightarrow> nv_dirs s' = nv_dirs (rollbackIPAM sha env conf cid s3) \<and> nv_bridge s' = nv_bridge s3 \<and>
             \<not> veth_up (host_veth sha cid) (nv_log s')"
proof -
  obtain s1 eb where b: "ensureBridgeConf N env conf s = (s1, eb)" by fastforce
  note o1 = ensureBridgeConf_owned [OF b]
  obtain s2 ri where g: "getIPAMFor env conf s1 = (s2, ri)" by fastforce
  have "pool_ok sha conf s1" using assms(3) o1 by (simp add: pool_ok_def same_owned_def)
  note g2 = getIPAMFor_owned [OF g this]
  have o2: "same_owned s s2" using o1 g2(1) by (simp add: same_owned_def)
  show ?thesis
  proof (cases "eb \<noteq> None \<or> (\<exists>e. ri = Inl e)")
    case True
    with assms(1,2) b g o1 o2 show ?thesis by (intro early) (auto simp: native_Setup_def split: option.splits)
  next
    case False
    then obtain a where a: "eb = None" "ri = Inr a" by (cases ri) auto
    obtain d ra where al: "allocate (ne_wr env) a cid (nv_dirs s2 (ipam_dir sha conf)) = (d, ra)" by fastforce
    show ?thesis
    proof (cases ra)
      case (Inl e)
      with al have d: "d = nv_dirs s2 (ipam_dir sha conf)" by (auto simp: allocate_def split: option.splits)
      have "s' = set_dir (ipam_dir sha conf) d s2" "isl r" using assms(1,2) b g a al Inl by (auto simp: native_Setup_def)
      then show ?thesis using o2 unfolding d by (intro early) (simp_all add: same_owned_def fun_upd_triv)
    next
      case (Inr ip)
      let ?s3 = "set_dir (ipam_dir sha conf) d s2"
      obtain s4 rp where p: "plumb sha env conf cid ns ip ?s3 = (s4, rp)" by fastforce
      note pr = plumb_result [OF p]
      show ?thesis
      proof (rule late [of s2 a d ip ?s3, OF o2 _ _ al [unfolded Inr]])
        show "nv_dirs ?s3 = (nv_dirs s2)(ipam_dir sha conf := d)" "nv_bridge ?s3 = nv_bridge s2" by simp_all
        show "ipam_ok a" "dir_ok a (nv_dirs s2 (ipam_dir sha conf))" using g2(2) [OF a(2)] by simp_all
        show "case r of Inr ip' \<Rightarrow> ip' = ip \<and> nv_dirs s' = nv_dirs ?s3 \<and> nv_bridge s' = (nv_bridge ?s3)(cid \<mapsto> conf) \<and>
             nv_ipams s' (ipam_key (bc_subnet conf) (bc_gateway conf)) = Some a
         | Inl e \<Rightarrow> nv_dirs s' = nv_dirs (rollbackIPAM sha env conf cid ?s3) \<and> nv_bridge s' = nv_bridge ?s3 \<and>
             \<not> veth_up (host_veth sha cid) (nv_log s')"
        proof (cases rp)
          case (Some e)
          with assms(1,2) b g a al Inr p pr show ?thesis by (auto simp: native_Setup_def)
        next
          case None
          have dirs: "nv_dirs (rollbackIPAM sha env conf cid (with_kernel k s4)) = nv_dirs (rollbackIPAM sha env conf cid ?s3)" for k
            by (rule rollback_dirs) (use pr(2) [OF None] in simp)
          from None assms(1,2) b g a al Inr p pr(1) pr(2) [OF None] g2(2) [OF a(2)] dirs show ?thesis
            by (auto simp: native_Setup_def split: list.splits prod.splits option.splits if_splits)
        qed
      qed
    qed
  qed
qed

section \<open>A concrete host\<close>

definition fresh_native :: "'k \<Rightarrow> 'k native" where
  "fresh_native k = \<lparr>nv_kernel = k, nv_dirs = (\<lambda>_. []), nv_ipams = Map.empty, nv_bridge = Map.empty, nv_ready = [],
     nv_allocs = Map.empty, nv_log = []\<rparr>"

definition demo_host :: "string option \<Rightarrow> native_env" where
  "demo_host moveErr = \<lparr>ne_subnet = [], ne_gateway = [], ne_socket = None, ne_linkExists = False, ne_isBridge = False,
     ne_create = None, ne_addr = None, ne_up = None, ne_mkdir = None, ne_wr = (\<lambda>_. None), ne_readErr = None,
     ne_unreadable = (\<lambda>_. False), ne_remove = (\<lambda>_. None), ne_veth = None, ne_attach = None, ne_move = moveErr,
     ne_lo = None, ne_deleteLink = None\<rparr>"

definition demo_conf :: bridge_conf where
  "demo_conf = \<lparr>bc_bridge = ''nyxbr0'', bc_subnet = ''10.88.0.0/16'', bc_gateway = ''10.88.0.1''\<rparr>"

lemma demo_conf_opts: "bridgeConfFromOpts (demo_host e) None = Inr demo_conf"
  by (simp add: bridgeConfFromOpts_def defaultBridgeConf_def demo_host_def demo_conf_def BridgeName_def go_defs)

lemma fresh_pool: "pool_ok sha conf (fresh_native k)"
  using newIPAM_ok by (auto simp: pool_ok_def fresh_native_def dir_ok_def)

lemma fresh_leases: "Some cid \<notin> range (leases_of (fresh_native k) name)"
  by (auto simp: leases_of_def fresh_native_def dir_leases_def)

lemma demo_releases: "release_works (demo_host e)"
  by (simp add: release_works_def demo_host_def)

lemma fresh_no_veth: "\<not> veth_up h (nv_log (fresh_native k))"
  by (simp add: fresh_native_def)

definition demo_failed :: "(string list native \<times> (native_error + string)) option" where
  "demo_failed = native_Setup (\<lambda>s. s) demo_iso (demo_host (Some ''no such namespace'')) ''web'' ''/run/nyxd/netns/web'' [] None
     (fresh_native [])"

definition demo_started :: "(string list native \<times> (native_error + string)) option" where
  "demo_started = native_Setup (\<lambda>s. s) demo_iso (demo_host None) ''web'' ''/run/nyxd/netns/web'' [] None (fresh_native [])"

lemma demo_failed_at: "map_option snd demo_failed = Some (Inl (MoveVeth ''no such namespace''))"
  by code_simp

lemma demo_started_at: "map_option snd demo_started = Some (Inr ''10.88.0.2'')"
  by code_simp

lemma demo_torn_down:
  "map_option snd (native_Teardown (\<lambda>s. s) demo_iso (demo_host None) ''web'' (fst (the demo_started))) = Some []"
  by code_simp

section \<open>Properties\<close>



text \<open>C28. Setup and Teardown are inverse on what the driver owns: after a Setup that succeeded and a
  Teardown that ended, every pool has the leases it had before and the container is attached to no
  bridge.\<close>

theorem native_setup_teardown:
  assumes "native_Setup sha N env cid ns ports opts s = Some (s1, Inr ip)"
    and "bridgeConfFromOpts env opts = Inr conf" and "pool_ok sha conf s"
    and "Some cid \<notin> range (leases_of s (ipam_dir sha conf))" and "release_works env"
    and "native_Teardown sha N env cid s1 = Some (s2, errs)"
  shows "leases_of s2 = leases_of s \<and> nv_bridge s2 cid = None \<and> \<not> veth_up (host_veth sha cid) (nv_log s2)"
  using assms(1-3)
proof (cases rule: Setup_stages)
  case (late s0 a d ip' s3)
  have l0: "leases_of s0 = leases_of s" using late(1) by (simp add: same_owned_def leases_of_def fun_eq_iff)
  have up: "nv_dirs s1 = nv_dirs s3" "nv_bridge s1 cid = Some conf"
    "nv_ipams s1 (ipam_key (bc_subnet conf) (bc_gateway conf)) = Some a"
    using late(7) by simp_all
  have down: "nv_dirs s2 = nv_dirs (rollbackIPAM sha env conf cid s1)" "nv_bridge s2 cid = None"
    "\<not> veth_up (host_veth sha cid) (nv_log s2)"
    using assms(6) up by (auto simp: native_Teardown_def getIPAMFor_def Let_def rollbackIPAM_def split: option.splits prod.splits)
  have "nv_dirs s2 = nv_dirs (rollbackIPAM sha env conf cid s3)"
    unfolding down(1) by (rule rollback_dirs [OF up(1)])
  then have "leases_of s2 name = leases_of s0 name" for name
    using undone_dirs [OF late(2,3) _ assms(5) late(4,5)] l0 assms(4) by simp
  with l0 down show ?thesis by (simp add: fun_eq_iff)
qed simp

theorem native_setup_teardown_witness:
  "leases_of (fst (the (native_Teardown (\<lambda>s. s) demo_iso (demo_host None) ''web'' (fst (the demo_started))))) =
     leases_of (fresh_native ([] :: string list))"
proof -
  obtain s1 where s1: "demo_started = Some (s1, Inr ''10.88.0.2'')" using demo_started_at by (cases demo_started) auto
  obtain s2 where s2: "native_Teardown (\<lambda>s. s) demo_iso (demo_host None) ''web'' s1 = Some (s2, [])"
    using demo_torn_down unfolding s1 by (cases "native_Teardown (\<lambda>s. s) demo_iso (demo_host None) ''web'' s1") auto
  from native_setup_teardown [OF s1 [unfolded demo_started_def] demo_conf_opts fresh_pool fresh_leases demo_releases s2]
  show ?thesis by (simp add: s1 s2)
qed

text \<open>A Setup whose port mappings fail leaves the address translation rules it had added: here nft
  refuses the third rule, Setup fails and gives the address back, and both rules that send port 81
  of the host to that address are still there, for the next container that gets the address.\<close>

definition demo_refuses :: "string list nft" where
  "demo_refuses = demo_iso\<lparr>nft_run := (\<lambda>k cmd. if contains cmd ''masquerade comment'' then (k, Some ''refused'') else (k @ [cmd], None))\<rparr>"

theorem failed_port_mapping_leaves_rules:
  "\<exists>s' es. native_Setup (\<lambda>s. s) demo_refuses (demo_host None) ''web'' ''/run/nyxd/netns/web''
      [\<lparr>pm_host = 81, pm_container = 80, pm_protocol = ''tcp''\<rparr>] None (fresh_native []) = Some (s', Inl (PortMappings es)) \<and>
    length (filter (\<lambda>r. contains r ''dport 81 dnat to 10.88.0.2:80'') (nv_kernel s')) = 2"
proof -
  let ?r = "native_Setup (\<lambda>s. s) demo_refuses (demo_host None) ''web'' ''/run/nyxd/netns/web''
      [\<lparr>pm_host = 81, pm_container = 80, pm_protocol = ''tcp''\<rparr>] None (fresh_native [])"
  have 1: "map_option snd ?r = Some (Inl (PortMappings [''refused'']))" by code_simp
  have 2: "map_option (\<lambda>x. length (filter (\<lambda>r. contains r ''dport 81 dnat to 10.88.0.2:80'') (nv_kernel (fst x)))) ?r = Some 2"
    by code_simp
  from 1 obtain s' where "?r = Some (s', Inl (PortMappings [''refused'']))" by (cases ?r) auto
  with 2 show ?thesis by auto
qed

end
