(* ===== verification/Dockerfile_Shell.thy ===== *)
theory Dockerfile_Shell
  imports Go_Path
begin

text \<open>
  The word lexer of the Dockerfile parser (src/internal/build/dockerfile/shell.go): quoting,
  escapes and variable expansion. The code keeps a position into the source; the model passes
  the rest of the source, so a position that advances is a shorter list. The lexer methods
  return the text they append and the rest; an error is one of \<open>lex_error\<close>. A lookup returns
  \<open>None\<close> for an unset variable, which is also what a nil Lookup gives.
\<close>

datatype lex_error =
    UnterminatedSingle | UnterminatedDouble | BadSubstitution | MissingBrace
  | UnsupportedModifier char

type_synonym lookup = "string \<Rightarrow> string option"
type_synonym lexed = "lex_error + (string \<times> string)"

abbreviation squote :: char where "squote \<equiv> CHR 0x27"
abbreviation dquote :: char where "dquote \<equiv> CHR 0x22"
abbreviation backslash :: char where "backslash \<equiv> CHR 0x5C"
abbreviation dollar :: char where "dollar \<equiv> CHR 0x24"

section \<open>Variables\<close>

definition isNameRune :: "char \<Rightarrow> bool \<Rightarrow> bool" where
  "isNameRune r first \<longleftrightarrow> r = CHR ''_'' \<or> is_letter r \<or> (\<not> first \<and> is_digit r)"

definition name_span :: "string \<Rightarrow> string" where
  "name_span s = (case s of [] \<Rightarrow> [] | c # cs \<Rightarrow>
     if isNameRune c True then c # takeWhile (\<lambda>c. isNameRune c False) cs else [])"

definition get_var :: "lookup \<Rightarrow> string \<Rightarrow> string" where
  "get_var lk name = (case lk name of None \<Rightarrow> [] | Some v \<Rightarrow> v)"

text \<open>The value of \<open>${name:-word}\<close> and its three relatives, once the word is known.\<close>

definition modified :: "lookup \<Rightarrow> string \<Rightarrow> bool \<Rightarrow> char \<Rightarrow> string \<Rightarrow> string" where
  "modified lk name colon c word =
     (let v = get_var lk name; set = (lk name \<noteq> None \<and> \<not> (colon \<and> v = []))
      in if c = CHR ''-'' then (if set then v else word) else (if set then word else []))"

definition emit :: "string \<Rightarrow> lexed \<Rightarrow> lexed" where
  "emit v r = (case r of Inl e \<Rightarrow> Inl e | Inr (w, rest) \<Rightarrow> Inr (v @ w, rest))"

text \<open>\<open>variable\<close> starts after the dollar sign.\<close>

function (sequential) variable :: "lookup \<Rightarrow> char \<Rightarrow> string \<Rightarrow> lexed"
  and braced :: "lookup \<Rightarrow> char \<Rightarrow> string \<Rightarrow> bool \<Rightarrow> string \<Rightarrow> lexed"
  and braceWord :: "lookup \<Rightarrow> char \<Rightarrow> string \<Rightarrow> lexed"
where
  "variable lk e [] = Inr ([dollar], [])"
| "variable lk e (r # rs) =
     (if r \<noteq> CHR ''{'' then
        (let name = name_span (r # rs)
         in if name = [] then Inr ([dollar], r # rs)
            else Inr (get_var lk name, drop (length name) (r # rs)))
      else
        (let name = name_span rs; rest = drop (length name) rs
         in if name = [] then Inl BadSubstitution
            else case rest of
                   [] \<Rightarrow> Inl MissingBrace
                 | c # cs \<Rightarrow>
                     if c = CHR ''}'' then Inr (get_var lk name, cs)
                     else if c = CHR '':'' then
                       (if cs = [] then Inl MissingBrace else braced lk e name True cs)
                     else braced lk e name False (c # cs)))"
| "braced lk e name colon [] = Inl MissingBrace"
| "braced lk e name colon (c # cs) =
     (if c \<noteq> CHR ''-'' \<and> c \<noteq> CHR ''+'' then Inl (UnsupportedModifier c)
      else case braceWord lk e cs of
             Inl err \<Rightarrow> Inl err
           | Inr (word, rest) \<Rightarrow> Inr (modified lk name colon c word, rest))"
| "braceWord lk e [] = Inl MissingBrace"
| "braceWord lk e (r # rs) =
     (if r = CHR ''}'' then Inr ([], rs)
      else if r = dollar then
        (case variable lk e rs of
           Inl err \<Rightarrow> Inl err
         | Inr (v, rest) \<Rightarrow> emit v (braceWord lk e rest))
      else if r = e then
        (case rs of [] \<Rightarrow> Inl MissingBrace | n # ns \<Rightarrow> emit [n] (braceWord lk e ns))
      else emit [r] (braceWord lk e rs))"
  by pat_completeness auto

lemma name_span_length: "length (name_span s) \<le> length s"
  by (cases s) (auto simp: name_span_def length_takeWhile_le)

lemma emit_Inr: "emit v r = Inr (w, rest) \<longleftrightarrow> (\<exists>w'. r = Inr (w', rest) \<and> w = v @ w')"
  by (auto simp: emit_def split: sum.splits prod.splits)


lemma drop_Cons_length: "drop n s = c # cs \<Longrightarrow> length cs < length s"
  using length_drop [of n s] by simp

lemma lexer_forward_dom:
  "variable_braced_braceWord_dom (Inl (lk, e, s)) \<Longrightarrow>
     variable lk e s = Inr (v, rest) \<Longrightarrow> length rest \<le> length s"
  "variable_braced_braceWord_dom (Inr (Inl (lk, e, name, colon, s))) \<Longrightarrow>
     braced lk e name colon s = Inr (v, rest) \<Longrightarrow> length rest \<le> length s"
  "variable_braced_braceWord_dom (Inr (Inr (lk, e, s))) \<Longrightarrow>
     braceWord lk e s = Inr (v, rest) \<Longrightarrow> length rest \<le> length s"
proof (induction lk e s and lk e name colon s and lk e s arbitrary: v rest and v rest and v rest
    rule: variable_braced_braceWord.pinduct)
  case (2 lk e r rs)
  show ?case
  proof (cases "r = CHR ''{''")
    case False
    with 2 show ?thesis
      by (auto simp: variable.psimps Let_def split: if_splits)
  next
    case True
    define name where "name = name_span rs"
    show ?thesis
    proof (cases "drop (length name) rs")
      case Nil
      with True "2.prems" "2.hyps" show ?thesis
        by (simp add: variable.psimps Let_def flip: name_def split: if_splits)
    next
      case (Cons c cs)
      note len = drop_Cons_length [OF Cons]
      from True "2.prems" "2.hyps" Cons have "name \<noteq> []"
        by (auto simp: variable.psimps Let_def simp flip: name_def split: if_splits)
      with True "2.prems" "2.hyps" Cons consider "rest = cs"
        | (colon) "braced lk e name True cs = Inr (v, rest)" "cs \<noteq> []" "c = CHR '':''"
        | (bare) "braced lk e name False (c # cs) = Inr (v, rest)" "c \<noteq> CHR '':''" "c \<noteq> CHR ''}''"
        by (auto simp: variable.psimps Let_def simp flip: name_def split: if_splits)
      then show ?thesis
      proof cases
        case 1
        with len show ?thesis by simp
      next
        case colon
        from "2.IH"(1) [OF _ name_def refl \<open>name \<noteq> []\<close> Cons _ _ colon(2,1)] colon(3) True len
        show ?thesis by simp
      next
        case bare
        from "2.IH"(2) [OF _ name_def refl \<open>name \<noteq> []\<close> Cons _ _ bare(1)] bare(2,3) True len
        show ?thesis by simp
      qed
    qed
  qed
next
  case (4 lk e name colon c cs)
  then show ?case
    by (fastforce simp: braced.psimps split: if_splits sum.splits prod.splits)
next
  case (6 lk e r rs)
  then show ?case
    by (fastforce simp: braceWord.psimps emit_Inr split: if_splits sum.splits prod.splits list.splits)
qed (auto simp: variable.psimps braced.psimps braceWord.psimps)

lemma lexer_total: "All variable_braced_braceWord_dom"
proof (rule "variable_braced_braceWord.termination" [of "measure (\<lambda>x. case x of Inl (lk, e, s) \<Rightarrow> length s
          | Inr (Inl (lk, e, name, colon, s)) \<Rightarrow> length s | Inr (Inr (lk, e, s)) \<Rightarrow> length s)"], goal_cases)
  case (2 lk e r rs name rest c cs)
  have "length cs < length rs"
    by (rule drop_Cons_length [of "length name" rs c cs]) (use 2 in simp)
  then show ?case by simp
next
  case (3 lk e r rs name rest c cs)
  have "length cs < length rs"
    by (rule drop_Cons_length [of "length name" rs c cs]) (use 3 in simp)
  then show ?case by simp
next
  case (6 lk e r rs b x y)
  then show ?case by (auto dest!: lexer_forward_dom(1))
qed auto

termination variable
  by (rule lexer_total)

lemma lexer_forward:
  "variable lk e s = Inr (v, rest) \<Longrightarrow> length rest \<le> length s"
  "braceWord lk e s = Inr (v, rest) \<Longrightarrow> length rest \<le> length s"
  by (erule lexer_forward_dom [OF spec [OF lexer_total]])+

section \<open>Words\<close>

function (sequential) doubleQuoted :: "lookup \<Rightarrow> char \<Rightarrow> string \<Rightarrow> lexed" where
  "doubleQuoted lk e [] = Inl UnterminatedDouble"
| "doubleQuoted lk e (r # rs) =
     (if r = dquote then Inr ([], rs)
      else if r = dollar then
        (case variable lk e rs of
           Inl err \<Rightarrow> Inl err
         | Inr (v, rest) \<Rightarrow> emit v (doubleQuoted lk e rest))
      else if r = e then
        (case rs of
           [] \<Rightarrow> Inl UnterminatedDouble
         | n # ns \<Rightarrow>
             emit (if n = dquote \<or> n = dollar \<or> n = e then [n] else [r, n]) (doubleQuoted lk e ns))
      else emit [r] (doubleQuoted lk e rs))"
  by pat_completeness auto
termination
proof (relation "measure (\<lambda>(lk, e, s). length s)", goal_cases)
  case (2 lk e r rs b v rest)
  then show ?case by (auto dest!: lexer_forward(1))
qed auto

lemma doubleQuoted_forward: "doubleQuoted lk e s = Inr (v, rest) \<Longrightarrow> length rest \<le> length s"
proof (induction "length s" arbitrary: s v rule: less_induct)
  case less
  show ?case
  proof (cases s)
    case Nil
    with less.prems show ?thesis by simp
  next
    case (Cons r rs)
    consider "r = dquote" | "r = dollar" | "r \<noteq> dquote" "r \<noteq> dollar" "r = e"
      | "r \<noteq> dquote" "r \<noteq> dollar" "r \<noteq> e" by blast
    then show ?thesis
    proof cases
      case 1
      with less.prems Cons show ?thesis by simp
    next
      case 2
      with less.prems Cons obtain u t w where
        t: "variable lk e rs = Inr (u, t)" "doubleQuoted lk e t = Inr (w, rest)"
        by (auto simp: emit_Inr split: sum.splits)
      from less.hyps [OF _ t(2)] lexer_forward(1) [OF t(1)] Cons show ?thesis by simp
    next
      case 3
      with less.prems Cons obtain n ns w where
        n: "rs = n # ns" "doubleQuoted lk e ns = Inr (w, rest)"
        by (auto simp: emit_Inr split: list.splits)
      from less.hyps [OF _ n(2)] n(1) Cons show ?thesis by simp
    next
      case 4
      with less.prems Cons obtain w where w: "doubleQuoted lk e rs = Inr (w, rest)"
        by (auto simp: emit_Inr)
      from less.hyps [OF _ w] Cons show ?thesis by simp
    qed
  qed
qed

text \<open>The loop of words: \<open>cur\<close> is the word being built and \<open>inWord\<close> whether there is one (a pair
  of quotes makes an empty word).\<close>

function (sequential) words ::
  "bool \<Rightarrow> lookup \<Rightarrow> char \<Rightarrow> string \<Rightarrow> string \<Rightarrow> bool \<Rightarrow> lex_error + string list" where
  "words split lk e [] cur inWord = Inr (if inWord then [cur] else [])"
| "words split lk e (r # rs) cur inWord =
     (if split \<and> is_space r then
        (case words split lk e rs (if inWord then [] else cur) False of
           Inl err \<Rightarrow> Inl err
         | Inr ws \<Rightarrow> Inr (if inWord then cur # ws else ws))
      else if r = e then
        (case rs of
           [] \<Rightarrow> words split lk e [] (cur @ [r]) True
         | n # ns \<Rightarrow> words split lk e ns (cur @ [n]) True)
      else if r = squote then
        (if squote \<in> set rs then
           words split lk e (tl (dropWhile (\<lambda>c. c \<noteq> squote) rs)) (cur @ takeWhile (\<lambda>c. c \<noteq> squote) rs) True
         else Inl UnterminatedSingle)
      else if r = dquote then
        (case doubleQuoted lk e rs of
           Inl err \<Rightarrow> Inl err
         | Inr (v, rest) \<Rightarrow> words split lk e rest (cur @ v) True)
      else if r = dollar then
        (case variable lk e rs of
           Inl err \<Rightarrow> Inl err
         | Inr (v, rest) \<Rightarrow> words split lk e rest (cur @ v) True)
      else words split lk e rs (cur @ [r]) True)"
  by pat_completeness auto
termination
proof (relation "measure (\<lambda>(split, lk, e, s, cur, inWord). length s)", goal_cases)
  case (5 split lk e r rs cur inWord)
  then show ?case using length_dropWhile_le [of "\<lambda>c. c \<noteq> squote" rs] by simp
next
  case (6 split lk e r rs cur inWord b v rest)
  then show ?case by (auto dest!: doubleQuoted_forward)
next
  case (7 split lk e r rs cur inWord b v rest)
  then show ?case by (auto dest!: lexer_forward(1))
qed auto

definition Words :: "string \<Rightarrow> char \<Rightarrow> lookup \<Rightarrow> lex_error + string list" where
  "Words s escape lk = words True lk escape s [] False"

definition Expand :: "string \<Rightarrow> char \<Rightarrow> lookup \<Rightarrow> lex_error + string" where
  "Expand s escape lk =
     (case words False lk escape s [] False of Inl e \<Rightarrow> Inl e | Inr w \<Rightarrow> Inr (concat w))"

section \<open>KeyValues and quote\<close>

datatype kv_error =
    LexError lex_error | MissingArguments | MissingValue string | ExpectedKeyValue string
  | EmptyKey string

definition key_value :: "string \<Rightarrow> kv_error + (string \<times> string)" where
  "key_value w = (case cut_str w ''='' of (k, v, ok) \<Rightarrow>
     if \<not> ok then Inl (ExpectedKeyValue w) else if k = [] then Inl (EmptyKey w) else Inr (k, v))"

definition KeyValues ::
  "string \<Rightarrow> char \<Rightarrow> lookup \<Rightarrow> bool \<Rightarrow> kv_error + (string \<times> string) list" where
  "KeyValues raw escape lk legacy =
     (case Words raw escape lk of
        Inl e \<Rightarrow> Inl (LexError e)
      | Inr [] \<Rightarrow> Inl MissingArguments
      | Inr (w # ws) \<Rightarrow>
          if legacy \<and> \<not> contains w ''='' then
            (case cut_str (trim_space raw) '' '' of (key, rest, _) \<Rightarrow>
               if trim_space rest = [] then Inl (MissingValue key)
               else case Expand (trim_space rest) escape lk of
                      Inl e \<Rightarrow> Inl (LexError e)
                    | Inr v \<Rightarrow> Inr [(key, v)])
          else map_res key_value (w # ws))"

definition quote_chars :: "string \<Rightarrow> string" where
  "quote_chars s = concat (map (\<lambda>c. if c = backslash \<or> c = dquote \<or> c = dollar then [backslash, c] else [c]) s)"

definition quote :: "string \<Rightarrow> string" where
  "quote s = dquote # quote_chars s @ [dquote]"

section \<open>Evaluation lemmas\<close>

text \<open>Characters the lexer copies.\<close>

definition ordinary :: "char \<Rightarrow> char \<Rightarrow> bool" where
  "ordinary e c \<longleftrightarrow> c \<noteq> e \<and> c \<noteq> squote \<and> c \<noteq> dquote \<and> c \<noteq> dollar \<and> c \<noteq> CHR ''}''"

lemma words_ordinary:
  "list_all (\<lambda>c. ordinary e c \<and> \<not> (split \<and> is_space c)) s \<Longrightarrow> s \<noteq> [] \<Longrightarrow>
     words split lk e (s @ rest) cur inWord = words split lk e rest (cur @ s) True"
proof (induction s arbitrary: cur inWord)
  case (Cons c s)
  then show ?case by (cases s) (auto simp: ordinary_def)
qed simp

lemma braceWord_ordinary:
  "list_all (ordinary e) w \<Longrightarrow> braceWord lk e (w @ CHR ''}'' # rest) = Inr (w, rest)"
  by (induction w) (auto simp: ordinary_def emit_def)

lemma doubleQuoted_quote_chars:
  "doubleQuoted lk backslash (quote_chars s @ dquote # rest) = Inr (s, rest)"
  by (induction s) (auto simp: quote_chars_def emit_def)

lemma words_quote:
  "words split lk backslash (quote s) cur inWord = Inr [cur @ s]"
  by (simp add: quote_def doubleQuoted_quote_chars is_space_def)

lemma name_span_all:
  assumes "isNameRune c True" and "list_all (\<lambda>c. isNameRune c False) cs"
    and "rest = [] \<or> \<not> isNameRune (hd rest) False"
  shows "name_span ((c # cs) @ rest) = c # cs"
  using assms by (cases rest) (auto simp: name_span_def takeWhile_append2 list_all_iff)

lemma braced_form:
  assumes "isNameRune c True" and "list_all (\<lambda>c. isNameRune c False) cs"
    and "list_all (ordinary e) word" and "m = CHR ''-'' \<or> m = CHR ''+''"
  shows "variable lk e (CHR ''{'' # (c # cs) @ (if colon then [CHR '':''] else []) @ m # word @ CHR ''}'' # rest)
     = Inr (modified lk (c # cs) colon m word, rest)"
proof -
  let ?tail = "(if colon then [CHR '':''] else []) @ m # word @ CHR ''}'' # rest"
  have m: "\<not> isNameRune m False"
    using assms(4) by (auto simp: isNameRune_def go_defs)
  have "\<not> isNameRune (hd ?tail) False"
    using m by (auto simp: isNameRune_def go_defs)
  then have span: "name_span ((c # cs) @ ?tail) = c # cs"
    using name_span_all [OF assms(1,2), of ?tail] by blast
  have "m \<noteq> CHR ''}''" "m \<noteq> CHR '':''" using assms(4) by auto
  then show ?thesis
    using assms(4) span by (cases colon) (auto simp: braceWord_ordinary [OF assms(3)] Let_def)
qed

lemma words_variable:
  assumes "variable lk e s = Inr (v, rest)" and "e \<noteq> dollar"
  shows "words split lk e (dollar # s) cur inWord = words split lk e rest (cur @ v) True"
  using assms by (simp add: is_space_def)

lemma Expand_braced:
  assumes "isNameRune c True" and "list_all (\<lambda>c. isNameRune c False) cs"
    and "list_all (ordinary e) word" and "e \<noteq> dollar" and "m = CHR ''-'' \<or> m = CHR ''+''"
  shows "Expand (''${'' @ (c # cs) @ (if colon then [CHR '':''] else []) @ m # word @ ''}'') e lk
     = Inr (modified lk (c # cs) colon m word)"
  using words_variable [OF braced_form [OF assms(1-3,5), of lk colon "[]"] assms(4),
      of False "[]" False]
  by (simp add: Expand_def del: words.simps(2))

section \<open>Properties\<close>

text \<open>What parseInstruction writes for MAINTAINER is read back unchanged: quote makes one word
  of any text, and the label it is put into has that text as its value, whatever the build
  variables are. The escape character is the default one.\<close>

theorem quote_roundtrip:
  "Words (quote s) backslash lk = Inr [s] \<and>
   KeyValues (''maintainer='' @ quote s) backslash lk False = Inr [(''maintainer'', s)]"
proof
  show "Words (quote s) backslash lk = Inr [s]"
    by (simp add: Words_def words_quote del: words.simps)
  have "words True lk backslash (''maintainer='' @ quote s) [] False
      = words True lk backslash (quote s) ''maintainer='' True"
    using words_ordinary [of backslash True "''maintainer=''" lk "quote s" "[]" False]
    by (simp add: ordinary_def is_space_def del: words.simps)
  then have "Words (''maintainer='' @ quote s) backslash lk = Inr [''maintainer='' @ s]"
    unfolding Words_def by (simp add: words_quote del: words.simps)
  moreover have "cut_str (''maintainer='' @ s) ''='' = (''maintainer'', s, True)"
    by (simp add: cut_str_def has_prefix_def)
  ultimately show "KeyValues (''maintainer='' @ quote s) backslash lk False = Inr [(''maintainer'', s)]"
    by (simp add: KeyValues_def key_value_def)
qed

text \<open>The four conditional forms of a variable do what their names say, for every name and
  every word without special characters: the dash gives the word when the variable is unset
  (with the colon: unset or empty) and its value otherwise; the plus gives the word when the
  variable is set (with the colon: set and not empty) and nothing otherwise.\<close>

theorem Expand_modifiers:
  assumes "isNameRune c True" and "list_all (\<lambda>c. isNameRune c False) cs"
    and "list_all (ordinary e) word" and "e \<noteq> dollar"
  shows "Expand (''${'' @ (c # cs) @ ''-'' @ word @ ''}'') e lk
           = Inr (case lk (c # cs) of None \<Rightarrow> word | Some v \<Rightarrow> v) \<and>
         Expand (''${'' @ (c # cs) @ '':-'' @ word @ ''}'') e lk
           = Inr (case lk (c # cs) of None \<Rightarrow> word | Some v \<Rightarrow> if v = [] then word else v) \<and>
         Expand (''${'' @ (c # cs) @ ''+'' @ word @ ''}'') e lk
           = Inr (case lk (c # cs) of None \<Rightarrow> [] | Some v \<Rightarrow> word) \<and>
         Expand (''${'' @ (c # cs) @ '':+'' @ word @ ''}'') e lk
           = Inr (case lk (c # cs) of None \<Rightarrow> [] | Some v \<Rightarrow> if v = [] then [] else word)"
  using Expand_braced [OF assms, of "CHR ''-''" False lk] Expand_braced [OF assms, of "CHR ''-''" True lk]
    Expand_braced [OF assms, of "CHR ''+''" False lk] Expand_braced [OF assms, of "CHR ''+''" True lk]
  by (auto simp: modified_def get_var_def split: option.splits)

theorem Expand_modifiers_witness:
  "Expand ''${TAG:-latest}'' backslash (\<lambda>_. Some []) = Inr ''latest''"
  using Expand_modifiers [of "CHR ''T''" "''AG''" backslash "''latest''" "\<lambda>_. Some []"]
  by (simp add: isNameRune_def ordinary_def go_defs)

text \<open>Single quotes are literal: whatever stands between them, white space, escapes and
  dollars included, is one word, and no variable is looked up.\<close>

theorem Words_single_quoted:
  assumes "squote \<notin> set s" and "e \<noteq> squote"
  shows "Words (squote # s @ [squote]) e lk = Inr [s]"
proof -
  have "takeWhile (\<lambda>c. c \<noteq> squote) (s @ [squote]) = s"
    and "dropWhile (\<lambda>c. c \<noteq> squote) (s @ [squote]) = [squote]"
    using assms(1) by (auto simp: takeWhile_tail intro: dropWhile_append2 [THEN trans])
  then show ?thesis
    using assms by (simp add: Words_def is_space_def)
qed

theorem Words_single_quoted_witness:
  "Words (squote # ''a $B c'' @ [squote]) backslash (\<lambda>_. None) = Inr [''a $B c'']"
  using Words_single_quoted [of "''a $B c''" backslash "\<lambda>_. None"] by simp

text \<open>The text quote writes is not what the lexer of a Dockerfile with \<open># escape=`\<close> reads: the
  backslashes are then ordinary and a quote in the text ends the string.\<close>

lemma quote_backtick:
  "KeyValues (''maintainer='' @ quote [CHR ''a'', dquote, CHR ''b'']) (CHR 0x60) (\<lambda>_. None) False
     = Inl (LexError UnterminatedDouble)"
  by code_simp

end
