(* ===== verification/Go_Json.thy ===== *)
theory Go_Json
  imports Go_Path
begin

text \<open>
  The part of encoding/json the build code uses: arrays of strings. \<open>json_strings\<close> is json.Unmarshal into
  a slice of strings (a null element leaves the empty string, any other value is an error), \<open>json_array\<close> is
  what an Encoder without HTML escaping writes for one. Text is UTF-8: bytes above 127 are copied, and
  the two separators U+2028 and U+2029, which the encoder escapes, are not given a rule of their own.
\<close>

section \<open>Characters\<close>

definition json_space :: "char \<Rightarrow> bool" where
  "json_space c \<longleftrightarrow> c = CHR '' '' \<or> c = CHR 0x09 \<or> c = CHR 0x0A \<or> c = CHR 0x0D"

definition hex_digit :: "nat \<Rightarrow> char" where
  "hex_digit n = (if n < 10 then char_of (48 + n) else char_of (87 + n))"

definition hex_val :: "char \<Rightarrow> nat option" where
  "hex_val c =
     (let n = of_char c :: nat
      in if 48 \<le> n \<and> n \<le> 57 then Some (n - 48) else if 97 \<le> n \<and> n \<le> 102 then Some (n - 87)
         else if 65 \<le> n \<and> n \<le> 70 then Some (n - 55) else None)"

fun hex4 :: "string \<Rightarrow> (nat \<times> string) option" where
  "hex4 (a # b # c # d # s) =
     (case (hex_val a, hex_val b, hex_val c, hex_val d) of
        (Some w, Some x, Some y, Some z) \<Rightarrow> Some (((w * 16 + x) * 16 + y) * 16 + z, s)
      | _ \<Rightarrow> None)"
| "hex4 _ = None"

definition utf8 :: "nat \<Rightarrow> string" where
  "utf8 n =
     (if n < 128 then [char_of n]
      else if n < 2048 then [char_of (192 + n div 64), char_of (128 + n mod 64)]
      else if n < 65536 then [char_of (224 + n div 4096), char_of (128 + n div 64 mod 64), char_of (128 + n mod 64)]
      else [char_of (240 + n div 262144), char_of (128 + n div 4096 mod 64), char_of (128 + n div 64 mod 64), char_of (128 + n mod 64)])"

definition replacement :: string where
  "replacement = utf8 65533"

text \<open>A \<open>\u\<close> escape, with its second half when it is a surrogate pair; a lone surrogate is replaced.\<close>

definition unicode_escape :: "string \<Rightarrow> (string \<times> string) option" where
  "unicode_escape s =
     (case hex4 s of
        None \<Rightarrow> None
      | Some (n, r) \<Rightarrow>
          if n < 55296 \<or> 57343 < n then Some (utf8 n, r)
          else if 56320 \<le> n then Some (replacement, r)
          else (case r of
              x # y # r' \<Rightarrow>
                if x = CHR 0x5C \<and> y = CHR ''u'' then
                  (case hex4 r' of
                     Some (m, r'') \<Rightarrow> if 56320 \<le> m \<and> m \<le> 57343 then Some (utf8 (65536 + (n - 55296) * 1024 + (m - 56320)), r'')
                                      else Some (replacement, r)
                   | None \<Rightarrow> Some (replacement, r))
                else Some (replacement, r)
            | _ \<Rightarrow> Some (replacement, r)))"

definition simple_escape :: "char \<Rightarrow> char option" where
  "simple_escape c =
     (if c = CHR 0x22 \<or> c = CHR 0x5C \<or> c = CHR ''/'' then Some c
      else if c = CHR ''b'' then Some (CHR 0x08) else if c = CHR ''f'' then Some (CHR 0x0C)
      else if c = CHR ''n'' then Some (CHR 0x0A) else if c = CHR ''r'' then Some (CHR 0x0D)
      else if c = CHR ''t'' then Some (CHR 0x09) else None)"

section \<open>Decoding\<close>

lemma hex4_length: "hex4 s = Some (n, r) \<Longrightarrow> length r < length s"
  by (induction s rule: hex4.induct) (auto split: option.splits)

lemma unicode_escape_length: "unicode_escape s = Some (u, r) \<Longrightarrow> length r < length s"
  by (auto simp: unicode_escape_def dest!: hex4_length split: option.splits list.splits if_splits prod.splits)

text \<open>The rest of a string literal after its opening quote.\<close>

function (sequential) json_string :: "string \<Rightarrow> (string \<times> string) option" where
  "json_string [] = None"
| "json_string (c # s) =
     (if c = CHR 0x22 then Some ([], s)
      else if (of_char c :: nat) < 32 then None
      else if c \<noteq> CHR 0x5C then map_option (\<lambda>(v, r). (c # v, r)) (json_string s)
      else case s of
             [] \<Rightarrow> None
           | e # s' \<Rightarrow>
               if e = CHR ''u'' then
                 (case unicode_escape s' of
                    None \<Rightarrow> None
                  | Some (u, r) \<Rightarrow> map_option (\<lambda>(v, r'). (u @ v, r')) (json_string r))
               else case simple_escape e of
                      None \<Rightarrow> None
                    | Some x \<Rightarrow> map_option (\<lambda>(v, r). (x # v, r)) (json_string s'))"
  by pat_completeness auto
termination by (relation "measure length") (auto dest: unicode_escape_length)

lemma json_string_length: "json_string s = Some (v, r) \<Longrightarrow> length r < length s"
proof (induction s arbitrary: v r rule: json_string.induct)
  case (2 c s)
  then show ?case
    by (fastforce split: if_splits list.splits option.splits dest!: unicode_escape_length)
qed simp

text \<open>One element: a string, or null.\<close>

definition json_elem :: "string \<Rightarrow> (string \<times> string) option" where
  "json_elem s =
     (case s of
        [] \<Rightarrow> None
      | c # s' \<Rightarrow> if c = CHR 0x22 then json_string s' else if has_prefix s ''null'' then Some ([], drop 4 s) else None)"

lemma json_elem_length: "json_elem s = Some (v, r) \<Longrightarrow> length r < length s"
  by (auto simp: json_elem_def has_prefix_def dest: json_string_length split: list.splits if_splits)

abbreviation skip_space :: "string \<Rightarrow> string" where
  "skip_space s \<equiv> dropWhile json_space s"

text \<open>The elements up to the closing bracket, and what follows it.\<close>

function (sequential) json_elems :: "string \<Rightarrow> (string list \<times> string) option" where
  "json_elems s =
     (case json_elem (skip_space s) of
        None \<Rightarrow> None
      | Some (v, r) \<Rightarrow>
          (case skip_space r of
             [] \<Rightarrow> None
           | c # r' \<Rightarrow> if c = CHR '']'' then Some ([v], r')
                       else if c = CHR '','' then map_option (\<lambda>(vs, t). (v # vs, t)) (json_elems r')
                       else None))"
  by pat_completeness auto
termination
proof (relation "measure length", goal_cases)
  case (2 s x2 v r c r')
  then have "length r < length (skip_space s)" by (auto dest: json_elem_length)
  moreover have "length (skip_space s) \<le> length s" "length (skip_space r) \<le> length r" by (rule length_dropWhile_le)+
  ultimately show ?case using 2 by simp
qed simp

declare json_elems.simps [simp del]

definition json_strings :: "string \<Rightarrow> string list option" where
  "json_strings s =
     (case skip_space s of
        [] \<Rightarrow> None
      | c # r \<Rightarrow>
          if c \<noteq> CHR ''['' then None
          else (case skip_space r of
                  [] \<Rightarrow> None
                | d # r' \<Rightarrow>
                    if d = CHR '']'' then (if skip_space r' = [] then Some [] else None)
                    else case json_elems r of
                           None \<Rightarrow> None
                         | Some (vs, t) \<Rightarrow> if skip_space t = [] then Some vs else None))"

section \<open>Encoding\<close>

definition json_char :: "char \<Rightarrow> string" where
  "json_char c =
     (let n = of_char c :: nat
      in if c = CHR 0x22 \<or> c = CHR 0x5C then [CHR 0x5C, c]
         else if 32 \<le> n then [c]
         else if n = 8 then [CHR 0x5C, CHR ''b''] else if n = 12 then [CHR 0x5C, CHR ''f'']
         else if n = 10 then [CHR 0x5C, CHR ''n''] else if n = 13 then [CHR 0x5C, CHR ''r'']
         else if n = 9 then [CHR 0x5C, CHR ''t'']
         else [CHR 0x5C, CHR ''u'', CHR ''0'', CHR ''0'', hex_digit (n div 16), hex_digit (n mod 16)])"

definition json_quote :: "string \<Rightarrow> string" where
  "json_quote s = CHR 0x22 # concat (map json_char s) @ [CHR 0x22]"

definition json_array :: "string list \<Rightarrow> string" where
  "json_array ss = CHR ''['' # join_with '','' (map json_quote ss) @ '']''"

text \<open>json.Marshal also escapes the characters that matter in HTML.\<close>

definition html_char :: "char \<Rightarrow> string" where
  "html_char c = (if c = CHR ''<'' \<or> c = CHR ''>'' \<or> c = CHR ''&''
     then [CHR 0x5C, CHR ''u'', CHR ''0'', CHR ''0'', hex_digit (of_char c div 16), hex_digit (of_char c mod 16)] else json_char c)"

definition json_marshal :: "string list \<Rightarrow> string" where
  "json_marshal ss = CHR ''['' # join_with '','' (map (\<lambda>s. CHR 0x22 # concat (map html_char s) @ [CHR 0x22]) ss) @ '']''"

section \<open>Round trip\<close>

lemma json_hex_val_digit: "n < 16 \<Longrightarrow> hex_val (hex_digit n) = Some n"
  by (auto simp: hex_val_def hex_digit_def Let_def)

lemma json_string_char: "json_string (json_char c @ s) = map_option (\<lambda>(v, r). (c # v, r)) (json_string s)"
proof -
  let ?n = "of_char c :: nat"
  have b: "?n < 256" by simp
  have c: "c = char_of ?n" by simp
  consider "c = CHR 0x22 \<or> c = CHR 0x5C" | "32 \<le> ?n" "c \<noteq> CHR 0x22" "c \<noteq> CHR 0x5C"
    | "?n \<in> {8, 9, 10, 12, 13}" | "?n < 32" "?n \<notin> {8, 9, 10, 12, 13}" by force
  then show ?thesis
  proof cases
    case 3
    then have "?n = of_char (CHR 0x08) \<or> ?n = of_char (CHR 0x09) \<or> ?n = of_char (CHR 0x0A) \<or> ?n = of_char (CHR 0x0C) \<or>
      ?n = of_char (CHR 0x0D)" by simp
    then have "c = CHR 0x08 \<or> c = CHR 0x09 \<or> c = CHR 0x0A \<or> c = CHR 0x0C \<or> c = CHR 0x0D"
      by (simp only: of_char_eq_iff)
    then show ?thesis by (auto simp: json_char_def simple_escape_def Let_def)
  next
    case 4
    then have e: "json_char c = [CHR 0x5C, CHR ''u'', CHR ''0'', CHR ''0'', hex_digit (?n div 16), hex_digit (?n mod 16)]"
      by (auto simp: json_char_def Let_def)
    have "hex_val (hex_digit (?n div 16)) = Some (?n div 16)" "hex_val (hex_digit (?n mod 16)) = Some (?n mod 16)"
      "hex_val (CHR ''0'') = Some 0"
      using 4 json_hex_val_digit [of "?n div 16"] json_hex_val_digit [of "?n mod 16"] by (simp_all add: hex_val_def [of "CHR ''0''"])
    then have "unicode_escape (CHR ''0'' # CHR ''0'' # hex_digit (?n div 16) # hex_digit (?n mod 16) # s) = Some ([c], s)"
      using 4 by (simp add: unicode_escape_def utf8_def)
    then show ?thesis by (simp add: e split: option.splits)
  qed (auto simp: json_char_def simple_escape_def Let_def)
qed

lemma json_string_chars: "json_string (concat (map json_char v) @ CHR 0x22 # s) = Some (v, s)"
  by (induction v) (simp_all add: json_string_char)

lemma json_elem_quote: "json_elem (json_quote v @ s) = Some (v, s)"
  by (simp add: json_elem_def json_quote_def json_string_chars)

lemma skip_space_quote [simp]: "skip_space (json_quote v @ s) = json_quote v @ s"
  by (simp add: json_quote_def json_space_def)

lemma json_elems_join:
  "vs \<noteq> [] \<Longrightarrow> json_elems (join_with '','' (map json_quote vs) @ CHR '']'' # s) = Some (vs, s)"
proof (induction vs rule: induct_list012)
  case (2 v)
  show ?case by (subst json_elems.simps) (simp add: json_elem_quote json_space_def)
next
  case (3 v w vs)
  then show ?case by (subst json_elems.simps) (simp add: json_elem_quote json_space_def)
qed simp

lemma json_strings_array: "json_strings (json_array vs) = Some vs"
proof (cases vs)
  case (Cons v ws)
  then obtain u where u: "join_with '','' (map json_quote vs) @ '']'' = CHR 0x22 # u"
    by (cases ws) (simp_all add: json_quote_def)
  then show ?thesis using json_elems_join [of vs "[]"] Cons
    by (simp add: json_strings_def json_array_def json_space_def u)
qed (simp add: json_strings_def json_array_def json_space_def)

end
