(* ===== verification/Compose_Types.thy ===== *)
theory Compose_Types
  imports Nyx_Prelude "HOL-Library.Word"
begin

text \<open>
  The data of a parsed compose file (src/internal/compose/types.go, build.go, envfile.go):
  one record per Go struct with the struct's fields in the struct's order. A pointer that may
  be nil is an option, a map is a \<^typ>\<open>('k, 'v) gomap\<close>, a time.Duration is its number of
  nanoseconds, a uint64 is a \<^typ>\<open>64 word\<close>. Restart policies stay strings, as in the code,
  because the code compares them after lower-casing.
\<close>

type_synonym duration = int

abbreviation second :: duration where "second \<equiv> 1000000000"
abbreviation millisecond :: duration where "millisecond \<equiv> 1000000"

record build =
  b_context :: string
  b_dockerfile :: string
  b_args :: "(string, string) gomap"
  b_target :: string

record env_file =
  ef_path :: string
  ef_required :: bool

record ulimit =
  ul_soft :: "64 word"
  ul_hard :: "64 word"

record healthcheck =
  hc_test :: "string list"
  hc_interval :: duration
  hc_timeout :: duration
  hc_retries :: int
  hc_start_period :: duration

record resource_spec =
  rs_cpus :: string
  rs_memory :: string
  rs_memory_swap :: string
  rs_pids_limit :: "int option"
  rs_oom_kill_disable :: "bool option"
  rs_oom_score_adj :: "int option"
  rs_cpuset_cpus :: string
  rs_cpuset_mems :: string
  rs_blkio_weight :: "int option"

record resources =
  r_limits :: resource_spec
  r_reservations :: resource_spec

record deploy =
  dep_resources :: resources

record service =
  svc_image :: string
  svc_build :: "build option"
  svc_registry_username :: string
  svc_registry_password :: string
  svc_command :: "string list"
  svc_entrypoint :: "string list"
  svc_environment :: "(string, string) gomap"
  svc_env_files :: "env_file list"
  svc_volumes :: "string list"
  svc_networks :: "string list"
  svc_network_mode :: string
  svc_ports :: "string list"
  svc_restart :: string
  svc_healthcheck :: "healthcheck option"
  svc_deploy :: "deploy option"
  svc_depends_on :: "string list"
  svc_privileged :: bool
  svc_read_only :: bool
  svc_user :: string
  svc_labels :: "(string, string) gomap"
  svc_cap_add :: "string list"
  svc_cap_drop :: "string list"
  svc_seccomp_profile :: string
  svc_apparmor_profile :: string
  svc_dns :: "string list"
  svc_ulimits :: "(string, ulimit) gomap"
  svc_no_new_privileges :: "bool option"
  svc_stop_timeout :: duration

record network =
  nw_driver :: string
  nw_bridge :: string
  nw_subnet :: string
  nw_internal :: bool

record volume =
  vol_driver :: string

record stack =
  st_name :: string
  st_version :: string
  st_services :: "(string, service) gomap"
  st_networks :: "(string, network) gomap"
  st_volumes :: "(string, volume) gomap"

text \<open>The zero value of Service, which indexing the services map with an absent key yields.\<close>

definition zero_service :: service where
  "zero_service =
     \<lparr>svc_image = [], svc_build = None, svc_registry_username = [], svc_registry_password = [],
      svc_command = [], svc_entrypoint = [], svc_environment = [], svc_env_files = [], svc_volumes = [],
      svc_networks = [], svc_network_mode = [], svc_ports = [], svc_restart = [], svc_healthcheck = None,
      svc_deploy = None, svc_depends_on = [], svc_privileged = False, svc_read_only = False, svc_user = [],
      svc_labels = [], svc_cap_add = [], svc_cap_drop = [], svc_seccomp_profile = [], svc_apparmor_profile = [],
      svc_dns = [], svc_ulimits = [], svc_no_new_privileges = None, svc_stop_timeout = 0\<rparr>"

text \<open>Indexing a Go map of services: an absent key gives the zero value.\<close>

definition service_at :: "(string, service) gomap \<Rightarrow> string \<Rightarrow> service" where
  "service_at svcs n = (case map_of svcs n of None \<Rightarrow> zero_service | Some s \<Rightarrow> s)"

text \<open>
  The dependencies of a name, and the whole universe of names a stack mentions: its services and
  everything they depend on.
\<close>

definition deps :: "(string, service) gomap \<Rightarrow> string \<Rightarrow> string list" where
  "deps svcs n = svc_depends_on (service_at svcs n)"

definition names :: "(string, service) gomap \<Rightarrow> string list" where
  "names svcs = map fst svcs"

definition mentioned :: "(string, service) gomap \<Rightarrow> string set" where
  "mentioned svcs = set (names svcs) \<union> (\<Union>n \<in> set (names svcs). set (deps svcs n))"

definition dep_rel :: "(string, service) gomap \<Rightarrow> (string \<times> string) set" where
  "dep_rel svcs = {(n, d). d \<in> set (deps svcs n)}"

lemma deps_unknown [simp]: "n \<notin> set (names svcs) \<Longrightarrow> deps svcs n = []"
  by (simp add: deps_def service_at_def names_def zero_service_def map_of_eq_None_iff [THEN iffD2])

lemma deps_known:
  "distinct (names svcs) \<Longrightarrow> (n, s) \<in> set svcs \<Longrightarrow> deps svcs n = svc_depends_on s"
  by (simp add: deps_def service_at_def names_def)

lemma finite_mentioned [simp]: "finite (mentioned svcs)"
  by (simp add: mentioned_def)

lemma mentioned_name: "n \<in> set (names svcs) \<Longrightarrow> n \<in> mentioned svcs"
  by (simp add: mentioned_def)

lemma mentioned_dep: "d \<in> set (deps svcs n) \<Longrightarrow> d \<in> mentioned svcs"
  by (cases "n \<in> set (names svcs)") (auto simp: mentioned_def)

lemma deps_cong:
  assumes "map_of svcs = map_of svcs'"
  shows "deps svcs = deps svcs'"
  using assms by (simp add: deps_def service_at_def fun_eq_iff)

end
