(* ===== verification/Compose_Graph.thy ===== *)
theory Compose_Graph
  imports Compose_Types
begin

text \<open>
  The dependency graph of a compose stack (src/internal/compose/parse.go, order.go):
  the depth-first search that rejects cyclic stacks and Kahn's algorithm that orders the
  services, with the queue, the in-degree map and the sorted batches of the code.
\<close>

section \<open>detectCycles\<close>

text \<open>
  The search colours names: an absent key of the Go map reads 0 (\<open>White\<close>), 1 is \<open>Grey\<close>
  (on the stack), 2 is \<open>Black\<close> (done). \<open>None\<close> is the error "dependency cycle detected".
\<close>

datatype color = White | Grey | Black

type_synonym coloring = "string \<Rightarrow> color"

definition unvisited :: "(string, service) gomap \<Rightarrow> coloring \<Rightarrow> nat" where
  "unvisited svcs col = card {n \<in> mentioned svcs. col n = White}"

function dfs :: "(string, service) gomap \<Rightarrow> string \<Rightarrow> coloring \<Rightarrow> coloring option"
  and dfs_deps :: "(string, service) gomap \<Rightarrow> string list \<Rightarrow> coloring \<Rightarrow> coloring option"
where
  "dfs svcs n col =
     (case col n of
        Grey \<Rightarrow> None
      | Black \<Rightarrow> Some col
      | White \<Rightarrow>
          (case dfs_deps svcs (deps svcs n) (col(n := Grey)) of
             None \<Rightarrow> None
           | Some col' \<Rightarrow> Some (col'(n := Black))))"
| "dfs_deps svcs [] col = Some col"
| "dfs_deps svcs (d # ds) col =
     (case dfs svcs d col of None \<Rightarrow> None | Some col' \<Rightarrow> dfs_deps svcs ds col')"
  by pat_completeness auto

text \<open>The search never makes a name white again, which is why it stops.\<close>

lemma dfs_white_dom:
  "dfs_dfs_deps_dom (Inl (svcs, n, col)) \<Longrightarrow>
     dfs svcs n col = Some col' \<Longrightarrow> col' m = White \<Longrightarrow> col m = White"
  "dfs_dfs_deps_dom (Inr (svcs, ds, col)) \<Longrightarrow>
     dfs_deps svcs ds col = Some col' \<Longrightarrow> col' m = White \<Longrightarrow> col m = White"
  by (induction svcs n col and svcs ds col arbitrary: col' and col' rule: dfs_dfs_deps.pinduct)
    (fastforce simp: dfs.psimps dfs_deps.psimps split: color.splits option.splits if_splits)+

lemma unvisited_mono:
  assumes "\<And>m. col' m = White \<Longrightarrow> col m = White"
  shows "unvisited svcs col' \<le> unvisited svcs col"
  unfolding unvisited_def using assms by (intro card_mono) auto

lemma unvisited_grey:
  assumes "col n = White" "n \<in> mentioned svcs"
  shows "unvisited svcs (col(n := Grey)) < unvisited svcs col"
  unfolding unvisited_def using assms by (intro psubset_card_mono) auto

termination dfs
proof (relation "measures [\<lambda>x. case x of Inl (svcs, n, col) \<Rightarrow> unvisited svcs col
                                       | Inr (svcs, ds, col) \<Rightarrow> unvisited svcs col,
                           \<lambda>x. case x of Inl (svcs, n, col) \<Rightarrow> 1
                                       | Inr (svcs, ds, col) \<Rightarrow> 2 * length ds]", goal_cases)
  case 1
  show ?case by simp
next
  case (2 svcs n col)
  then show ?case
  proof (cases "n \<in> mentioned svcs")
    case True
    with 2 show ?thesis by (simp add: unvisited_grey)
  next
    case False
    then have "deps svcs n = []" using mentioned_name by (metis deps_unknown)
    moreover have "unvisited svcs (col(n := Grey)) \<le> unvisited svcs col"
      by (rule unvisited_mono) (simp split: if_splits)
    ultimately show ?thesis by (auto simp: le_less)
  qed
next
  case (3 svcs d ds col)
  then show ?case by simp
next
  case (4 svcs d ds col col')
  have "unvisited svcs col' \<le> unvisited svcs col"
    by (rule unvisited_mono) (rule dfs_white_dom(1) [OF 4(2,1)])
  then show ?case by (auto simp: le_less)
qed

declare dfs.simps [simp del]

lemma dfs_color_simps:
  "col n = White \<Longrightarrow> dfs svcs n col =
     map_option (\<lambda>c. c(n := Black)) (dfs_deps svcs (deps svcs n) (col(n := Grey)))"
  "col n = Grey \<Longrightarrow> dfs svcs n col = None"
  "col n = Black \<Longrightarrow> dfs svcs n col = Some col"
  by (simp_all add: dfs.simps split: option.split)

lemma dfs_Some_cases:
  assumes "dfs svcs n col = Some col'"
  obtains "col n = Black" and "col' = col"
  | c where "col n = White" and "dfs_deps svcs (deps svcs n) (col(n := Grey)) = Some c"
      and "col' = c(n := Black)"
  using assms by (cases "col n") (auto simp: dfs_color_simps)

fun dfs_roots :: "(string, service) gomap \<Rightarrow> string list \<Rightarrow> coloring \<Rightarrow> coloring option" where
  "dfs_roots svcs [] col = Some col"
| "dfs_roots svcs (n # ns) col =
     (if col n = White then
        (case dfs svcs n col of None \<Rightarrow> None | Some col' \<Rightarrow> dfs_roots svcs ns col')
      else dfs_roots svcs ns col)"

definition detectCycles :: "(string, service) gomap \<Rightarrow> bool" where
  "detectCycles svcs \<longleftrightarrow> dfs_roots svcs (sort_strings (names svcs)) (\<lambda>_. White) = None"

subsection \<open>A search that succeeds proves the graph acyclic\<close>

text \<open>
  The black names always carry a ranking: every dependency of a black name is black and ranks
  lower. Blackening a name gives it a rank above all of its dependencies.
\<close>

definition ranked :: "(string, service) gomap \<Rightarrow> coloring \<Rightarrow> (string \<Rightarrow> nat) \<Rightarrow> bool" where
  "ranked svcs col f \<longleftrightarrow>
     (\<forall>n. col n = Black \<longrightarrow> (\<forall>d \<in> set (deps svcs n). col d = Black \<and> f d < f n))"

lemma ranked_blacken:
  assumes "ranked svcs col f" and "col n \<noteq> Black"
    and "\<forall>d \<in> set (deps svcs n). col d = Black"
  shows "ranked svcs (col(n := Black)) (f(n := Suc (Max (insert 0 (f ` set (deps svcs n))))))"
proof -
  have "f d < Suc (Max (insert 0 (f ` set (deps svcs n))))" if "d \<in> set (deps svcs n)" for d
    using that by (intro le_imp_less_Suc Max_ge) auto
  with assms show ?thesis by (auto simp: ranked_def)
qed

text \<open>What a successful visit does to the colours: grey names stay grey, black names stay black,
  and the visited names end up black.\<close>

lemma dfs_grey:
  "dfs svcs n col = Some col' \<Longrightarrow> col' m = Grey \<longleftrightarrow> col m = Grey"
  "dfs_deps svcs ds col = Some col' \<Longrightarrow> col' m = Grey \<longleftrightarrow> col m = Grey"
proof (induction svcs n col and svcs ds col arbitrary: col' and col' rule: dfs_dfs_deps.induct)
  case (1 svcs n col)
  from "1.prems" show ?case
  proof (cases rule: dfs_Some_cases)
    case (2 c)
    with "1.IH" [OF 2(1,2)] show ?thesis by (cases "m = n") auto
  qed simp
qed (auto split: option.splits)

lemma dfs_black_mono:
  "dfs svcs n col = Some col' \<Longrightarrow> col m = Black \<Longrightarrow> col' m = Black"
  "dfs_deps svcs ds col = Some col' \<Longrightarrow> col m = Black \<Longrightarrow> col' m = Black"
proof (induction svcs n col and svcs ds col arbitrary: col' and col' rule: dfs_dfs_deps.induct)
  case (1 svcs n col)
  from "1.prems"(1) show ?case
  proof (cases rule: dfs_Some_cases)
    case (2 c)
    with "1.IH" [OF 2(1,2)] "1.prems"(2) show ?thesis by (cases "m = n") auto
  qed (simp add: "1.prems")
qed (auto split: option.splits)

lemma dfs_visited: "dfs svcs n col = Some col' \<Longrightarrow> col' n = Black"
  by (auto simp: dfs.simps split: color.splits option.splits)

lemma dfs_deps_visited:
  "dfs_deps svcs ds col = Some col' \<Longrightarrow> \<forall>d \<in> set ds. col' d = Black"
  by (induction ds arbitrary: col) (auto split: option.splits dest: dfs_visited dfs_black_mono(2))

lemma dfs_ranked:
  "dfs svcs n col = Some col' \<Longrightarrow> ranked svcs col f \<Longrightarrow> \<exists>f'. ranked svcs col' f'"
  "dfs_deps svcs ds col = Some col' \<Longrightarrow> ranked svcs col f \<Longrightarrow> \<exists>f'. ranked svcs col' f'"
proof (induction svcs n col and svcs ds col arbitrary: col' f and col' f rule: dfs_dfs_deps.induct)
  case (1 svcs n col)
  from "1.prems"(1) show ?case
  proof (cases rule: dfs_Some_cases)
    case (2 c)
    from "1.prems"(2) 2(1) have "ranked svcs (col(n := Grey)) f" by (auto simp: ranked_def)
    with "1.IH" [OF 2(1,2)] obtain f' where "ranked svcs c f'" by blast
    moreover have "c n \<noteq> Black" using dfs_grey(2) [OF 2(2), of n] by simp
    ultimately show ?thesis
      unfolding 2(3) using ranked_blacken dfs_deps_visited [OF 2(2)] by blast
  qed (use "1.prems" in auto)
qed (fastforce split: option.splits)+

lemma dfs_roots_ranked:
  "dfs_roots svcs ns col = Some col' \<Longrightarrow> ranked svcs col f \<Longrightarrow> \<exists>f'. ranked svcs col' f'"
  by (induction ns arbitrary: col f) (fastforce split: option.splits if_splits dest: dfs_ranked(1))+

lemma dfs_roots_black_mono:
  "dfs_roots svcs ns col = Some col' \<Longrightarrow> col m = Black \<Longrightarrow> col' m = Black"
  by (induction ns arbitrary: col) (auto split: option.splits if_splits dest: dfs_black_mono(1))

lemma dfs_roots_visited:
  "dfs_roots svcs ns col = Some col' \<Longrightarrow> (\<And>m. col m \<noteq> Grey) \<Longrightarrow> n \<in> set ns \<Longrightarrow> col' n = Black"
proof (induction ns arbitrary: col)
  case (Cons k ns)
  show ?case
  proof (cases "col k = White")
    case True
    with Cons.prems(1) obtain c where c: "dfs svcs k col = Some c"
      and rest: "dfs_roots svcs ns c = Some col'" by (auto split: option.splits)
    have "c m \<noteq> Grey" for m using dfs_grey(1) [OF c] Cons.prems(2) by blast
    with Cons.IH [OF rest] Cons.prems(3) show ?thesis
      using dfs_roots_black_mono [OF rest dfs_visited [OF c]] by auto
  next
    case False
    with Cons.prems(2) [of k] have "col k = Black" by (cases "col k") auto
    with Cons False show ?thesis by (auto dest: dfs_roots_black_mono)
  qed
qed simp

lemma ranked_acyclic:
  assumes "ranked svcs col f" and "\<forall>n \<in> set (names svcs). col n = Black"
  shows "acyclic (dep_rel svcs)"
proof (rule acyclicI_order [where f = f])
  fix a b
  assume "(a, b) \<in> dep_rel svcs"
  then have "b \<in> set (deps svcs a)" by (simp add: dep_rel_def)
  moreover from this have "a \<in> set (names svcs)" by (metis deps_unknown empty_iff list.set(1))
  ultimately show "f b < f a" using assms by (auto simp: ranked_def)
qed

subsection \<open>A search that fails has found a cycle\<close>

text \<open>Every grey name has a path to the name being visited.\<close>

lemma dfs_None_cycle:
  "dfs svcs n col = None \<Longrightarrow> (\<And>g. col g = Grey \<Longrightarrow> (g, n) \<in> (dep_rel svcs)\<^sup>+) \<Longrightarrow>
     \<not> acyclic (dep_rel svcs)"
  "dfs_deps svcs ds col = None \<Longrightarrow> set ds \<subseteq> set (deps svcs p) \<Longrightarrow>
     (\<And>g. col g = Grey \<Longrightarrow> (g, p) \<in> (dep_rel svcs)\<^sup>*) \<Longrightarrow> \<not> acyclic (dep_rel svcs)"
proof (induction svcs n col and svcs ds col arbitrary: and p rule: dfs_dfs_deps.induct)
  case (1 svcs n col)
  show ?case
  proof (cases "col n")
    case White
    with "1.prems"(1) have "dfs_deps svcs (deps svcs n) (col(n := Grey)) = None"
      by (auto simp: dfs.simps split: option.splits)
    moreover have "(g, n) \<in> (dep_rel svcs)\<^sup>*" if "(col(n := Grey)) g = Grey" for g
      using that "1.prems"(2) [of g] by (cases "g = n") (auto dest: trancl_into_rtrancl)
    ultimately show ?thesis using "1.IH" [OF White, of n] by blast
  next
    case Grey
    with "1.prems"(2) show ?thesis by (auto simp: acyclic_def)
  next
    case Black
    with "1.prems"(1) show ?thesis by (simp add: dfs.simps)
  qed
next
  case (2 svcs col)
  then show ?case by simp
next
  case (3 svcs d ds col)
  have edge: "(p, d) \<in> dep_rel svcs" using "3.prems"(2) by (simp add: dep_rel_def)
  show ?case
  proof (cases "dfs svcs d col")
    case None
    have "(g, d) \<in> (dep_rel svcs)\<^sup>+" if "col g = Grey" for g
      using "3.prems"(3) [OF that] edge by (rule rtrancl_into_trancl1)
    with "3.IH"(1) [OF None] show ?thesis by blast
  next
    case (Some c)
    with "3.IH"(2) [OF Some, of p] "3.prems" dfs_grey(1) [OF Some] show ?thesis by simp
  qed
qed

lemma dfs_roots_None_cycle:
  "dfs_roots svcs ns col = None \<Longrightarrow> (\<And>m. col m \<noteq> Grey) \<Longrightarrow> \<not> acyclic (dep_rel svcs)"
proof (induction ns arbitrary: col)
  case (Cons n ns)
  show ?case
  proof (cases "col n = White")
    case True
    show ?thesis
    proof (cases "dfs svcs n col")
      case None
      then show ?thesis using Cons.prems(2) by (auto dest: dfs_None_cycle(1))
    next
      case (Some c)
      with dfs_grey(1) [OF Some] Cons True show ?thesis by auto
    qed
  next
    case False
    with Cons show ?thesis by simp
  qed
qed simp

lemma detectCycles_iff: "detectCycles svcs \<longleftrightarrow> \<not> acyclic (dep_rel svcs)"
proof
  assume "detectCycles svcs"
  then show "\<not> acyclic (dep_rel svcs)"
    using dfs_roots_None_cycle by (force simp: detectCycles_def)
next
  assume cyc: "\<not> acyclic (dep_rel svcs)"
  show "detectCycles svcs"
  proof (rule ccontr)
    assume "\<not> detectCycles svcs"
    then obtain col where
      col: "dfs_roots svcs (sort_strings (names svcs)) (\<lambda>_. White) = Some col"
      by (auto simp: detectCycles_def)
    have "ranked svcs (\<lambda>_. White) (\<lambda>_. 0)" by (simp add: ranked_def)
    from dfs_roots_ranked [OF col this] obtain f where "ranked svcs col f" by blast
    moreover have "\<forall>n \<in> set (names svcs). col n = Black"
      using dfs_roots_visited [OF col] by (simp add: sort_strings_def)
    ultimately show False using ranked_acyclic cyc by blast
  qed
qed

section \<open>TopologicalOrder\<close>

subsection \<open>The code\<close>

text \<open>The two maps the first loops fill: how many dependencies each service still waits for,
  and, for each dependency, who waits for it (with repetitions, as the code appends).\<close>

definition in_deg :: "(string, service) gomap \<Rightarrow> string \<Rightarrow> int" where
  "in_deg svcs = fold (\<lambda>(n, s) d. d(n := int (length (svc_depends_on s)))) svcs
                   (fold (\<lambda>(n, s) d. d(n := 0)) svcs (\<lambda>_. 0))"

definition adj :: "(string, service) gomap \<Rightarrow> string \<Rightarrow> string list" where
  "adj svcs = fold (\<lambda>(n, s) a. fold (\<lambda>d a. a(d := a d @ [n])) (svc_depends_on s) a) svcs (\<lambda>_. [])"

text \<open>The inner loop: every waiting service loses one dependency and is unlocked at zero.\<close>

fun unlock :: "string list \<Rightarrow> (string \<Rightarrow> int) \<Rightarrow> (string \<Rightarrow> int) \<times> string list" where
  "unlock [] d = (d, [])"
| "unlock (m # ms) d =
     (let d' = d(m := d m - 1); (d'', us) = unlock ms d'
      in (d'', if d' m = 0 then m # us else us))"

declare unlock.simps(2) [simp del]

lemma unlock_Cons [simp]:
  "fst (unlock (m # ms) d) = fst (unlock ms (d(m := d m - 1)))"
  "snd (unlock (m # ms) d) =
     (if d m = 1 then m # snd (unlock ms (d(m := d m - 1))) else snd (unlock ms (d(m := d m - 1))))"
  by (simp_all add: unlock.simps(2) Let_def split: prod.split)

lemma unlock_degree: "fst (unlock ms d) m = d m - int (count_list ms m)"
  by (induction ms arbitrary: d) simp_all

lemma unlock_member:
  "m \<in> set (snd (unlock ms d)) \<longleftrightarrow> 0 < d m \<and> d m \<le> int (count_list ms m)"
proof (induction ms arbitrary: d)
  case (Cons x ms)
  show ?case by (cases "x = m"; cases "d x = 1") (auto simp: Cons.IH)
qed simp

lemma unlock_distinct: "distinct (snd (unlock ms d))"
proof (induction ms arbitrary: d)
  case (Cons x ms)
  show ?case by (cases "d x = 1") (auto simp: Cons.IH unlock_member)
qed simp

text \<open>What the two maps hold when the keys are distinct.\<close>

lemma in_deg_fold:
  "fold (\<lambda>(n, s) d. d(n := (f s :: int))) svcs d n =
     (case map_of (rev svcs) n of None \<Rightarrow> d n | Some s \<Rightarrow> f s)"
  by (induction svcs arbitrary: d) (auto simp: map_add_def split: option.splits)

lemma in_deg_eq:
  assumes "distinct (names svcs)"
  shows "in_deg svcs n = int (length (deps svcs n))"
proof -
  have "map_of (rev svcs) = map_of svcs"
    using assms by (intro map_of_inject_set [THEN iffD2]) (simp_all add: names_def flip: rev_map)
  then show ?thesis
    by (simp add: in_deg_def in_deg_fold [where f = "\<lambda>s. int (length (svc_depends_on s))"]
        in_deg_fold [where f = "\<lambda>_. 0"] deps_def service_at_def zero_service_def split: option.split)
qed

lemma adj_inner_fold:
  "fold (\<lambda>d a. a(d := a d @ [n])) ds a k = a k @ replicate (count_list ds k) n"
  by (induction ds arbitrary: a) (auto simp: replicate_append_same)

lemma adj_fold:
  "fold (\<lambda>(n, s) a. fold (\<lambda>d a. a(d := a d @ [n])) (svc_depends_on s) a) svcs a k =
     a k @ concat (map (\<lambda>(n, s). replicate (count_list (svc_depends_on s) k) n) svcs)"
  by (induction svcs arbitrary: a) (auto simp: adj_inner_fold)

lemma adj_eq:
  "adj svcs k = concat (map (\<lambda>(n, s). replicate (count_list (svc_depends_on s) k) n) svcs)"
  by (simp add: adj_def adj_fold)

lemma set_adj_names: "set (adj svcs k) \<subseteq> set (names svcs)"
  by (force simp: adj_eq names_def)

lemma count_adj_names: "0 < count_list (adj svcs k) m \<Longrightarrow> m \<in> set (names svcs)"
  by (metis count_list_0_iff less_irrefl set_adj_names subsetD)

lemma count_adj_absent:
  "n \<notin> fst ` set svcs \<Longrightarrow>
     count_list (concat (map (\<lambda>(m, s). replicate (count_list (svc_depends_on s) k) m) svcs)) n = 0"
  by (rule count_list_0_iff [THEN iffD2]) force

lemma count_replicate: "count_list (replicate c x) y = (if x = y then c else 0)"
  by (induction c) auto

lemma count_adj:
  assumes "distinct (names svcs)"
  shows "count_list (adj svcs k) n = count_list (deps svcs n) k"
  using assms unfolding adj_eq names_def deps_def service_at_def
proof (induction svcs)
  case Nil
  then show ?case by (simp add: zero_service_def)
next
  case (Cons p svcs)
  obtain m s where p: "p = (m, s)" by (cases p)
  show ?case
  proof (cases "m = n")
    case True
    with Cons.prems p show ?thesis by (simp add: count_adj_absent count_replicate)
  next
    case False
    with Cons p show ?thesis by (simp add: count_replicate)
  qed
qed

text \<open>The queue loop. It stops because every round moves a name out of the queue and a name
  enters the queue only when its in-degree drops to zero.\<close>

definition waiting :: "(string, service) gomap \<Rightarrow> (string \<Rightarrow> int) \<Rightarrow> nat" where
  "waiting svcs d = card {m \<in> set (names svcs). 0 < d m}"

lemma waiting_unlock:
  "length (snd (unlock (adj svcs n) d)) + waiting svcs (fst (unlock (adj svcs n) d)) \<le> waiting svcs d"
proof -
  let ?us = "snd (unlock (adj svcs n) d)" and ?d = "fst (unlock (adj svcs n) d)"
  let ?P = "{m \<in> set (names svcs). 0 < d m}" and ?P' = "{m \<in> set (names svcs). 0 < ?d m}"
  have us: "set ?us \<subseteq> ?P"
  proof
    fix m
    assume "m \<in> set ?us"
    then have "0 < d m" and "0 < count_list (adj svcs n) m" by (auto simp: unlock_member)
    then show "m \<in> ?P" using count_adj_names by simp
  qed
  have "?P' \<subseteq> ?P - set ?us" by (auto simp: unlock_degree unlock_member)
  then have "card ?P' \<le> card (?P - set ?us)" by (intro card_mono) auto
  also have "\<dots> = card ?P - length ?us"
    using us by (simp add: card_Diff_subset distinct_card unlock_distinct)
  finally show ?thesis
    using card_mono [OF _ us] by (simp add: waiting_def distinct_card unlock_distinct)
qed

function topo_loop ::
  "(string, service) gomap \<Rightarrow> string list \<Rightarrow> (string \<Rightarrow> int) \<Rightarrow> string list \<Rightarrow> string list" where
  "topo_loop svcs [] d out = out"
| "topo_loop svcs (n # q) d out =
     topo_loop svcs (q @ sort_strings (snd (unlock (adj svcs n) d))) (fst (unlock (adj svcs n) d))
       (out @ [n])"
  by pat_completeness auto
termination
proof (relation "measure (\<lambda>(svcs, q, d, out). length q + waiting svcs d)", goal_cases)
  case (2 svcs n q d out)
  show ?case using waiting_unlock [of svcs n d] by simp
qed simp

definition TopologicalOrder :: "(string, service) gomap \<Rightarrow> string list" where
  "TopologicalOrder svcs =
     (let roots = sort_strings (filter (\<lambda>n. in_deg svcs n = 0) (names svcs));
          out = topo_loop svcs roots (in_deg svcs) []
      in if length out < length svcs
         then out @ sort_strings (filter (\<lambda>n. n \<notin> set out) (names svcs))
         else out)"

subsection \<open>The invariant of the queue loop\<close>

text \<open>\<open>deps_first\<close>: every name of the list comes after all of its dependencies.\<close>

definition deps_first :: "(string, service) gomap \<Rightarrow> string list \<Rightarrow> bool" where
  "deps_first svcs out \<longleftrightarrow> (\<forall>i < length out. set (deps svcs (out ! i)) \<subseteq> set (take i out))"

lemma deps_first_Nil [simp]: "deps_first svcs []"
  by (simp add: deps_first_def)

lemma deps_first_snoc [simp]:
  "deps_first svcs (out @ [n]) \<longleftrightarrow> deps_first svcs out \<and> set (deps svcs n) \<subseteq> set out"
  by (auto simp: deps_first_def nth_append less_Suc_eq)

definition kahn_inv ::
  "(string, service) gomap \<Rightarrow> string list \<Rightarrow> (string \<Rightarrow> int) \<Rightarrow> string list \<Rightarrow> bool" where
  "kahn_inv svcs q d out \<longleftrightarrow>
     distinct (out @ q) \<and> set (out @ q) \<subseteq> set (names svcs) \<and> deps_first svcs out \<and>
     (\<forall>m \<in> set (names svcs).
        d m = int (length (filter (\<lambda>x. x \<notin> set out) (deps svcs m))) \<and>
        (d m = 0 \<longleftrightarrow> m \<in> set (out @ q)))"

lemma kahn_inv_roots:
  assumes "distinct (names svcs)"
  shows "kahn_inv svcs (sort_strings (filter (\<lambda>n. in_deg svcs n = 0) (names svcs))) (in_deg svcs) []"
  using assms by (auto simp: kahn_inv_def in_deg_eq)

lemma kahn_inv_step:
  assumes dist: "distinct (names svcs)" and inv: "kahn_inv svcs (n # q) d out"
  shows "kahn_inv svcs (q @ sort_strings (snd (unlock (adj svcs n) d)))
           (fst (unlock (adj svcs n) d)) (out @ [n])"
proof -
  let ?us = "snd (unlock (adj svcs n) d)" and ?d = "fst (unlock (adj svcs n) d)"
  have n: "n \<in> set (names svcs)" "n \<notin> set out" and dn: "d n = 0"
    using inv by (auto simp: kahn_inv_def)
  have us_names: "m \<in> set (names svcs)" if "m \<in> set ?us" for m
    using that by (intro count_adj_names [of svcs n]) (simp add: unlock_member)
  have deg: "?d m = int (length (filter (\<lambda>x. x \<notin> set (out @ [n])) (deps svcs m)))"
    if "m \<in> set (names svcs)" for m
    using that inv length_filter_insert [OF n(2), of "deps svcs m"]
    by (simp add: kahn_inv_def unlock_degree count_adj [OF dist])
  have us: "m \<in> set ?us \<longleftrightarrow> ?d m = 0 \<and> m \<notin> set (out @ n # q)" if "m \<in> set (names svcs)" for m
  proof -
    have "0 \<le> ?d m" by (simp only: deg [OF that] of_nat_0_le_iff)
    moreover have "0 \<le> d m" using that inv by (simp add: kahn_inv_def)
    moreover have "d m = 0 \<longleftrightarrow> m \<in> set (out @ n # q)"
      using that inv unfolding kahn_inv_def by blast
    ultimately show ?thesis by (auto simp: unlock_member unlock_degree)
  qed
  have zero: "?d m = 0" if "m \<in> set (out @ n # q)" for m
  proof -
    have m: "m \<in> set (names svcs)" and "d m = 0" using that inv unfolding kahn_inv_def by blast+
    moreover have "0 \<le> ?d m" by (simp only: deg [OF m] of_nat_0_le_iff)
    ultimately show ?thesis by (simp add: unlock_degree)
  qed
  have deps: "set (deps svcs n) \<subseteq> set out"
    using inv n dn by (auto simp: kahn_inv_def filter_empty_conv)
  show ?thesis
    unfolding kahn_inv_def
  proof (intro conjI ballI)
    show "distinct ((out @ [n]) @ q @ sort_strings ?us)"
      using inv us us_names by (auto simp: kahn_inv_def unlock_distinct)
    show "set ((out @ [n]) @ q @ sort_strings ?us) \<subseteq> set (names svcs)"
      using inv us_names by (auto simp: kahn_inv_def)
    show "deps_first svcs (out @ [n])" using inv deps by (simp add: kahn_inv_def)
  next
    fix m
    assume m: "m \<in> set (names svcs)"
    show "?d m = int (length (filter (\<lambda>x. x \<notin> set (out @ [n])) (deps svcs m)))" by (rule deg [OF m])
    show "?d m = 0 \<longleftrightarrow> m \<in> set ((out @ [n]) @ q @ sort_strings ?us)"
      using us [OF m] zero [of m] by auto
  qed
qed

lemma kahn_inv_final:
  assumes "distinct (names svcs)"
  shows "kahn_inv svcs q d out \<Longrightarrow> \<exists>d'. kahn_inv svcs [] d' (topo_loop svcs q d out)"
  using assms
proof (induction svcs q d out rule: topo_loop.induct)
  case (2 svcs n q d out)
  from 2(1) [OF kahn_inv_step [OF 2(3,2)] 2(3)] show ?case by simp
qed auto

subsection \<open>The result\<close>

lemma topo_loop_inv:
  assumes "distinct (names svcs)"
  obtains d out where "kahn_inv svcs [] d out"
    and "topo_loop svcs (sort_strings (filter (\<lambda>n. in_deg svcs n = 0) (names svcs))) (in_deg svcs) [] = out"
  using kahn_inv_final [OF assms kahn_inv_roots [OF assms]] by blast

lemma kahn_inv_complete:
  assumes inv: "kahn_inv svcs [] d out" and acyc: "acyclic (dep_rel svcs)"
    and known: "\<forall>n \<in> set (names svcs). set (deps svcs n) \<subseteq> set (names svcs)"
  shows "set out = set (names svcs)"
proof -
  have "dep_rel svcs \<subseteq> mentioned svcs \<times> mentioned svcs"
    using mentioned_name mentioned_dep deps_unknown
    by (fastforce simp: dep_rel_def)
  then have "finite (dep_rel svcs)" by (rule finite_subset) simp
  then have wf: "wf ((dep_rel svcs)\<inverse>)" using acyc by (rule finite_acyclic_wf_converse)
  have "n \<in> set (names svcs) \<longrightarrow> n \<in> set out" for n
  proof (induction n rule: wf_induct_rule [OF wf])
    case (1 n)
    show ?case
    proof
      assume n: "n \<in> set (names svcs)"
      then have "set (deps svcs n) \<subseteq> set out" using 1 known by (auto simp: dep_rel_def)
      with inv n show "n \<in> set out" by (auto simp: kahn_inv_def filter_empty_conv subset_iff)
    qed
  qed
  with inv show ?thesis by (auto simp: kahn_inv_def)
qed

text \<open>A stack the validation accepts: distinct keys, known dependencies, no cycle.\<close>

definition well_ordered :: "(string, service) gomap \<Rightarrow> bool" where
  "well_ordered svcs \<longleftrightarrow> distinct (names svcs) \<and> \<not> detectCycles svcs \<and>
     list_all (\<lambda>n. list_all (\<lambda>d. d \<in> set (names svcs)) (deps svcs n)) (names svcs)"

lemma topo_eq_loop:
  assumes "well_ordered svcs"
  obtains d where "kahn_inv svcs [] d (TopologicalOrder svcs)"
    and "set (TopologicalOrder svcs) = set (names svcs)"
proof -
  from assms have dist: "distinct (names svcs)" by (simp add: well_ordered_def)
  from topo_loop_inv [OF dist] obtain d out where inv: "kahn_inv svcs [] d out"
    and out: "topo_loop svcs (sort_strings (filter (\<lambda>n. in_deg svcs n = 0) (names svcs))) (in_deg svcs) [] = out"
    by blast
  have set: "set out = set (names svcs)"
    using assms by (intro kahn_inv_complete [OF inv])
      (auto simp: well_ordered_def detectCycles_iff list_all_iff)
  then have "length out = length svcs"
    using inv dist distinct_card [of out] distinct_card [of "names svcs"]
    by (simp add: kahn_inv_def names_def)
  then have "TopologicalOrder svcs = out" by (simp add: TopologicalOrder_def out)
  with inv set that show thesis by blast
qed

lemma TopologicalOrder_well_ordered:
  assumes "well_ordered svcs"
  shows "deps_first svcs (TopologicalOrder svcs)" and "distinct (TopologicalOrder svcs)"
    and "set (TopologicalOrder svcs) = set (names svcs)"
  using topo_eq_loop [OF assms] by (auto simp: kahn_inv_def)

lemma TopologicalOrder_mem_distinct:
  assumes "distinct (names svcs)"
  shows "distinct (TopologicalOrder svcs)" and "set (TopologicalOrder svcs) = set (names svcs)"
proof -
  from topo_loop_inv [OF assms] obtain d out where inv: "kahn_inv svcs [] d out"
    and out: "topo_loop svcs (sort_strings (filter (\<lambda>n. in_deg svcs n = 0) (names svcs))) (in_deg svcs) [] = out"
    by blast
  have *: "distinct out" "set out \<subseteq> set (names svcs)" using inv by (auto simp: kahn_inv_def)
  have "set out = set (names svcs)" if "\<not> length out < length svcs"
  proof (rule card_subset_eq)
    show "card (set out) = card (set (names svcs))"
      using that card_mono [OF _ *(2)] distinct_card [OF *(1)] distinct_card [OF assms]
      by (simp add: names_def)
  qed (use * in auto)
  with * assms show "distinct (TopologicalOrder svcs)"
    and "set (TopologicalOrder svcs) = set (names svcs)"
    by (auto simp: TopologicalOrder_def out)
qed

subsection \<open>The order does not depend on map iteration\<close>

lemma unlock_cong:
  assumes "\<And>m. count_list ms m = count_list ms' m"
  shows "fst (unlock ms d) = fst (unlock ms' d)"
    and "sort_strings (snd (unlock ms d)) = sort_strings (snd (unlock ms' d))"
  using assms by (auto simp: unlock_degree fun_eq_iff unlock_member unlock_distinct
      intro!: sort_strings_cong)

lemma topo_loop_cong:
  assumes "distinct (names svcs)" "distinct (names svcs')" "map_of svcs = map_of svcs'"
  shows "topo_loop svcs q d out = topo_loop svcs' q d out"
  using assms
proof (induction svcs q d out rule: topo_loop.induct)
  case (2 svcs n q d out)
  have "count_list (adj svcs n) m = count_list (adj svcs' n) m" for m
    using 2(2-4) deps_cong [OF 2(4)] by (simp add: count_adj)
  note unlock_cong [OF this]
  with 2 show ?case by simp
qed simp

lemma TopologicalOrder_cong:
  assumes dist: "distinct (names svcs)" "distinct (names svcs')" and set: "set svcs = set svcs'"
  shows "TopologicalOrder svcs = TopologicalOrder svcs'"
proof -
  have mo: "map_of svcs = map_of svcs'"
    using assms by (simp add: map_of_inject_set names_def)
  have names: "set (names svcs) = set (names svcs')" using set by (simp add: names_def)
  have len: "length svcs = length svcs'"
    using dist names distinct_card by (metis length_map names_def)
  have deg: "in_deg svcs = in_deg svcs'"
    using dist deps_cong [OF mo] by (simp add: in_deg_eq fun_eq_iff)
  have "sort_strings (filter P (names svcs)) = sort_strings (filter P (names svcs'))" for P
    using dist names by (intro sort_strings_cong) auto
  then show ?thesis
    using topo_loop_cong [OF dist mo] by (simp add: TopologicalOrder_def deg len Let_def)
qed

section \<open>The start order as an interface\<close>

text \<open>
  What the clients of the order rely on (StartSequential, StartComposeUp, compose down): a valid
  input is listed once per name, each name after what it requires. Two consequences are proved
  once here: when a name is started its requirements have been started, and in the reversed
  list a name is stopped only after everything that requires it.
\<close>

locale dependency_order =
  fixes valid :: "'s \<Rightarrow> bool"
    and order :: "'s \<Rightarrow> 'a list"
    and requires :: "'s \<Rightarrow> 'a \<Rightarrow> 'a set"
  assumes order_distinct: "valid s \<Longrightarrow> distinct (order s)"
    and order_requires: "valid s \<Longrightarrow> i < length (order s) \<Longrightarrow>
          requires s (order s ! i) \<subseteq> set (take i (order s))"
begin

lemma started_after_requirements:
  assumes "valid s" and "order s = xs @ n # ys"
  shows "requires s n \<subseteq> set xs"
  using order_requires [OF assms(1), of "length xs"] assms(2) by simp

lemma stopped_after_dependents:
  assumes "valid s" and rev: "rev (order s) = xs @ n # ys"
    and m: "m \<in> set (order s)" and dep: "n \<in> requires s m"
  shows "m \<in> set xs"
proof -
  have ord: "order s = rev ys @ n # rev xs" using rev by (metis append.assoc append_Cons append_Nil
        rev.simps(2) rev_append rev_rev_ident)
  from m obtain as bs where split: "order s = as @ m # bs" by (meson split_list)
  from started_after_requirements [OF assms(1) split] dep have n: "n \<in> set as" by blast
  have "distinct (order s)" using assms(1) by (rule order_distinct)
  show ?thesis
  proof (rule ccontr)
    assume "m \<notin> set xs"
    with m ord have "m \<in> set (rev ys) \<or> m = n" by auto
    with \<open>distinct (order s)\<close> n split ord show False
      by (auto simp: append_eq_append_conv2 append_eq_Cons_conv Cons_eq_append_conv dest: sym)
  qed
qed

end

interpretation compose: dependency_order well_ordered TopologicalOrder "\<lambda>svcs n. set (deps svcs n)"
  using TopologicalOrder_well_ordered by unfold_locales (auto simp: deps_first_def)

end
