(* ===== verification/Compose_Parse.thy ===== *)
theory Compose_Parse
  imports Compose_Graph Go_Path
begin

text \<open>
  Validation of a compose file (src/internal/compose/parse.go, depends_on.go) and the names
  derived from it (mounts.go, specs.go, order.go, build.go, discover.go). The YAML decoder is
  third-party code: it is the parameter \<open>unmarshal\<close> of \<open>Parse\<close>. Its one assumption,
  \<open>decodes_maps\<close>, is that the services it delivers are a Go map, so no key occurs twice.
\<close>

section \<open>Validation\<close>

datatype compose_error =
    YamlError string
  | MissingImage string
  | InvalidRestart string string
  | UnsupportedNetworkMode string string
  | UnknownDependsOn string string
  | DependencyCycle

definition validateNetworkMode :: "string \<Rightarrow> bool" where
  "validateNetworkMode mode \<longleftrightarrow> to_lower (trim_space mode) \<in> {[], ''host''}"

definition validateRestart :: "string \<Rightarrow> bool" where
  "validateRestart r \<longleftrightarrow>
     to_lower r \<in> {[], ''no'', ''always'', ''on-failure'', ''unless-stopped''}"

definition validateService ::
  "string \<Rightarrow> service \<Rightarrow> (string, service) gomap \<Rightarrow> compose_error + service" where
  "validateService name svc all =
     (if trim_space (svc_image svc) = [] \<and> svc_build svc = None then Inl (MissingImage name)
      else if \<not> validateRestart (svc_restart svc) then Inl (InvalidRestart name (svc_restart svc))
      else if \<not> validateNetworkMode (svc_network_mode svc)
        then Inl (UnsupportedNetworkMode name (svc_network_mode svc))
      else (case find (\<lambda>dep. map_of all dep = None) (svc_depends_on svc) of
              Some dep \<Rightarrow> Inl (UnknownDependsOn name dep)
            | None \<Rightarrow> Inr (if svc_no_new_privileges svc = None
                           then svc\<lparr>svc_no_new_privileges := Some True\<rparr> else svc)))"

text \<open>The loop over the services stores every validated service back under its key; the keys,
  which are all that \<open>validateService\<close> reads of the map, stay the same.\<close>

definition validateServices ::
  "(string, service) gomap \<Rightarrow> compose_error + (string, service) gomap" where
  "validateServices svcs =
     map_res (\<lambda>(name, svc). case validateService name svc svcs of
                              Inl e \<Rightarrow> Inl e | Inr svc' \<Rightarrow> Inr (name, svc')) svcs"

definition Parse :: "(string \<Rightarrow> string + stack) \<Rightarrow> string \<Rightarrow> compose_error + stack" where
  "Parse unmarshal data =
     (case unmarshal data of
        Inl e \<Rightarrow> Inl (YamlError e)
      | Inr st \<Rightarrow>
          (case validateServices (st_services st) of
             Inl e \<Rightarrow> Inl e
           | Inr svcs \<Rightarrow> if detectCycles svcs then Inl DependencyCycle
                        else Inr (st\<lparr>st_services := svcs\<rparr>)))"

definition decodes_maps :: "(string \<Rightarrow> string + stack) \<Rightarrow> bool" where
  "decodes_maps unmarshal \<longleftrightarrow>
     (\<forall>data st. unmarshal data = Inr st \<longrightarrow> distinct (names (st_services st)))"

subsection \<open>What validation guarantees\<close>

lemma validateService_Inr:
  assumes "validateService name svc all = Inr svc'"
  shows "svc' = svc\<lparr>svc_no_new_privileges := svc_no_new_privileges svc'\<rparr>"
    and "svc_no_new_privileges svc' = Some (svc_no_new_privileges svc \<noteq> Some False)"
    and "\<forall>d \<in> set (svc_depends_on svc). d \<in> set (names all)"
  using assms
  by (auto simp: validateService_def find_None_iff names_def map_of_eq_None_iff
      split: if_splits option.splits)

lemma validateServices_names: "validateServices svcs = Inr svcs' \<Longrightarrow> names svcs' = names svcs"
  unfolding names_def validateServices_def map_res_Inr_iff
  by (induction rule: list_all2_induct) (auto split: sum.splits)

lemma validateServices_entry:
  assumes "validateServices svcs = Inr svcs'" and "(n, s') \<in> set svcs'"
  obtains s where "(n, s) \<in> set svcs" and "validateService n s svcs = Inr s'"
  using map_res_mem [OF assms(1) [unfolded validateServices_def] assms(2)]
  by (auto split: sum.splits)

lemma validateServices_known:
  assumes "distinct (names svcs)" and "validateServices svcs = Inr svcs'"
    and "n \<in> set (names svcs')"
  shows "set (deps svcs' n) \<subseteq> set (names svcs')"
proof -
  note nm = validateServices_names [OF assms(2)]
  from assms(3) obtain s' where s': "(n, s') \<in> set svcs'" by (auto simp: names_def)
  from validateServices_entry [OF assms(2) s'] obtain s where
    s: "validateService n s svcs = Inr s'" by blast
  have "svc_depends_on s' = svc_depends_on s"
    using arg_cong [OF validateService_Inr(1) [OF s], of svc_depends_on] by simp
  moreover have "deps svcs' n = svc_depends_on s'"
    using deps_known [of svcs' n s'] s' assms(1) nm by simp
  ultimately show ?thesis using validateService_Inr(3) [OF s] nm by auto
qed

lemma Parse_Inr:
  assumes "Parse unmarshal data = Inr st"
  obtains st0 where "unmarshal data = Inr st0"
    and "validateServices (st_services st0) = Inr (st_services st)"
    and "\<not> detectCycles (st_services st)" and "st = st0\<lparr>st_services := st_services st\<rparr>"
  using assms by (auto simp: Parse_def split: sum.splits if_splits)

lemma Parse_well_ordered:
  assumes "decodes_maps unmarshal" and "Parse unmarshal data = Inr st"
  shows "well_ordered (st_services st)"
proof -
  from Parse_Inr [OF assms(2)] obtain st0 where st0: "unmarshal data = Inr st0"
    "validateServices (st_services st0) = Inr (st_services st)" "\<not> detectCycles (st_services st)" .
  with assms(1) have "distinct (names (st_services st0))" by (simp add: decodes_maps_def)
  with st0 validateServices_known [OF this st0(2)] validateServices_names [OF st0(2)]
  show ?thesis by (auto simp: well_ordered_def list_all_iff)
qed

section \<open>Names derived from a stack\<close>

definition path_part_char :: "char \<Rightarrow> bool" where
  "path_part_char c \<longleftrightarrow> is_lower c \<or> is_digit c \<or> c = CHR ''-'' \<or> c = CHR ''_''"

definition sanitizePathPart :: "string \<Rightarrow> string" where
  "sanitizePathPart s =
     (let b = map (\<lambda>r. if path_part_char r then r else CHR ''-'') (trim_space (to_lower s));
          out = trim_by (\<lambda>c. c = CHR ''-'') b
      in if out = [] then ''default'' else out)"

definition composeContainerID :: "string \<Rightarrow> string \<Rightarrow> string" where
  "composeContainerID project svcName =
     (let p = sanitizePathPart project; n = sanitizePathPart svcName
      in if p = ''default'' then n else p @ ''-'' @ n)"

definition ContainerID :: "string \<Rightarrow> string \<Rightarrow> string" where
  "ContainerID project service = composeContainerID project service"

definition OrderedContainerIDs :: "stack \<Rightarrow> string \<Rightarrow> string list" where
  "OrderedContainerIDs st project =
     map (composeContainerID project) (TopologicalOrder (st_services st))"

text \<open>The code reverses the list in place by swapping from both ends.\<close>

definition ReverseOrderedContainerIDs :: "stack \<Rightarrow> string \<Rightarrow> string list" where
  "ReverseOrderedContainerIDs st project = rev (OrderedContainerIDs st project)"

definition NamedVolumeHostPath :: "string \<Rightarrow> string \<Rightarrow> string \<Rightarrow> string" where
  "NamedVolumeHostPath dataDir project volName =
     path_join [dataDir, ''volumes'', sanitizePathPart project, sanitizePathPart volName]"

definition BuildImageName :: "string \<Rightarrow> string \<Rightarrow> string" where
  "BuildImageName project service = to_lower (project @ ''-'' @ service) @ '':latest''"

definition SetBuildImages :: "stack \<Rightarrow> string \<Rightarrow> stack" where
  "SetBuildImages st project =
     st\<lparr>st_services := map (\<lambda>(name, svc).
        (name, if svc_build svc \<noteq> None \<and> trim_space (svc_image svc) = []
               then svc\<lparr>svc_image := BuildImageName project name\<rparr> else svc)) (st_services st)\<rparr>"

definition BuildServices :: "stack \<Rightarrow> string list" where
  "BuildServices st =
     sort_strings (map fst (filter (\<lambda>(name, svc). svc_build svc \<noteq> None) (st_services st)))"

definition DefaultProjectFromComposeFile :: "string \<Rightarrow> string" where
  "DefaultProjectFromComposeFile file =
     (let p = path_clean file; base = trim_space (path_base (path_dir p))
      in if base = [] \<or> base = ''.'' \<or> base = ''/'' \<or> has_suffix base '':''
         then trim_suffix (path_base p) (path_ext p) else base)"

definition ProjectName :: "stack option \<Rightarrow> string \<Rightarrow> string" where
  "ProjectName st file =
     (case st of
        Some st \<Rightarrow> if trim_space (st_name st) \<noteq> [] then trim_space (st_name st)
                   else DefaultProjectFromComposeFile file
      | None \<Rightarrow> DefaultProjectFromComposeFile file)"

subsection \<open>Sanitized parts are single path elements\<close>

lemma path_part_char_clean:
  assumes "path_part_char c"
  shows "lower_char c = c" and "\<not> is_space c" and "c \<noteq> CHR ''/''" and "c \<noteq> CHR ''.''"
  using assms
  by (auto simp: path_part_char_def lower_char_def is_lower_def is_upper_def is_digit_def
      is_space_def Let_def)

lemma sanitize_chars: "list_all path_part_char (sanitizePathPart s)"
proof -
  define b where "b = map (\<lambda>r. if path_part_char r then r else CHR ''-'') (trim_space (to_lower s))"
  have b: "list_all path_part_char b" by (auto simp: b_def list_all_iff path_part_char_def)
  have "list_all path_part_char (trim_by (\<lambda>c. c = CHR ''-'') b)"
    unfolding list_all_iff
  proof
    fix c
    assume "c \<in> set (trim_by (\<lambda>c. c = CHR ''-'') b)"
    with set_trim_by have "c \<in> set b" by (rule subsetD)
    with b show "path_part_char c" by (simp add: list_all_iff)
  qed
  moreover have "list_all path_part_char ''default''"
    by (simp add: path_part_char_def is_lower_def Let_def)
  ultimately show ?thesis by (simp add: sanitizePathPart_def b_def [symmetric] Let_def)
qed

lemma sanitize_nonempty [simp]: "sanitizePathPart s \<noteq> []"
  by (simp add: sanitizePathPart_def Let_def)

lemma sanitize_plain [simp]: "plain (sanitizePathPart s)"
proof -
  have "CHR ''/'' \<notin> set (sanitizePathPart s)" "CHR ''.'' \<notin> set (sanitizePathPart s)"
    using sanitize_chars [of s] path_part_char_clean(3,4) unfolding list_all_iff by blast+
  then show ?thesis by (auto simp: plain_def)
qed

lemma sanitize_dashless_ends:
  "hd (sanitizePathPart s) \<noteq> CHR ''-'' \<and> last (sanitizePathPart s) \<noteq> CHR ''-''"
  using trim_by_hd [of "\<lambda>c. c = CHR ''-''"] trim_by_last [of "\<lambda>c. c = CHR ''-''"]
  by (auto simp: sanitizePathPart_def Let_def)

lemma sanitize_fixpoint:
  assumes "list_all path_part_char s" and "s \<noteq> []" and "hd s \<noteq> CHR ''-''" and "last s \<noteq> CHR ''-''"
  shows "sanitizePathPart s = s"
proof -
  have "to_lower s = s"
    using assms(1) path_part_char_clean(1) by (auto simp: to_lower_def list_all_iff intro!: map_idI)
  moreover have "trim_space s = s"
    using assms(1) path_part_char_clean(2) by (intro trim_space_none) (auto simp: list_all_iff)
  moreover have "map (\<lambda>r. if path_part_char r then r else CHR ''-'') s = s"
    using assms(1) by (auto simp: list_all_iff intro!: map_idI)
  moreover have "trim_by (\<lambda>c. c = CHR ''-'') s = s" using assms by (intro trim_by_id) auto
  ultimately show ?thesis using assms(2) by (simp add: sanitizePathPart_def)
qed

lemma sanitize_idem: "sanitizePathPart (sanitizePathPart s) = sanitizePathPart s"
  using sanitize_dashless_ends sanitize_chars by (intro sanitize_fixpoint) auto

section \<open>Properties\<close>

text \<open>A three-service stack, for the witnesses: web needs db and cache, cache needs db.\<close>

definition demo_service :: "string list \<Rightarrow> service" where
  "demo_service ds = zero_service\<lparr>svc_image := ''busybox'', svc_depends_on := ds\<rparr>"

definition demo_stack :: stack where
  "demo_stack =
     \<lparr>st_name = ''demo'', st_version = [],
      st_services = [(''web'', demo_service [''db'', ''cache'']), (''cache'', demo_service [''db'']),
                     (''db'', demo_service [])],
      st_networks = [], st_volumes = []\<rparr>"

definition demo_parsed :: stack where
  "demo_parsed = demo_stack\<lparr>st_services := map (\<lambda>(n, s).
     (n, s\<lparr>svc_no_new_privileges := Some True\<rparr>)) (st_services demo_stack)\<rparr>"

lemma demo_decodes: "decodes_maps (\<lambda>_. Inr demo_stack)"
  by (simp add: decodes_maps_def demo_stack_def names_def)

lemma demo_Parse: "Parse (\<lambda>_. Inr demo_stack) data = Inr demo_parsed"
proof -
  have "Parse (\<lambda>_. Inr demo_stack) [] = Inr demo_parsed" by code_simp
  then show ?thesis by (simp add: Parse_def)
qed

text \<open>C3. The start order of a stack that Parse accepts lists every service exactly once and
  every service after all the services it depends on.\<close>

theorem Parse_start_order:
  assumes "decodes_maps unmarshal" and "Parse unmarshal data = Inr st"
  shows "distinct (TopologicalOrder (st_services st))
       \<and> set (TopologicalOrder (st_services st)) = set (names (st_services st))
       \<and> deps_first (st_services st) (TopologicalOrder (st_services st))"
  using TopologicalOrder_well_ordered [OF Parse_well_ordered [OF assms]] by blast

theorem Parse_start_order_witness:
  "distinct (TopologicalOrder (st_services demo_parsed))
   \<and> set (TopologicalOrder (st_services demo_parsed)) = set (names (st_services demo_parsed))
   \<and> deps_first (st_services demo_parsed) (TopologicalOrder (st_services demo_parsed))"
  by (rule Parse_start_order [OF demo_decodes demo_Parse [of "[]"]])

text \<open>The search for cycles is exact: it reports an error if and only if some service
  depends on itself through one or more steps.\<close>

theorem detectCycles_exact: "detectCycles svcs \<longleftrightarrow> (\<exists>n. (n, n) \<in> (dep_rel svcs)\<^sup>+)"
  by (simp add: detectCycles_iff acyclic_def)

text \<open>The start order is the same however the Go runtime iterates over the services map.\<close>

theorem TopologicalOrder_deterministic:
  assumes "distinct (names svcs)" and "distinct (names svcs')" and "set svcs = set svcs'"
  shows "TopologicalOrder svcs = TopologicalOrder svcs'"
  using assms by (rule TopologicalOrder_cong)

theorem TopologicalOrder_deterministic_witness:
  "TopologicalOrder (st_services demo_stack) = TopologicalOrder (rev (st_services demo_stack))"
  by (rule TopologicalOrder_deterministic) (auto simp: demo_stack_def names_def)

text \<open>Even for a stack that was never validated (cycles, unknown dependencies) the order
  loses no service and repeats none.\<close>

theorem TopologicalOrder_permutation:
  assumes "distinct (names svcs)"
  shows "distinct (TopologicalOrder svcs) \<and> set (TopologicalOrder svcs) = set (names svcs)"
  using TopologicalOrder_mem_distinct [OF assms] by blast

definition demo_cycle :: "(string, service) gomap" where
  "demo_cycle = [(''a'', demo_service [''b'']), (''b'', demo_service [''a'', ''ghost'']), (''c'', demo_service [])]"

theorem TopologicalOrder_permutation_witness:
  "distinct (TopologicalOrder demo_cycle) \<and> set (TopologicalOrder demo_cycle) = set (names demo_cycle)"
  by (rule TopologicalOrder_permutation) (simp add: demo_cycle_def names_def)

text \<open>The list that compose down works through is the start order backwards, and in it a
  service comes only after every service that depends on it.\<close>

theorem ReverseOrder_dependents_first:
  assumes "decodes_maps unmarshal" and "Parse unmarshal data = Inr st"
    and "rev (TopologicalOrder (st_services st)) = xs @ n # ys"
    and "m \<in> set (names (st_services st))" and "n \<in> set (deps (st_services st) m)"
  shows "ReverseOrderedContainerIDs st project =
           map (composeContainerID project) xs @ composeContainerID project n # map (composeContainerID project) ys
       \<and> m \<in> set xs"
proof
  show "ReverseOrderedContainerIDs st project =
      map (composeContainerID project) xs @ composeContainerID project n # map (composeContainerID project) ys"
    using assms(3) by (simp add: ReverseOrderedContainerIDs_def OrderedContainerIDs_def rev_map)
  have valid: "well_ordered (st_services st)" using assms(1,2) by (rule Parse_well_ordered)
  show "m \<in> set xs"
    using compose.stopped_after_dependents [OF valid assms(3) _ assms(5)] assms(4)
      TopologicalOrder_well_ordered(3) [OF valid] by simp
qed

theorem ReverseOrder_dependents_first_witness:
  "ReverseOrderedContainerIDs demo_parsed ''p'' =
     map (composeContainerID ''p'') [''web''] @ composeContainerID ''p'' ''cache'' # map (composeContainerID ''p'') [''db'']
   \<and> ''web'' \<in> set [''web'']"
  by (rule ReverseOrder_dependents_first [OF demo_decodes demo_Parse [of "[]"]]) code_simp+

text \<open>Parse turns no-new-privileges on for every service that does not switch it off itself:
  a service of the result either has it set, or the file said false explicitly.\<close>

theorem Parse_no_new_privileges:
  assumes "Parse unmarshal data = Inr st" and "(n, s) \<in> set (st_services st)"
  shows "svc_no_new_privileges s = Some True \<or>
     (svc_no_new_privileges s = Some False \<and>
      (\<exists>st0 s0. unmarshal data = Inr st0 \<and> (n, s0) \<in> set (st_services st0) \<and> svc_no_new_privileges s0 = Some False))"
proof -
  from Parse_Inr [OF assms(1)] obtain st0 where st0: "unmarshal data = Inr st0"
    "validateServices (st_services st0) = Inr (st_services st)" .
  from validateServices_entry [OF st0(2) assms(2)] obtain s0 where
    s0: "(n, s0) \<in> set (st_services st0)" "validateService n s0 (st_services st0) = Inr s" .
  from validateService_Inr(2) [OF s0(2)] st0(1) s0(1) show ?thesis by auto
qed

theorem Parse_no_new_privileges_witness:
  "svc_no_new_privileges (snd (st_services demo_parsed ! 0)) = Some True \<or>
     (svc_no_new_privileges (snd (st_services demo_parsed ! 0)) = Some False \<and>
      (\<exists>st0 s0. Inr demo_stack = (Inr st0 :: string + stack) \<and> (''web'', s0) \<in> set (st_services st0)
        \<and> svc_no_new_privileges s0 = Some False))"
  by (rule Parse_no_new_privileges [OF demo_Parse [of "[]"]])
    (simp add: demo_parsed_def demo_stack_def)

text \<open>The host directory of a named volume is exactly two sanitized elements below
  \<open>volumes\<close> in the data directory, whatever project and volume name the file chose: no name can
  climb out of it.\<close>

theorem NamedVolumeHostPath_contained:
  assumes "is_abs dataDir"
  shows "NamedVolumeHostPath dataDir project volName =
     render_abs (path_elems dataDir @ [''volumes'', sanitizePathPart project, sanitizePathPart volName])"
proof -
  have "plain ''volumes''" by (simp add: plain_def)
  with assms show ?thesis unfolding NamedVolumeHostPath_def by (subst path_join_plain) simp_all
qed

theorem NamedVolumeHostPath_contained_witness:
  "NamedVolumeHostPath ''/var/lib/nyxd'' ''../../etc'' ''..'' =
     render_abs (path_elems ''/var/lib/nyxd'' @ [''volumes'', sanitizePathPart ''../../etc'', sanitizePathPart ''..''])"
  by (rule NamedVolumeHostPath_contained) (simp add: is_abs_def has_prefix_def)

end
