(* ===== verification/Compose_Env.thy ===== *)
theory Compose_Env
  imports Compose_Parse "HOL-Library.AList"
begin

text \<open>
  Environment files and variable substitution (src/internal/compose/env.go, envfile.go,
  file.go, and EnvMapToSlice of mounts.go). The file system is an argument that says for each
  path what opening it gives; the process environment is an argument too.
\<close>

section \<open>Files and lines\<close>

datatype file_state = NotExist | StatFails string | OpenFails string | Contents string

type_synonym fs = "string \<Rightarrow> file_state"

text \<open>
  bufio.Scanner with ScanLines: lines end at a newline, one carriage return before it is
  dropped, and a last line without newline counts when it is not empty. A line of 65536 bytes
  or more stops the scan with an error (the flag is then True).
\<close>

definition max_token :: int where
  "max_token = 65536"

definition drop_cr :: "string \<Rightarrow> string" where
  "drop_cr s = (if s \<noteq> [] \<and> last s = CHR 0x0D then butlast s else s)"

fun scan_pieces :: "string list \<Rightarrow> string list \<times> bool" where
  "scan_pieces [] = ([], False)"
| "scan_pieces [w] =
     (if max_token \<le> int (length w) then ([], True) else if w = [] then ([], False) else ([drop_cr w], False))"
| "scan_pieces (w # ws) =
     (if max_token \<le> int (length w) then ([], True)
      else let (ls, e) = scan_pieces ws in (drop_cr w # ls, e))"

definition scan_lines :: "string \<Rightarrow> string list \<times> bool" where
  "scan_lines s = scan_pieces (split_on (CHR 0x0A) s)"

section \<open>mergeDotEnvFile, InterpEnvFromDir\<close>

definition env_get :: "(string, string) gomap \<Rightarrow> string \<Rightarrow> string" where
  "env_get m k = (case map_of m k of None \<Rightarrow> [] | Some v \<Rightarrow> v)"

definition unquote_value :: "string \<Rightarrow> string" where
  "unquote_value v =
     trim_suffix (trim_prefix (trim_suffix (trim_prefix (trim_space v) [CHR 0x22]) [CHR 0x22])
       [CHR 0x27]) [CHR 0x27]"

definition dotenv_line :: "(string, string) gomap \<Rightarrow> string \<Rightarrow> (string, string) gomap" where
  "dotenv_line dst text =
     (let line = trim_space text
      in if line = [] \<or> has_prefix line ''#'' then dst
         else case cut_str line ''='' of (k, v, ok) \<Rightarrow>
           if \<not> ok then dst
           else if trim_space k = [] then dst
           else AList.update (trim_space k) (unquote_value v) dst)"

datatype env_error = OpenError string | ScanError | StatError string string

definition mergeDotEnvFile ::
  "fs \<Rightarrow> (string, string) gomap \<Rightarrow> string \<Rightarrow> (string, string) gomap \<times> env_error option" where
  "mergeDotEnvFile files dst path =
     (case files path of
        NotExist \<Rightarrow> (dst, None)
      | StatFails e \<Rightarrow> (dst, Some (OpenError e))
      | OpenFails e \<Rightarrow> (dst, Some (OpenError e))
      | Contents text \<Rightarrow>
          (let (lines, err) = scan_lines text
           in (foldl dotenv_line dst lines, if err then Some ScanError else None)))"

definition environ_pair :: "(string, string) gomap \<Rightarrow> string \<Rightarrow> (string, string) gomap" where
  "environ_pair m pair = (case cut_str pair ''='' of (k, v, ok) \<Rightarrow> if ok then AList.update k v m else m)"

definition InterpEnvFromDir :: "fs \<Rightarrow> string list \<Rightarrow> string \<Rightarrow> (string, string) gomap" where
  "InterpEnvFromDir files environ composeDir =
     foldl environ_pair (fst (mergeDotEnvFile files [] (path_join [composeDir, ''.env'']))) environ"

section \<open>Substitute\<close>

definition isSubstIdentByte :: "char \<Rightarrow> bool" where
  "isSubstIdentByte c \<longleftrightarrow> is_letter c \<or> is_digit c \<or> c = CHR ''_''"

text \<open>The text between the braces: a key, or a key and the default after \<open>:-\<close>.\<close>

definition subst_braced :: "string \<Rightarrow> (string, string) gomap \<Rightarrow> string" where
  "subst_braced text env =
     (let inner = trim_space text
      in case cut_str inner '':-'' of (k, d, hasDef) \<Rightarrow>
           let key = (if hasDef then trim_space k else inner); val = env_get env key
           in if val = [] \<and> hasDef then d else val)"

function Substitute :: "string \<Rightarrow> (string, string) gomap \<Rightarrow> string" where
  "Substitute [] env = []"
| "Substitute [c] env = [c]"
| "Substitute (c # d # s) env =
     (if c = CHR ''$'' \<and> d = CHR ''$'' then CHR ''$'' # Substitute s env
      else if c = CHR ''$'' \<and> d = CHR ''{'' \<and> CHR ''}'' \<in> set s then
        subst_braced (takeWhile (\<lambda>x. x \<noteq> CHR ''}'') s) env
          @ Substitute (tl (dropWhile (\<lambda>x. x \<noteq> CHR ''}'') s)) env
      else if c = CHR ''$'' \<and> isSubstIdentByte d then
        env_get env (takeWhile isSubstIdentByte (d # s))
          @ Substitute (dropWhile isSubstIdentByte (d # s)) env
      else c # Substitute (d # s) env)"
  by pat_completeness auto
termination
proof (relation "measure (\<lambda>(s, env). length s)", goal_cases)
  case (3 c d s env)
  show ?case using length_dropWhile_le [of "\<lambda>x. x \<noteq> CHR ''}''" s] by simp
next
  case (4 c d s env)
  then show ?case using length_dropWhile_le [of isSubstIdentByte s] by simp
qed auto

text \<open>ParseInterpolated: substitution on the raw text, then Parse.\<close>

definition ParseInterpolated ::
  "(string \<Rightarrow> string + stack) \<Rightarrow> fs \<Rightarrow> string list \<Rightarrow> string \<Rightarrow> string \<Rightarrow> compose_error + stack" where
  "ParseInterpolated unmarshal files environ raw composeDir =
     Parse unmarshal (Substitute raw (InterpEnvFromDir files environ composeDir))"

section \<open>ServiceEnv, EnvMapToSlice\<close>

fun env_files_merge ::
  "fs \<Rightarrow> string \<Rightarrow> (string, string) gomap \<Rightarrow> env_file list \<Rightarrow> env_error + (string, string) gomap" where
  "env_files_merge files composeDir env [] = Inr env"
| "env_files_merge files composeDir env (f # fs) =
     (let p = ef_path f
      in if p = [] then env_files_merge files composeDir env fs
         else let q = (if is_abs p then p else path_join [composeDir, p])
              in case files q of
                   NotExist \<Rightarrow> if \<not> ef_required f then env_files_merge files composeDir env fs
                               else Inl (StatError p ''file does not exist'')
                 | StatFails e \<Rightarrow> Inl (StatError p e)
                 | _ \<Rightarrow> (case mergeDotEnvFile files env q of
                           (env', None) \<Rightarrow> env_files_merge files composeDir env' fs
                         | (_, Some e) \<Rightarrow> Inl e))"

definition ServiceEnv :: "fs \<Rightarrow> service \<Rightarrow> string \<Rightarrow> env_error + (string, string) gomap" where
  "ServiceEnv files svc composeDir =
     (case env_files_merge files composeDir [] (svc_env_files svc) of
        Inl e \<Rightarrow> Inl e
      | Inr env \<Rightarrow> Inr (foldl (\<lambda>env (k, v). AList.update k v env) env (svc_environment svc)))"

definition EnvMapToSlice :: "(string, string) gomap \<Rightarrow> string list" where
  "EnvMapToSlice m = map (\<lambda>k. k @ ''='' @ env_get m k) (sort_strings (map fst m))"

section \<open>Substitution\<close>

lemma Substitute_other: "c \<noteq> CHR ''$'' \<Longrightarrow> Substitute (c # s) env = c # Substitute s env"
  by (cases s) auto

lemma Substitute_prefix:
  "CHR ''$'' \<notin> set pre \<Longrightarrow> Substitute (pre @ s) env = pre @ Substitute s env"
  by (induction pre) (auto simp: Substitute_other)

lemma takeWhile_until: "c \<notin> set xs \<Longrightarrow> takeWhile (\<lambda>x. x \<noteq> c) (xs @ c # ys) = xs"
  by (induction xs) auto

lemma dropWhile_until: "c \<notin> set xs \<Longrightarrow> dropWhile (\<lambda>x. x \<noteq> c) (xs @ c # ys) = c # ys"
  by (induction xs) auto

lemma Substitute_braced:
  "CHR ''}'' \<notin> set inner \<Longrightarrow>
     Substitute (CHR ''$'' # CHR ''{'' # inner @ CHR ''}'' # rest) env =
       subst_braced inner env @ Substitute rest env"
  by (simp add: takeWhile_until dropWhile_until)

lemma subst_ident_not_space:
  assumes "isSubstIdentByte c"
  shows "\<not> is_space c" and "c \<noteq> CHR '':''" and "c \<noteq> CHR ''}''"
  using assms
  by (auto simp: isSubstIdentByte_def is_letter_def is_lower_def is_upper_def is_digit_def
      is_space_def Let_def)

lemma subst_key_clean:
  assumes "list_all isSubstIdentByte key"
  shows "trim_space key = key" and "CHR '':'' \<notin> set key" and "CHR ''}'' \<notin> set key"
proof -
  show "trim_space key = key"
    by (rule trim_space_none, rule list.pred_mono_strong [OF assms]) (rule subst_ident_not_space(1))
  show "CHR '':'' \<notin> set key" "CHR ''}'' \<notin> set key"
    using assms subst_ident_not_space(2,3) unfolding list_all_iff by blast+
qed

lemma subst_braced_key:
  "list_all isSubstIdentByte key \<Longrightarrow> subst_braced key env = env_get env key"
  by (simp add: subst_braced_def cut_str_def index_str_absent subst_key_clean)

lemma subst_braced_default:
  assumes "list_all isSubstIdentByte key" and "key \<noteq> []" and "trim_space d = d"
  shows "subst_braced (key @ '':-'' @ d) env = (if env_get env key = [] then d else env_get env key)"
proof -
  have "hd key \<in> set key" using assms(2) by simp
  with assms(1) have hd: "\<not> is_space (hd key)"
    unfolding list_all_iff using subst_ident_not_space(1) by blast
  have last: "\<not> is_space (last d)" if "d \<noteq> []"
    using that assms(3) trim_by_last [of is_space d] by (simp add: trim_space_def)
  have "trim_space (key @ '':-'' @ d) = key @ '':-'' @ d"
    unfolding trim_space_def using hd last assms(2)
    by (intro trim_by_id) (auto simp: is_space_def Let_def)
  moreover have "cut_str (key @ '':-'' @ d) '':-'' = (key, d, True)"
    using cut_double [OF subst_key_clean(2) [OF assms(1)]] by simp
  ultimately show ?thesis using subst_key_clean(1) [OF assms(1)] by (simp add: subst_braced_def)
qed

text \<open>Doubling every dollar sign protects a text from substitution.\<close>

definition escape_dollars :: "string \<Rightarrow> string" where
  "escape_dollars s = concat (map (\<lambda>c. if c = CHR ''$'' then ''$$'' else [c]) s)"

lemma Substitute_escape: "Substitute (escape_dollars s) env = s"
  by (induction s) (auto simp: escape_dollars_def Substitute_other)

section \<open>Environments\<close>

definition environ_pairs :: "string list \<Rightarrow> (string \<times> string) list" where
  "environ_pairs es = map (\<lambda>e. case cut_str e ''='' of (k, v, _) \<Rightarrow> (k, v)) (filter (\<lambda>e. snd (snd (cut_str e ''=''))) es)"

lemma environ_fold:
  "map_of (foldl environ_pair m es) = map_of m ++ map_of (rev (environ_pairs es))"
proof (induction es arbitrary: m)
  case (Cons e es)
  obtain k v ok where e: "cut_str e ''='' = (k, v, ok)" by (cases "cut_str e ''=''")
  have "environ_pairs (e # es) = (if ok then [(k, v)] else []) @ environ_pairs es"
    and "environ_pair m e = (if ok then AList.update k v m else m)"
    by (simp_all add: environ_pairs_def environ_pair_def e)
  then show ?case
    by (auto simp: Cons.IH update_conv' map_add_def fun_eq_iff split: option.splits)
qed (simp add: environ_pairs_def)

lemma update_fold:
  assumes "distinct (map fst kvs)"
  shows "map_of (foldl (\<lambda>env (k, v). AList.update k v env) env kvs) = map_of env ++ map_of kvs"
  using assms
proof (induction kvs arbitrary: env)
  case (Cons kv kvs)
  obtain k v where kv: "kv = (k, v)" by (cases kv)
  with Cons.prems have "map_of kvs k = None" by (simp add: map_of_eq_None_iff)
  with Cons kv show ?case
    by (auto simp: update_conv' map_add_def fun_eq_iff split: option.splits)
qed simp

lemma EnvMapToSlice_cut:
  assumes "list_all (\<lambda>k. CHR ''='' \<notin> set k) ks"
  shows "map (\<lambda>l. case cut_str l ''='' of (k, v, _) \<Rightarrow> (k, v)) (map (\<lambda>k. k @ ''='' @ f k) ks)
       = map (\<lambda>k. (k, f k)) ks"
  using assms by (induction ks) auto

lemma map_of_tabulate: "map_of (map (\<lambda>k. (k, f k)) ks) k = (if k \<in> set ks then Some (f k) else None)"
  by (induction ks) auto

section \<open>Properties\<close>

text \<open>Substitution is transparent to escaped text: a text whose dollar signs are doubled
  comes out unchanged, whatever the environment holds.\<close>

theorem Substitute_escape_roundtrip: "Substitute (escape_dollars s) env = s"
  by (rule Substitute_escape)

text \<open>A reference with a default in the middle of a text is replaced by the variable's
  value, or by the default when the variable is unset or empty, and the rest of the text is
  substituted independently of it.\<close>

theorem Substitute_default:
  assumes "CHR ''$'' \<notin> set pre" and "list_all isSubstIdentByte key" and "key \<noteq> []"
    and "trim_space d = d" and "CHR ''}'' \<notin> set d"
  shows "Substitute (pre @ ''${'' @ key @ '':-'' @ d @ ''}'' @ rest) env =
     pre @ (if env_get env key = [] then d else env_get env key) @ Substitute rest env"
proof -
  have "CHR ''}'' \<notin> set (key @ '':-'' @ d)" using assms(5) subst_key_clean(3) [OF assms(2)] by simp
  from Substitute_braced [OF this, of rest env] show ?thesis
    using Substitute_prefix [OF assms(1)] subst_braced_default [OF assms(2-4), of env] by simp
qed

theorem Substitute_default_witness:
  "Substitute (''image: '' @ ''${'' @ ''TAG'' @ '':-'' @ ''latest'' @ ''}'' @ '' # $X'') [(''X'', ''y'')] =
     ''image: '' @ (if env_get [(''X'', ''y'')] ''TAG'' = [] then ''latest'' else env_get [(''X'', ''y'')] ''TAG'')
       @ Substitute '' # $X'' [(''X'', ''y'')]"
  by (rule Substitute_default) code_simp+

text \<open>Variables exported in the process environment win over the .env file: the
  interpolation environment gives a key the value of its last entry in the process
  environment, and only without one the value of the file.\<close>

theorem InterpEnv_shell_wins:
  "map_of (InterpEnvFromDir files environ dir) k =
     (case map_of (rev (environ_pairs environ)) k of
        Some v \<Rightarrow> Some v
      | None \<Rightarrow> map_of (fst (mergeDotEnvFile files [] (path_join [dir, ''.env'']))) k)"
  by (simp add: InterpEnvFromDir_def environ_fold map_add_def)

text \<open>A service's environment: section wins over its env_file: entries, which supply every
  other key.\<close>

theorem ServiceEnv_environment_wins:
  assumes "distinct (map fst (svc_environment svc))" and "ServiceEnv files svc dir = Inr env"
  shows "\<exists>fromFiles. env_files_merge files dir [] (svc_env_files svc) = Inr fromFiles \<and>
     map_of env = map_of fromFiles ++ map_of (svc_environment svc)"
  using assms by (auto simp: ServiceEnv_def update_fold split: sum.splits)

definition demo_env_service :: service where
  "demo_env_service = zero_service\<lparr>svc_env_files := [\<lparr>ef_path = ''app.env'', ef_required = True\<rparr>],
      svc_environment := [(''A'', ''inline'')]\<rparr>"

definition demo_fs :: fs where
  "demo_fs p = (if p = ''/srv/app.env'' then Contents (''A=file'' @ [CHR 0x0A] @ ''B=2'') else NotExist)"

theorem ServiceEnv_environment_wins_witness:
  "\<exists>fromFiles. env_files_merge demo_fs ''/srv'' [] (svc_env_files demo_env_service) = Inr fromFiles \<and>
     map_of [(''A'', ''inline''), (''B'', ''2'')] = map_of fromFiles ++ map_of (svc_environment demo_env_service)"
  by (rule ServiceEnv_environment_wins) code_simp+

text \<open>The environment handed to the container is sorted by key and loses nothing: cutting
  each line at its first equals sign gives back the map.\<close>

theorem EnvMapToSlice_roundtrip:
  assumes "list_all (\<lambda>(k, v). CHR ''='' \<notin> set k) m"
  shows "map_of (map (\<lambda>l. case cut_str l ''='' of (k, v, _) \<Rightarrow> (k, v)) (EnvMapToSlice m)) = map_of m
       \<and> sorted (map (\<lambda>l. fst (cut_str l ''='')) (EnvMapToSlice m))"
proof -
  let ?ks = "sort_strings (map fst m)"
  have ks: "list_all (\<lambda>k. CHR ''='' \<notin> set k) ?ks" using assms by (auto simp: list_all_iff)
  have "map_of (map (\<lambda>k. (k, env_get m k)) ?ks) k = map_of m k" for k
    using map_of_eq_None_iff [of m k]
    by (cases "map_of m k") (simp_all add: map_of_tabulate env_get_def)
  then have 1: "map_of (map (\<lambda>k. (k, env_get m k)) ?ks) = map_of m" by blast
  have 2: "map (\<lambda>l. fst (cut_str l ''='')) (map (\<lambda>k. k @ ''='' @ f k) ks) = ks"
    if "list_all (\<lambda>k. CHR ''='' \<notin> set k) ks" for f :: "string \<Rightarrow> string" and ks
    using that by (induction ks) auto
  show ?thesis
    unfolding EnvMapToSlice_def EnvMapToSlice_cut [OF ks] 2 [OF ks]
    using 1 by (simp add: sort_strings_def)
qed

theorem EnvMapToSlice_roundtrip_witness:
  "map_of (map (\<lambda>l. case cut_str l ''='' of (k, v, _) \<Rightarrow> (k, v)) (EnvMapToSlice [(''PATH'', ''/bin''), (''A'', ''x=y'')]))
     = map_of [(''PATH'', ''/bin''), (''A'', ''x=y'')]
   \<and> sorted (map (\<lambda>l. fst (cut_str l ''='')) (EnvMapToSlice [(''PATH'', ''/bin''), (''A'', ''x=y'')]))"
  by (rule EnvMapToSlice_roundtrip) simp

end
