(* ===== verification/Dockerfile_Parse.thy ===== *)
theory Dockerfile_Parse
  imports Dockerfile_Shell Go_Json Compose_Env
begin

text \<open>
  Dockerfiles (src/internal/build/dockerfile/parse.go): parser directives, continuation lines, the form of
  one instruction and the stages. The two regular expressions are written as the functions they
  denote; \<open>\s\<close> is the white space of RE2, which has no vertical tab.
\<close>

section \<open>Data\<close>

record instruction =
  in_cmd :: string
  in_flags :: "string list"
  in_args :: "string list"
  in_raw :: string
  in_json :: bool
  in_line :: nat
  in_original :: string

record stage =
  sg_index :: nat
  sg_name :: string
  sg_from :: instruction
  sg_instructions :: "instruction list"

record dockerfile =
  df_escape :: char
  df_metaArgs :: "instruction list"
  df_stages :: "stage list"

datatype df_error =
    LineTooLong | DirectiveTwice nat string | InvalidEscape nat string | UnknownInstruction nat string
  | HeredocUnsupported nat | FromSyntax nat | BeforeFrom nat string | NoFrom

text \<open>The value of a flag, \<open>true\<close> for one without a value.\<close>

fun flag_value :: "string \<Rightarrow> string list \<Rightarrow> string option" where
  "flag_value name [] = None"
| "flag_value name (f # fs) =
     (case cut_str (trim_prefix f ''--'') ''='' of (k, v, hasV) \<Rightarrow>
        if k = name then Some (if hasV then v else ''true'') else flag_value name fs)"

definition Flag :: "instruction \<Rightarrow> string \<Rightarrow> string option" where
  "Flag ins name = flag_value name (in_flags ins)"

section \<open>Directives\<close>

definition re_space :: "char \<Rightarrow> bool" where
  "re_space c \<longleftrightarrow> c = CHR '' '' \<or> c = CHR 0x09 \<or> c = CHR 0x0A \<or> c = CHR 0x0C \<or> c = CHR 0x0D"

definition directive_value :: "string \<Rightarrow> string option" where
  "directive_value t =
     (if t = [] then None else if list_all re_space t then Some [last t] else Some (trim_by re_space t))"

definition directive :: "string \<Rightarrow> (string \<times> string) option" where
  "directive l =
     (case l of
        [] \<Rightarrow> None
      | c # r \<Rightarrow>
          if c \<noteq> CHR ''#'' then None
          else let r1 = dropWhile re_space r;
                   name = takeWhile (\<lambda>c. is_letter c \<or> is_digit c) r1;
                   r2 = dropWhile re_space (drop (length name) r1)
               in if name = [] \<or> \<not> is_letter (hd name) then None
                  else case r2 of
                         [] \<Rightarrow> None
                       | d # t \<Rightarrow> if d = CHR ''='' then map_option (\<lambda>v. (name, v)) (directive_value t) else None)"

text \<open>The directives at the top; the result is the escape character and the number of lines they take.\<close>

fun directives :: "string list \<Rightarrow> nat \<Rightarrow> string list \<Rightarrow> char \<Rightarrow> df_error + char \<times> nat" where
  "directives [] n seen esc = Inr (esc, n)"
| "directives (l # ls) n seen esc =
     (case directive l of
        None \<Rightarrow> Inr (esc, n)
      | Some (k, v) \<Rightarrow>
          (let key = to_lower k
           in if key \<in> set seen then Inl (DirectiveTwice (n + 1) key)
              else if key \<noteq> ''escape'' then directives ls (n + 1) (key # seen) esc
              else if v = [backslash] then directives ls (n + 1) (key # seen) backslash
              else if v = ''`'' then directives ls (n + 1) (key # seen) (CHR ''`'')
              else Inl (InvalidEscape (n + 1) v)))"

section \<open>Logical lines\<close>

definition continued :: "char \<Rightarrow> string \<Rightarrow> bool" where
  "continued esc body \<longleftrightarrow> has_suffix body [esc] \<and> \<not> has_suffix body [esc, esc]"

text \<open>\<open>cur\<close> is the text so far and the line it began on, while a continuation is open.\<close>

fun join_from :: "char \<Rightarrow> string list \<Rightarrow> nat \<Rightarrow> (string \<times> nat) option \<Rightarrow> (string \<times> nat) list" where
  "join_from esc [] i cur = (case cur of None \<Rightarrow> [] | Some (t, n) \<Rightarrow> [(t, n)])"
| "join_from esc (raw # ls) i cur =
     (let trimmed = trim_left is_space raw
      in if has_prefix trimmed ''#'' \<or> trim_space raw = [] then join_from esc ls (i + 1) cur
         else let (t, n, raw') = (case cur of None \<Rightarrow> ([], i + 1, trimmed) | Some (t, n) \<Rightarrow> (t, n, raw));
                  body = trim_right is_space raw'
              in if continued esc body then join_from esc ls (i + 1) (Some (t @ trim_suffix body [esc], n))
                 else (t @ raw', n) # join_from esc ls (i + 1) None)"

definition joinLines :: "string list \<Rightarrow> nat \<Rightarrow> char \<Rightarrow> (string \<times> nat) list" where
  "joinLines ls start esc = join_from esc (drop start ls) start None"

section \<open>One instruction\<close>

definition jsonForms :: "string list" where
  "jsonForms = [''run'', ''cmd'', ''entrypoint'', ''shell'', ''copy'', ''add'', ''volume'']"

definition known :: "string list" where
  "known = [''from'', ''run'', ''cmd'', ''entrypoint'', ''shell'', ''copy'', ''add'', ''volume'', ''env'', ''arg'', ''label'', ''expose'',
     ''workdir'', ''user'', ''stopsignal'', ''healthcheck'', ''onbuild'', ''maintainer'']"

fun heredoc_at :: "string \<Rightarrow> bool" where
  "heredoc_at (a # b # s) \<longleftrightarrow> a = CHR ''<'' \<and> b = CHR ''<'' \<and>
     (let s1 = (case s of c # t \<Rightarrow> if c = CHR ''-'' then t else s | [] \<Rightarrow> []);
          s2 = (case s1 of c # t \<Rightarrow> if c = dquote \<or> c = squote then t else s1 | [] \<Rightarrow> [])
      in s2 \<noteq> [] \<and> (is_letter (hd s2) \<or> hd s2 = CHR ''_''))"
| "heredoc_at _ \<longleftrightarrow> False"

definition heredocRe :: "string \<Rightarrow> bool" where
  "heredocRe s \<longleftrightarrow> list_ex heredoc_at (suffixes s)"

lemma cut_space_shorter:
  assumes "cut_str s '' '' = (f, r, b)" and "has_prefix s ''--''"
  shows "length (trim_space r) < length s"
proof -
  have "length (dropWhile p xs) \<le> length xs" for p :: "char \<Rightarrow> bool" and xs by (rule length_dropWhile_le)
  then have "length (trim_space r) \<le> length r"
    unfolding trim_space_def trim_by_def trim_right_def trim_left_def by (metis dual_order.trans length_rev)
  moreover have "length r < length s" using assms by (cases s) (auto simp: cut_str_def has_prefix_def split: option.splits)
  ultimately show ?thesis by simp
qed

function (sequential) lead_flags :: "string \<Rightarrow> string list \<times> string" where
  "lead_flags rest =
     (if has_prefix rest ''--'' then
        (case cut_str rest '' '' of (f, r, _) \<Rightarrow> case lead_flags (trim_space r) of (fs, t) \<Rightarrow> (f # fs, t))
      else ([], rest))"
  by pat_completeness auto
termination by (relation "measure length") (auto dest: cut_space_shorter [OF sym])

declare lead_flags.simps [simp del]

definition keyword :: "string \<Rightarrow> string \<times> string" where
  "keyword text =
     (case cut_str (trim_space text) '' '' of (kw, rest, _) \<Rightarrow>
        case cut_str kw [CHR 0x09] of (k, r, tab) \<Rightarrow> if tab then (k, r @ '' '' @ rest) else (kw, rest))"

definition parseInstruction :: "string \<Rightarrow> nat \<Rightarrow> df_error + instruction" where
  "parseInstruction text line =
     (case keyword text of (kw, rest) \<Rightarrow>
        let cmd = to_lower kw
        in if cmd \<notin> set known then Inl (UnknownInstruction line kw)
           else (case lead_flags (trim_space rest) of (fs, raw) \<Rightarrow>
             let ins = \<lparr>in_cmd = cmd, in_flags = fs, in_args = [], in_raw = raw, in_json = False, in_line = line,
                        in_original = trim_space text\<rparr>
             in if cmd \<in> {''run'', ''copy'', ''add''} \<and> heredocRe raw \<and> \<not> has_prefix raw ''['' then Inl (HeredocUnsupported line)
                else let ins1 = (if cmd \<in> set jsonForms \<and> has_prefix raw ''['' then
                                   (case json_strings raw of Some arr \<Rightarrow> ins\<lparr>in_json := True, in_args := arr\<rparr> | None \<Rightarrow> ins)
                                 else ins)
                     in Inr (if cmd = ''maintainer'' then ins1\<lparr>in_cmd := ''label'', in_raw := ''maintainer='' @ quote raw\<rparr> else ins1)))"

section \<open>Stages\<close>

definition from_name :: "instruction \<Rightarrow> df_error + string" where
  "from_name ins =
     (case Nyx_Prelude.fields (in_raw ins) of
        [_] \<Rightarrow> Inr []
      | [_, as, name] \<Rightarrow> if equal_fold as ''as'' then Inr (to_lower name) else Inl (FromSyntax (in_line ins))
      | _ \<Rightarrow> Inl (FromSyntax (in_line ins)))"

definition add_instruction :: "instruction \<Rightarrow> dockerfile \<Rightarrow> df_error + dockerfile" where
  "add_instruction ins df =
     (if in_cmd ins = ''from'' then
        bind_res (from_name ins) (\<lambda>name. Inr (df\<lparr>df_stages := df_stages df @
          [\<lparr>sg_index = length (df_stages df), sg_name = name, sg_from = ins, sg_instructions = []\<rparr>]\<rparr>))
      else if df_stages df = [] then
        (if in_cmd ins \<noteq> ''arg'' then Inl (BeforeFrom (in_line ins) (to_upper (in_cmd ins)))
         else Inr (df\<lparr>df_metaArgs := df_metaArgs df @ [ins]\<rparr>))
      else let cur = last (df_stages df)
           in Inr (df\<lparr>df_stages := butlast (df_stages df) @ [cur\<lparr>sg_instructions := sg_instructions cur @ [ins]\<rparr>]\<rparr>))"

fun add_lines :: "(string \<times> nat) list \<Rightarrow> dockerfile \<Rightarrow> df_error + dockerfile" where
  "add_lines [] df = Inr df"
| "add_lines ((t, n) # ls) df =
     bind_res (parseInstruction t n) (\<lambda>ins. bind_res (add_instruction ins df) (add_lines ls))"

text \<open>The lines of the file: bufio.Scanner with a limit of four mebibytes.\<close>

definition df_lines :: "string \<Rightarrow> df_error + string list" where
  "df_lines s =
     (let ps = split_on (CHR 0x0A) s
      in if list_ex (\<lambda>p. 4194304 \<le> int (length p)) ps then Inl LineTooLong
         else Inr (map drop_cr (if last ps = [] then butlast ps else ps)))"

definition Parse_dockerfile :: "string \<Rightarrow> df_error + dockerfile" where
  "Parse_dockerfile s =
     bind_res (df_lines s) (\<lambda>ls.
     bind_res (directives ls 0 [] backslash) (\<lambda>(esc, start).
     bind_res (add_lines (joinLines ls start esc) \<lparr>df_escape = esc, df_metaArgs = [], df_stages = []\<rparr>) (\<lambda>df.
       if df_stages df = [] then Inl NoFrom else Inr df)))"

section \<open>Nothing is lost\<close>

text \<open>The instructions of a parsed file in the order of the file.\<close>

definition all_instructions :: "dockerfile \<Rightarrow> instruction list" where
  "all_instructions df = df_metaArgs df @ concat (map (\<lambda>s. sg_from s # sg_instructions s) (df_stages df))"

definition wf_stage :: "nat \<Rightarrow> stage \<Rightarrow> bool" where
  "wf_stage i s \<longleftrightarrow> sg_index s = i \<and> in_cmd (sg_from s) = ''from'' \<and> from_name (sg_from s) = Inr (sg_name s) \<and>
     list_all (\<lambda>ins. in_cmd ins \<noteq> ''from'') (sg_instructions s)"

definition wf_dockerfile :: "dockerfile \<Rightarrow> bool" where
  "wf_dockerfile df \<longleftrightarrow> list_all (\<lambda>ins. in_cmd ins = ''arg'') (df_metaArgs df) \<and>
     list_all2 wf_stage [0..<length (df_stages df)] (df_stages df)"

lemma add_instruction_ok:
  assumes "add_instruction ins df = Inr df'" and "wf_dockerfile df"
  shows "all_instructions df' = all_instructions df @ [ins]" and "wf_dockerfile df'" and "df_escape df' = df_escape df"
proof -
  have "all_instructions df' = all_instructions df @ [ins] \<and> wf_dockerfile df' \<and> df_escape df' = df_escape df"
  proof (cases "df_stages df" rule: rev_cases)
    case Nil
    then show ?thesis using assms
      by (auto simp: add_instruction_def all_instructions_def wf_dockerfile_def wf_stage_def bind_res_Inr_iff split: if_splits)
  next
    case (snoc ss s)
    then show ?thesis using assms
      by (auto simp: add_instruction_def all_instructions_def wf_dockerfile_def wf_stage_def bind_res_Inr_iff list_all2_append
          Let_def split: if_splits)
  qed
  then show "all_instructions df' = all_instructions df @ [ins]" "wf_dockerfile df'" "df_escape df' = df_escape df" by auto
qed

lemma add_lines_ok:
  assumes "add_lines ls df = Inr df'" and "wf_dockerfile df"
  shows "\<exists>inss. map_res (\<lambda>(t, n). parseInstruction t n) ls = Inr inss \<and> all_instructions df' = all_instructions df @ inss \<and>
    wf_dockerfile df' \<and> df_escape df' = df_escape df"
  using assms
proof (induction ls arbitrary: df)
  case (Cons tn ls)
  obtain t n where tn: "tn = (t, n)" by fastforce
  with Cons.prems(1) obtain ins df1 where i: "parseInstruction t n = Inr ins" "add_instruction ins df = Inr df1"
    "add_lines ls df1 = Inr df'"
    by (auto simp: bind_res_Inr_iff)
  from Cons.IH [OF i(3)] add_instruction_ok [OF i(2) Cons.prems(2)] i(1) tn show ?case by auto
qed simp

text \<open>A Dockerfile that parses has lost nothing: the instructions of its stages, with the ARGs before
  the first FROM, are those of its logical lines in order, every stage begins with its FROM and no
  FROM is inside one, stages are numbered from zero and carry the lower-case name after AS.\<close>

theorem Parse_keeps_instructions:
  assumes "Parse_dockerfile s = Inr df"
  shows "\<exists>ls start. df_lines s = Inr ls \<and> directives ls 0 [] backslash = Inr (df_escape df, start) \<and>
    map_res (\<lambda>(t, n). parseInstruction t n) (joinLines ls start (df_escape df)) = Inr (all_instructions df) \<and>
    wf_dockerfile df \<and> df_stages df \<noteq> []"
proof -
  from assms obtain ls esc start where l: "df_lines s = Inr ls" "directives ls 0 [] backslash = Inr (esc, start)"
    "add_lines (joinLines ls start esc) \<lparr>df_escape = esc, df_metaArgs = [], df_stages = []\<rparr> = Inr df" "df_stages df \<noteq> []"
    by (auto simp: Parse_dockerfile_def bind_res_Inr_iff split: if_splits)
  moreover have "wf_dockerfile \<lparr>df_escape = esc, df_metaArgs = [], df_stages = []\<rparr>" by (simp add: wf_dockerfile_def)
  ultimately show ?thesis using add_lines_ok [OF l(3)] by (auto simp: all_instructions_def)
qed

definition demo_dockerfile :: string where
  "demo_dockerfile = join_with [CHR 0x0A] [''arg v=1'', ''from a as b'', ''run a '' @ [backslash], ''# c'', '' b'', ''from b'']"

theorem Parse_keeps_instructions_witness:
  "\<exists>df. Parse_dockerfile demo_dockerfile = Inr df \<and> wf_dockerfile df \<and>
     map in_original (all_instructions df) = [''arg v=1'', ''from a as b'', ''run a  b'', ''from b'']"
proof -
  have e: "(case Parse_dockerfile demo_dockerfile of Inr df \<Rightarrow> map in_original (all_instructions df) | Inl _ \<Rightarrow> []) =
    [''arg v=1'', ''from a as b'', ''run a  b'', ''from b'']" by code_simp
  then obtain df where df: "Parse_dockerfile demo_dockerfile = Inr df" by (auto split: sum.splits)
  with e Parse_keeps_instructions [OF df] show ?thesis by auto
qed

section \<open>Continuation lines\<close>

lemma has_suffix_snoc [simp]: "has_suffix (s @ [c]) [d] \<longleftrightarrow> c = d"
  by (simp add: has_suffix_def has_prefix_def)

lemma has_suffix_two: "has_suffix (s @ [c]) [d, d] \<longleftrightarrow> c = d \<and> s \<noteq> [] \<and> last s = d"
  by (cases s rule: rev_cases) (auto simp: has_suffix_def has_prefix_def)

lemma trim_right_snoc: "\<not> p c \<Longrightarrow> trim_right p (s @ [c]) = s @ [c]"
  by (simp add: trim_right_def)

lemma trim_space_nonempty: "c \<in> set s \<Longrightarrow> \<not> is_space c \<Longrightarrow> trim_space s \<noteq> []"
proof -
  assume c: "c \<in> set s" "\<not> is_space c"
  then have "c \<in> set (dropWhile is_space s)" by (induction s) auto
  with c show ?thesis unfolding trim_space_def trim_by_def trim_right_def trim_left_def
    by (metis dropWhile_eq_Nil_conv rev_is_Nil_conv set_rev)
qed

text \<open>A line that may be continued: not a comment, and not ending in the escape character.\<close>

definition piece :: "char \<Rightarrow> string \<Rightarrow> bool" where
  "piece esc p \<longleftrightarrow> \<not> has_prefix (trim_left is_space p) ''#'' \<and> (p = [] \<or> last p \<noteq> esc)"

definition skipped :: "string \<Rightarrow> bool" where
  "skipped l \<longleftrightarrow> has_prefix (trim_left is_space l) ''#'' \<or> trim_space l = []"

lemma join_from_skip: "list_all skipped cs \<Longrightarrow> join_from esc (cs @ ls) i cur = join_from esc ls (i + length cs) cur"
  by (induction cs arbitrary: i) (auto simp: skipped_def)

lemma not_comment_snoc:
  "\<not> has_prefix (trim_left is_space p) ''#'' \<Longrightarrow> esc \<noteq> CHR ''#'' \<Longrightarrow> \<not> has_prefix (trim_left is_space (p @ [esc])) ''#''"
proof -
  assume a: "\<not> has_prefix (trim_left is_space p) ''#''" "esc \<noteq> CHR ''#''"
  show ?thesis
  proof (cases "dropWhile is_space p")
    case Nil
    then show ?thesis using a by (auto simp: trim_left_def has_prefix_def dropWhile_append)
  next
    case (Cons c cs)
    then have "dropWhile is_space (p @ [esc]) = c # cs @ [esc]" by (metis append_Cons dropWhile_append dropWhile_eq_Nil_conv list.distinct(1))
    then show ?thesis using a Cons by (simp add: trim_left_def has_prefix_def)
  qed
qed

lemma join_from_piece:
  assumes "piece esc p" and "\<not> is_space esc" and "esc \<noteq> CHR ''#''"
  shows "join_from esc ((p @ [esc]) # ls) i (Some (t, n)) = join_from esc ls (i + 1) (Some (t @ p, n))"
proof -
  have "continued esc (p @ [esc])" using assms(1) by (auto simp: continued_def piece_def has_suffix_two)
  moreover have "\<not> has_prefix (trim_left is_space (p @ [esc])) ''#''" using not_comment_snoc assms(1,3) by (simp add: piece_def)
  moreover have "trim_space (p @ [esc]) \<noteq> []" by (rule trim_space_nonempty [of esc]) (use assms(2) in auto)
  ultimately show ?thesis by (simp add: trim_right_snoc [of is_space, OF assms(2)] trim_suffix_def Let_def)
qed

text \<open>The lines of one instruction: pieces that end in the escape character, each followed by lines the
  parser skips, and the last piece.\<close>

fun split_text :: "char \<Rightarrow> (string \<times> string list) list \<Rightarrow> string \<Rightarrow> string list" where
  "split_text esc [] l = [l]"
| "split_text esc ((p, cs) # ps) l = (p @ [esc]) # cs @ split_text esc ps l"

lemma join_from_rest:
  assumes "list_all (\<lambda>(p, cs). piece esc p \<and> list_all skipped cs) ps" and "\<not> is_space esc" and "esc \<noteq> CHR ''#''"
    and "\<not> skipped l" and "\<not> continued esc (trim_right is_space l)"
  shows "\<exists>j. join_from esc (split_text esc ps l @ ls) i (Some (t, n)) = (t @ concat (map fst ps) @ l, n) # join_from esc ls j None"
  using assms(1)
proof (induction ps arbitrary: i t)
  case Nil
  then show ?case using assms(4,5) by (auto simp: skipped_def Let_def)
next
  case (Cons pc ps)
  obtain p cs where pc: "pc = (p, cs)" by fastforce
  with Cons.prems Cons.IH [of "i + 1 + length cs" "t @ p"] show ?case
    by (auto simp: join_from_piece [OF _ assms(2,3)] join_from_skip simp del: join_from.simps)
qed

text \<open>An instruction spread over lines with the escape character is the instruction on one line,
  with comments and empty lines between the parts left out.\<close>

theorem joinLines_continuation:
  assumes "list_all (\<lambda>(p, cs). piece esc p \<and> list_all skipped cs) ((p, cs) # ps)" and "esc \<in> {backslash, CHR ''`''}"
    and "p \<noteq> []" and "\<not> is_space (hd p)" and "\<not> skipped l" and "\<not> continued esc (trim_right is_space l)"
  shows "joinLines (split_text esc ((p, cs) # ps) l) 0 esc = [(p @ concat (map fst ps) @ l, 1)]"
proof -
  have e: "\<not> is_space esc" "esc \<noteq> CHR ''#''" using assms(2) by (auto simp: is_space_def)
  have p: "piece esc p" "list_all skipped cs" using assms(1) by auto
  have t: "trim_left is_space (p @ [esc]) = p @ [esc]" using assms(3,4) by (cases p) (auto simp: trim_left_def)
  have "join_from esc ((p @ [esc]) # ls) 0 None = join_from esc ls 1 (Some (p, 1))" for ls
  proof -
    have "continued esc (p @ [esc])" using p(1) by (auto simp: continued_def piece_def has_suffix_two)
    moreover have "\<not> has_prefix (p @ [esc]) ''#''" using not_comment_snoc [OF _ e(2), of p] p(1) t by (simp add: piece_def)
    moreover have "trim_space (p @ [esc]) \<noteq> []" by (rule trim_space_nonempty [of esc]) (use e in auto)
    ultimately show ?thesis by (simp add: t trim_right_snoc [of is_space, OF e(1)] trim_suffix_def Let_def)
  qed
  moreover have "\<exists>j. join_from esc (split_text esc ps l @ []) i (Some (p, 1)) = (p @ concat (map fst ps) @ l, 1) # join_from esc [] j None" for i
    by (rule join_from_rest) (use assms e in auto)
  ultimately show ?thesis using p(2) by (simp add: joinLines_def join_from_skip del: join_from.simps(2))
qed

theorem joinLines_continuation_witness:
  "joinLines [''RUN a '' @ [backslash], ''# note'', [], ''  && b '' @ [backslash], ''  && c''] 0 backslash = [(''RUN a   && b   && c'', 1)]"
  using joinLines_continuation [of backslash "''RUN a ''" "[''# note'', []]" "[(''  && b '', [])]" "''  && c''"]
  by (simp add: piece_def skipped_def continued_def strings_defs is_space_def)

section \<open>Exec form\<close>

lemma to_lower_upper: "list_all is_lower s \<Longrightarrow> to_lower (to_upper s) = s"
  by (induction s) (auto simp: to_lower_def to_upper_def upper_char_def lower_char_def is_lower_def is_upper_def Let_def)

lemma is_upper_upper_char: "is_lower c \<Longrightarrow> is_upper (upper_char c)"
  by (auto simp: upper_char_def is_lower_def is_upper_def Let_def mod_less)

lemma to_upper_chars: "list_all is_lower s \<Longrightarrow> list_all is_upper (to_upper s)"
  by (induction s) (auto simp: to_upper_def is_upper_upper_char)

lemma upper_not_space: "is_upper c \<Longrightarrow> \<not> is_space c \<and> c \<noteq> CHR '' '' \<and> c \<noteq> CHR 0x09"
  by (auto simp: is_upper_def is_space_def Let_def)

lemma json_array_trim: "trim_space (json_array args) = json_array args"
  unfolding trim_space_def by (rule trim_by_id) (simp add: json_array_def is_space_def)

text \<open>The exec form: a command given as a JSON array of any strings, quotes, backslashes and control
  characters included, is read back as exactly these strings.\<close>

theorem exec_form_roundtrip:
  assumes "kw \<in> set jsonForms"
  shows "parseInstruction (to_upper kw @ '' '' @ json_array args) line =
    Inr \<lparr>in_cmd = kw, in_flags = [], in_args = args, in_raw = json_array args, in_json = True, in_line = line,
         in_original = to_upper kw @ '' '' @ json_array args\<rparr>"
proof -
  have low: "list_all is_lower kw" "kw \<noteq> []" and kw: "kw \<in> set known" "kw \<noteq> ''maintainer''"
    using assms by (auto simp: jsonForms_def known_def is_lower_def)
  have up: "CHR '' '' \<notin> set (to_upper kw)" "CHR 0x09 \<notin> set (to_upper kw)" "to_upper kw \<noteq> []" "\<not> is_space (hd (to_upper kw))"
    using to_upper_chars [OF low(1)] low(2) unfolding list_all_iff
    by (blast dest: upper_not_space, blast dest: upper_not_space, simp add: to_upper_def,
      simp add: to_upper_def hd_map upper_not_space)
  have t: "trim_space (to_upper kw @ '' '' @ json_array args) = to_upper kw @ '' '' @ json_array args"
    unfolding trim_space_def by (rule trim_by_id) (use up in \<open>simp add: json_array_def is_space_def\<close>)
  have k: "keyword (to_upper kw @ '' '' @ json_array args) = (to_upper kw, json_array args)"
    unfolding keyword_def t using up by simp
  have f: "lead_flags (json_array args) = ([], json_array args)"
    by (subst lead_flags.simps) (simp add: json_array_def has_prefix_def)
  have h: "has_prefix (json_array args) ''[''" by (simp add: json_array_def has_prefix_def)
  show ?thesis unfolding parseInstruction_def k using kw h assms
    by (simp add: to_lower_upper [OF low(1)] json_array_trim f json_strings_array t [simplified])
qed

theorem exec_form_roundtrip_witness:
  "map_option in_args (case parseInstruction (''CMD '' @ json_array [''a b'', [dquote]]) 3 of Inr i \<Rightarrow> Some i | Inl _ \<Rightarrow> None) =
     Some [''a b'', [dquote]]"
proof -
  have "to_upper ''cmd'' = ''CMD''" by code_simp
  with exec_form_roundtrip [of "''cmd''" "[''a b'', [dquote]]" 3] show ?thesis by (simp add: jsonForms_def)
qed

end
