(* ===== verification/Dockerignore.thy ===== *)
theory Dockerignore
  imports Dockerfile_Parse
begin

text \<open>
  .dockerignore (src/internal/build/dockerignore/dockerignore.go): the rules, the regular expression a
  pattern is translated to, and which paths of the context are excluded. Compiling and matching a
  regular expression is the argument \<open>compile\<close>, so that the theorems hold for any engine.
\<close>

section \<open>Patterns\<close>

definition meta_chars :: string where
  "meta_chars = backslash # ''.+*?()|[]{}^$''"

definition QuoteMeta :: "char \<Rightarrow> string" where
  "QuoteMeta c = (if c \<in> set meta_chars then [backslash, c] else [c])"

definition class_text :: "string \<Rightarrow> string" where
  "class_text cls = ''['' @ (case cls of c # r \<Rightarrow> if c = CHR ''!'' then CHR ''^'' # r else cls | [] \<Rightarrow> []) @ '']''"

function (sequential) pattern_regexp :: "string \<Rightarrow> string" where
  "pattern_regexp [] = []"
| "pattern_regexp (c # p) =
     (if c = CHR ''*'' then
        (case p of
           d # q \<Rightarrow> if d = CHR ''*'' then
                      (case q of e # r \<Rightarrow> if e = CHR ''/'' then ''(.*/)?'' @ pattern_regexp r else ''.*'' @ pattern_regexp q
                       | [] \<Rightarrow> ''.*'')
                    else ''[^/]*'' @ pattern_regexp p
         | [] \<Rightarrow> ''[^/]*'')
      else if c = CHR ''?'' then ''[^/]'' @ pattern_regexp p
      else if c = CHR ''['' then
        (if CHR '']'' \<in> set p then class_text (takeWhile (\<lambda>c. c \<noteq> CHR '']'') p) @ pattern_regexp (tl (dropWhile (\<lambda>c. c \<noteq> CHR '']'') p))
         else [backslash, CHR ''[''] @ pattern_regexp p)
      else QuoteMeta c @ pattern_regexp p)"
  by pat_completeness auto
termination
proof (relation "measure length", goal_cases)
  case (6 c p)
  have "length (dropWhile (\<lambda>c. c \<noteq> CHR '']'') p) \<le> length p" by (rule length_dropWhile_le)
  then show ?case by simp
qed auto

definition toRegexp :: "string \<Rightarrow> string" where
  "toRegexp p = ''^'' @ pattern_regexp p @ ''$''"

section \<open>Rules\<close>

record 're rule =
  ru_re :: 're
  ru_negate :: bool

record 're matcher =
  ma_rules :: "'re rule list"
  ma_negations :: bool

definition rule_line :: "string \<Rightarrow> (string \<times> bool) option" where
  "rule_line raw =
     (let line = trim_space raw
      in if line = [] \<or> has_prefix line ''#'' then None
         else let neg = has_prefix line ''!''; l1 = (if neg then trim_space (tl line) else line);
                  l2 = path_clean (trim_prefix (map (\<lambda>c. if c = backslash then CHR ''/'' else c) l1) ''/'')
              in if l2 = ''.'' then None else Some (l2, neg))"

fun add_rules :: "(string \<Rightarrow> 're option) \<Rightarrow> string list \<Rightarrow> 're matcher \<Rightarrow> string + 're matcher" where
  "add_rules compile [] m = Inr m"
| "add_rules compile (l # ls) m =
     (case rule_line l of
        None \<Rightarrow> add_rules compile ls m
      | Some (p, neg) \<Rightarrow> (case compile (toRegexp p) of
          None \<Rightarrow> Inl p
        | Some re \<Rightarrow> add_rules compile ls
            (m\<lparr>ma_rules := ma_rules m @ [\<lparr>ru_re = re, ru_negate = neg\<rparr>], ma_negations := ma_negations m \<or> neg\<rparr>)))"

definition Parse_ignore :: "(string \<Rightarrow> 're option) \<Rightarrow> string \<Rightarrow> string + 're matcher" where
  "Parse_ignore compile text =
     (case scan_lines text of (ls, err) \<Rightarrow>
        bind_res (add_rules compile ls \<lparr>ma_rules = [], ma_negations = False\<rparr>) (\<lambda>m. if err then Inl ''scan'' else Inr m))"

text \<open>The loop over a path and its parents: path.Dir of a clean path drops its last element, and the loop
  ends when none is left (at the dot, or at the root for a rooted path).\<close>

fun self_or_parent :: "(string \<Rightarrow> bool) \<Rightarrow> string \<Rightarrow> string list \<Rightarrow> bool" where
  "self_or_parent mt pre [] \<longleftrightarrow> False"
| "self_or_parent mt pre es \<longleftrightarrow> mt (pre @ join_with ''/'' es) \<or> self_or_parent mt pre (butlast es)"

definition matchSelfOrParent :: "(string \<Rightarrow> bool) \<Rightarrow> string \<Rightarrow> bool" where
  "matchSelfOrParent mt rel =
     (if rel = ''.'' \<or> rel = ''/'' \<or> rel = [] then False
      else if is_abs rel then self_or_parent mt ''/'' (split_on (CHR ''/'') (tl rel))
      else self_or_parent mt [] (split_on (CHR ''/'') rel))"

definition Excluded :: "('re \<Rightarrow> string \<Rightarrow> bool) \<Rightarrow> 're matcher \<Rightarrow> string \<Rightarrow> bool" where
  "Excluded mt m rel0 =
     (let rel = path_clean (trim_prefix rel0 ''/'')
      in foldl (\<lambda>ex r. if matchSelfOrParent (mt (ru_re r)) rel then \<not> ru_negate r else ex) False (ma_rules m))"

definition CanSkipDir :: "'re matcher \<Rightarrow> bool" where
  "CanSkipDir m \<longleftrightarrow> \<not> ma_negations m"

section \<open>Skipping a directory\<close>

lemma self_or_parent_append: "es \<noteq> [] \<Longrightarrow> self_or_parent mt pre es \<Longrightarrow> self_or_parent mt pre (es @ fs)"
proof (induction fs rule: rev_induct)
  case (snoc f fs)
  then have "self_or_parent mt pre (es @ fs)" by simp
  then have "self_or_parent mt pre (butlast (es @ fs @ [f]))" by (simp add: butlast_append)
  then show ?case by (cases "es @ fs @ [f]") auto
qed simp

lemma clean_rel:
  assumes "list_all plain es" and "es \<noteq> []"
  shows "path_clean (trim_prefix (join_with ''/'' es) ''/'') = join_with ''/'' es" and "\<not> is_abs (join_with ''/'' es)"
    and "join_with ''/'' es \<notin> {[], ''.'', ''/''}" and "split_on (CHR ''/'') (join_with ''/'' es) = es"
proof -
  have no: "list_all (\<lambda>w. CHR ''/'' \<notin> set w) es" using assms(1) by (simp add: list_all_iff plain_def)
  show sp: "split_on (CHR ''/'') (join_with ''/'' es) = es" by (rule split_join [OF assms(2) no])
  obtain e fs where e: "es = e # fs" using assms(2) by (cases es) auto
  have pe: "plain e" using assms(1) e by simp
  then obtain c cs where c: "e = c # cs" "c \<noteq> CHR ''/''" by (cases e) (auto simp: plain_def)
  have hd: "\<exists>r. join_with ''/'' es = c # r" using e c by (cases fs) auto
  then show ab: "\<not> is_abs (join_with ''/'' es)" using c by (auto simp: is_abs_def has_prefix_def)
  show "join_with ''/'' es \<notin> {[], ''.'', ''/''}"
  proof
    assume "join_with ''/'' es \<in> {[], ''.'', ''/''}"
    then have "join_with ''/'' es = ''.''" using hd c by auto
    then have "es = split_on (CHR ''/'') ''.''" using sp by simp
    then have "es = [''.'']" by simp
    then show False using assms(1) by (simp add: plain_def)
  qed
  have tp: "trim_prefix (join_with ''/'' es) ''/'' = join_with ''/'' es" using ab by (simp add: trim_prefix_def is_abs_def)
  show "path_clean (trim_prefix (join_with ''/'' es) ''/'') = join_with ''/'' es"
    unfolding tp path_clean_def Let_def using ab assms(2) by (simp add: sp clean_elems_plain [OF assms(1)])
qed

lemma add_rules_negations:
  "add_rules compile ls m = Inr m' \<Longrightarrow> ma_negations m = list_ex ru_negate (ma_rules m) \<Longrightarrow>
     ma_negations m' = list_ex ru_negate (ma_rules m')"
  by (induction ls arbitrary: m) (auto split: option.splits prod.splits)

lemma excluded_no_negation:
  "\<not> list_ex ru_negate rs \<Longrightarrow>
     foldl (\<lambda>ex r. if P r then \<not> ru_negate r else ex) ex rs = (ex \<or> list_ex P rs)"
  by (induction rs arbitrary: ex) auto

text \<open>C35. The shortcut of the context walk is sound: when a directory is excluded and no rule starts with an
  exclamation mark, everything below the directory is excluded too, so skipping it loses nothing.\<close>

theorem skip_dir_sound:
  assumes "Parse_ignore compile text = Inr m" and "CanSkipDir m" and "list_all plain es" and "es \<noteq> []" and "list_all plain fs"
    and "Excluded mt m (join_with ''/'' es)"
  shows "Excluded mt m (join_with ''/'' (es @ fs))"
proof -
  have n: "\<not> list_ex ru_negate (ma_rules m)"
    using assms(1,2) by (auto simp: Parse_ignore_def CanSkipDir_def bind_res_Inr_iff dest!: add_rules_negations split: prod.splits if_splits)
  have e: "Excluded mt m (join_with ''/'' gs) = list_ex (\<lambda>r. self_or_parent (mt (ru_re r)) [] gs) (ma_rules m)"
    if "list_all plain gs" "gs \<noteq> []" for gs
    using clean_rel [OF that] by (simp add: Excluded_def Let_def excluded_no_negation [OF n] matchSelfOrParent_def)
  from assms(6) e [OF assms(3,4)] have "list_ex (\<lambda>r. self_or_parent (mt (ru_re r)) [] es) (ma_rules m)" by simp
  then have "list_ex (\<lambda>r. self_or_parent (mt (ru_re r)) [] (es @ fs)) (ma_rules m)"
    using self_or_parent_append [OF assms(4)] by (auto simp: list_ex_iff)
  then show ?thesis using e [of "es @ fs"] assms(3-5) by simp
qed

text \<open>A matcher for the example: an expression matches the text between its anchors.\<close>

definition demo_match :: "string \<Rightarrow> string \<Rightarrow> bool" where
  "demo_match re s \<longleftrightarrow> re = ''^'' @ s @ ''$''"

definition demo_ignore :: "string matcher" where
  "demo_ignore = projr (Parse_ignore Some (join_with [CHR 0x0A] [''# x'', ''/node'', [], ''b'']))"

theorem skip_dir_sound_witness:
  "Excluded demo_match demo_ignore ''node'' \<and> Excluded demo_match demo_ignore ''node/a/c''"
proof -
  have p: "Parse_ignore Some (join_with [CHR 0x0A] [''# x'', ''/node'', [], ''b'']) = Inr demo_ignore" by code_simp
  have s: "CanSkipDir demo_ignore" by code_simp
  have e: "Excluded demo_match demo_ignore ''node''" by code_simp
  have "list_all plain [''node'']" "list_all plain [''a'', ''c'']" by (simp_all add: plain_def)
  from skip_dir_sound [OF p s this(1) _ this(2), of demo_match] e show ?thesis by simp
qed

end
