(* ===== verification/Image_Refs.thy ===== *)
theory Image_Refs
  imports Go_Path Oci_Types "HOL-Library.AList"
begin

text \<open>
  Image references and registries: parsing a reference, the host it is pulled from and the directory it
  is stored in (src/internal/image/puller.go, auth.go), the choice of a manifest from an index, and the
  answer to an authentication challenge (src/internal/image/registry.go).
\<close>

section \<open>References\<close>

definition defaultRegistry :: string where
  "defaultRegistry = ''registry-1.docker.io''"

definition normalizeDockerHubRegistry :: "string \<Rightarrow> string" where
  "normalizeDockerHubRegistry host =
     (if to_lower (trim_space host) \<in> {''docker.io'', ''www.docker.io'', ''registry.docker.io'', ''hub.docker.com'',
        ''registry.hub.docker.com''} then defaultRegistry else host)"

text \<open>Cutting at the last occurrence of a character (strings.LastIndex).\<close>

definition cut_last_char :: "char \<Rightarrow> string \<Rightarrow> (string \<times> string) option" where
  "cut_last_char c s =
     (let t = takeWhile (\<lambda>x. x \<noteq> c) (rev s)
      in if length t = length s then None else Some (take (length s - length t - 1) s, rev t))"

definition cut_tag :: "string \<Rightarrow> string \<times> string" where
  "cut_tag ref =
     (case cut_str ref ''@'' of
        (name, digest, True) \<Rightarrow> (name, digest)
      | _ \<Rightarrow> (case cut_last_char (CHR '':'') ref of
          Some (name, tag) \<Rightarrow> if CHR ''/'' \<in> set tag then (ref, ''latest'') else (name, tag)
        | None \<Rightarrow> (ref, ''latest'')))"

definition parseRef :: "string \<Rightarrow> string \<times> string \<times> string" where
  "parseRef ref0 =
     (let (ref, tag) = cut_tag ref0; (host, rest, two) = cut_str ref ''/'';
          (registry, repo) =
            (if two \<and> (list_ex (\<lambda>c. c = CHR ''.'' \<or> c = CHR '':'') host \<or> host = ''localhost'') then (host, rest)
             else if \<not> two then (defaultRegistry, ''library/'' @ ref)
             else (defaultRegistry, ref))
      in (normalizeDockerHubRegistry registry, repo, tag))"

record parsed_ref =
  pr_registry :: string
  pr_repo :: string
  pr_tag :: string
  pr_digest :: string

definition ParseRef :: "string \<Rightarrow> parsed_ref" where
  "ParseRef input =
     (let (reg, repo, tag) = parseRef input
      in if contains input ''@'' then \<lparr>pr_registry = reg, pr_repo = repo, pr_tag = [], pr_digest = tag\<rparr>
         else \<lparr>pr_registry = reg, pr_repo = repo, pr_tag = tag, pr_digest = []\<rparr>)"

definition sanitisePath :: "string \<Rightarrow> string" where
  "sanitisePath s = map (\<lambda>c. if c = CHR ''/'' \<or> c = CHR '':'' \<or> c = CHR ''@'' then CHR ''_'' else c) s"

definition imageDir :: "string \<Rightarrow> string \<Rightarrow> string" where
  "imageDir root ref =
     (let (_, repo, tag) = parseRef ref in path_join [root, ''images'', sanitisePath repo, sanitisePath tag])"

definition BlobPath :: "string \<Rightarrow> string \<Rightarrow> string" where
  "BlobPath root digest = path_join [root, ''blobs'', ''sha256'', trim_prefix digest ''sha256:'']"

definition NormalizeRegistryHost :: "string \<Rightarrow> string" where
  "NormalizeRegistryHost s =
     (let h = fst (cut_str (trim_prefix (trim_prefix (to_lower (trim_space s)) ''https://'') ''http://'') ''/'')
      in if h \<in> {[], ''docker.io'', ''index.docker.io'', ''registry-1.docker.io'', ''www.docker.io'',
           ''registry.docker.io'', ''hub.docker.com'', ''registry.hub.docker.com''} then ''docker.io'' else h)"

definition RegistryHost :: "string \<Rightarrow> string" where
  "RegistryHost ref = NormalizeRegistryHost (fst (parseRef ref))"

section \<open>Platforms\<close>

record platform =
  pf_os :: string
  pf_architecture :: string

text \<open>The platform of the store, else the one of the daemon.\<close>

definition pullPlatform :: "string \<Rightarrow> string \<Rightarrow> string \<times> string" where
  "pullPlatform runtimePlatform storePlatform =
     (let p0 = trim_space storePlatform; p = (if p0 = [] then runtimePlatform else p0); (a, b, ok) = cut_str p ''/''
      in if \<not> ok \<or> a = [] \<or> b = [] then (''linux'', ''amd64'') else (a, b))"

definition pickIndexDigest :: "(descriptor \<times> platform option) list \<Rightarrow> string \<Rightarrow> string \<Rightarrow> string option" where
  "pickIndexDigest manifests wantOS0 wantArch0 =
     (let wantOS = (if wantOS0 = [] then ''linux'' else wantOS0); wantArch = (if wantArch0 = [] then ''amd64'' else wantArch0)
      in map_option (\<lambda>(d, _). d_digest d)
           (find (\<lambda>(d, p). case p of None \<Rightarrow> False
              | Some pf \<Rightarrow> d_digest d \<noteq> [] \<and> pf_os pf = wantOS \<and> pf_architecture pf = wantArch) manifests))"

section \<open>Challenges\<close>

text \<open>The parameters after the scheme, in the order they were set.\<close>

function parse_params :: "string \<Rightarrow> (string, string) gomap \<Rightarrow> (string, string) gomap" where
  "parse_params rest0 ps =
     (if rest0 = [] then ps
      else let rest = trim_left (\<lambda>c. c = CHR '' '' \<or> c = CHR '','') rest0; (k0, v0, ok) = cut_str rest ''=''
           in if \<not> ok then ps
              else let k = to_lower (trim_space k0); v = trim_space v0
                   in if has_prefix v [CHR 0x22] then
                        (case index_str (drop 1 v) [CHR 0x22] of
                           None \<Rightarrow> AList.update k (drop 1 v) ps
                         | Some e \<Rightarrow> parse_params (drop (e + 2) v) (AList.update k (take e (drop 1 v)) ps))
                      else parse_params (fst (snd (cut_str v '',''))) (AList.update k (fst (cut_str v '','')) ps))"
  by pat_completeness auto

lemma cut_str_shorter: "cut_str s p = (a, b, True) \<Longrightarrow> p \<noteq> [] \<Longrightarrow> length b < length s"
  by (cases s) (auto simp: cut_str_def split: option.splits if_splits)

lemma cut_str_le: "length (fst (snd (cut_str s p))) \<le> length s"
  by (auto simp: cut_str_def split: option.splits)

lemma trim_space_le: "length (trim_space s) \<le> length s"
proof -
  have "length (dropWhile is_space (rev (dropWhile is_space s))) \<le> length (rev (dropWhile is_space s))"
    by (rule length_dropWhile_le)
  also have "\<dots> \<le> length s" by (simp add: length_dropWhile_le)
  finally show ?thesis by (simp add: trim_space_def trim_by_def trim_left_def trim_right_def)
qed

lemma trim_left_le: "length (trim_left p s) \<le> length s"
  by (simp add: trim_left_def length_dropWhile_le)

termination parse_params
proof (relation "measure (\<lambda>(rest, ps). length rest)", goal_cases)
  case (2 rest0 ps rest x k0 y v0 ok k v e)
  then have "cut_str rest ''='' = (k0, v0, True)" by simp
  then have "length v0 < length rest" by (rule cut_str_shorter) simp
  moreover have "length rest \<le> length rest0" unfolding 2(2) by (rule trim_left_le)
  ultimately show ?case using trim_space_le [of v0] 2(8) by simp
next
  case (3 rest0 ps rest x k0 y v0 ok k v)
  then have "cut_str rest ''='' = (k0, v0, True)" by simp
  then have "length v0 < length rest" by (rule cut_str_shorter) simp
  moreover have "length rest \<le> length rest0" unfolding 3(2) by (rule trim_left_le)
  ultimately show ?case using trim_space_le [of v0] cut_str_le [of v "'',''"] 3(8) by simp
qed simp

declare parse_params.simps [simp del]

definition parseChallenge :: "string \<Rightarrow> string \<times> (string, string) gomap" where
  "parseChallenge h = (let (scheme, rest, _) = cut_str (trim_space h) '' '' in (scheme, parse_params rest []))"

section \<open>Properties of references\<close>

lemma cut_last_char_append: "c \<notin> set t \<Longrightarrow> cut_last_char c (s @ c # t) = Some (s, t)"
proof -
  assume "c \<notin> set t"
  then have "takeWhile (\<lambda>x. x \<noteq> c) (rev t @ c # rev s) = rev t" by (subst takeWhile_append2) auto
  then show ?thesis by (simp add: cut_last_char_def)
qed

text \<open>A reference written out in full, with a registry that is not an alias of Docker Hub, is split
  back into its registry, repository and tag.\<close>

theorem parseRef_roundtrip:
  assumes "list_ex (\<lambda>c. c = CHR ''.'' \<or> c = CHR '':'') reg \<or> reg = ''localhost''"
    and "CHR ''/'' \<notin> set reg" and "CHR ''@'' \<notin> set (reg @ repo @ tag)" and "CHR '':'' \<notin> set tag" and "CHR ''/'' \<notin> set tag"
    and "normalizeDockerHubRegistry reg = reg"
  shows "parseRef (reg @ ''/'' @ repo @ '':'' @ tag) = (reg, repo, tag)"
proof -
  have "cut_str (reg @ ''/'' @ repo @ '':'' @ tag) ''@'' = (reg @ ''/'' @ repo @ '':'' @ tag, [], False)"
    using assms(3) by (intro cut_single_None) auto
  moreover have "cut_last_char (CHR '':'') (reg @ ''/'' @ repo @ '':'' @ tag) = Some (reg @ ''/'' @ repo, tag)"
    using cut_last_char_append [OF assms(4), of "reg @ ''/'' @ repo"] by simp
  ultimately have "cut_tag (reg @ ''/'' @ repo @ '':'' @ tag) = (reg @ ''/'' @ repo, tag)"
    using assms(5) by (simp add: cut_tag_def)
  then show ?thesis using assms(1,2,6) by (auto simp: parseRef_def Let_def)
qed

theorem parseRef_roundtrip_witness:
  "parseRef ''ghcr.io/team/app:v1'' = (''ghcr.io'', ''team/app'', ''v1'')"
proof -
  have "normalizeDockerHubRegistry ''ghcr.io'' = ''ghcr.io''" by code_simp
  then show ?thesis using parseRef_roundtrip [of "''ghcr.io''" "''team/app''" "''v1''"] by simp
qed

text \<open>The metadata directory of a reference whose sanitised parts are proper names lies below the images
  directory.\<close>

lemma sanitisePath_no_sep: "CHR ''/'' \<notin> set (sanitisePath s)"
  by (auto simp: sanitisePath_def)

lemma imageDir_plain:
  assumes "is_abs root" and "parseRef ref = (reg, repo, tag)" and "plain (sanitisePath repo)" and "plain (sanitisePath tag)"
  shows "imageDir root ref = render_abs (path_elems root @ [''images'', sanitisePath repo, sanitisePath tag])"
  using path_join_plain [OF assms(1), of "[''images'', sanitisePath repo, sanitisePath tag]"] assms(2-4)
  by (simp add: imageDir_def plain_def)

text \<open>Nothing keeps the tag or the repository of a reference from being \<open>..\<close>: the directory of such a
  reference is the images directory itself, or the parent of the store. A reference of another registry
  shares the directory of the Docker Hub image of the same name.\<close>

theorem imageDir_not_contained:
  "imageDir ''/var/lib/nyxd'' ''app:..'' = ''/var/lib/nyxd/images'' \<and>
   imageDir ''/var/lib/nyxd'' ''./..:..'' = ''/var/lib'' \<and>
   imageDir ''/var/lib/nyxd'' ''ghcr.io/team/app:1'' = imageDir ''/var/lib/nyxd'' ''team/app:1''"
proof (intro conjI)
  show "imageDir ''/var/lib/nyxd'' ''app:..'' = ''/var/lib/nyxd/images''" by code_simp
  show "imageDir ''/var/lib/nyxd'' ''./..:..'' = ''/var/lib''" by code_simp
  show "imageDir ''/var/lib/nyxd'' ''ghcr.io/team/app:1'' = imageDir ''/var/lib/nyxd'' ''team/app:1''" by code_simp
qed

section \<open>Properties of challenges\<close>

text \<open>A challenge as registries write it: quoted values, separated by commas.\<close>

definition challenge_param :: "string \<times> string \<Rightarrow> string" where
  "challenge_param kv = fst kv @ ''='' @ [CHR 0x22] @ snd kv @ [CHR 0x22]"

definition param_ok :: "string \<times> string \<Rightarrow> bool" where
  "param_ok kv \<longleftrightarrow> fst kv \<noteq> [] \<and> list_all (\<lambda>c. is_lower c) (fst kv) \<and> CHR 0x22 \<notin> set (snd kv)"

lemma is_lower_clean: "is_lower c \<Longrightarrow> \<not> is_space c \<and> \<not> is_upper c \<and> c \<noteq> CHR '','' \<and> c \<noteq> CHR '' '' \<and> c \<noteq> CHR ''=''"
  by (auto simp: is_lower_def is_space_def is_upper_def Let_def)

lemma param_key:
  assumes "param_ok (k, v)"
  shows "to_lower (trim_space k) = k" and "CHR ''='' \<notin> set k" and "trim_left (\<lambda>c. c = CHR '' '' \<or> c = CHR '','') (k @ s) = k @ s"
proof -
  have l: "list_all is_lower k" "k \<noteq> []" using assms by (simp_all add: param_ok_def)
  then have "trim_space k = k" by (intro trim_space_none) (auto simp: list_all_iff dest: is_lower_clean)
  moreover have "map lower_char k = k"
    using l by (intro map_idI) (auto simp: list_all_iff lower_char_def dest: is_lower_clean)
  ultimately show "to_lower (trim_space k) = k" by (simp add: to_lower_def)
  show "CHR ''='' \<notin> set k" using l by (auto simp: list_all_iff dest: is_lower_clean)
  show "trim_left (\<lambda>c. c = CHR '' '' \<or> c = CHR '','') (k @ s) = k @ s"
    using l by (cases k) (auto simp: trim_left_def dest: is_lower_clean)
qed

lemma challenge_last:
  "ps \<noteq> [] \<Longrightarrow> last (join_with '','' (map challenge_param ps)) = CHR 0x22 \<and> join_with '','' (map challenge_param ps) \<noteq> []"
proof (induction ps)
  case (Cons p ps)
  then show ?case by (cases ps) (simp_all add: challenge_param_def)
qed simp

lemma quote_not_space: "\<not> is_space (CHR 0x22)"
  by (simp add: is_space_def)

lemma parse_params_step:
  assumes "param_ok (k, v)" and "t = [] \<or> last t = CHR 0x22"
    and "k \<notin> fst ` set acc"
  shows "parse_params (challenge_param (k, v) @ t) acc = parse_params t (acc @ [(k, v)])"
proof -
  let ?v = "CHR 0x22 # v @ CHR 0x22 # t"
  have v: "trim_space ?v = ?v" unfolding trim_space_def
    by (rule trim_by_id) (use assms(2) quote_not_space in auto)
  have c: "cut_str (k @ CHR ''='' # ?v) ''='' = (k, ?v, True)" using param_key(2) [OF assms(1)] by simp
  have i: "index_str (v @ CHR 0x22 # t) [CHR 0x22] = Some (length v)"
    using assms(1) by (intro index_str_single) (simp add: param_ok_def)
  have u: "AList.update k v acc = acc @ [(k, v)]" using assms(3) by (induction acc) auto
  have tl: "trim_left (\<lambda>c. c = CHR '' '' \<or> c = CHR '','') (k @ CHR ''='' # ?v) = k @ CHR ''='' # ?v"
    by (rule param_key(3) [OF assms(1)])
  show ?thesis
    by (subst parse_params.simps)
      (simp add: challenge_param_def tl c v i u param_key(1) [OF assms(1)] has_prefix_def)
qed

lemma parse_params_comma: "parse_params (CHR '','' # s) acc = parse_params s acc"
proof (cases "s = []")
  case True
  have "parse_params '','' acc = acc" by (subst parse_params.simps) (simp add: trim_left_def)
  then show ?thesis using True by (simp add: parse_params.simps [of "[]"])
next
  case False
  then show ?thesis
    by (subst (1 2) parse_params.simps) (simp add: trim_left_def)
qed

lemma parse_params_all:
  "list_all param_ok ps \<Longrightarrow> distinct (map fst (acc @ ps)) \<Longrightarrow>
     parse_params (join_with '','' (map challenge_param ps)) acc = acc @ ps"
proof (induction ps arbitrary: acc)
  case (Cons p ps)
  obtain k v where p: "p = (k, v)" by fastforce
  show ?case
  proof (cases "ps = []")
    case True
    then show ?thesis
      using parse_params_step [of k v "[]" acc] Cons.prems p by (simp add: parse_params.simps [of "[]"] image_iff)
  next
    case False
    let ?t = "join_with '','' (map challenge_param ps)"
    have "last (CHR '','' # ?t) = CHR 0x22" using challenge_last [OF False] by simp
    then have "parse_params (challenge_param (k, v) @ CHR '','' # ?t) acc = parse_params ?t (acc @ [(k, v)])"
      using parse_params_step [of k v "CHR '','' # ?t" acc] Cons.prems p by (simp add: parse_params_comma image_iff)
    moreover have "join_with '','' (map challenge_param (p # ps)) = challenge_param (k, v) @ CHR '','' # ?t"
      using False p by (cases ps) simp_all
    ultimately show ?thesis using Cons.IH [of "acc @ [(k, v)]"] Cons.prems p by simp
  qed
qed (simp add: parse_params.simps [of "[]"])

text \<open>The parameters of a challenge are read back from it, in order, whatever commas, equals signs and
  spaces the quoted values contain.\<close>

theorem parseChallenge_roundtrip:
  assumes "list_all param_ok ps" and "distinct (map fst ps)" and "ps \<noteq> []"
    and "list_all (\<lambda>c. \<not> is_space c) scheme" and "scheme \<noteq> []"
  shows "parseChallenge (scheme @ '' '' @ join_with '','' (map challenge_param ps)) = (scheme, ps)"
proof -
  let ?t = "join_with '','' (map challenge_param ps)"
  note challenge_last [OF assms(3)]
  then have "trim_space (scheme @ '' '' @ ?t) = scheme @ '' '' @ ?t" unfolding trim_space_def
    by (intro trim_by_id) (use assms(4,5) quote_not_space in \<open>cases scheme; auto\<close>)
  moreover have "CHR '' '' \<notin> set scheme" using assms(4) by (auto simp: list_all_iff is_space_def)
  ultimately show ?thesis using parse_params_all [of ps "[]"] assms(1,2) by (simp add: parseChallenge_def)
qed

theorem parseChallenge_roundtrip_witness:
  "parseChallenge ([CHR ''B'', CHR ''e''] @ '' '' @ join_with '','' (map challenge_param
      [(''realm'', ''https://auth.docker.io/token''), (''scope'', ''repository:team/app:pull,push'')])) =
    (''Be'', [(''realm'', ''https://auth.docker.io/token''), (''scope'', ''repository:team/app:pull,push'')])"
  by (rule parseChallenge_roundtrip) (simp_all add: param_ok_def is_lower_def is_space_def Let_def)

end
