(* ===== verification/Transition_Systems.thy ===== *)
theory Transition_Systems
  imports Main
begin

text \<open>
  Labelled transition systems with an invariant, shared by the components whose operations are called
  in any order: the supervisor, the image store, the log files and the name server.
\<close>

text \<open>What every allowed step keeps holds after every run.\<close>

locale transition_invariant =
  fixes stp :: "'c \<Rightarrow> 'l \<Rightarrow> 'c \<Rightarrow> bool"
    and allowed :: "'l \<Rightarrow> bool"
    and Inv :: "'c \<Rightarrow> bool"
  assumes kept: "Inv c \<Longrightarrow> stp c l c' \<Longrightarrow> allowed l \<Longrightarrow> Inv c'"
begin

inductive run :: "'c \<Rightarrow> 'l list \<Rightarrow> 'c \<Rightarrow> bool" where
  run_Nil: "run c [] c"
| run_Cons: "stp c l c' \<Longrightarrow> run c' ls c'' \<Longrightarrow> run c (l # ls) c''"

lemma run_kept:
  "run c ls c' \<Longrightarrow> list_all allowed ls \<Longrightarrow> Inv c \<Longrightarrow> Inv c'"
  by (induction rule: run.induct) (auto intro: kept)

lemma run_append: "run c ls c' \<Longrightarrow> run c' ms c'' \<Longrightarrow> run c (ls @ ms) c''"
  by (induction rule: run.induct) (auto intro: run_Cons)

end

end
