(* ===== verification/Image_Store.thy ===== *)
theory Image_Store
  imports Image_Refs Transition_Systems "HOL-Library.Monad_Syntax"
begin

text \<open>
  The image store: blobs by digest and image metadata by reference (src/internal/image/puller.go,
  local.go). The blob files are a map from paths to contents, the metadata directories a map from paths
  to the three files a directory holds. The SHA-256 function, the registry, the failures of file
  operations and the decoder of image configurations are arguments.

  Layers that are missing are fetched by goroutines; they work on different files, or are serialised by
  lockBlob when two layers have the same digest, and the model runs them in the order of the manifest.
\<close>

section \<open>State\<close>

record manifest =
  mf_mediaType :: string
  mf_config :: descriptor
  mf_layers :: "descriptor list"

datatype 'a json = NoFile | BadJson | Json 'a

record image_meta =
  im_ref :: "string option"
  im_manifest :: "manifest json"
  im_config :: "image_config json"

record store =
  sto_root :: string
  sto_files :: "(string, string) gomap"
  sto_images :: "(string, image_meta) gomap"

datatype image_error =
    NotFound string | BadMeta string | MissingBlob string | DamagedBlob string | RemoveFails string | WriteFails string
  | MissingLayer string | DigestMismatch string | FetchFails string | RangeFallback | StreamCut | TooManyRetries string
  | ManifestFails string | AuthFails string | BadConfig | NoPlatform

definition file_at :: "store \<Rightarrow> string \<Rightarrow> string option" where
  "file_at st p = map_of (sto_files st) p"

definition put_file :: "string \<Rightarrow> string \<Rightarrow> store \<Rightarrow> store" where
  "put_file p c st = st\<lparr>sto_files := AList.update p c (sto_files st)\<rparr>"

definition del_file :: "string \<Rightarrow> store \<Rightarrow> store" where
  "del_file p st = st\<lparr>sto_files := AList.delete p (sto_files st)\<rparr>"

definition blob_path :: "store \<Rightarrow> string \<Rightarrow> string" where
  "blob_path st digest = BlobPath (sto_root st) digest"

definition HasBlob :: "store \<Rightarrow> string \<Rightarrow> bool" where
  "HasBlob st digest \<longleftrightarrow> file_at st (blob_path st digest) \<noteq> None"

definition meta_at :: "store \<Rightarrow> string \<Rightarrow> image_meta" where
  "meta_at st dir =
     (case map_of (sto_images st) dir of
        Some m \<Rightarrow> m | None \<Rightarrow> \<lparr>im_ref = None, im_manifest = NoFile, im_config = NoFile\<rparr>)"

section \<open>Reading\<close>

definition loadImageMeta :: "store \<Rightarrow> string \<Rightarrow> image_error + manifest \<times> image_config" where
  "loadImageMeta st ref =
     (let im = meta_at st (imageDir (sto_root st) ref)
      in case im_manifest im of
           NoFile \<Rightarrow> Inl (NotFound ref)
         | BadJson \<Rightarrow> Inl (BadMeta ref)
         | Json m \<Rightarrow> (case im_config im of
             NoFile \<Rightarrow> Inl (BadMeta ref) | BadJson \<Rightarrow> Inl (BadMeta ref) | Json cfg \<Rightarrow> Inr (m, cfg)))"

definition layer_path :: "store \<Rightarrow> descriptor \<Rightarrow> image_error + string" where
  "layer_path st d =
     (let p = blob_path st (d_digest d)
      in case file_at st p of
           None \<Rightarrow> Inl (MissingBlob (d_digest d))
         | Some c \<Rightarrow> if d_size d > 0 \<and> int (length c) \<noteq> d_size d then Inl (DamagedBlob (d_digest d)) else Inr p)"

definition ResolvePulledImage :: "store \<Rightarrow> string \<Rightarrow> image_error + manifest \<times> image_config \<times> string list" where
  "ResolvePulledImage st ref =
     bind_res (loadImageMeta st ref) (\<lambda>(m, cfg).
     bind_res (map_res (layer_path st) (mf_layers m)) (\<lambda>paths. Inr (m, cfg, paths)))"

definition images_root :: "store \<Rightarrow> string" where
  "images_root st = path_join [sto_root st, ''images'']"

text \<open>The directories WalkDir finds below the images directory, with the reference each one is listed
  under: the one recorded in it, else the one its path spells.\<close>

definition below :: "string \<Rightarrow> string \<Rightarrow> bool" where
  "below base p \<longleftrightarrow> prefix (path_elems base) (path_elems p)"

definition stored_ref :: "store \<Rightarrow> string \<times> image_meta \<Rightarrow> (string \<times> string) option" where
  "stored_ref st di =
     (case di of (dir, im) \<Rightarrow>
        let segs = drop (length (path_elems (images_root st))) (path_elems dir)
        in if \<not> below (images_root st) dir \<or> im_manifest im = NoFile then None
           else case im_ref im of
                  Some r \<Rightarrow> if trim_space r \<noteq> [] then Some (trim_space r, dir)
                            else if length segs < 2 then None
                            else Some (join_with ''/'' (butlast segs) @ '':'' @ last segs, dir)
                | None \<Rightarrow> if length segs < 2 then None
                          else Some (join_with ''/'' (butlast segs) @ '':'' @ last segs, dir))"

definition storedImages :: "store \<Rightarrow> (string \<times> string) list" where
  "storedImages st = sort_key fst (List.map_filter (stored_ref st) (sto_images st))"

definition ListImageRefs :: "store \<Rightarrow> string list" where
  "ListImageRefs st = map fst (storedImages st)"

section \<open>Removing\<close>

definition collectReferencedDigests :: "store \<Rightarrow> string list" where
  "collectReferencedDigests st =
     concat (map (\<lambda>(dir, im). case im_manifest im of
        Json m \<Rightarrow> if below (images_root st) dir then d_digest (mf_config m) # map d_digest (mf_layers m) else []
      | _ \<Rightarrow> []) (sto_images st))"

definition blob_dir :: "store \<Rightarrow> string" where
  "blob_dir st = path_join [sto_root st, ''blobs'', ''sha256'']"

definition dir_names :: "store \<Rightarrow> string \<Rightarrow> string list" where
  "dir_names st dir = sort_strings (map path_base (filter (\<lambda>p. path_dir p = dir) (map fst (sto_files st))))"

definition prunable :: "string list \<Rightarrow> string \<Rightarrow> bool" where
  "prunable refs name \<longleftrightarrow> \<not> has_suffix name ''.partial'' \<and> length name = 64 \<and> ''sha256:'' @ name \<notin> set refs"

fun prune_names ::
  "(string \<Rightarrow> string option) \<Rightarrow> string list \<Rightarrow> string \<Rightarrow> string list \<Rightarrow> nat \<Rightarrow> store \<Rightarrow> store \<times> (image_error + nat)" where
  "prune_names rm refs dir [] removed st = (st, Inr removed)"
| "prune_names rm refs dir (name # rest) removed st =
     (if \<not> prunable refs name then prune_names rm refs dir rest removed st
      else case rm (path_join [dir, name]) of
             Some e \<Rightarrow> (st, Inl (RemoveFails e))
           | None \<Rightarrow> prune_names rm refs dir rest (removed + 1) (del_file (path_join [dir, name]) st))"

definition PruneUnreferencedBlobs :: "(string \<Rightarrow> string option) \<Rightarrow> store \<Rightarrow> store \<times> (image_error + nat)" where
  "PruneUnreferencedBlobs rm st =
     prune_names rm (collectReferencedDigests st) (blob_dir st) (dir_names st (blob_dir st)) 0 st"

text \<open>os.RemoveAll of a directory: every file and directory below it goes.\<close>

definition remove_all :: "string \<Rightarrow> store \<Rightarrow> store" where
  "remove_all dir st =
     st\<lparr>sto_files := filter (\<lambda>(p, _). \<not> below dir p) (sto_files st),
        sto_images := filter (\<lambda>(p, _). \<not> below dir p) (sto_images st)\<rparr>"

definition RemoveImage :: "(string \<Rightarrow> string option) \<Rightarrow> string \<Rightarrow> store \<Rightarrow> store \<times> image_error option" where
  "RemoveImage rm ref st =
     (case loadImageMeta st ref of
        Inl e \<Rightarrow> (st, Some e)
      | Inr _ \<Rightarrow>
          (let dir = imageDir (sto_root st) ref
           in case rm dir of
                Some e \<Rightarrow> (st, Some (RemoveFails e))
              | None \<Rightarrow> (case PruneUnreferencedBlobs rm (remove_all dir st) of
                  (st', Inl e) \<Rightarrow> (st', Some e)
                | (st', Inr _) \<Rightarrow> (st', None))))"

fun prune_images ::
  "(string \<Rightarrow> string option) \<Rightarrow> string list \<Rightarrow> bool \<Rightarrow> (string \<times> string) list \<Rightarrow> string list \<Rightarrow> store \<Rightarrow>
   store \<times> string list \<times> image_error option" where
  "prune_images rm keep dryRun [] removed st = (st, removed, None)"
| "prune_images rm keep dryRun ((ref, dir) # rest) removed st =
     (if dir \<in> set keep then prune_images rm keep dryRun rest removed st
      else if dryRun then prune_images rm keep dryRun rest (removed @ [ref]) st
      else case rm dir of
             Some e \<Rightarrow> (st, removed, Some (RemoveFails e))
           | None \<Rightarrow> prune_images rm keep dryRun rest (removed @ [ref]) (remove_all dir st))"

definition PruneImagesNotIn ::
  "(string \<Rightarrow> string option) \<Rightarrow> string list \<Rightarrow> bool \<Rightarrow> store \<Rightarrow> store \<times> string list \<times> image_error option" where
  "PruneImagesNotIn rm keepRefs dryRun st =
     (case prune_images rm (map (imageDir (sto_root st)) keepRefs) dryRun (storedImages st) [] st of
        (st', removed, Some e) \<Rightarrow> (st', removed, Some e)
      | (st', removed, None) \<Rightarrow>
          if \<not> dryRun \<and> removed \<noteq> [] then
            (case PruneUnreferencedBlobs rm st' of
               (st'', Inl e) \<Rightarrow> (st'', removed, Some e)
             | (st'', Inr _) \<Rightarrow> (st'', removed, None))
          else (st', removed, None))"

section \<open>Writing metadata and blobs\<close>

definition put_meta :: "string \<Rightarrow> (image_meta \<Rightarrow> image_meta) \<Rightarrow> store \<Rightarrow> store" where
  "put_meta dir f st = st\<lparr>sto_images := AList.update dir (f (meta_at st dir)) (sto_images st)\<rparr>"

definition writeImageMeta ::
  "(string \<Rightarrow> string option) \<Rightarrow> string \<Rightarrow> manifest \<Rightarrow> image_config \<Rightarrow> store \<Rightarrow> store \<times> image_error option" where
  "writeImageMeta wr ref m cfg st =
     (let dir = imageDir (sto_root st) ref
      in case wr dir of
           Some e \<Rightarrow> (st, Some (WriteFails e))
         | None \<Rightarrow> (case wr (path_join [dir, ''ref'']) of
             Some e \<Rightarrow> (st, Some (WriteFails e))
           | None \<Rightarrow>
              (let st1 = put_meta dir (\<lambda>im. im\<lparr>im_ref := Some (ref @ [CHR 0x0A])\<rparr>) st
               in case wr (path_join [dir, ''manifest.json'']) of
                    Some e \<Rightarrow> (st1, Some (WriteFails e))
                  | None \<Rightarrow>
                     (let st2 = put_meta dir (\<lambda>im. im\<lparr>im_manifest := Json m\<rparr>) st1
                      in case wr (path_join [dir, ''config.json'']) of
                           Some e \<Rightarrow> (st2, Some (WriteFails e))
                         | None \<Rightarrow> (put_meta dir (\<lambda>im. im\<lparr>im_config := Json cfg\<rparr>) st2, None)))))"

definition SaveImage ::
  "(string \<Rightarrow> string option) \<Rightarrow> string \<Rightarrow> manifest \<Rightarrow> image_config \<Rightarrow> store \<Rightarrow> store \<times> image_error option" where
  "SaveImage wr ref m cfg st =
     (case find (\<lambda>l. \<not> HasBlob st (d_digest l)) (mf_layers m) of
        Some l \<Rightarrow> (st, Some (MissingLayer (d_digest l)))
      | None \<Rightarrow> writeImageMeta wr ref m cfg st)"

definition Tag :: "(string \<Rightarrow> string option) \<Rightarrow> string \<Rightarrow> string \<Rightarrow> store \<Rightarrow> store \<times> image_error option" where
  "Tag wr src dst st =
     (case loadImageMeta st src of Inl e \<Rightarrow> (st, Some e) | Inr (m, cfg) \<Rightarrow> SaveImage wr dst m cfg st)"

definition digest_of :: "(string \<Rightarrow> string) \<Rightarrow> string \<Rightarrow> string" where
  "digest_of sha data = ''sha256:'' @ sha data"

definition PutBlob ::
  "(string \<Rightarrow> string) \<Rightarrow> (string \<Rightarrow> string option) \<Rightarrow> string \<Rightarrow> store \<Rightarrow> store \<times> (image_error + string)" where
  "PutBlob sha wr data st =
     (let digest = digest_of sha data; dst = blob_path st digest
      in if HasBlob st digest then (st, Inr digest)
         else case wr dst of Some e \<Rightarrow> (st, Inl (WriteFails e)) | None \<Rightarrow> (put_file dst data st, Inr digest))"

definition AdoptBlob :: "(string \<Rightarrow> string option) \<Rightarrow> string \<Rightarrow> string \<Rightarrow> store \<Rightarrow> store \<times> image_error option" where
  "AdoptBlob wr src digest st =
     (let dst = blob_path st digest
      in if HasBlob st digest then (del_file src st, None)
         else case wr dst of
                Some e \<Rightarrow> (st, Some (WriteFails e))
              | None \<Rightarrow> (case file_at st src of
                  None \<Rightarrow> (st, Some (WriteFails src))
                | Some c \<Rightarrow> (put_file dst c (del_file src st), None)))"

section \<open>Fetching a blob\<close>

text \<open>What one request for a blob from an offset gives: an error, or a status with the bytes that arrive
  and whether the stream is cut before its end.\<close>

datatype blob_reply = ReqFails string | Reply int string bool

datatype io_fault =
    NoFault | OpenFails | ReadFails | CreateFails string | SyncFails string | CloseFails string | StatFails | RenameFails string

text \<open>What an earlier attempt left: the bytes that were hashed, and the file after the checks.\<close>

definition resume_from :: "io_fault \<Rightarrow> string \<Rightarrow> descriptor \<Rightarrow> bool \<Rightarrow> store \<Rightarrow> string \<times> store" where
  "resume_from io partial desc forceFull st =
     (if forceFull then ([], del_file partial st)
      else case file_at st partial of
             None \<Rightarrow> ([], st)
           | Some c \<Rightarrow>
               if c = [] then ([], st)
               else if int (length c) > d_size desc then ([], del_file partial st)
               else if io = OpenFails then ([], st)
               else if io = ReadFails then ([], del_file partial st)
               else (c, st))"

definition rename_blob :: "io_fault \<Rightarrow> string \<Rightarrow> string \<Rightarrow> store \<Rightarrow> store \<times> image_error option" where
  "rename_blob io partial dest st =
     (case (io, file_at st partial) of
        (RenameFails e, _) \<Rightarrow> (st, Some (WriteFails e))
      | (_, None) \<Rightarrow> (st, Some (WriteFails partial))
      | (_, Some c) \<Rightarrow> (put_file dest c (del_file partial st), None))"

definition blob_status :: "nat \<Rightarrow> int \<Rightarrow> image_error option" where
  "blob_status start status =
     (if start > 0 then (if status = 200 then Some RangeFallback else if status \<noteq> 206 then Some (FetchFails (itoa status)) else None)
      else if status \<noteq> 200 then Some (FetchFails (itoa status)) else None)"

text \<open>The body is appended to the partial file, checked, and renamed into place.\<close>

definition store_body ::
  "(string \<Rightarrow> string) \<Rightarrow> io_fault \<Rightarrow> descriptor \<Rightarrow> string \<Rightarrow> string \<Rightarrow> string \<Rightarrow> string \<Rightarrow> bool \<Rightarrow> store \<Rightarrow> store \<times> image_error option" where
  "store_body sha io desc dest partial start body isCut st =
     (let old = (if start = [] then [] else case file_at st partial of Some c \<Rightarrow> c | None \<Rightarrow> []);
          st1 = put_file partial (old @ body) st
      in case io of
           CreateFails e \<Rightarrow> (st, Some (WriteFails e))
         | _ \<Rightarrow>
           if isCut then (st1, Some StreamCut)
           else (case io of
             SyncFails e \<Rightarrow> (st1, Some (WriteFails e))
           | CloseFails e \<Rightarrow> (st1, Some (WriteFails e))
           | _ \<Rightarrow>
             if digest_of sha (start @ body) \<noteq> d_digest desc then (del_file partial st1, Some (DigestMismatch (d_digest desc)))
             else if io = StatFails \<or> (d_size desc > 0 \<and> int (length (old @ body)) \<noteq> d_size desc)
             then (del_file partial st1, Some RangeFallback)
             else (case rename_blob io partial dest st1 of
                     (st2, Some e) \<Rightarrow> (del_file partial st2, Some e)
                   | (st2, None) \<Rightarrow> (st2, None))))"

definition fetchBlobToDiskOnce ::
  "(string \<Rightarrow> string) \<Rightarrow> io_fault \<Rightarrow> (string \<Rightarrow> nat \<Rightarrow> blob_reply) \<Rightarrow> descriptor \<Rightarrow> string \<Rightarrow> string \<Rightarrow> bool \<Rightarrow> store \<Rightarrow>
   store \<times> image_error option" where
  "fetchBlobToDiskOnce sha io srv desc dest partial forceFull st =
     (case resume_from io partial desc forceFull st of
        (start, st1) \<Rightarrow>
          if int (length start) = d_size desc then
            (if digest_of sha start \<noteq> d_digest desc then (del_file partial st1, Some (DigestMismatch (d_digest desc)))
             else rename_blob io partial dest st1)
          else case srv (d_digest desc) (length start) of
                 ReqFails e \<Rightarrow> (st1, Some (FetchFails e))
               | Reply status body isCut \<Rightarrow>
                   (case blob_status (length start) status of
                      Some e \<Rightarrow> (st1, Some e)
                    | None \<Rightarrow> store_body sha io desc dest partial start body isCut st1))"

record transfer =
  tr_srv :: "nat \<Rightarrow> string \<Rightarrow> nat \<Rightarrow> blob_reply"
  tr_io :: "nat \<Rightarrow> io_fault"
  tr_cancelled :: "nat \<Rightarrow> bool"

definition blobAttempts :: nat where
  "blobAttempts = 5"

text \<open>The attempts left; attempt numbers count up from 0.\<close>

fun fetch_attempts ::
  "(string \<Rightarrow> string) \<Rightarrow> transfer \<Rightarrow> descriptor \<Rightarrow> string \<Rightarrow> string \<Rightarrow> nat \<Rightarrow> bool \<Rightarrow> store \<Rightarrow> store \<times> image_error option" where
  "fetch_attempts sha tr desc dest partial 0 forceFull st = (st, Some (TooManyRetries (d_digest desc)))"
| "fetch_attempts sha tr desc dest partial (Suc left) forceFull st =
     (let attempt = blobAttempts - Suc left
      in case fetchBlobToDiskOnce sha (tr_io tr attempt) (tr_srv tr attempt) desc dest partial forceFull st of
           (st1, None) \<Rightarrow> (st1, None)
         | (st1, Some RangeFallback) \<Rightarrow> fetch_attempts sha tr desc dest partial left True (del_file partial st1)
         | (st1, Some StreamCut) \<Rightarrow>
             if \<not> tr_cancelled tr attempt then fetch_attempts sha tr desc dest partial left False st1
             else (st1, Some StreamCut)
         | (st1, Some e) \<Rightarrow> (st1, Some e))"

definition fetchBlobToDisk ::
  "(string \<Rightarrow> string) \<Rightarrow> transfer \<Rightarrow> descriptor \<Rightarrow> store \<Rightarrow> store \<times> image_error option" where
  "fetchBlobToDisk sha tr desc st =
     (let dest = blob_path st (d_digest desc); go = fetch_attempts sha tr desc dest (dest @ ''.partial'') blobAttempts False
      in case file_at st dest of
           None \<Rightarrow> go st
         | Some c \<Rightarrow> if d_size desc \<le> 0 \<or> int (length c) = d_size desc then (st, None) else go (del_file dest st))"

definition fetchBlob ::
  "(string \<Rightarrow> string) \<Rightarrow> transfer \<Rightarrow> descriptor \<Rightarrow> store \<Rightarrow> store \<times> (image_error + string)" where
  "fetchBlob sha tr desc st =
     (let dest = blob_path st (d_digest desc)
      in case file_at st dest of
           Some c \<Rightarrow> (st, Inr c)
         | None \<Rightarrow> (case fetchBlobToDisk sha tr desc st of
             (st1, Some e) \<Rightarrow> (st1, Inl e)
           | (st1, None) \<Rightarrow> (st1, case file_at st1 dest of Some c \<Rightarrow> Inr c | None \<Rightarrow> Inl (MissingBlob (d_digest desc)))))"

section \<open>Pulling\<close>

fun fetch_layers ::
  "(string \<Rightarrow> string) \<Rightarrow> (string \<Rightarrow> transfer) \<Rightarrow> descriptor list \<Rightarrow> store \<Rightarrow> store \<times> image_error list" where
  "fetch_layers sha tr [] st = (st, [])"
| "fetch_layers sha tr (d # ds) st =
     (case fetchBlobToDisk sha (tr (d_digest d)) d st of
        (st1, r) \<Rightarrow> (case fetch_layers sha tr ds st1 of
          (st2, es) \<Rightarrow> (st2, case r of Some e \<Rightarrow> e # es | None \<Rightarrow> es)))"

definition pullLayers ::
  "(string \<Rightarrow> string) \<Rightarrow> (string \<Rightarrow> transfer) \<Rightarrow> descriptor list \<Rightarrow> store \<Rightarrow> store \<times> image_error list" where
  "pullLayers sha tr layers st = fetch_layers sha tr (filter (\<lambda>d. \<not> HasBlob st (d_digest d)) layers) st"

datatype manifest_reply = IndexReply "(descriptor \<times> platform option) list" | ManifestReply manifest

record registry =
  rg_auth :: "string option"
  rg_manifest :: "string \<Rightarrow> string + manifest_reply"
  rg_blob :: "string \<Rightarrow> transfer"

text \<open>The manifest of a reference: an index is followed to the entry of the platform, as often as the
  registry answers with an index.\<close>

partial_function (option) client_manifest ::
  "(string \<Rightarrow> string + manifest_reply) \<Rightarrow> string \<Rightarrow> string \<Rightarrow> string \<Rightarrow> (image_error + manifest) option" where
  "client_manifest get wantOS wantArch ref =
     (case get ref of
        Inl e \<Rightarrow> Some (Inl (ManifestFails e))
      | Inr (ManifestReply m) \<Rightarrow> Some (Inr m)
      | Inr (IndexReply ms) \<Rightarrow>
          (case pickIndexDigest ms wantOS wantArch of
             None \<Rightarrow> Some (Inl NoPlatform)
           | Some d \<Rightarrow> client_manifest get wantOS wantArch d))"

record pull_env =
  pe_sha :: "string \<Rightarrow> string"
  pe_decodeConfig :: "string \<Rightarrow> image_config option"
  pe_write :: "string \<Rightarrow> string option"
  pe_platform :: "string \<times> string"

text \<open>From the manifest on: the configuration, the layers, and the metadata last.\<close>

definition pull_manifest :: "pull_env \<Rightarrow> registry \<Rightarrow> string \<Rightarrow> manifest \<Rightarrow> store \<Rightarrow> store \<times> (image_error + image_config)" where
  "pull_manifest env rg ref m st =
     (case fetchBlob (pe_sha env) (rg_blob rg (d_digest (mf_config m))) (mf_config m) st of
        (st1, Inl e) \<Rightarrow> (st1, Inl e)
      | (st1, Inr blob) \<Rightarrow> (case pe_decodeConfig env blob of
          None \<Rightarrow> (st1, Inl BadConfig)
        | Some cfg \<Rightarrow> (case pullLayers (pe_sha env) (rg_blob rg) (mf_layers m) st1 of
            (st2, e # _) \<Rightarrow> (st2, Inl e)
          | (st2, []) \<Rightarrow> (case writeImageMeta (pe_write env) ref m cfg st2 of
              (st3, Some e) \<Rightarrow> (st3, Inl e)
            | (st3, None) \<Rightarrow> (st3, Inr cfg)))))"

definition PullWithProgress ::
  "pull_env \<Rightarrow> registry \<Rightarrow> string \<Rightarrow> store \<Rightarrow> (store \<times> (image_error + image_config)) option" where
  "PullWithProgress env rg ref st =
     (case rg_auth rg of
        Some e \<Rightarrow> Some (st, Inl (AuthFails e))
      | None \<Rightarrow>
          (case client_manifest (rg_manifest rg) (fst (pe_platform env)) (snd (pe_platform env)) (snd (snd (parseRef ref))) of
             None \<Rightarrow> None
           | Some (Inl e) \<Rightarrow> Some (st, Inl e)
           | Some (Inr m) \<Rightarrow> Some (pull_manifest env rg ref m st)))"

end
