(* ===== verification/Image_Blobs.thy ===== *)
theory Image_Blobs
  imports Image_Store
begin

text \<open>
  What the image store guarantees: a fetch touches the files of its own blob only, a blob in the store
  has the content its digest promises whatever the registry sends and wherever an attempt stops, an
  interrupted download is resumed, an image that was pulled resolves, and collecting garbage keeps every
  blob an image needs.
\<close>

section \<open>Files\<close>

lemma file_at_put [simp]: "file_at (put_file p c st) q = (if q = p then Some c else file_at st q)"
  by (simp add: file_at_def put_file_def update_conv')

lemma file_at_del [simp]: "file_at (del_file p st) q = (if q = p then None else file_at st q)"
  by (simp add: file_at_def del_file_def delete_conv')

lemma store_fields [simp]:
  "sto_root (put_file p c st) = sto_root st" "sto_root (del_file p st) = sto_root st"
  "sto_images (put_file p c st) = sto_images st" "sto_images (del_file p st) = sto_images st"
  by (simp_all add: put_file_def del_file_def)

lemma blob_path_fields [simp]:
  "blob_path (put_file p c st) d = blob_path st d" "blob_path (del_file p st) d = blob_path st d"
  by (simp_all add: blob_path_def)

text \<open>The digests the code means: a proper name after the prefix, which is not the name of a partial file.\<close>

definition blob_name :: "string \<Rightarrow> string" where
  "blob_name d = trim_prefix d ''sha256:''"

definition wf_digest :: "string \<Rightarrow> bool" where
  "wf_digest d \<longleftrightarrow> has_prefix d ''sha256:'' \<and> plain (blob_name d) \<and> \<not> has_suffix (blob_name d) ''.partial''"

lemma has_prefix_split: "has_prefix s p \<Longrightarrow> s = p @ trim_prefix s p"
  unfolding has_prefix_def trim_prefix_def by (metis append_take_drop_id)

lemma wf_digest_name: "wf_digest d \<Longrightarrow> d = ''sha256:'' @ blob_name d"
  unfolding wf_digest_def blob_name_def by (blast intro: has_prefix_split)

lemma has_suffix_append [simp]: "has_suffix (s @ t) t"
  by (simp add: has_suffix_def has_prefix_def)

lemma blob_path_render:
  "is_abs (sto_root st) \<Longrightarrow> plain (blob_name d) \<Longrightarrow>
     blob_path st d = render_abs (path_elems (sto_root st) @ [''blobs'', ''sha256'', blob_name d])"
  using path_join_plain [of "sto_root st" "[''blobs'', ''sha256'', blob_name d]"]
  by (simp add: blob_path_def BlobPath_def blob_name_def plain_def)

lemma render_abs_inj: "list_all plain es \<Longrightarrow> list_all plain fs \<Longrightarrow> render_abs es = render_abs fs \<longleftrightarrow> es = fs"
  by (metis path_elems_render)

lemma plain_partial: "plain h \<Longrightarrow> plain (h @ ''.partial'')"
  by (cases h) (auto simp: plain_def Cons_eq_append_conv)

lemma partial_render:
  assumes "is_abs (sto_root st)" and "plain (blob_name d)"
  shows "blob_path st d @ ''.partial'' = render_abs (path_elems (sto_root st) @ [''blobs'', ''sha256'', blob_name d @ ''.partial''])"
  unfolding blob_path_render [OF assms] render_abs_def
  by (simp add: join_with_append [of "path_elems (sto_root st) @ [''blobs'', ''sha256'']" "[_]", simplified])

lemma plain_literals [simp]: "plain ''blobs''" "plain ''sha256''" "plain ''images''"
  by (simp_all add: plain_def)

lemma blob_path_inj:
  assumes "is_abs (sto_root st)" and "wf_digest d" and "wf_digest d'"
  shows "blob_path st d = blob_path st d' \<longleftrightarrow> d = d'"
proof -
  have p: "plain (blob_name d)" "plain (blob_name d')" using assms(2,3) by (simp_all add: wf_digest_def)
  have "blob_path st d = blob_path st d' \<longleftrightarrow> blob_name d = blob_name d'"
    using p by (simp add: blob_path_render [OF assms(1)] render_abs_inj)
  also have "\<dots> \<longleftrightarrow> d = d'" using wf_digest_name [OF assms(2)] wf_digest_name [OF assms(3)] by metis
  finally show ?thesis .
qed

lemma blob_path_not_partial:
  assumes "is_abs (sto_root st)" and "wf_digest d" and "wf_digest d'"
  shows "blob_path st d \<noteq> blob_path st d' @ ''.partial''"
proof -
  have p: "plain (blob_name d)" "plain (blob_name d')" "\<not> has_suffix (blob_name d) ''.partial''"
    using assms(2,3) by (simp_all add: wf_digest_def)
  then have "blob_name d \<noteq> blob_name d' @ ''.partial''" by (metis has_suffix_append)
  then show ?thesis
    unfolding partial_render [OF assms(1) p(2)] blob_path_render [OF assms(1) p(1)]
    using p plain_partial [OF p(2)] by (simp add: render_abs_inj)
qed

section \<open>One fetch\<close>

text \<open>A fetch changes the two files of its blob and nothing else.\<close>

definition frame :: "string list \<Rightarrow> store \<Rightarrow> store \<Rightarrow> bool" where
  "frame ps st st' \<longleftrightarrow> sto_root st' = sto_root st \<and> sto_images st' = sto_images st \<and>
     (\<forall>q. q \<notin> set ps \<longrightarrow> file_at st' q = file_at st q)"

lemma frame_refl [simp]: "frame ps st st"
  by (simp add: frame_def)

lemma frame_trans: "frame ps st st' \<Longrightarrow> frame ps st' st'' \<Longrightarrow> frame ps st st''"
  by (simp add: frame_def)

lemma frame_put: "p \<in> set ps \<Longrightarrow> frame ps st st' \<Longrightarrow> frame ps st (put_file p c st')"
  by (auto simp: frame_def)

lemma frame_del: "p \<in> set ps \<Longrightarrow> frame ps st st' \<Longrightarrow> frame ps st (del_file p st')"
  by (auto simp: frame_def)

lemmas frame_intros = frame_refl frame_put frame_del

lemma rename_blob_frame: "rename_blob io partial dest st = (st', r) \<Longrightarrow> frame [dest, partial] st st'"
  by (auto simp: rename_blob_def intro!: frame_intros split: io_fault.splits option.splits prod.splits)

definition partial_bytes :: "string \<Rightarrow> string \<Rightarrow> store \<Rightarrow> string" where
  "partial_bytes partial start st = (if start = [] then [] else case file_at st partial of Some c \<Rightarrow> c | None \<Rightarrow> [])"

lemma store_body_cases:
  assumes "store_body sha io desc dest partial start body isCut st = (st', r)"
  shows "st' \<in> {st, put_file partial (partial_bytes partial start st @ body) st,
      del_file partial (put_file partial (partial_bytes partial start st @ body) st)} \<and> r \<noteq> None \<or>
    st' = put_file dest (partial_bytes partial start st @ body)
      (del_file partial (put_file partial (partial_bytes partial start st @ body) st)) \<and> r = None \<and>
    digest_of sha (start @ body) = d_digest desc \<and>
    (d_size desc > 0 \<longrightarrow> int (length (partial_bytes partial start st @ body)) = d_size desc)"
  using assms unfolding store_body_def partial_bytes_def [symmetric] Let_def
  by (cases io; cases isCut; simp add: rename_blob_def split: if_splits; blast?)

lemma store_body_frame:
  assumes "store_body sha io desc dest partial start body isCut st = (st', r)"
  shows "frame [dest, partial] st st'"
  using store_body_cases [OF assms] by (auto intro!: frame_intros)

lemma resume_from_frame: "resume_from io partial desc forceFull st = (start, st') \<Longrightarrow> frame [dest, partial] st st'"
  by (auto simp: resume_from_def intro!: frame_intros split: if_splits option.splits)

text \<open>The hashed bytes are those of the partial file, when there are any.\<close>

lemma resume_from_start:
  assumes "resume_from io partial desc forceFull st = (start, st')"
  shows "start \<noteq> [] \<Longrightarrow> file_at st' partial = Some start"
    and "start = [] \<Longrightarrow> file_at st' partial \<in> {None, Some []} \<or> io = OpenFails \<and> d_size desc > 0"
    and "dest \<noteq> partial \<Longrightarrow> file_at st' dest = file_at st dest"
proof -
  have "x \<noteq> [] \<Longrightarrow> \<not> n < int (length x) \<Longrightarrow> 0 < n" for x :: string and n by (cases x) simp_all
  note this [dest]
  show "start \<noteq> [] \<Longrightarrow> file_at st' partial = Some start"
    and "start = [] \<Longrightarrow> file_at st' partial \<in> {None, Some []} \<or> io = OpenFails \<and> d_size desc > 0"
    and "dest \<noteq> partial \<Longrightarrow> file_at st' dest = file_at st dest"
    using assms by (auto simp: resume_from_def split: if_splits option.splits)
qed

text \<open>What a fetch leaves at the destination: what was there when it fails, else a file with the digest
  that was asked for.\<close>

definition fetched :: "(string \<Rightarrow> string) \<Rightarrow> descriptor \<Rightarrow> string \<Rightarrow> store \<Rightarrow> store \<Rightarrow> image_error option \<Rightarrow> bool" where
  "fetched sha desc dest st st' r \<longleftrightarrow> frame [dest, dest @ ''.partial''] st st' \<and>
     (case r of
        Some e \<Rightarrow> file_at st' dest = file_at st dest
      | None \<Rightarrow> \<exists>c. file_at st' dest = Some c \<and> digest_of sha c = d_digest desc \<and>
          (d_size desc > 0 \<longrightarrow> int (length c) = d_size desc))"

lemma rename_blob_fetched:
  assumes "rename_blob io (dest @ ''.partial'') dest st = (st', r)" and "file_at st (dest @ ''.partial'') \<in> {None, Some c}"
    and "digest_of sha c = d_digest desc" and "int (length c) = d_size desc"
  shows "fetched sha desc dest st st' r"
  using assms rename_blob_frame [OF assms(1)]
  by (auto simp: fetched_def rename_blob_def split: io_fault.splits option.splits)

lemma store_body_fetched:
  assumes "store_body sha io desc dest (dest @ ''.partial'') start body isCut st = (st', r)"
    and "start \<noteq> [] \<Longrightarrow> file_at st (dest @ ''.partial'') = Some start"
  shows "fetched sha desc dest st st' r"
proof -
  have "partial_bytes (dest @ ''.partial'') start st = start" using assms(2) by (auto simp: partial_bytes_def)
  with store_body_cases [OF assms(1)] store_body_frame [OF assms(1)] show ?thesis
    by (auto simp: fetched_def split: option.splits)
qed

lemma fetched_trans:
  "frame [dest, dest @ ''.partial''] st st1 \<Longrightarrow> file_at st1 dest = file_at st dest \<Longrightarrow> fetched sha desc dest st1 st2 r \<Longrightarrow>
     fetched sha desc dest st st2 r"
  by (auto simp: fetched_def intro: frame_trans split: option.splits)

lemma fetched_same:
  "frame [dest, dest @ ''.partial''] st st' \<Longrightarrow> file_at st' dest = file_at st dest \<Longrightarrow> fetched sha desc dest st st' (Some e)"
  by (simp add: fetched_def)

lemma once_fetched:
  assumes "fetchBlobToDiskOnce sha io srv desc dest (dest @ ''.partial'') forceFull st = (st', r)"
  shows "fetched sha desc dest st st' r"
proof -
  let ?p = "dest @ ''.partial''"
  obtain start st1 where r1: "resume_from io ?p desc forceFull st = (start, st1)" by fastforce
  note f1 = resume_from_frame [OF r1, of dest] and d1 = resume_from_start(3) [OF r1, of dest]
  note p1 = resume_from_start(1,2) [OF r1]
  have ne: "dest \<noteq> ?p" by simp
  have "fetched sha desc dest st1 st' r"
  proof (cases "int (length start) = d_size desc")
    case True
    show ?thesis
    proof (cases "digest_of sha start = d_digest desc")
      case eq: True
      have "file_at st1 ?p \<in> {None, Some start}" using p1 True by (cases "start = []") auto
      then show ?thesis using rename_blob_fetched [OF _ _ eq True] assms r1 True eq
        by (simp add: fetchBlobToDiskOnce_def)
    next
      case False
      then show ?thesis using assms r1 True
        by (auto simp: fetchBlobToDiskOnce_def intro!: fetched_same frame_intros)
    qed
  next
    case False
    show ?thesis
    proof (cases "srv (d_digest desc) (length start)")
      case (Reply status body isCut)
      show ?thesis
      proof (cases "blob_status (length start) status")
        case None
        then show ?thesis
          using assms r1 False Reply store_body_fetched [OF _ p1(1)] by (simp add: fetchBlobToDiskOnce_def)
      next
        case (Some e)
        then have "st' = st1" "r = Some e" using assms r1 False Reply by (simp_all add: fetchBlobToDiskOnce_def)
        then show ?thesis by (simp add: fetched_same)
      qed
    qed (use assms r1 False in \<open>auto simp: fetchBlobToDiskOnce_def intro!: fetched_same\<close>)
  qed
  with fetched_trans [OF f1 d1] ne show ?thesis by blast
qed

lemma attempts_fetched:
  "fetch_attempts sha tr desc dest (dest @ ''.partial'') n forceFull st = (st', r) \<Longrightarrow> fetched sha desc dest st st' r"
proof (induction n arbitrary: forceFull st)
  case (Suc n)
  let ?p = "dest @ ''.partial''"
  let ?a = "blobAttempts - Suc n"
  obtain st1 r1 where once: "fetchBlobToDiskOnce sha (tr_io tr ?a) (tr_srv tr ?a) desc dest ?p forceFull st = (st1, r1)"
    by fastforce
  note f = once_fetched [OF once]
  show ?case
  proof (cases r1)
    case None
    then show ?thesis using Suc.prems once f by (simp add: Let_def)
  next
    case (Some e)
    then have same: "frame [dest, ?p] st st1" "file_at st1 dest = file_at st dest" using f by (simp_all add: fetched_def)
    from same have same': "frame [dest, ?p] st (del_file ?p st1)" "file_at (del_file ?p st1) dest = file_at st dest"
      by (auto intro: frame_del)
    consider "e = RangeFallback" | "e = StreamCut \<and> \<not> tr_cancelled tr ?a" | "st' = st1 \<and> r = Some e"
      using Suc.prems once Some by (cases e) (auto simp: Let_def split: if_splits)
    then show ?thesis
    proof cases
      case 1
      with Suc.prems once Some have "fetch_attempts sha tr desc dest ?p n True (del_file ?p st1) = (st', r)" by (simp add: Let_def)
      from fetched_trans [OF same' Suc.IH [OF this]] show ?thesis .
    next
      case 2
      with Suc.prems once Some have "fetch_attempts sha tr desc dest ?p n False st1 = (st', r)" by (simp add: Let_def)
      from fetched_trans [OF same Suc.IH [OF this]] show ?thesis .
    qed (use fetched_same [OF same] in simp)
  qed
qed (auto intro!: fetched_same)

lemma fetchBlobToDisk_fetched:
  assumes "fetchBlobToDisk sha tr desc st = (st', r)"
  defines "dest \<equiv> blob_path st (d_digest desc)"
  shows "frame [dest, dest @ ''.partial''] st st'"
    and "r = None \<Longrightarrow> \<exists>c. file_at st' dest = Some c \<and> (d_size desc > 0 \<longrightarrow> int (length c) = d_size desc)"
    and "file_at st' dest \<in> {None, file_at st dest} \<or> (\<exists>c. file_at st' dest = Some c \<and> digest_of sha c = d_digest desc)"
proof -
  have "st' = st \<and> r = None \<and> (\<exists>c. file_at st dest = Some c \<and> (d_size desc \<le> 0 \<or> int (length c) = d_size desc)) \<or>
    (\<exists>st0. frame [dest, dest @ ''.partial''] st st0 \<and> file_at st0 dest \<in> {None, file_at st dest} \<and>
       fetched sha desc dest st0 st' r)"
  proof (cases "file_at st dest")
    case None
    then have "fetch_attempts sha tr desc dest (dest @ ''.partial'') blobAttempts False st = (st', r)"
      using assms(1) unfolding fetchBlobToDisk_def Let_def dest_def [symmetric] by simp
    from attempts_fetched [OF this] show ?thesis using frame_refl by blast
  next
    case (Some c)
    show ?thesis
    proof (cases "d_size desc \<le> 0 \<or> int (length c) = d_size desc")
      case True
      then show ?thesis using assms(1) Some unfolding fetchBlobToDisk_def Let_def dest_def [symmetric] by auto
    next
      case False
      then have "fetch_attempts sha tr desc dest (dest @ ''.partial'') blobAttempts False (del_file dest st) = (st', r)"
        using assms(1) Some unfolding fetchBlobToDisk_def Let_def dest_def [symmetric] by simp
      then have "fetched sha desc dest (del_file dest st) st' r" by (rule attempts_fetched)
      moreover have "frame [dest, dest @ ''.partial''] st (del_file dest st)" by (simp add: frame_del)
      ultimately show ?thesis by (metis file_at_del insertI1)
    qed
  qed
  then show "frame [dest, dest @ ''.partial''] st st'"
    and "r = None \<Longrightarrow> \<exists>c. file_at st' dest = Some c \<and> (d_size desc > 0 \<longrightarrow> int (length c) = d_size desc)"
    and "file_at st' dest \<in> {None, file_at st dest} \<or> (\<exists>c. file_at st' dest = Some c \<and> digest_of sha c = d_digest desc)"
    by (auto simp: fetched_def intro: frame_trans split: option.splits)
qed

section \<open>Verified blobs\<close>

definition verified :: "(string \<Rightarrow> string) \<Rightarrow> store \<Rightarrow> bool" where
  "verified sha st \<longleftrightarrow> is_abs (sto_root st) \<and>
     (\<forall>d c. wf_digest d \<longrightarrow> file_at st (blob_path st d) = Some c \<longrightarrow> digest_of sha c = d)"

lemma verifiedD: "verified sha st \<Longrightarrow> wf_digest d \<Longrightarrow> file_at st (blob_path st d) = Some c \<Longrightarrow> digest_of sha c = d"
  by (simp add: verified_def)

text \<open>Operations that only delete files, or write metadata.\<close>

definition deletes_only :: "store \<Rightarrow> store \<Rightarrow> bool" where
  "deletes_only st st' \<longleftrightarrow> sto_root st' = sto_root st \<and> (\<forall>q. file_at st' q \<in> {None, file_at st q})"

lemma deletes_only_refl [simp]: "deletes_only st st"
  by (simp add: deletes_only_def)

lemma deletes_only_trans: "deletes_only st st1 \<Longrightarrow> deletes_only st1 st2 \<Longrightarrow> deletes_only st st2"
  unfolding deletes_only_def by (simp, metis)

lemma deletes_only_del [simp]: "deletes_only st (del_file p st)"
  by (simp add: deletes_only_def)

lemma deletes_only_verified: "deletes_only st st' \<Longrightarrow> verified sha st \<Longrightarrow> verified sha st'"
  unfolding deletes_only_def verified_def blob_path_def by (metis insertE option.distinct(1) singletonD)

lemma map_of_filter_key: "map_of (filter (\<lambda>(k, _). P k) xs) k = (if P k then map_of xs k else None)"
  by (induction xs) auto

lemma deletes_only_remove_all [simp]: "deletes_only st (remove_all dir st)"
  by (simp add: deletes_only_def remove_all_def file_at_def map_of_filter_key)

lemma prune_names_deletes: "prune_names rm refs dir ns k st = (st', r) \<Longrightarrow> deletes_only st st'"
proof (induction ns arbitrary: k st)
  case (Cons n ns)
  then show ?case
    by (auto split: if_splits option.splits intro: deletes_only_trans [OF deletes_only_del])
qed simp

lemma PruneUnreferencedBlobs_deletes: "PruneUnreferencedBlobs rm st = (st', r) \<Longrightarrow> deletes_only st st'"
  unfolding PruneUnreferencedBlobs_def by (rule prune_names_deletes)

lemma RemoveImage_deletes: "RemoveImage rm ref st = (st', r) \<Longrightarrow> deletes_only st st'"
  by (auto simp: RemoveImage_def Let_def split: sum.splits option.splits prod.splits
      dest!: PruneUnreferencedBlobs_deletes intro: deletes_only_trans [OF deletes_only_remove_all])

lemma prune_images_deletes: "prune_images rm keep dry ims out st = (st', out', r) \<Longrightarrow> deletes_only st st'"
proof (induction rm keep dry ims out st rule: prune_images.induct)
  case (2 rm keep dry ref dir rest out st)
  then show ?case
    by (auto split: if_splits option.splits intro: deletes_only_trans [OF deletes_only_remove_all])
qed simp

lemma PruneImagesNotIn_deletes:
  assumes "PruneImagesNotIn rm keep dry st = (st', out, r)"
  shows "deletes_only st st'"
proof -
  obtain st1 out1 r1 where p: "prune_images rm (map (imageDir (sto_root st)) keep) dry (storedImages st) [] st = (st1, out1, r1)"
    by (metis prod_cases3)
  note d = prune_images_deletes [OF p]
  show ?thesis
  proof (cases r1)
    case (Some e)
    then show ?thesis using assms p d by (simp add: PruneImagesNotIn_def)
  next
    case None
    then show ?thesis using assms p d
      by (auto simp: PruneImagesNotIn_def split: if_splits prod.splits sum.splits
          dest!: PruneUnreferencedBlobs_deletes intro: deletes_only_trans)
  qed
qed

lemma put_meta_fields [simp]: "sto_root (put_meta dir f st) = sto_root st" "file_at (put_meta dir f st) q = file_at st q"
  by (simp_all add: put_meta_def file_at_def)

lemma writeImageMeta_files:
  "writeImageMeta wr ref m cfg st = (st', r) \<Longrightarrow> sto_root st' = sto_root st \<and> (\<forall>q. file_at st' q = file_at st q)"
  by (auto simp: writeImageMeta_def Let_def split: option.splits)

lemma SaveImage_files:
  "SaveImage wr ref m cfg st = (st', r) \<Longrightarrow> sto_root st' = sto_root st \<and> (\<forall>q. file_at st' q = file_at st q)"
  using writeImageMeta_files by (auto simp: SaveImage_def split: option.splits)

lemma Tag_files: "Tag wr src dst st = (st', r) \<Longrightarrow> sto_root st' = sto_root st \<and> (\<forall>q. file_at st' q = file_at st q)"
  using SaveImage_files by (auto simp: Tag_def split: sum.splits)

lemma files_deletes: "sto_root st' = sto_root st \<and> (\<forall>q. file_at st' q = file_at st q) \<Longrightarrow> deletes_only st st'"
  by (simp add: deletes_only_def)

text \<open>A new blob with the content its digest promises.\<close>

lemma put_blob_verified:
  assumes "verified sha st" and "wf_digest d" and "digest_of sha c = d"
  shows "verified sha (put_file (blob_path st d) c st)"
  using assms blob_path_inj [OF _ _ assms(2)] unfolding verified_def by auto

lemma fetch_verified:
  assumes "fetchBlobToDisk sha tr desc st = (st', r)" and "verified sha st" and "wf_digest (d_digest desc)"
  shows "verified sha st'"
proof -
  let ?dest = "blob_path st (d_digest desc)"
  note f = fetchBlobToDisk_fetched [OF assms(1)]
  have root: "sto_root st' = sto_root st" "is_abs (sto_root st)" using f(1) assms(2) by (simp_all add: frame_def verified_def)
  then have bp: "blob_path st' d = blob_path st d" for d by (simp add: blob_path_def)
  have "digest_of sha c = d" if d: "wf_digest d" "file_at st' (blob_path st d) = Some c" for d c
  proof (cases "d = d_digest desc")
    case True
    then show ?thesis using f(3) d verifiedD [OF assms(2) d(1)] by auto
  next
    case False
    then have "blob_path st d \<notin> set [?dest, ?dest @ ''.partial'']"
      using blob_path_inj [OF root(2) d(1) assms(3)] blob_path_not_partial [OF root(2) d(1) assms(3)] by simp
    then have "file_at st (blob_path st d) = Some c" using f(1) d(2) by (simp add: frame_def)
    then show ?thesis by (rule verifiedD [OF assms(2) d(1)])
  qed
  then show ?thesis using root by (simp add: verified_def bp)
qed

lemma AdoptBlob_verified:
  assumes "AdoptBlob wr src d st = (st', r)" and "verified sha st" and "wf_digest d"
    and "file_at st src = Some c" and "digest_of sha c = d"
  shows "verified sha st'"
proof -
  have del: "verified sha (del_file src st)" by (rule deletes_only_verified [OF deletes_only_del assms(2)])
  from put_blob_verified [OF this assms(3,5)] del assms show ?thesis
    by (auto simp: AdoptBlob_def Let_def split: if_splits option.splits)
qed

text \<open>The store as a system: pulls, builds and loads add blobs one at a time, and images are saved, tagged,
  removed and pruned in between. A label lists the digests a step adds.\<close>

inductive store_step :: "(string \<Rightarrow> string) \<Rightarrow> store \<Rightarrow> string list \<Rightarrow> store \<Rightarrow> bool" for sha where
  fetch: "fetchBlobToDisk sha tr desc st = (st', r) \<Longrightarrow> store_step sha st [d_digest desc] st'"
| put: "PutBlob sha wr data st = (st', r) \<Longrightarrow> store_step sha st [digest_of sha data] st'"
| adopt: "file_at st src = Some c \<Longrightarrow> digest_of sha c = d \<Longrightarrow> AdoptBlob wr src d st = (st', r) \<Longrightarrow> store_step sha st [d] st'"
| save: "SaveImage wr ref m cfg st = (st', r) \<Longrightarrow> store_step sha st [] st'"
| write_meta: "writeImageMeta wr ref m cfg st = (st', r) \<Longrightarrow> store_step sha st [] st'"
| tag: "Tag wr src dst st = (st', r) \<Longrightarrow> store_step sha st [] st'"
| remove: "RemoveImage rm ref st = (st', r) \<Longrightarrow> store_step sha st [] st'"
| prune: "PruneImagesNotIn rm keep dry st = (st', out, r) \<Longrightarrow> store_step sha st [] st'"

lemma store_step_verified:
  assumes "store_step sha st l st'" and "verified sha st" and "list_all wf_digest l"
  shows "verified sha st'"
  using assms
proof cases
  case (put wr data r)
  then show ?thesis using assms put_blob_verified [OF assms(2), of "digest_of sha data" data]
    by (auto simp: PutBlob_def Let_def split: if_splits option.splits)
next
  case (fetch tr desc r)
  then show ?thesis using fetch_verified [OF fetch(2) assms(2)] assms(3) by simp
next
  case (adopt src c d wr r)
  then show ?thesis using AdoptBlob_verified [OF adopt(4) assms(2) _ adopt(2,3)] assms(3) by simp
qed (use assms(2) in \<open>auto dest!: SaveImage_files writeImageMeta_files Tag_files RemoveImage_deletes PruneImagesNotIn_deletes
       files_deletes intro: deletes_only_verified\<close>)

interpretation blobs: transition_invariant "store_step sha" "list_all wf_digest" "verified sha" for sha
  by unfold_locales (rule store_step_verified)

text \<open>C5. Whatever registries send, however often a download is cut, resumed or fails on the way to the
  disk, and whatever else happens to the store in between, a blob of the store has the content its
  digest promises.\<close>

theorem blobs_stay_verified:
  assumes "blobs.run sha st ls st'" and "list_all (list_all wf_digest) ls" and "verified sha st"
    and "wf_digest d" and "file_at st' (blob_path st' d) = Some c"
  shows "digest_of sha c = d"
  by (rule verifiedD [OF blobs.run_kept [OF assms(1-3)] assms(4,5)])

text \<open>A store for the examples: the digest of a content is its length, and the first stream is cut.\<close>

definition demo_sha :: "string \<Rightarrow> string" where
  "demo_sha c = itoa_nat (length c)"

definition demo_store0 :: store where
  "demo_store0 = \<lparr>sto_root = ''/s'', sto_files = [], sto_images = []\<rparr>"

definition demo_layer :: descriptor where
  "demo_layer = \<lparr>d_mediaType = [], d_digest = ''sha256:5'', d_size = 5\<rparr>"

definition demo_transfer :: transfer where
  "demo_transfer = \<lparr>tr_srv = (\<lambda>n d start. if n = 0 then Reply 200 ''he'' True else Reply 206 (drop start ''hello'') False),
     tr_io = (\<lambda>_. NoFault), tr_cancelled = (\<lambda>_. False)\<rparr>"

definition demo_store1 :: store where
  "demo_store1 = fst (fetchBlobToDisk demo_sha demo_transfer demo_layer demo_store0)"

lemma demo_fetch: "fetchBlobToDisk demo_sha demo_transfer demo_layer demo_store0 = (demo_store1, None)"
proof -
  have "snd (fetchBlobToDisk demo_sha demo_transfer demo_layer demo_store0) = None" by code_simp
  then show ?thesis unfolding demo_store1_def by (metis prod.collapse)
qed

lemma demo_store0_verified: "verified demo_sha demo_store0"
  by (simp add: verified_def demo_store0_def file_at_def is_abs_def has_prefix_def)

theorem blobs_stay_verified_witness:
  "file_at demo_store1 (blob_path demo_store1 ''sha256:5'') = Some ''hello'' \<and> digest_of demo_sha ''hello'' = ''sha256:5''"
proof -
  have "store_step demo_sha demo_store0 [d_digest demo_layer] demo_store1" by (rule store_step.fetch [OF demo_fetch])
  then have run: "blobs.run demo_sha demo_store0 [[''sha256:5'']] demo_store1"
    by (auto simp: demo_layer_def intro: blobs.run_Cons blobs.run_Nil)
  have f: "file_at demo_store1 (blob_path demo_store1 ''sha256:5'') = Some ''hello''" by code_simp
  have wf: "wf_digest ''sha256:5''" by code_simp
  then have "list_all (list_all wf_digest) [[''sha256:5'']]" by simp
  from blobs_stay_verified [OF run this demo_store0_verified wf f] f show ?thesis by simp
qed

end
