(* ===== verification/Image_Pulls.thy ===== *)
theory Image_Pulls
  imports Image_Blobs
begin

text \<open>
  Garbage collection and pulls. Removing an image keeps every other image usable, and an image that was
  pulled resolves to its layers. What the code does not do is stated as well: a damaged layer is not
  fetched again, a garbage collection during a pull takes the layers the pull has just fetched, and an
  index that refers to itself is followed until the timeout of the pull, which is outside the model.
\<close>

section \<open>Garbage collection keeps what is referenced\<close>

lemma path_base_plain:
  assumes "length (path_base p) = 64"
  shows "plain (path_base p)"
proof -
  have "CHR ''/'' \<notin> set (last (split_on (CHR ''/'') q))" for q using split_on_no_sep last_in_set split_on_nonempty by metis
  moreover have "path_base p \<notin> {[], ''.'', ''..'', ''/''}" using assms by auto
  ultimately show ?thesis by (auto simp: path_base_def Let_def plain_def split: if_splits)
qed

lemma blob_dir_render:
  "is_abs (sto_root st) \<Longrightarrow> blob_dir st = render_abs (path_elems (sto_root st) @ [''blobs'', ''sha256''])"
  using path_join_plain [of "sto_root st" "[''blobs'', ''sha256'']"] by (simp add: blob_dir_def)

lemma blob_dir_name:
  assumes "is_abs (sto_root st)" and "plain n"
  shows "path_join [blob_dir st, n] = render_abs (path_elems (sto_root st) @ [''blobs'', ''sha256'', n])"
  using path_join_plain [of "blob_dir st" "[n]"] assms by (simp add: blob_dir_render)

lemma prune_names_keeps:
  assumes "prune_names rm refs (blob_dir st0) ns k st = (st', r)" and "is_abs (sto_root st0)" and "sto_root st = sto_root st0"
    and "\<And>n. n \<in> set ns \<Longrightarrow> length n = 64 \<Longrightarrow> plain n" and "wf_digest d" and "d \<in> set refs"
  shows "file_at st' (blob_path st0 d) = file_at st (blob_path st0 d)"
  using assms(1,3,4)
proof (induction ns arbitrary: k st)
  case (Cons n ns)
  show ?case
  proof (cases "prunable refs n")
    case True
    then have n: "plain n" "''sha256:'' @ n \<noteq> d" using Cons.prems(3) assms(6) by (auto simp: prunable_def)
    then have "n \<noteq> blob_name d" using wf_digest_name [OF assms(5)] by metis
    then have "path_join [blob_dir st0, n] \<noteq> blob_path st0 d"
      using n(1) assms(5) unfolding blob_dir_name [OF assms(2) n(1)]
      by (subst blob_path_render [OF assms(2)]) (simp_all add: render_abs_inj wf_digest_def)
    then show ?thesis using Cons.prems True Cons.IH [of _ "del_file (path_join [blob_dir st0, n]) st"]
      by (auto split: option.splits)
  next
    case False
    then show ?thesis using Cons.prems Cons.IH by simp
  qed
qed simp

lemma PruneUnreferencedBlobs_keeps:
  assumes "PruneUnreferencedBlobs rm st = (st', r)" and "is_abs (sto_root st)" and "wf_digest d"
    and "d \<in> set (collectReferencedDigests st)"
  shows "file_at st' (blob_path st d) = file_at st (blob_path st d)"
proof (rule prune_names_keeps [OF assms(1) [unfolded PruneUnreferencedBlobs_def] assms(2) refl _ assms(3,4)])
  fix n assume "n \<in> set (dir_names st (blob_dir st))" "length n = 64"
  then show "plain n" by (auto simp: dir_names_def path_base_plain)
qed

lemma prune_names_images: "prune_names rm refs dir ns k st = (st', r) \<Longrightarrow> sto_images st' = sto_images st"
  by (induction ns arbitrary: k st) (auto split: if_splits option.splits)

lemma PruneUnreferencedBlobs_images: "PruneUnreferencedBlobs rm st = (st', r) \<Longrightarrow> sto_images st' = sto_images st"
  unfolding PruneUnreferencedBlobs_def by (rule prune_names_images)

text \<open>A reference whose directory is a proper one below the images directory.\<close>

definition proper_ref :: "string \<Rightarrow> bool" where
  "proper_ref ref \<longleftrightarrow> (case parseRef ref of (_, repo, tag) \<Rightarrow> plain (sanitisePath repo) \<and> plain (sanitisePath tag))"

lemma proper_ref_dir:
  assumes "is_abs root" and "proper_ref ref"
  obtains repo tag where "imageDir root ref = render_abs (path_elems root @ [''images'', repo, tag])" and "plain repo" and "plain tag"
  using assms imageDir_plain [OF assms(1)] by (cases "parseRef ref") (auto simp: proper_ref_def)

lemma images_root_render: "is_abs (sto_root st) \<Longrightarrow> images_root st = render_abs (path_elems (sto_root st) @ [''images''])"
  using path_join_plain [of "sto_root st" "[''images'']"] by (simp add: images_root_def)

lemma proper_ref_below:
  assumes "is_abs (sto_root st)" and "proper_ref ref"
  shows "below (images_root st) (imageDir (sto_root st) ref)"
  using assms(2) by (rule proper_ref_dir [OF assms(1)]) (simp add: below_def images_root_render [OF assms(1)])

lemma proper_ref_not_blob:
  assumes "is_abs (sto_root st)" and "proper_ref ref" and "plain (blob_name d)"
  shows "\<not> below (imageDir (sto_root st) ref) (blob_path st d)"
  using assms(2)
  by (rule proper_ref_dir [OF assms(1)])
    (auto simp: below_def blob_path_render [OF assms(1,3)] assms(3) prefix_def)

lemma meta_at_remove_all:
  "\<not> below dir dir' \<Longrightarrow> meta_at (remove_all dir st) dir' = meta_at st dir'"
  by (simp add: meta_at_def remove_all_def map_of_filter_key)

lemma remove_all_root [simp]: "sto_root (remove_all dir st) = sto_root st"
  by (simp add: remove_all_def)

lemma remove_all_file: "\<not> below dir p \<Longrightarrow> file_at (remove_all dir st) p = file_at st p"
  by (simp add: file_at_def remove_all_def map_of_filter_key)

lemma referenced_layer:
  assumes "loadImageMeta st ref = Inr (m, cfg)" and "below (images_root st) (imageDir (sto_root st) ref)" and "l \<in> set (mf_layers m)"
  shows "d_digest l \<in> set (collectReferencedDigests st)"
proof -
  let ?dir = "imageDir (sto_root st) ref"
  from assms(1) have "im_manifest (meta_at st ?dir) = Json m" by (auto simp: loadImageMeta_def Let_def split: json.splits)
  then obtain im where "(?dir, im) \<in> set (sto_images st)" "im_manifest im = Json m"
    by (auto simp: meta_at_def split: option.splits dest: map_of_SomeD)
  with assms(2,3) show ?thesis by (force simp: collectReferencedDigests_def)
qed

lemma map_res_cong: "(\<And>x. x \<in> set xs \<Longrightarrow> f x = g x) \<Longrightarrow> map_res f xs = map_res g xs"
proof (induction xs)
  case (Cons a xs)
  then have "map_res f xs = map_res g xs" and "f a = g a" by simp_all
  then show ?case by (simp split: sum.splits)
qed simp

text \<open>C15. Removing an image leaves every other image as usable as it was: its metadata and each of its
  layers stay, shared ones included, even when the removal of a blob fails halfway.\<close>

theorem RemoveImage_keeps_others:
  assumes "RemoveImage rm ref st = (st', r)" and "is_abs (sto_root st)" and "proper_ref ref" and "proper_ref ref'"
    and "\<not> below (imageDir (sto_root st) ref) (imageDir (sto_root st) ref')"
    and "\<And>m cfg. loadImageMeta st ref' = Inr (m, cfg) \<Longrightarrow> list_all (\<lambda>l. wf_digest (d_digest l)) (mf_layers m)"
  shows "ResolvePulledImage st' ref' = ResolvePulledImage st ref'"
proof (cases "st' = st")
  case False
  let ?st1 = "remove_all (imageDir (sto_root st) ref) st"
  from assms(1) False obtain r1 where p: "PruneUnreferencedBlobs rm ?st1 = (st', r1)"
    by (auto simp: RemoveImage_def Let_def split: sum.splits option.splits prod.splits)
  have root: "sto_root st' = sto_root st" using PruneUnreferencedBlobs_deletes [OF p] by (simp add: deletes_only_def)
  have meta1: "loadImageMeta ?st1 ref' = loadImageMeta st ref'"
    by (simp add: loadImageMeta_def meta_at_remove_all [OF assms(5)])
  have meta: "loadImageMeta st' ref' = loadImageMeta st ref'"
    using PruneUnreferencedBlobs_images [OF p] meta1 by (simp add: loadImageMeta_def meta_at_def root)
  show ?thesis
  proof (cases "loadImageMeta st ref'")
    case (Inr mc)
    obtain m cfg where mc: "mc = (m, cfg)" by fastforce
    have "layer_path st' l = layer_path st l" if l: "l \<in> set (mf_layers m)" for l
    proof -
      have wf: "wf_digest (d_digest l)" using assms(6) [of m cfg] Inr mc l by (auto simp: list_all_iff)
      have "below (images_root ?st1) (imageDir (sto_root ?st1) ref')" using proper_ref_below [of ?st1 ref'] assms(2,4) by simp
      from referenced_layer [OF _ this l] have "d_digest l \<in> set (collectReferencedDigests ?st1)" using meta1 Inr mc by simp
      from PruneUnreferencedBlobs_keeps [OF p _ wf this] assms(2)
      have "file_at st' (blob_path st (d_digest l)) = file_at ?st1 (blob_path st (d_digest l))" by (simp add: blob_path_def)
      also have "\<dots> = file_at st (blob_path st (d_digest l))"
        using proper_ref_not_blob [OF assms(2,3)] wf by (intro remove_all_file) (simp add: wf_digest_def)
      finally show ?thesis by (simp add: layer_path_def blob_path_def root)
    qed
    then show ?thesis unfolding ResolvePulledImage_def meta Inr mc by (simp cong: map_res_cong)
  qed (simp add: ResolvePulledImage_def meta)
qed simp

text \<open>Two images that share a layer; the first is removed.\<close>

definition demo_manifest :: "string \<Rightarrow> manifest" where
  "demo_manifest c = \<lparr>mf_mediaType = [], mf_config = \<lparr>d_mediaType = [], d_digest = c, d_size = 7\<rparr>, mf_layers = [demo_layer]\<rparr>"

definition demo_cfg :: image_config where
  "demo_cfg = \<lparr>ic_architecture = ''amd64'', ic_os = ''linux'', ic_config = empty_container_config, ic_diffIDs = [], ic_history = []\<rparr>"

definition demo_two :: store where
  "demo_two = fst (writeImageMeta (\<lambda>_. None) ''b:1'' (demo_manifest ''sha256:b'') demo_cfg
     (fst (writeImageMeta (\<lambda>_. None) ''a:1'' (demo_manifest ''sha256:a'') demo_cfg demo_store1)))"

definition demo_removed :: "store \<times> image_error option" where
  "demo_removed = RemoveImage (\<lambda>_. None) ''a:1'' demo_two"

theorem RemoveImage_keeps_others_witness:
  "loadImageMeta (fst demo_removed) ''a:1'' = Inl (NotFound ''a:1'') \<and>
   ResolvePulledImage (fst demo_removed) ''b:1'' = Inr (demo_manifest ''sha256:b'', demo_cfg, [''/s/blobs/sha256/5''])"
proof -
  have "ResolvePulledImage (fst demo_removed) ''b:1'' = ResolvePulledImage demo_two ''b:1''"
  proof (rule RemoveImage_keeps_others)
    show "RemoveImage (\<lambda>_. None) ''a:1'' demo_two = (fst demo_removed, snd demo_removed)" by (simp add: demo_removed_def)
    show "is_abs (sto_root demo_two)" by code_simp
    show "proper_ref ''a:1''" by code_simp
    show "proper_ref ''b:1''" by code_simp
    show "\<not> below (imageDir (sto_root demo_two) ''a:1'') (imageDir (sto_root demo_two) ''b:1'')" by code_simp
    fix m cfg assume "loadImageMeta demo_two ''b:1'' = Inr (m, cfg)"
    moreover have "loadImageMeta demo_two ''b:1'' = Inr (demo_manifest ''sha256:b'', demo_cfg)" by code_simp
    ultimately have "m = demo_manifest ''sha256:b''" by simp
    moreover have "list_all (\<lambda>l. wf_digest (d_digest l)) (mf_layers (demo_manifest ''sha256:b''))" by code_simp
    ultimately show "list_all (\<lambda>l. wf_digest (d_digest l)) (mf_layers m)" by simp
  qed
  moreover have "ResolvePulledImage demo_two ''b:1'' = Inr (demo_manifest ''sha256:b'', demo_cfg, [''/s/blobs/sha256/5''])" by code_simp
  moreover have "loadImageMeta (fst demo_removed) ''a:1'' = Inl (NotFound ''a:1'')" by code_simp
  ultimately show ?thesis by simp
qed

section \<open>A pulled image resolves\<close>

text \<open>The descriptors of one manifest: proper digests, one size per digest.\<close>

definition coherent :: "descriptor list \<Rightarrow> bool" where
  "coherent ds \<longleftrightarrow> list_all (\<lambda>d. wf_digest (d_digest d)) ds \<and>
     list_all (\<lambda>d. list_all (\<lambda>d'. d_digest d = d_digest d' \<longrightarrow> d_size d = d_size d') ds) ds"

definition undamaged :: "descriptor list \<Rightarrow> store \<Rightarrow> bool" where
  "undamaged ds st \<longleftrightarrow> list_all (\<lambda>d. HasBlob st (d_digest d) \<longrightarrow> layer_path st d = Inr (blob_path st (d_digest d))) ds"

lemma layer_path_Inr:
  "layer_path st d = Inr p \<longleftrightarrow> p = blob_path st (d_digest d) \<and>
     (\<exists>c. file_at st (blob_path st (d_digest d)) = Some c \<and> (d_size d > 0 \<longrightarrow> int (length c) = d_size d))"
  by (auto simp: layer_path_def Let_def split: option.splits)

lemma coherent_size: "coherent ds \<Longrightarrow> d \<in> set ds \<Longrightarrow> e \<in> set ds \<Longrightarrow> d_digest e = d_digest d \<Longrightarrow> d_size e = d_size d"
  unfolding coherent_def list_all_iff by blast

text \<open>A successful fetch stores its layer and leaves the other layers as they were.\<close>

lemma fetch_progress:
  assumes "fetchBlobToDisk sha tr d st = (st', None)" and "is_abs (sto_root st)" and "coherent ds" and "d \<in> set ds"
    and "undamaged ds st"
  shows "sto_root st' = sto_root st" and "undamaged ds st'" and "layer_path st' d = Inr (blob_path st' (d_digest d))"
    and "\<And>e. e \<in> set ds \<Longrightarrow> HasBlob st (d_digest e) \<Longrightarrow> HasBlob st' (d_digest e)"
proof -
  let ?p = "blob_path st (d_digest d)"
  from fetchBlobToDisk_fetched [OF assms(1)] have f: "frame [?p, ?p @ ''.partial''] st st'"
    and c: "\<exists>c. file_at st' ?p = Some c \<and> (d_size d > 0 \<longrightarrow> int (length c) = d_size d)" by simp_all
  from f show root: "sto_root st' = sto_root st" by (simp add: frame_def)
  have bp: "blob_path st' x = blob_path st x" for x by (simp add: blob_path_def root)
  from c show lp: "layer_path st' d = Inr (blob_path st' (d_digest d))" by (simp add: layer_path_Inr bp)
  have wf: "wf_digest (d_digest e)" if "e \<in> set ds" for e using assms(3) that by (auto simp: coherent_def list_all_iff)
  have others: "file_at st' (blob_path st (d_digest e)) = file_at st (blob_path st (d_digest e))"
    if "e \<in> set ds" "d_digest e \<noteq> d_digest d" for e
    using f that wf assms(4) blob_path_inj [OF assms(2)] blob_path_not_partial [OF assms(2)] by (simp add: frame_def)
  show "HasBlob st' (d_digest e)" if "e \<in> set ds" "HasBlob st (d_digest e)" for e
    using that others [OF that(1)] c by (cases "d_digest e = d_digest d") (auto simp: HasBlob_def bp)
  show "undamaged ds st'"
    unfolding undamaged_def list_all_iff
  proof (intro ballI impI)
    fix e assume e: "e \<in> set ds" "HasBlob st' (d_digest e)"
    show "layer_path st' e = Inr (blob_path st' (d_digest e))"
    proof (cases "d_digest e = d_digest d")
      case True
      then have "d_size e = d_size d" using coherent_size [OF assms(3,4) e(1)] by simp
      with lp True show ?thesis by (simp add: layer_path_Inr)
    next
      case False
      with e others [OF e(1)] have "HasBlob st (d_digest e)" by (simp add: HasBlob_def bp)
      then have "layer_path st e = Inr (blob_path st (d_digest e))" using assms(5) e(1) by (auto simp: undamaged_def list_all_iff)
      with others [OF e(1) False] show ?thesis by (simp add: layer_path_Inr bp)
    qed
  qed
qed

lemma fetch_layers_progress:
  assumes "fetch_layers sha tr xs st = (st', [])" and "is_abs (sto_root st)" and "coherent ds" and "set xs \<subseteq> set ds"
    and "undamaged ds st"
  shows "sto_root st' = sto_root st \<and> undamaged ds st' \<and>
    (\<forall>e\<in>set ds. HasBlob st (d_digest e) \<or> e \<in> set xs \<longrightarrow> HasBlob st' (d_digest e))"
  using assms(1,2,4,5)
proof (induction xs arbitrary: st)
  case (Cons d xs)
  from Cons.prems(1) obtain st1 where f: "fetchBlobToDisk sha (tr (d_digest d)) d st = (st1, None)"
    and rest: "fetch_layers sha tr xs st1 = (st', [])" by (auto split: prod.splits option.splits)
  have d: "d \<in> set ds" using Cons.prems(3) by simp
  note fp = fetch_progress [OF f Cons.prems(2) assms(3) d Cons.prems(4)]
  from fp(3) have "HasBlob st1 (d_digest d)" by (auto simp: layer_path_Inr HasBlob_def)
  with Cons.IH [OF rest] Cons.prems fp(1,2,4) d show ?case by auto
qed simp

text \<open>The file a fetch of the configuration returns is there already, or fetched like a layer.\<close>

lemma fetchBlob_progress:
  assumes "fetchBlob sha tr d st = (st', Inr c)" and "is_abs (sto_root st)" and "coherent ds" and "d \<in> set ds" and "undamaged ds st"
  shows "sto_root st' = sto_root st \<and> undamaged ds st'"
  using assms(1) fetch_progress(1,2) [OF _ assms(2-5)] assms(5)
  by (auto simp: fetchBlob_def Let_def split: option.splits prod.splits)

lemma map_res_Inr_map: "(\<And>x. x \<in> set xs \<Longrightarrow> f x = Inr (g x)) \<Longrightarrow> map_res f xs = Inr (map g xs)"
  by (induction xs) simp_all

lemma meta_at_put [simp]: "meta_at (put_meta dir f st) dir' = (if dir' = dir then f (meta_at st dir) else meta_at st dir')"
  by (simp add: meta_at_def put_meta_def update_conv')

lemma writeImageMeta_loads:
  "writeImageMeta wr ref m cfg st = (st', None) \<Longrightarrow> loadImageMeta st' ref = Inr (m, cfg)"
  by (auto simp: writeImageMeta_def loadImageMeta_def Let_def split: option.splits)


text \<open>A registry with one image, whose layer arrives in two parts.\<close>

definition demo_registry :: registry where
  "demo_registry = \<lparr>rg_auth = None,
     rg_manifest = (\<lambda>r. if r = ''1'' then Inr (ManifestReply
        \<lparr>mf_mediaType = [], mf_config = \<lparr>d_mediaType = [], d_digest = ''sha256:2'', d_size = 2\<rparr>, mf_layers = [demo_layer]\<rparr>)
        else Inl ''404''),
     rg_blob = (\<lambda>d. if d = ''sha256:5'' then demo_transfer
        else \<lparr>tr_srv = (\<lambda>n d start. Reply 200 ''{}'' False), tr_io = (\<lambda>_. NoFault), tr_cancelled = (\<lambda>_. False)\<rparr>)\<rparr>"

definition demo_env :: pull_env where
  "demo_env = \<lparr>pe_sha = demo_sha, pe_decodeConfig = (\<lambda>b. if b = ''{}'' then Some demo_cfg else None), pe_write = (\<lambda>_. None),
     pe_platform = (''linux'', ''amd64'')\<rparr>"

definition demo_pull :: "store \<times> (image_error + image_config)" where
  "demo_pull = pull_manifest demo_env demo_registry ''a:1''
     \<lparr>mf_mediaType = [], mf_config = \<lparr>d_mediaType = [], d_digest = ''sha256:2'', d_size = 2\<rparr>, mf_layers = [demo_layer]\<rparr> demo_store0"


section \<open>What pulling does not do\<close>

text \<open>A layer that is there with the wrong size is skipped by the pull, so pulling the image again
  succeeds and leaves it as unusable as it was, although the message for a damaged layer asks to pull
  again.\<close>

lemma damaged_layer_stays:
  assumes "layer_path st d = Inl (DamagedBlob x)"
  shows "pullLayers sha tr [d] st = (st, [])"
  using assms by (auto simp: pullLayers_def layer_path_def HasBlob_def Let_def split: option.splits if_splits)

text \<open>Fetching a layer does not make it referenced: until the metadata is written at the end of the pull,
  a garbage collection takes the layers the pull has fetched.\<close>

lemma fetched_layer_unreferenced:
  assumes "fetchBlobToDisk sha tr d st = (st', r)" and "d_digest d \<notin> set (collectReferencedDigests st)"
    and "length (blob_name (d_digest d)) = 64" and "wf_digest (d_digest d)"
  shows "prunable (collectReferencedDigests st') (blob_name (d_digest d))"
proof -
  have eq: "sto_images st' = sto_images st" "images_root st' = images_root st"
    using fetchBlobToDisk_fetched(1) [OF assms(1)] by (simp_all add: frame_def images_root_def)
  have "collectReferencedDigests st' = collectReferencedDigests st" unfolding collectReferencedDigests_def eq ..
  then show ?thesis using assms(2-4) wf_digest_name [OF assms(4)] by (auto simp: prunable_def wf_digest_def)
qed

text \<open>An index whose entry for the platform is the index itself keeps the client asking, as long as the
  timeout of the pull (which the model leaves out) allows.\<close>

lemma self_referring_index_diverges:
  assumes "get ref = Inr (IndexReply ms)" and "pickIndexDigest ms wantOS wantArch = Some ref"
  shows "client_manifest get wantOS wantArch ref = None"
proof (rule ccontr)
  assume "\<not> ?thesis"
  then obtain r where "client_manifest get wantOS wantArch ref = Some r" by auto
  then have "\<not> (\<exists>ms. get ref = Inr (IndexReply ms) \<and> pickIndexDigest ms wantOS wantArch = Some ref)"
    by (rule client_manifest.raw_induct [where P = "\<lambda>get os arch ref r. \<not> (\<exists>ms. get ref = Inr (IndexReply ms) \<and> pickIndexDigest ms os arch = Some ref)", rotated])
      (auto split: sum.splits manifest_reply.splits option.splits)
  with assms show False by blast
qed

end
