(* ===== verification/Rootfs.thy ===== *)
theory Rootfs
  imports Compose_Env Oci_Types
begin

text \<open>
  Paths and users inside an image root file system (src/internal/rootfs/rootfs.go). What Lstat and
  Readlink report is a function from paths to \<open>lstat\<close>. The loop of ScopedJoin ends because every
  symbolic link it follows counts against a limit, and every other step uses up a component.
\<close>

section \<open>ScopedJoin\<close>

datatype lstat = Absent | Plain | Link string | LstatFails string | ReadlinkFails string

datatype scoped_error = TooManyLinks string | LstatError string | ReadlinkError string

definition maxSymlinkHops :: nat where
  "maxSymlinkHops = 255"

definition splitPath :: "string \<Rightarrow> string list" where
  "splitPath p = split_on (CHR ''/'') p"

definition parentRel :: "string \<Rightarrow> string" where
  "parentRel rel = (let d = path_dir rel in if d = ''.'' then [] else d)"

function scoped_loop ::
  "(string \<Rightarrow> lstat) \<Rightarrow> string \<Rightarrow> string \<Rightarrow> string list \<Rightarrow> string \<Rightarrow> nat \<Rightarrow> scoped_error + string" where
  "scoped_loop lst root p [] cur hops = Inr (path_join [root, cur])"
| "scoped_loop lst root p (c # parts) cur hops =
     (if c = [] \<or> c = ''.'' then scoped_loop lst root p parts cur hops
      else if c = ''..'' then scoped_loop lst root p parts (parentRel cur) hops
      else let nxt = path_join [cur, c]
           in case lst (path_join [root, nxt]) of
                Absent \<Rightarrow> scoped_loop lst root p parts nxt hops
              | LstatFails e \<Rightarrow> Inl (LstatError e)
              | Plain \<Rightarrow> scoped_loop lst root p parts nxt hops
              | ReadlinkFails e \<Rightarrow> if hops + 1 > maxSymlinkHops then Inl (TooManyLinks p) else Inl (ReadlinkError e)
              | Link target \<Rightarrow>
                  if hops + 1 > maxSymlinkHops then Inl (TooManyLinks p)
                  else scoped_loop lst root p (splitPath target @ parts) (if is_abs target then [] else cur) (hops + 1))"
  by pat_completeness auto
termination
  by (relation "measures [\<lambda>(lst, root, p, parts, cur, hops). maxSymlinkHops - hops,
      \<lambda>(lst, root, p, parts, cur, hops). length parts]") (auto simp: maxSymlinkHops_def)

definition ScopedJoin :: "(string \<Rightarrow> lstat) \<Rightarrow> string \<Rightarrow> string \<Rightarrow> scoped_error + string" where
  "ScopedJoin lst root p = scoped_loop lst (path_clean root) p (splitPath p) [] 0"

section \<open>Users\<close>

datatype user_error = NoUser string | NoGroup string

definition readColonFile ::
  "(string \<Rightarrow> lstat) \<Rightarrow> (string \<Rightarrow> string option) \<Rightarrow> string \<Rightarrow> string \<Rightarrow> string list list" where
  "readColonFile lst open_file rootfs name =
     (case ScopedJoin lst rootfs name of
        Inl _ \<Rightarrow> []
      | Inr p \<Rightarrow> (case open_file p of
          None \<Rightarrow> []
        | Some text \<Rightarrow>
            map (split_on (CHR '':''))
              (filter (\<lambda>line. line \<noteq> [] \<and> \<not> has_prefix line ''#'') (map trim_space (fst (scan_lines text))))))"

definition lookupGroup :: "string list list \<Rightarrow> string \<Rightarrow> user_error + int" where
  "lookupGroup groups spec =
     (case parse_uint 32 spec of
        Some n \<Rightarrow> Inr (int n)
      | None \<Rightarrow>
          (case List.map_filter (\<lambda>f. if 3 \<le> length f \<and> f ! 0 = spec then parse_uint 32 (f ! 2) else None) groups of
             g # _ \<Rightarrow> Inr (int g)
           | [] \<Rightarrow> Inl (NoGroup spec)))"

text \<open>The uid, the gid and the name behind the user part of a specification.\<close>

definition numeric_user :: "string list list \<Rightarrow> string \<Rightarrow> nat \<Rightarrow> int \<times> int \<times> string" where
  "numeric_user passwd userPart n =
     (case find (\<lambda>f. 4 \<le> length f \<and> f ! 2 = userPart) passwd of
        None \<Rightarrow> (int n, 0, [])
      | Some f \<Rightarrow> (int n, case parse_uint 32 (f ! 3) of Some g \<Rightarrow> int g | None \<Rightarrow> 0, f ! 0))"

definition named_user :: "string list list \<Rightarrow> string \<Rightarrow> user_error + int \<times> int \<times> string" where
  "named_user passwd userPart =
     (case find (\<lambda>f. 4 \<le> length f \<and> f ! 0 = userPart) passwd of
        None \<Rightarrow> Inl (NoUser userPart)
      | Some f \<Rightarrow> (case (parse_uint 32 (f ! 2), parse_uint 32 (f ! 3)) of
          (Some u, Some g) \<Rightarrow> Inr (int u, int g, f ! 0)
        | _ \<Rightarrow> Inl (NoUser userPart)))"

text \<open>The groups that list the user as a member, in the order of the file.\<close>

definition member_gids :: "string list list \<Rightarrow> string \<Rightarrow> int \<Rightarrow> int list" where
  "member_gids groups userName gid =
     concat (map (\<lambda>f. if length f < 4 then []
       else concat (map (\<lambda>member.
              if member = userName then
                (case parse_uint 32 (f ! 2) of Some g \<Rightarrow> if int g \<noteq> gid then [int g] else [] | None \<Rightarrow> [])
              else []) (split_on (CHR '','') (f ! 3)))) groups)"

definition ResolveUser ::
  "(string \<Rightarrow> lstat) \<Rightarrow> (string \<Rightarrow> string option) \<Rightarrow> string \<Rightarrow> string \<Rightarrow> user_error + user" where
  "ResolveUser lst open_file rootfs spec0 =
     (let spec = trim_space spec0
      in if spec = [] then Inr \<lparr>u_uid = 0, u_gid = 0, u_additionalGids = []\<rparr>
         else let (userPart, groupPart, hasGroup) = cut_str spec '':'';
                  passwd = readColonFile lst open_file rootfs ''/etc/passwd'';
                  groups = readColonFile lst open_file rootfs ''/etc/group''
              in bind_res (case parse_uint 32 userPart of
                             Some n \<Rightarrow> Inr (numeric_user passwd userPart n)
                           | None \<Rightarrow> named_user passwd userPart) (\<lambda>(uid, gid, userName).
                 if hasGroup then bind_res (lookupGroup groups groupPart) (\<lambda>g.
                   Inr \<lparr>u_uid = uid, u_gid = g, u_additionalGids = []\<rparr>)
                 else Inr \<lparr>u_uid = uid, u_gid = gid,
                   u_additionalGids = (if userName \<noteq> [] then member_gids groups userName gid else [])\<rparr>))"

section \<open>Relative paths of plain components\<close>

definition rel_path :: "string list \<Rightarrow> string" where
  "rel_path es = join_with ''/'' es"

lemma rel_path_Nil [simp]: "rel_path [] = []"
  by (simp add: rel_path_def)

lemma rel_path_relative: "list_all plain es \<Longrightarrow> \<not> is_abs (rel_path es)"
  by (cases es; cases "tl es"; cases "hd es") (auto simp: rel_path_def is_abs_def has_prefix_def plain_def)

lemma rel_path_empty_iff: "list_all plain es \<Longrightarrow> rel_path es = [] \<longleftrightarrow> es = []"
  by (cases es; cases "tl es") (auto simp: rel_path_def plain_def)

lemma path_clean_rel:
  "es \<noteq> [] \<Longrightarrow> list_all plain es \<Longrightarrow> path_clean (rel_path es) = rel_path es"
  using rel_path_relative [of es]
  by (simp add: path_clean_def rel_path_def split_join_plain clean_elems_plain)

lemma rel_path_snoc: "es \<noteq> [] \<Longrightarrow> rel_path (es @ [c]) = rel_path es @ CHR ''/'' # c"
  using join_with_append [of es "[c]" "''/''"] by (simp add: rel_path_def)

lemma join_rel_plain:
  assumes "list_all plain es" and "plain c"
  shows "path_join [rel_path es, c] = rel_path (es @ [c])"
proof (cases "es = []")
  case True
  then show ?thesis using assms path_clean_rel [of "[c]"]
    by (simp add: path_join_def rel_path_def plain_def)
next
  case False
  then show ?thesis using assms path_clean_rel [of "es @ [c]"] rel_path_snoc [of es c]
    by (simp add: path_join_def rel_path_empty_iff)
qed

lemma parentRel_rel:
  assumes "list_all plain es"
  shows "parentRel (rel_path es) = rel_path (butlast es)"
proof (cases es rule: rev_cases)
  case Nil
  then show ?thesis by (simp add: parentRel_def path_dir_def path_clean_def is_abs_def has_prefix_def)
next
  case (snoc ds c)
  with assms have c: "list_all plain ds" "plain c" by simp_all
  have w: "dropWhile (\<lambda>x. x \<noteq> CHR ''/'') (rev c @ t) = dropWhile (\<lambda>x. x \<noteq> CHR ''/'') t" for t
    using c(2) by (subst dropWhile_append2) (auto simp: plain_def)
  show ?thesis
  proof (cases "ds = []")
    case True
    have "dropWhile (\<lambda>x. x \<noteq> CHR ''/'') (rev c) = []" using w [of "[]"] unfolding append_Nil2 dropWhile.simps .
    then have "path_dir (rel_path es) = ''.''"
      using True snoc unfolding path_dir_def rel_path_def by (simp add: path_clean_def is_abs_def has_prefix_def del: dropWhile_eq_Nil_conv)
    then show ?thesis using True snoc by (simp add: parentRel_def)
  next
    case False
    then have "path_dir (rel_path es) = path_clean (rel_path ds @ ''/'')"
      using w by (simp add: path_dir_def snoc rel_path_snoc)
    also have "\<dots> = rel_path ds"
    proof -
      have "\<not> is_abs (rel_path ds @ ''/'')"
        using rel_path_relative [OF c(1)] rel_path_empty_iff [OF c(1)] False
        by (cases "rel_path ds") (auto simp: is_abs_def has_prefix_def)
      moreover have "split_on (CHR ''/'') (rel_path ds @ ''/'') = ds @ [[]]"
        using split_on_append [of "CHR ''/''" "rel_path ds" "[]"] False c(1) by (simp add: rel_path_def split_join_plain)
      ultimately show ?thesis using False c(1)
        by (simp add: path_clean_def clean_elems_append clean_elems_plain rel_path_def)
    qed
    finally have "path_dir (rel_path es) = rel_path ds" .
    moreover have "rel_path ds \<noteq> ''.''"
    proof
      assume "rel_path ds = ''.''"
      with split_join_plain [OF False c(1)] have "ds = [''.'']" by (simp add: rel_path_def)
      with c(1) show False by (simp add: plain_def)
    qed
    ultimately show ?thesis by (simp add: parentRel_def snoc Let_def)
  qed
qed

lemma join_root_rel:
  assumes "is_abs root" and "list_all plain es"
  shows "path_join [root, rel_path es] = render_abs (path_elems root @ es)"
proof (cases "es = []")
  case True
  then show ?thesis using assms(1) is_abs_nonempty [OF assms(1)]
    by (simp add: path_join_def path_clean_abs is_abs_append path_elems_snoc)
next
  case False
  then have "path_elems (root @ CHR ''/'' # rel_path es) = path_elems root @ es"
    using assms by (simp add: path_elems_snoc rel_path_def split_join_plain clean_elems_plain)
  then show ?thesis using assms(1) is_abs_nonempty [OF assms(1)]
    by (simp add: path_join_def path_clean_abs is_abs_append)
qed

section \<open>Where ScopedJoin ends up\<close>

text \<open>No component of the path below the root is a symbolic link.\<close>

fun is_link :: "lstat \<Rightarrow> bool" where
  "is_link (Link _) = True"
| "is_link (ReadlinkFails _) = True"
| "is_link _ = False"

definition resolved :: "(string \<Rightarrow> lstat) \<Rightarrow> string \<Rightarrow> string list \<Rightarrow> bool" where
  "resolved lst root es \<longleftrightarrow>
     list_all plain es \<and> list_all (\<lambda>k. \<not> is_link (lst (render_abs (path_elems root @ take (Suc k) es)))) [0..<length es]"

lemma resolved_Nil [simp]: "resolved lst root []"
  by (simp add: resolved_def)

lemma resolved_snoc:
  "resolved lst root (es @ [c]) \<longleftrightarrow>
     resolved lst root es \<and> plain c \<and> \<not> is_link (lst (render_abs (path_elems root @ es @ [c])))"
  by (auto simp: resolved_def list_all_iff)

lemma resolved_butlast: "resolved lst root es \<Longrightarrow> resolved lst root (butlast es)"
  by (cases es rule: rev_cases) (auto simp: resolved_snoc)

lemma splitPath_no_sep: "list_all (\<lambda>c. CHR ''/'' \<notin> set c) (splitPath p)"
  unfolding splitPath_def list_all_iff using split_on_no_sep by blast

lemma scoped_loop_resolved:
  assumes "scoped_loop lst root p parts (rel_path es) hops = Inr q" and "is_abs root"
    and "resolved lst root es" and "list_all (\<lambda>c. CHR ''/'' \<notin> set c) parts"
  shows "\<exists>fs. q = render_abs (path_elems root @ fs) \<and> resolved lst root fs"
  using assms
proof (induction lst root p parts "rel_path es" hops arbitrary: es rule: scoped_loop.induct)
  case (1 lst root p hops)
  then show ?case using join_root_rel [OF 1(2)] by (auto simp: resolved_def)
next
  case (2 lst root p c parts hops)
  note plain_es = "2.prems"(3) [unfolded resolved_def, THEN conjunct1]
  consider "c = [] \<or> c = ''.''" | "c = ''..''" | "plain c" using "2.prems"(4) by (auto simp: plain_def)
  then show ?case
  proof cases
    case 1
    then show ?thesis using 2 by simp
  next
    case 2
    then show ?thesis
      using "2.hyps"(2) [of "butlast es"] "2.prems" parentRel_rel [OF plain_es] resolved_butlast by simp
  next
    case 3
    then have ne: "\<not> (c = [] \<or> c = ''.'')" "c \<noteq> ''..''" by (auto simp: plain_def)
    have n: "path_join [rel_path es, c] = rel_path (es @ [c])" by (rule join_rel_plain [OF plain_es 3])
    have r: "path_join [root, rel_path (es @ [c])] = render_abs (path_elems root @ es @ [c])"
      using join_root_rel [OF "2.prems"(2), of "es @ [c]"] plain_es 3 by simp
    show ?thesis
    proof (cases "lst (render_abs (path_elems root @ es @ [c]))")
      case (Link target)
      with "2.prems"(1) ne n r have h: "\<not> hops + 1 > maxSymlinkHops" by (auto split: if_splits)
      have l: "lst (path_join [root, path_join [rel_path es, c]]) = Link target" using n r Link by simp
      have nil: "[] = rel_path (if is_abs target then [] else es)" if "is_abs target" using that by simp
      show ?thesis
        using "2.hyps"(5) [OF ne refl l h, of "if is_abs target then [] else es"] "2.prems" ne n r h Link
          splitPath_no_sep [of target] by (auto split: if_splits)
    next
      case Absent
      then show ?thesis using "2.hyps"(3) [OF ne n [symmetric]] "2.prems" ne n r 3 by (simp add: resolved_snoc)
    next
      case Plain
      then show ?thesis using "2.hyps"(4) [OF ne n [symmetric]] "2.prems" ne n r 3 by (simp add: resolved_snoc)
    qed (use "2.prems" ne n r in \<open>auto split: if_splits\<close>)
  qed
qed

lemma ScopedJoin_resolved:
  assumes "ScopedJoin lst root p = Inr q" and "is_abs root"
  obtains es where "path_elems q = path_elems root @ es" and "resolved lst root es"
proof -
  have "is_abs (path_clean root)" "path_elems (path_clean root) = path_elems root" using assms(2) by simp_all
  then have "resolved lst (path_clean root) = resolved lst root" by (simp add: resolved_def fun_eq_iff)
  moreover have "scoped_loop lst (path_clean root) p (splitPath p) (rel_path []) 0 = Inr q"
    using assms(1) by (simp only: ScopedJoin_def rel_path_Nil)
  ultimately obtain es where "q = render_abs (path_elems root @ es)" and r: "resolved lst root es"
    using scoped_loop_resolved [of lst "path_clean root" p "splitPath p" "[]" 0 q] splitPath_no_sep assms(2) by auto
  then have "path_elems q = path_elems root @ es" by (simp add: resolved_def)
  from that [OF this r] show thesis .
qed

text \<open>C4. Whatever symbolic links the image contains, a path that ScopedJoin resolves lies inside the
  root, and no component of it below the root is itself a symbolic link: opening it cannot leave the
  root. A path through a tree without links is the lexical one.\<close>

theorem ScopedJoin_contained:
  assumes "ScopedJoin lst root p = Inr q" and "is_abs root"
  shows "prefix (path_elems root) (path_elems q) \<and>
    (\<forall>k \<in> {length (path_elems root) <.. length (path_elems q)}. \<not> is_link (lst (render_abs (take k (path_elems q)))))"
proof -
  from ScopedJoin_resolved [OF assms] obtain es where e: "path_elems q = path_elems root @ es" and r: "resolved lst root es" .
  have "\<not> is_link (lst (render_abs (take k (path_elems q))))"
    if k: "length (path_elems root) < k" "k \<le> length (path_elems q)" for k
  proof -
    obtain j where "k = length (path_elems root) + Suc j" using k(1) unfolding less_iff_Suc_add by auto
    moreover have "j < length es" using k(2) calculation unfolding e by simp
    ultimately show ?thesis using r unfolding e resolved_def by (auto simp: list_all_iff)
  qed
  then show ?thesis by (simp add: e)
qed

definition demo_lstat :: "string \<Rightarrow> lstat" where
  "demo_lstat p = (if p = ''/img/lib'' then Link ''usr/lib'' else if p = ''/img/esc'' then Link ''/../../etc'' else Plain)"

theorem ScopedJoin_contained_witness:
  "ScopedJoin demo_lstat ''/img'' ''lib/../../esc/x'' = Inr ''/img/etc/x'' \<and>
   prefix [''img''] (path_elems ''/img/etc/x'') \<and> \<not> is_link (demo_lstat ''/img/etc'')"
proof -
  have r: "ScopedJoin demo_lstat ''/img'' ''lib/../../esc/x'' = Inr ''/img/etc/x''" by code_simp
  have e: "path_elems ''/img'' = [''img'']" "path_elems ''/img/etc/x'' = [''img'', ''etc'', ''x'']"
    "render_abs [''img'', ''etc''] = ''/img/etc''" by code_simp+
  have "is_abs ''/img''" by code_simp
  from ScopedJoin_contained [OF r this] have "prefix [''img''] (path_elems ''/img/etc/x'')"
    and "\<forall>k \<in> {1 <.. 3}. \<not> is_link (demo_lstat (render_abs (take k [''img'', ''etc'', ''x''])))" by (simp_all add: e)
  moreover from this(2) have "\<not> is_link (demo_lstat (render_abs (take 2 [''img'', ''etc'', ''x''])))" by (rule bspec) simp
  ultimately show ?thesis using r e by simp
qed

lemma named_user_Inr:
  assumes "named_user passwd userPart = Inr (uid, gid, nm)"
  shows "\<exists>f \<in> set passwd. f ! 0 = userPart \<and> parse_uint 32 (f ! 2) = Some (nat uid) \<and> 0 \<le> uid"
proof -
  from assms obtain f u where f: "find (\<lambda>f. 4 \<le> length f \<and> f ! 0 = userPart) passwd = Some f"
    and "parse_uint 32 (f ! 2) = Some u" "uid = int u"
    by (auto simp: named_user_def split: option.splits)
  moreover from f have "f \<in> set passwd" "f ! 0 = userPart" by (auto simp: find_Some_iff)
  ultimately show ?thesis by auto
qed

text \<open>The user of a specification that is not blank is the number it gives, or the one of an entry of
  the image's passwd file with that name: an unknown name is an error and never becomes root.\<close>

theorem ResolveUser_no_default:
  assumes "ResolveUser lst open_file rootfs spec = Inr u" and "trim_space spec \<noteq> []"
  shows "parse_uint 32 (fst (cut_str (trim_space spec) '':'')) = Some (nat (u_uid u)) \<and> 0 \<le> u_uid u \<or>
    (\<exists>f \<in> set (readColonFile lst open_file rootfs ''/etc/passwd'').
       f ! 0 = fst (cut_str (trim_space spec) '':'') \<and> parse_uint 32 (f ! 2) = Some (nat (u_uid u)) \<and> 0 \<le> u_uid u)"
proof -
  obtain userPart groupPart hasGroup where c: "cut_str (trim_space spec) '':'' = (userPart, groupPart, hasGroup)"
    by (cases "cut_str (trim_space spec) '':''") auto
  show ?thesis
  proof (cases "parse_uint 32 userPart")
    case (Some n)
    then show ?thesis using assms c
      by (auto simp: ResolveUser_def Let_def bind_res_Inr_iff numeric_user_def split: if_splits option.splits)
  next
    case None
    with assms c obtain uid gid nm where n: "named_user (readColonFile lst open_file rootfs ''/etc/passwd'') userPart = Inr (uid, gid, nm)"
      and u: "u_uid u = uid"
      by (auto simp: ResolveUser_def Let_def bind_res_Inr_iff split: if_splits)
    from named_user_Inr [OF n] u c show ?thesis by auto
  qed
qed

definition demo_passwd :: "string \<Rightarrow> string option" where
  "demo_passwd p = (if p = ''/img/etc/passwd'' then Some ''web:x:101:12:Web server:/srv:/bin/sh'' else None)"

theorem ResolveUser_no_default_witness:
  "ResolveUser (\<lambda>_. Plain) demo_passwd ''/img'' ''web:7'' = Inr \<lparr>u_uid = 101, u_gid = 7, u_additionalGids = []\<rparr> \<and>
   ResolveUser (\<lambda>_. Plain) demo_passwd ''/img'' ''app'' = Inl (NoUser ''app'') \<and>
   (parse_uint 32 ''web'' = Some 101 \<or> (\<exists>f \<in> set (readColonFile (\<lambda>_. Plain) demo_passwd ''/img'' ''/etc/passwd'').
       f ! 0 = ''web'' \<and> parse_uint 32 (f ! 2) = Some 101))"
proof -
  have r: "ResolveUser (\<lambda>_. Plain) demo_passwd ''/img'' ''web:7'' = Inr \<lparr>u_uid = 101, u_gid = 7, u_additionalGids = []\<rparr>"
    by code_simp
  have "trim_space ''web:7'' \<noteq> []" "fst (cut_str (trim_space ''web:7'') '':'') = ''web''" by code_simp+
  with ResolveUser_no_default [OF r] have "parse_uint 32 ''web'' = Some 101 \<or>
      (\<exists>f \<in> set (readColonFile (\<lambda>_. Plain) demo_passwd ''/img'' ''/etc/passwd'').
       f ! 0 = ''web'' \<and> parse_uint 32 (f ! 2) = Some 101)" by simp
  moreover have "ResolveUser (\<lambda>_. Plain) demo_passwd ''/img'' ''app'' = Inl (NoUser ''app'')" by code_simp
  ultimately show ?thesis using r by blast
qed

end
