(* ===== verification/Builder.thy ===== *)
theory Builder
  imports Dockerfile_Parse Image_Pulls Rootfs Bundle
begin

text \<open>
  Image builds (src/internal/build/builder.go, run.go, copy.go, cache.go): the state of a stage, every
  instruction, the build cache and the commit of the image. What a step does to the outside world
  (mounting the layers, running a command, copying files, writing the layer) is a record \<open>step_io\<close> per
  step number, so that a theorem covers every outcome; the layer files themselves go through the
  image store. Progress output is left out; \<open>PullNeverReturns\<close> is a pull that only its timeout ends.
\<close>

section \<open>State\<close>

record stage_state =
  ss_name :: string
  ss_layers :: "descriptor list"
  ss_cfg :: image_config
  ss_args :: "(string, string) gomap"
  ss_key :: string
  ss_cmdSet :: bool

record cache_entry =
  ce_layer :: "descriptor option"
  ce_diffID :: string

record build_opts =
  bo_contextDir :: string
  bo_dockerfile :: string
  bo_tags :: "string list"
  bo_buildArgs :: "(string, string) gomap"
  bo_target :: string
  bo_noCache :: bool

datatype node = Node (n_mode: nat) (n_size: int) (n_owner: "(int \<times> int) option") (n_kind: node_kind)
  and node_kind = KDir "(string \<times> node) list" | KFile "string option" | KLink string | KOther

datatype stat = StatAbsent | StatFails string | Stat node

record copy_source =
  cs_abs :: string
  cs_rel :: string
  cs_isDir :: bool
  cs_url :: string
  cs_archive :: bool

record copy_opts =
  co_chown :: "user option"
  co_keepOwn :: bool
  co_chmod :: "nat option"

datatype build_error =
    ScopedErr scoped_error | OpenErr string | DfErr df_error | LexErr lex_error | KvErr kv_error | ArgErr string
  | PlatformErr string | ImgErr image_error | PullErr image_error | PullNeverReturns | TargetErr string | ShellForm
  | HealthSyntax | BadDuration string | BadRetries string | FlagErr string | MountErr | EmptyCommand | FsErr string
  | UserErr user_error | BundleErr bundle_error | RunErr string | AddFrom | TooFewWords | BadChmod string | UrlCopy string
  | GitSource string | BadPattern string | NoSources string | SourceMissing string | StatErr string | ChecksumUse
  | DownloadErr string | ChecksumMismatch string | HashErr string | Unsupported | MarshalErr string | AtLine nat build_error

text \<open>What becomes of the upper directory: it cannot be read, is empty, cannot be written as a layer, or
  becomes a layer with these bytes and this diff id.\<close>

datatype upper = ReadDirFails string | EmptyUpper | TempFails string | WriteBlobFails string | Upper string string

record step_io =
  io_id :: string
  io_prepare :: "string option"
  io_merged :: string
  io_lst :: "string \<Rightarrow> lstat"
  io_open :: "string \<Rightarrow> string option"
  io_notDir :: "string \<Rightarrow> bool"
  io_mkdirAll :: "string \<Rightarrow> string option"
  io_resolv :: bool
  io_generate :: "options \<Rightarrow> bundle_error option"
  io_run :: "options \<Rightarrow> string option"
  io_fromPrepare :: "string option"
  io_fromRoot :: string
  io_srcLst :: "string \<Rightarrow> lstat"
  io_stat :: "string \<Rightarrow> stat"
  io_glob :: "string \<Rightarrow> string list option"
  io_download :: "string \<Rightarrow> string + string \<times> string"
  io_isDir :: "string \<Rightarrow> bool"
  io_copyInto :: "copy_source \<Rightarrow> string \<Rightarrow> bool \<Rightarrow> copy_opts \<Rightarrow> string option"
  io_unmount :: "string option"
  io_upper :: upper
  io_cachePut :: bool

record build_env =
  be_sha :: "string \<Rightarrow> string"
  be_arch :: string
  be_rootless :: bool
  be_ctxLst :: "string \<Rightarrow> lstat"
  be_openFile :: "string \<Rightarrow> string option"
  be_pull :: pull_env
  be_registry :: "string \<Rightarrow> registry"
  be_write :: "string \<Rightarrow> string option"
  be_tempDir :: string
  be_buildDir :: string
  be_parseDuration :: "string \<Rightarrow> int option"
  be_marshalHealth :: "health_config_image \<Rightarrow> string"
  be_marshalConfig :: "image_config \<Rightarrow> string + string"
  be_io :: "nat \<Rightarrow> step_io"

record build_state =
  bd_store :: store
  bd_cache :: "(string, cache_entry) gomap"
  bd_meta :: "(string, string) gomap"
  bd_stages :: "stage_state list"
  bd_byName :: "(string, stage_state) gomap"
  bd_usedArg :: "string list"
  bd_step :: nat

section \<open>Stages\<close>

definition env_pairs :: "stage_state \<Rightarrow> (string \<times> string) list" where
  "env_pairs st = map (\<lambda>e. case cut_str e ''='' of (k, v, _) \<Rightarrow> (k, v)) (cc_env (ic_config (ss_cfg st)))"

definition env_lookup :: "stage_state \<Rightarrow> lookup" where
  "env_lookup st name = map_of (rev (env_pairs st)) name"

definition lookup_var :: "stage_state \<Rightarrow> lookup" where
  "lookup_var st name = (case env_lookup st name of Some v \<Rightarrow> Some v | None \<Rightarrow> map_of (ss_args st) name)"

definition runEnv :: "stage_state \<Rightarrow> string list" where
  "runEnv st =
     (let env = cc_env (ic_config (ss_cfg st));
          extra = sort_strings (map (\<lambda>(k, v). k @ ''='' @ v) (filter (\<lambda>(k, _). env_lookup st k = None) (ss_args st)));
          path = (if list_ex (\<lambda>e. has_prefix e ''PATH='') env then []
                  else [''PATH=/usr/local/sbin:/usr/local/bin:/usr/sbin:/usr/bin:/sbin:/bin''])
      in env @ path @ extra)"

fun set_env_list :: "string \<Rightarrow> string \<Rightarrow> string list \<Rightarrow> string list" where
  "set_env_list k v [] = [k @ ''='' @ v]"
| "set_env_list k v (e # es) = (if has_prefix e (k @ ''='') then (k @ ''='' @ v) # es else e # set_env_list k v es)"

definition on_cfg :: "(container_config \<Rightarrow> container_config) \<Rightarrow> stage_state \<Rightarrow> stage_state" where
  "on_cfg f st = st\<lparr>ss_cfg := (ss_cfg st)\<lparr>ic_config := f (ic_config (ss_cfg st))\<rparr>\<rparr>"

definition setEnv :: "string \<Rightarrow> string \<Rightarrow> stage_state \<Rightarrow> stage_state" where
  "setEnv k v st = on_cfg (\<lambda>c. c\<lparr>cc_env := set_env_list k v (cc_env c)\<rparr>) st"

definition shell :: "stage_state \<Rightarrow> string list" where
  "shell st = (let s = cc_shell (ic_config (ss_cfg st)) in if s \<noteq> [] then s else [''/bin/sh'', ''-c''])"

definition clone :: "stage_state \<Rightarrow> stage_state" where
  "clone st = (on_cfg (\<lambda>c. c\<lparr>cc_onBuild := []\<rparr>) st)\<lparr>ss_args := [], ss_cmdSet := False\<rparr>"

definition chainKey :: "(string \<Rightarrow> string) \<Rightarrow> string \<Rightarrow> string list \<Rightarrow> string" where
  "chainKey sha parent parts = sha (parent @ concat (map (\<lambda>p. CHR 0x00 # p) parts))"

definition addLayer :: "cache_entry \<Rightarrow> string \<Rightarrow> stage_state \<Rightarrow> stage_state" where
  "addLayer e createdBy st =
     (let cfg = ss_cfg st
      in case ce_layer e of
           None \<Rightarrow> st\<lparr>ss_cfg := cfg\<lparr>ic_history := ic_history cfg @ [\<lparr>he_createdBy = createdBy, he_emptyLayer = True\<rparr>]\<rparr>\<rparr>
         | Some d \<Rightarrow> st\<lparr>ss_layers := ss_layers st @ [d],
             ss_cfg := cfg\<lparr>ic_diffIDs := ic_diffIDs cfg @ [ce_diffID e],
               ic_history := ic_history cfg @ [\<lparr>he_createdBy = createdBy, he_emptyLayer = False\<rparr>]\<rparr>\<rparr>)"

section \<open>Cache and layers\<close>

definition cache_get :: "build_state \<Rightarrow> string \<Rightarrow> cache_entry option" where
  "cache_get bd key =
     (case map_of (bd_cache bd) key of
        None \<Rightarrow> None
      | Some e \<Rightarrow> (case ce_layer e of
          None \<Rightarrow> Some e
        | Some d \<Rightarrow> if HasBlob (bd_store bd) (d_digest d) then Some e else None))"

definition cache_put :: "bool \<Rightarrow> string \<Rightarrow> cache_entry \<Rightarrow> build_state \<Rightarrow> build_state" where
  "cache_put ok key e bd = (if ok then bd\<lparr>bd_cache := AList.update key e (bd_cache bd)\<rparr> else bd)"

definition MediaTypeImageLayerGzip :: string where
  "MediaTypeImageLayerGzip = ''application/vnd.oci.image.layer.v1.tar+gzip''"

definition MediaTypeDockerLayerGzip :: string where
  "MediaTypeDockerLayerGzip = ''application/vnd.docker.image.rootfs.diff.tar.gzip''"

text \<open>The layer is written to a temporary file, which the store then adopts under its digest.\<close>

definition commitLayer :: "build_env \<Rightarrow> step_io \<Rightarrow> build_state \<Rightarrow> build_state \<times> (build_error + cache_entry)" where
  "commitLayer env io bd =
     (case io_upper io of
        ReadDirFails e \<Rightarrow> (bd, Inl (FsErr e))
      | EmptyUpper \<Rightarrow> (bd, Inr \<lparr>ce_layer = None, ce_diffID = []\<rparr>)
      | TempFails e \<Rightarrow> (bd, Inl (FsErr e))
      | WriteBlobFails e \<Rightarrow> (bd, Inl (FsErr e))
      | Upper bytes diffID \<Rightarrow>
          (let dst = path_join [be_tempDir env, ''layer-'' @ io_id io]; digest = digest_of (be_sha env) bytes
           in case AdoptBlob (be_write env) dst digest (put_file dst bytes (bd_store bd)) of
                (s, Some e) \<Rightarrow> (bd\<lparr>bd_store := s\<rparr>, Inl (ImgErr e))
              | (s, None) \<Rightarrow> (bd\<lparr>bd_store := s\<rparr>,
                  Inr \<lparr>ce_layer = Some \<lparr>d_mediaType = MediaTypeImageLayerGzip, d_digest = digest, d_size = int (length bytes)\<rparr>,
                       ce_diffID = diffID\<rparr>)))"

text \<open>The end every file system step shares: unmount, commit, remember, record.\<close>

definition finish_step ::
  "build_env \<Rightarrow> step_io \<Rightarrow> string \<Rightarrow> stage_state \<Rightarrow> build_state \<Rightarrow> build_state \<times> (build_error + stage_state)" where
  "finish_step env io createdBy st bd =
     (case io_unmount io of
        Some e \<Rightarrow> (bd, Inl (FsErr e))
      | None \<Rightarrow> (case commitLayer env io bd of
          (bd1, Inl e) \<Rightarrow> (bd1, Inl e)
        | (bd1, Inr e) \<Rightarrow> (cache_put (io_cachePut io) (ss_key st) e bd1, Inr (addLayer e createdBy st))))"

definition use_cache :: "build_opts \<Rightarrow> stage_state \<Rightarrow> build_state \<Rightarrow> cache_entry option" where
  "use_cache opts st bd = (if bo_noCache opts then None else cache_get bd (ss_key st))"

section \<open>WORKDIR, VOLUME\<close>

fun make_dirs :: "step_io \<Rightarrow> string list \<Rightarrow> build_error option" where
  "make_dirs io [] = None"
| "make_dirs io (d # ds) =
     (if d = [] \<or> d = ''/'' then make_dirs io ds
      else case ScopedJoin (io_lst io) (io_merged io) d of
             Inl e \<Rightarrow> Some (ScopedErr e)
           | Inr p \<Rightarrow> (case io_mkdirAll io p of Some e \<Rightarrow> Some (FsErr e) | None \<Rightarrow> make_dirs io ds))"

definition commitMkdirs ::
  "build_env \<Rightarrow> build_opts \<Rightarrow> string \<Rightarrow> string \<Rightarrow> string list \<Rightarrow> stage_state \<Rightarrow> build_state \<Rightarrow>
   build_state \<times> (build_error + stage_state)" where
  "commitMkdirs env opts keyKind createdBy dirs st0 bd =
     (let st = st0\<lparr>ss_key := chainKey (be_sha env) (ss_key st0) [keyKind, join_with [CHR 0x0A] dirs]\<rparr>;
          io = be_io env (bd_step bd); none = \<lparr>ce_layer = None, ce_diffID = []\<rparr>
      in case use_cache opts st bd of
           Some e \<Rightarrow> (bd, Inr (addLayer e createdBy st))
         | None \<Rightarrow>
             if list_all (\<lambda>d. d = [] \<or> d = ''/'') dirs
             then (cache_put (io_cachePut io) (ss_key st) none bd, Inr (addLayer none createdBy st))
             else (case io_prepare io of
                     Some e \<Rightarrow> (bd, Inl (FsErr e))
                   | None \<Rightarrow> (case make_dirs io dirs of
                       Some e \<Rightarrow> (bd, Inl e)
                     | None \<Rightarrow> finish_step env io createdBy st bd)))"

definition ensureWorkdir ::
  "build_env \<Rightarrow> build_opts \<Rightarrow> stage_state \<Rightarrow> build_state \<Rightarrow> build_state \<times> (build_error + stage_state)" where
  "ensureWorkdir env opts st bd =
     (let wd = cc_workingDir (ic_config (ss_cfg st)); dir = (if wd = [] then ''/'' else wd)
      in commitMkdirs env opts ''workdir'' (''WORKDIR '' @ dir) [dir] st bd)"

section \<open>RUN\<close>

fun run_flags :: "string list \<Rightarrow> build_error option" where
  "run_flags [] = None"
| "run_flags (f # fs) =
     (case cut_str (trim_prefix f ''--'') ''='' of (name, val, _) \<Rightarrow>
        if name = ''network'' \<and> (val = ''host'' \<or> val = ''default'') then run_flags fs
        else if name = ''mount'' then Some MountErr
        else Some (FlagErr f))"

definition command_line :: "stage_state \<Rightarrow> instruction \<Rightarrow> string list" where
  "command_line st ins = (if in_json ins then in_args ins else shell st @ [in_raw ins])"

definition run_options :: "build_env \<Rightarrow> step_io \<Rightarrow> string list \<Rightarrow> string list \<Rightarrow> string \<Rightarrow> user \<Rightarrow> options" where
  "run_options env io argv envs cwd u =
     \<lparr>o_containerID = io_id io, o_rootFS = io_merged io, o_netNS = [], o_imageConfig = Some empty_image_config, o_env = envs,
      o_args = argv, o_workDir = cwd, o_user = Some u, o_resources = None, o_readOnly = False, o_hostname = ''nyx-build'',
      o_resolvConfPath = (if io_resolv io then ''/etc/resolv.conf'' else []), o_extraMounts = [], o_seccompProfile = [],
      o_apparmorProfile = [], o_capAdd = [], o_capDrop = [], o_privileged = False, o_noNewPrivileges = None, o_rlimits = [],
      o_hostNetwork = True, o_rootless = be_rootless env, o_uidMappings = [], o_gidMappings = [], o_terminal = False\<rparr>"

definition prepare_workdir :: "step_io \<Rightarrow> string \<Rightarrow> build_error option" where
  "prepare_workdir io cwd =
     (case ScopedJoin (io_lst io) (io_merged io) cwd of
        Inl _ \<Rightarrow> None
      | Inr p \<Rightarrow> if io_notDir io p then Some (FsErr cwd) else map_option FsErr (io_mkdirAll io p))"

definition run_step ::
  "build_env \<Rightarrow> step_io \<Rightarrow> string list \<Rightarrow> string list \<Rightarrow> string \<Rightarrow> stage_state \<Rightarrow> build_state \<Rightarrow>
   build_state \<times> (build_error + stage_state)" where
  "run_step env io argv envs createdBy st bd =
     (let cc = ic_config (ss_cfg st); cwd = (if cc_workingDir cc = [] then ''/'' else cc_workingDir cc)
      in case io_prepare io of
           Some e \<Rightarrow> (bd, Inl (FsErr e))
         | None \<Rightarrow> (case prepare_workdir io cwd of
             Some e \<Rightarrow> (bd, Inl e)
           | None \<Rightarrow> (case ResolveUser (io_lst io) (io_open io) (io_merged io) (cc_user cc) of
               Inl e \<Rightarrow> (bd, Inl (UserErr e))
             | Inr u \<Rightarrow>
                (let o1 = run_options env io argv envs cwd u
                 in case io_generate io o1 of
                      Some e \<Rightarrow> (bd, Inl (BundleErr e))
                    | None \<Rightarrow> (case io_run io o1 of
                        Some e \<Rightarrow> (bd, Inl (RunErr e))
                      | None \<Rightarrow> finish_step env io createdBy st bd)))))"

definition run_instruction ::
  "build_env \<Rightarrow> build_opts \<Rightarrow> instruction \<Rightarrow> stage_state \<Rightarrow> build_state \<Rightarrow> build_state \<times> (build_error + stage_state)" where
  "run_instruction env opts ins st0 bd =
     (case run_flags (in_flags ins) of
        Some e \<Rightarrow> (bd, Inl e)
      | None \<Rightarrow>
          (let argv = command_line st0 ins; envs = runEnv st0; argvJSON = json_array argv; cc = ic_config (ss_cfg st0);
               createdBy = ''RUN '' @ (if in_json ins then argvJSON else join_with '' '' argv);
               st = st0\<lparr>ss_key := chainKey (be_sha env) (ss_key st0)
                 [''run'', argvJSON, join_with [CHR 0x0A] envs, cc_user cc, cc_workingDir cc]\<rparr>
           in if argv = [] then (bd, Inl EmptyCommand)
              else case use_cache opts st bd of
                     Some e \<Rightarrow> (bd, Inr (addLayer e createdBy st))
                   | None \<Rightarrow> run_step env (be_io env (bd_step bd)) argv envs createdBy st bd))"

end
