(* ===== verification/Build_Copy.thy ===== *)
theory Build_Copy
  imports Builder
begin

text \<open>
  COPY and ADD (src/internal/build/copy.go): flags, sources with wildcards, downloads and archives, the
  fingerprint of the sources for the cache key, and the destination. Writing the files into the
  mounted image is the outcome \<open>io_copyInto\<close> of the step; which path a source goes to is \<open>copy_target\<close>.
\<close>

section \<open>Helpers\<close>

definition octalMode :: "nat \<Rightarrow> nat" where
  "octalMode n = n mod 512 + (if n div 2048 mod 2 = 1 then 2 ^ 23 else 0) + (if n div 1024 mod 2 = 1 then 2 ^ 22 else 0) +
     (if n div 512 mod 2 = 1 then 2 ^ 20 else 0)"

definition parse_octal :: "string \<Rightarrow> nat option" where
  "parse_octal s =
     (let n = foldl (\<lambda>n c. 8 * n + digit_val c) 0 s
      in if s \<noteq> [] \<and> list_all (\<lambda>c. is_digit c \<and> digit_val c < 8) s \<and> n < 2 ^ 32 then Some n else None)"

definition isURL :: "string \<Rightarrow> bool" where
  "isURL s \<longleftrightarrow> has_prefix s ''http://'' \<or> has_prefix s ''https://''"

definition copyDestIsDir :: "string \<Rightarrow> nat \<Rightarrow> bool" where
  "copyDestIsDir dest nSources \<longleftrightarrow> nSources > 1 \<or> has_suffix dest ''/'' \<or> dest = ''.'' \<or> has_suffix dest ''/.''"

definition node_isDir :: "node \<Rightarrow> bool" where
  "node_isDir n \<longleftrightarrow> (case n_kind n of KDir _ \<Rightarrow> True | _ \<Rightarrow> False)"

definition isArchive :: "(string \<Rightarrow> stat) \<Rightarrow> string \<Rightarrow> bool" where
  "isArchive st p \<longleftrightarrow>
     (case st p of
        Stat (Node _ _ _ (KFile (Some c))) \<Rightarrow>
          (let head = take 512 c
           in take 2 head = [CHR 0x1F, CHR 0x8B] \<or> take 3 head = ''BZh'' \<or> take 5 (drop 257 head) = ''ustar'')
      | _ \<Rightarrow> False)"

section \<open>Sources\<close>

definition clean_pattern :: "string \<Rightarrow> string" where
  "clean_pattern pattern =
     (let c = trim_prefix (path_clean (CHR ''/'' # pattern)) ''/'' in if c = [] then ''.'' else c)"

definition has_wildcard :: "string \<Rightarrow> bool" where
  "has_wildcard s \<longleftrightarrow> list_ex (\<lambda>c. c \<in> {CHR ''*'', CHR ''?'', CHR ''[''}) s"

definition source_at :: "step_io \<Rightarrow> string \<Rightarrow> string \<Rightarrow> string \<Rightarrow> build_error + copy_source" where
  "source_at io root pattern m =
     (case ScopedJoin (io_srcLst io) root m of
        Inl e \<Rightarrow> Inl (ScopedErr e)
      | Inr full \<Rightarrow> (case io_stat io full of
          StatAbsent \<Rightarrow> Inl (SourceMissing pattern)
        | StatFails e \<Rightarrow> Inl (StatErr e)
        | Stat n \<Rightarrow> Inr \<lparr>cs_abs = full, cs_rel = m, cs_isDir = node_isDir n, cs_url = [], cs_archive = False\<rparr>))"

definition expandSource :: "step_io \<Rightarrow> string \<Rightarrow> string \<Rightarrow> build_error + copy_source list" where
  "expandSource io root pattern =
     (let clean = clean_pattern pattern
      in if has_wildcard clean then
           (case io_glob io clean of
              None \<Rightarrow> Inl (BadPattern pattern)
            | Some [] \<Rightarrow> Inl (NoSources pattern)
            | Some ms \<Rightarrow> map_res (source_at io root pattern) ms)
         else map_res (source_at io root pattern) [clean])"

text \<open>A download is kept under a temporary name; its digest is compared with the one asked for.\<close>

definition download :: "build_env \<Rightarrow> step_io \<Rightarrow> string \<Rightarrow> string \<Rightarrow> build_error + copy_source" where
  "download env io raw checksum =
     (case io_download io raw of
        Inl e \<Rightarrow> Inl (DownloadErr e)
      | Inr (full, content) \<Rightarrow>
          if checksum \<noteq> [] \<and> checksum \<noteq> digest_of (be_sha env) content then Inl (ChecksumMismatch raw)
          else Inr \<lparr>cs_abs = full, cs_rel = raw, cs_isDir = False, cs_url = raw, cs_archive = False\<rparr>)"

definition resolve_source :: "build_env \<Rightarrow> step_io \<Rightarrow> bool \<Rightarrow> string \<Rightarrow> string \<Rightarrow> string \<Rightarrow> build_error + copy_source list" where
  "resolve_source env io isAdd root checksum s =
     (if isAdd \<and> isURL s then bind_res (download env io s checksum) (\<lambda>c. Inr [c])
      else if isURL s then Inl (UrlCopy s)
      else if has_prefix s ''git@'' then Inl (GitSource s)
      else bind_res (expandSource io root s) (\<lambda>ms.
        Inr (map (\<lambda>m. if isAdd \<and> \<not> cs_isDir m \<and> isArchive (io_stat io) (cs_abs m) then m\<lparr>cs_archive := True\<rparr> else m) ms)))"

section \<open>Fingerprint\<close>

fun octal :: "nat \<Rightarrow> string" where
  "octal n = (if n < 8 then [char_of (48 + n)] else octal (n div 8) @ [char_of (48 + n mod 8)])"

declare octal.simps [simp del]

definition bool_text :: "bool \<Rightarrow> string" where
  "bool_text b = (if b then ''true'' else ''false'')"

definition node_head :: "bool \<Rightarrow> string \<Rightarrow> node \<Rightarrow> string" where
  "node_head withOwner rel n =
     rel @ '' '' @ octal (n_mode n) @ '' '' @ itoa (n_size n) @
     (case n_owner n of Some (u, g) \<Rightarrow> if withOwner then '' '' @ itoa u @ '':'' @ itoa g else [] | None \<Rightarrow> [])"

fun walk :: "bool \<Rightarrow> string \<Rightarrow> node \<Rightarrow> build_error + string"
  and walk_list :: "bool \<Rightarrow> string \<Rightarrow> (string \<times> node) list \<Rightarrow> build_error + string" where
  "walk withOwner rel (Node md sz own (KLink t)) = Inr (node_head withOwner rel (Node md sz own (KLink t)) @ '' -> '' @ t @ [CHR 0x0A])"
| "walk withOwner rel (Node md sz own (KFile None)) = Inl (HashErr rel)"
| "walk withOwner rel (Node md sz own (KFile (Some c))) = Inr (node_head withOwner rel (Node md sz own (KFile (Some c))) @ c @ [CHR 0x0A])"
| "walk withOwner rel (Node md sz own KOther) = Inr (node_head withOwner rel (Node md sz own KOther) @ [CHR 0x0A])"
| "walk withOwner rel (Node md sz own (KDir es)) =
     bind_res (walk_list withOwner rel es) (\<lambda>t. Inr (node_head withOwner rel (Node md sz own (KDir es)) @ [CHR 0x0A] @ t))"
| "walk_list withOwner rel [] = Inr []"
| "walk_list withOwner rel ((name, n) # es) =
     bind_res (walk withOwner (if rel = ''.'' then name else rel @ ''/'' @ name) n) (\<lambda>t.
     bind_res (walk_list withOwner rel es) (\<lambda>u. Inr (t @ u)))"

definition source_text :: "step_io \<Rightarrow> bool \<Rightarrow> copy_source \<Rightarrow> build_error + string" where
  "source_text io withOwner s =
     (case io_stat io (cs_abs s) of
        Stat n \<Rightarrow> bind_res (walk withOwner ''.'' n) (\<lambda>t.
          Inr (''src '' @ cs_rel s @ '' '' @ cs_url s @ '' '' @ bool_text (cs_isDir s) @ '' '' @ bool_text (cs_archive s) @ [CHR 0x0A] @ t))
      | _ \<Rightarrow> Inl (HashErr (cs_rel s)))"

definition hashSources :: "build_env \<Rightarrow> step_io \<Rightarrow> copy_source list \<Rightarrow> bool \<Rightarrow> build_error + string" where
  "hashSources env io sources withOwner =
     bind_res (map_res (source_text io withOwner) sources) (\<lambda>ts. Inr (be_sha env (concat ts)))"

section \<open>Destination\<close>

definition copy_dest :: "string \<Rightarrow> string \<Rightarrow> string" where
  "copy_dest wd dest =
     path_clean (if is_abs dest then dest else path_join [if wd = [] then ''/'' else wd, dest])"

text \<open>Where copyInto puts a source: an archive or a directory at the destination itself, a file at or below it.\<close>

definition copy_target :: "(string \<Rightarrow> string) \<Rightarrow> copy_source \<Rightarrow> string \<Rightarrow> bool \<Rightarrow> string" where
  "copy_target urlFileName s dest destDir =
     (if cs_archive s \<or> cs_isDir s then dest
      else if destDir then path_join [dest, if cs_url s \<noteq> [] then urlFileName (cs_url s) else path_base (cs_rel s)]
      else dest)"

section \<open>copy\<close>

record copy_flags =
  cf_from :: string
  cf_chown :: string
  cf_chmod :: string
  cf_checksum :: string

fun copy_flags_of :: "bool \<Rightarrow> string list \<Rightarrow> copy_flags \<Rightarrow> build_error + copy_flags" where
  "copy_flags_of isAdd [] cf = Inr cf"
| "copy_flags_of isAdd (f # fs) cf =
     (case cut_str (trim_prefix f ''--'') ''='' of (name, val, _) \<Rightarrow>
        if name = ''from'' then (if isAdd then Inl AddFrom else copy_flags_of isAdd fs (cf\<lparr>cf_from := val\<rparr>))
        else if name = ''chown'' then copy_flags_of isAdd fs (cf\<lparr>cf_chown := val\<rparr>)
        else if name = ''chmod'' then copy_flags_of isAdd fs (cf\<lparr>cf_chmod := val\<rparr>)
        else if name = ''checksum'' then copy_flags_of isAdd fs (cf\<lparr>cf_checksum := val\<rparr>)
        else if name = ''link'' then copy_flags_of isAdd fs cf
        else Inl (FlagErr f))"

definition lex_res :: "lex_error + 'a \<Rightarrow> build_error + 'a" where
  "lex_res r = (case r of Inl e \<Rightarrow> Inl (LexErr e) | Inr x \<Rightarrow> Inr x)"

definition expand_flags :: "char \<Rightarrow> lookup \<Rightarrow> copy_flags \<Rightarrow> build_error + copy_flags" where
  "expand_flags esc lk cf =
     bind_res (lex_res (Expand (cf_chown cf) esc lk)) (\<lambda>a.
     bind_res (lex_res (Expand (cf_chmod cf) esc lk)) (\<lambda>b.
     bind_res (lex_res (Expand (cf_checksum cf) esc lk)) (\<lambda>c.
       Inr (cf\<lparr>cf_chown := a, cf_chmod := b, cf_checksum := c\<rparr>))))"

definition chmod_of :: "string \<Rightarrow> build_error + nat option" where
  "chmod_of spec =
     (if spec = [] then Inr None
      else case parse_octal spec of
             None \<Rightarrow> Inl (BadChmod spec)
           | Some n \<Rightarrow> if n > 4095 then Inl (BadChmod spec) else Inr (Some (octalMode n)))"

definition chown_of :: "step_io \<Rightarrow> string \<Rightarrow> build_error + user option" where
  "chown_of io spec =
     (if spec = [] then Inr None
      else case ResolveUser (io_lst io) (io_open io) (io_merged io) spec of Inl e \<Rightarrow> Inl (UserErr e) | Inr u \<Rightarrow> Inr (Some u))"

fun copy_all :: "step_io \<Rightarrow> copy_source list \<Rightarrow> string \<Rightarrow> bool \<Rightarrow> copy_opts \<Rightarrow> build_error option" where
  "copy_all io [] dest destDir co = None"
| "copy_all io (s # ss) dest destDir co =
     (case io_copyInto io s dest destDir co of Some e \<Rightarrow> Some (FsErr e) | None \<Rightarrow> copy_all io ss dest destDir co)"

definition dest_exists :: "step_io \<Rightarrow> string \<Rightarrow> bool" where
  "dest_exists io dest =
     (case ScopedJoin (io_lst io) (io_merged io) dest of Inl _ \<Rightarrow> False | Inr p \<Rightarrow> io_isDir io p)"

text \<open>From the resolved sources on: key, cache, copies.\<close>

definition copy_sources ::
  "build_env \<Rightarrow> build_opts \<Rightarrow> step_io \<Rightarrow> string \<Rightarrow> string \<Rightarrow> bool \<Rightarrow> copy_flags \<Rightarrow> nat option \<Rightarrow> copy_source list \<Rightarrow> string \<Rightarrow>
   stage_state \<Rightarrow> build_state \<Rightarrow> build_state \<times> (build_error + stage_state)" where
  "copy_sources env opts io cmd fromKey keepOwn cf chmod sources dest0 st0 bd =
     (let wd = cc_workingDir (ic_config (ss_cfg st0)); destDir = copyDestIsDir dest0 (length sources); dest = copy_dest wd dest0
      in case hashSources env io sources keepOwn of
           Inl e \<Rightarrow> (bd, Inl e)
         | Inr hsum \<Rightarrow>
             (let st = st0\<lparr>ss_key := chainKey (be_sha env) (ss_key st0)
                    [cmd, fromKey, hsum, dest, bool_text destDir, cf_chown cf, cf_chmod cf, wd]\<rparr>;
                  createdBy = to_upper cmd @ '' '' @ take 12 hsum @ '' in '' @ dest
              in case use_cache opts st bd of
                   Some e \<Rightarrow> (bd, Inr (addLayer e createdBy st))
                 | None \<Rightarrow> (case io_prepare io of
                     Some e \<Rightarrow> (bd, Inl (FsErr e))
                   | None \<Rightarrow> (case chown_of io (cf_chown cf) of
                       Inl e \<Rightarrow> (bd, Inl e)
                     | Inr u \<Rightarrow>
                        (case copy_all io sources dest (destDir \<or> dest_exists io dest)
                               \<lparr>co_chown = u, co_keepOwn = keepOwn, co_chmod = chmod\<rparr> of
                           Some e \<Rightarrow> (bd, Inl e)
                         | None \<Rightarrow> finish_step env io createdBy st bd)))))"

section \<open>Sources stay inside their root\<close>

lemma source_at_inside:
  assumes "source_at io root pattern m = Inr s" and "is_abs root"
  shows "prefix (path_elems root) (path_elems (cs_abs s))"
proof -
  from assms(1) have "ScopedJoin (io_srcLst io) root m = Inr (cs_abs s)"
    by (auto simp: source_at_def split: sum.splits stat.splits)
  from ScopedJoin_resolved [OF this assms(2)] obtain es where "path_elems (cs_abs s) = path_elems root @ es" .
  then show ?thesis by simp
qed

text \<open>C36. A source of COPY, or of ADD when it is not a URL, is a path inside the build context or the stage
  it is copied from, whatever pattern was written and whatever symbolic links are there; a URL is
  accepted by ADD only, and its content has the checksum that was asked for.\<close>

theorem copy_sources_inside:
  assumes "resolve_source env io isAdd root checksum s = Inr srcs" and "is_abs root"
  shows "if isURL s then isAdd \<and> (\<exists>c full content. srcs = [c] \<and> cs_url c = s \<and> io_download io s = Inr (full, content) \<and>
      (checksum = [] \<or> checksum = digest_of (be_sha env) content))
    else list_all (\<lambda>c. cs_url c = [] \<and> prefix (path_elems root) (path_elems (cs_abs c))) srcs"
proof (cases "isURL s")
  case True
  then show ?thesis using assms(1)
    by (auto simp: resolve_source_def download_def bind_res_Inr_iff split: if_splits sum.splits)
next
  case False
  with assms(1) obtain ms where ms: "expandSource io root s = Inr ms"
    and srcs: "srcs = map (\<lambda>m. if isAdd \<and> \<not> cs_isDir m \<and> isArchive (io_stat io) (cs_abs m) then m\<lparr>cs_archive := True\<rparr> else m) ms"
    by (auto simp: resolve_source_def bind_res_Inr_iff split: if_splits)
  from ms obtain ps where "map_res (source_at io root s) ps = Inr ms"
    by (auto simp: expandSource_def Let_def simp del: map_res.simps split: if_splits option.splits list.splits)
  then have "\<exists>p. source_at io root s p = Inr c" if "c \<in> set ms" for c using map_res_mem that by fastforce
  then have "cs_url c = [] \<and> prefix (path_elems root) (path_elems (cs_abs c))" if "c \<in> set ms" for c
    using source_at_inside [OF _ assms(2)] that by (fastforce simp: source_at_def split: sum.splits stat.splits)
  then show ?thesis using False by (auto simp: list_all_iff srcs)
qed

definition demo_copy_io :: "step_io \<Rightarrow> step_io" where
  "demo_copy_io io = io\<lparr>io_srcLst := (\<lambda>p. if p = ''/ctx/l'' then Link ''/../../etc'' else Plain),
     io_stat := (\<lambda>_. Stat (Node 420 2 None (KFile (Some ''hi''))))\<rparr>"

theorem copy_sources_inside_witness:
  "\<forall>env io. resolve_source env (demo_copy_io io) False ''/ctx'' [] ''../l/passwd'' =
     Inr [\<lparr>cs_abs = ''/ctx/etc/passwd'', cs_rel = ''l/passwd'', cs_isDir = False, cs_url = [], cs_archive = False\<rparr>] \<and>
     prefix (path_elems ''/ctx'') (path_elems ''/ctx/etc/passwd'')"
proof (intro allI)
  fix env :: build_env and io :: step_io
  let ?l = "\<lambda>p. if p = ''/ctx/l'' then Link ''/../../etc'' else Plain"
  have c: "\<not> isURL ''../l/passwd''" "\<not> has_prefix ''../l/passwd'' ''git@''" "clean_pattern ''../l/passwd'' = ''l/passwd''"
    "\<not> has_wildcard ''l/passwd''" "ScopedJoin ?l ''/ctx'' ''l/passwd'' = Inr ''/ctx/etc/passwd''" by code_simp+
  then have r: "resolve_source env (demo_copy_io io) False ''/ctx'' [] ''../l/passwd'' =
     Inr [\<lparr>cs_abs = ''/ctx/etc/passwd'', cs_rel = ''l/passwd'', cs_isDir = False, cs_url = [], cs_archive = False\<rparr>]"
    by (simp add: resolve_source_def expandSource_def source_at_def demo_copy_io_def node_isDir_def)
  have "is_abs ''/ctx''" by code_simp
  from copy_sources_inside [OF r this] c(1) r
  show "resolve_source env (demo_copy_io io) False ''/ctx'' [] ''../l/passwd'' =
     Inr [\<lparr>cs_abs = ''/ctx/etc/passwd'', cs_rel = ''l/passwd'', cs_isDir = False, cs_url = [], cs_archive = False\<rparr>] \<and>
     prefix (path_elems ''/ctx'') (path_elems ''/ctx/etc/passwd'')" by simp
qed

end
