(* ===== verification/Build_Exec.thy ===== *)
theory Build_Exec
  imports Build_Copy
begin

text \<open>
  Running a build (src/internal/build/builder.go): the base of a stage, every instruction, the stages
  and the commit of the image under its tags.
\<close>

section \<open>ARG\<close>

record arg_def =
  ad_name :: string
  ad_def :: string
  ad_hasDef :: bool

definition arg_of :: "string \<Rightarrow> build_error + arg_def" where
  "arg_of w = (case cut_str w ''='' of (k, v, ok) \<Rightarrow>
     if k = [] then Inl (ArgErr w) else Inr \<lparr>ad_name = k, ad_def = v, ad_hasDef = ok\<rparr>)"

definition argDecl :: "string \<Rightarrow> char \<Rightarrow> lookup \<Rightarrow> build_error + arg_def list" where
  "argDecl raw esc lk =
     bind_res (lex_res (Words raw esc lk)) (\<lambda>ws. if ws = [] then Inl (ArgErr []) else map_res arg_of ws)"

definition meta_def :: "build_opts \<Rightarrow> build_state \<Rightarrow> arg_def \<Rightarrow> build_state" where
  "meta_def opts bd d =
     (case map_of (bo_buildArgs opts) (ad_name d) of
        Some v \<Rightarrow> bd\<lparr>bd_usedArg := ad_name d # bd_usedArg bd, bd_meta := AList.update (ad_name d) v (bd_meta bd)\<rparr>
      | None \<Rightarrow> bd\<lparr>bd_meta := AList.update (ad_name d) (ad_def d) (bd_meta bd)\<rparr>)"

fun metaArgs :: "build_opts \<Rightarrow> char \<Rightarrow> instruction list \<Rightarrow> build_state \<Rightarrow> build_error + build_state" where
  "metaArgs opts esc [] bd = Inr bd"
| "metaArgs opts esc (i # is) bd =
     (case argDecl (in_raw i) esc (map_of (bd_meta bd)) of
        Inl e \<Rightarrow> Inl (AtLine (in_line i) e)
      | Inr ds \<Rightarrow> metaArgs opts esc is (foldl (meta_def opts) bd ds))"

definition stage_arg :: "build_env \<Rightarrow> build_opts \<Rightarrow> stage_state \<times> build_state \<Rightarrow> arg_def \<Rightarrow> stage_state \<times> build_state" where
  "stage_arg env opts s d =
     (case s of (st, bd) \<Rightarrow>
        let n = ad_name d;
            put = (\<lambda>v. st\<lparr>ss_args := AList.update n v (ss_args st), ss_key := chainKey (be_sha env) (ss_key st) [''arg'', n, v]\<rparr>)
        in case map_of (bo_buildArgs opts) n of
             Some v \<Rightarrow> (put v, bd\<lparr>bd_usedArg := n # bd_usedArg bd\<rparr>)
           | None \<Rightarrow> if ad_hasDef d then (put (ad_def d), bd)
                     else (case map_of (bd_meta bd) n of None \<Rightarrow> (st, bd) | Some v \<Rightarrow> (put v, bd)))"

section \<open>Instructions that only change the configuration\<close>

definition emptyStep :: "build_env \<Rightarrow> string \<Rightarrow> string \<Rightarrow> stage_state \<Rightarrow> stage_state" where
  "emptyStep env cmd desc st =
     st\<lparr>ss_key := chainKey (be_sha env) (ss_key st) [cmd, desc],
        ss_cfg := (ss_cfg st)\<lparr>ic_history := ic_history (ss_cfg st) @
          [\<lparr>he_createdBy = to_upper cmd @ '' '' @ desc, he_emptyLayer = True\<rparr>]\<rparr>\<rparr>"

definition kv_res :: "kv_error + 'a \<Rightarrow> build_error + 'a" where
  "kv_res r = (case r of Inl e \<Rightarrow> Inl (KvErr e) | Inr x \<Rightarrow> Inr x)"

definition kv_text :: "(string \<times> string) list \<Rightarrow> string" where
  "kv_text kvs = join_with '' '' (map (\<lambda>(k, v). k @ ''='' @ v) kvs)"

definition set_add :: "'a \<Rightarrow> 'a list \<Rightarrow> 'a list" where
  "set_add x xs = (if x \<in> set xs then xs else xs @ [x])"

definition instruction_words :: "char \<Rightarrow> stage_state \<Rightarrow> instruction \<Rightarrow> build_error + string list" where
  "instruction_words esc st i =
     (if in_json i then Inr (in_args i) else lex_res (Words (in_raw i) esc (lookup_var st)))"

definition health_test :: "string \<Rightarrow> string list" where
  "health_test rest =
     (case (if has_prefix rest ''['' then json_strings rest else None) of
        Some arr \<Rightarrow> ''CMD'' # arr | None \<Rightarrow> [''CMD-SHELL'', rest])"

definition duration_flag :: "build_env \<Rightarrow> instruction \<Rightarrow> string \<Rightarrow> build_error + int" where
  "duration_flag env i name =
     (case Flag i name of
        None \<Rightarrow> Inr 0
      | Some v \<Rightarrow> (case be_parseDuration env v of None \<Rightarrow> Inl (BadDuration name) | Some d \<Rightarrow> Inr d))"

definition retries_flag :: "instruction \<Rightarrow> build_error + int" where
  "retries_flag i =
     (case Flag i ''retries'' of
        None \<Rightarrow> Inr 0
      | Some v \<Rightarrow> (case atoi v of None \<Rightarrow> Inl (BadRetries v) | Some n \<Rightarrow> if n < 0 then Inl (BadRetries v) else Inr n))"

definition parseHealthcheck :: "build_env \<Rightarrow> instruction \<Rightarrow> build_error + health_config_image" where
  "parseHealthcheck env i =
     (let raw = trim_space (in_raw i)
      in if equal_fold raw ''none''
         then Inr \<lparr>hci_test = [''NONE''], hci_interval = 0, hci_timeout = 0, hci_startPeriod = 0, hci_retries = 0\<rparr>
         else (case cut_str raw '' '' of (kw, rest, _) \<Rightarrow>
           if \<not> equal_fold kw ''cmd'' then Inl HealthSyntax
           else bind_res (duration_flag env i ''interval'') (\<lambda>a.
                bind_res (duration_flag env i ''timeout'') (\<lambda>b.
                bind_res (duration_flag env i ''start-period'') (\<lambda>c.
                bind_res (retries_flag i) (\<lambda>n.
                  Inr \<lparr>hci_test = health_test (trim_space rest), hci_interval = a, hci_timeout = b, hci_startPeriod = c,
                       hci_retries = n\<rparr>))))))"

definition set_command :: "string \<Rightarrow> string list \<Rightarrow> stage_state \<Rightarrow> stage_state" where
  "set_command cmd argv st =
     (if cmd = ''cmd'' then (on_cfg (\<lambda>c. c\<lparr>cc_cmd := argv\<rparr>) st)\<lparr>ss_cmdSet := True\<rparr>
      else on_cfg (\<lambda>c. c\<lparr>cc_entrypoint := argv, cc_cmd := (if ss_cmdSet st then cc_cmd c else [])\<rparr>) st)"

definition expose_port :: "string \<Rightarrow> string" where
  "expose_port p = to_lower (if contains p ''/'' then p else p @ ''/tcp'')"

definition config_step :: "build_env \<Rightarrow> char \<Rightarrow> instruction \<Rightarrow> stage_state \<Rightarrow> build_error + stage_state" where
  "config_step env esc i st =
     (let cmd = in_cmd i; lk = lookup_var st
      in if cmd = ''env'' then
           bind_res (kv_res (KeyValues (in_raw i) esc lk True)) (\<lambda>kvs.
             Inr (emptyStep env cmd (kv_text kvs) (foldl (\<lambda>st (k, v). setEnv k v st) st kvs)))
         else if cmd = ''label'' then
           bind_res (kv_res (KeyValues (in_raw i) esc lk True)) (\<lambda>kvs.
             Inr (emptyStep env cmd (kv_text kvs)
               (foldl (\<lambda>st (k, v). on_cfg (\<lambda>c. c\<lparr>cc_labels := AList.update k v (cc_labels c)\<rparr>) st) st kvs)))
         else if cmd = ''user'' then
           bind_res (lex_res (Expand (in_raw i) esc lk)) (\<lambda>u.
             Inr (emptyStep env cmd (trim_space u) (on_cfg (\<lambda>c. c\<lparr>cc_user := trim_space u\<rparr>) st)))
         else if cmd = ''expose'' then
           bind_res (instruction_words esc st i) (\<lambda>ws.
             Inr (emptyStep env cmd (join_with '' '' ws)
               (on_cfg (\<lambda>c. c\<lparr>cc_exposedPorts := foldl (\<lambda>ps p. set_add (expose_port p) ps) (cc_exposedPorts c) ws\<rparr>) st)))
         else if cmd = ''stopsignal'' then
           bind_res (lex_res (Expand (in_raw i) esc lk)) (\<lambda>s.
             Inr (emptyStep env cmd (trim_space s) (on_cfg (\<lambda>c. c\<lparr>cc_stopSignal := trim_space s\<rparr>) st)))
         else if cmd = ''cmd'' \<or> cmd = ''entrypoint'' then
           (let argv = command_line st i in Inr (emptyStep env cmd (json_marshal argv) (set_command cmd argv st)))
         else if cmd = ''shell'' then
           (if \<not> in_json i \<or> in_args i = [] then Inl ShellForm
            else Inr (emptyStep env cmd (json_marshal (in_args i)) (on_cfg (\<lambda>c. c\<lparr>cc_shell := in_args i\<rparr>) st)))
         else if cmd = ''healthcheck'' then
           bind_res (parseHealthcheck env i) (\<lambda>hc.
             Inr (emptyStep env cmd (be_marshalHealth env hc) (on_cfg (\<lambda>c. c\<lparr>cc_healthcheck := Some hc\<rparr>) st)))
         else if cmd = ''onbuild'' then
           Inr (emptyStep env cmd (in_raw i) (on_cfg (\<lambda>c. c\<lparr>cc_onBuild := cc_onBuild c @ [in_raw i]\<rparr>) st))
         else Inl Unsupported)"

section \<open>The base of a stage\<close>

definition load_base :: "build_env \<Rightarrow> string \<Rightarrow> build_state \<Rightarrow> build_state \<times> (build_error + manifest \<times> image_config)" where
  "load_base env ref bd =
     (case loadImageMeta (bd_store bd) ref of
        Inr mc \<Rightarrow> (bd, Inr mc)
      | Inl _ \<Rightarrow>
          (case PullWithProgress (be_pull env) (be_registry env ref) ref (bd_store bd) of
             None \<Rightarrow> (bd, Inl PullNeverReturns)
           | Some (s, Inl e) \<Rightarrow> (bd\<lparr>bd_store := s\<rparr>, Inl (PullErr e))
           | Some (s, Inr _) \<Rightarrow>
               (bd\<lparr>bd_store := s\<rparr>, case loadImageMeta s ref of Inl e \<Rightarrow> Inl (ImgErr e) | Inr mc \<Rightarrow> Inr mc)))"

definition scratch_state :: "build_env \<Rightarrow> stage_state" where
  "scratch_state env =
     \<lparr>ss_name = [], ss_layers = [], ss_cfg = empty_image_config\<lparr>ic_os := ''linux'', ic_architecture := be_arch env\<rparr>, ss_args = [],
      ss_key = chainKey (be_sha env) [] [''scratch''], ss_cmdSet = False\<rparr>"

definition baseState :: "build_env \<Rightarrow> string \<Rightarrow> build_state \<Rightarrow> build_state \<times> (build_error + stage_state)" where
  "baseState env ref bd =
     (if equal_fold ref ''scratch'' then (bd, Inr (scratch_state env))
      else case map_of (bd_byName bd) (to_lower ref) of
             Some prev \<Rightarrow> (bd, Inr (clone prev))
           | None \<Rightarrow>
               (case (case atoi ref of Some n \<Rightarrow> if 0 \<le> n \<and> nat n < length (bd_stages bd) then Some (nat n) else None | None \<Rightarrow> None) of
                  Some n \<Rightarrow> (bd, Inr (clone (bd_stages bd ! n)))
                | None \<Rightarrow>
                    (case load_base env ref bd of
                       (bd1, Inl e) \<Rightarrow> (bd1, Inl e)
                     | (bd1, Inr (m, cfg)) \<Rightarrow>
                         (bd1, Inr (clone \<lparr>ss_name = [], ss_layers = mf_layers m, ss_cfg = cfg, ss_args = [],
                            ss_key = chainKey (be_sha env) [] [''image'', d_digest (mf_config m)], ss_cmdSet = False\<rparr>)))))"

section \<open>COPY and ADD\<close>

definition copy_from :: "build_env \<Rightarrow> step_io \<Rightarrow> char \<Rightarrow> string \<Rightarrow> stage_state \<Rightarrow> build_opts \<Rightarrow> build_state \<Rightarrow>
   build_state \<times> (build_error + string \<times> bool \<times> string)" where
  "copy_from env io esc fromRef st opts bd =
     (if fromRef = [] then (bd, Inr (bo_contextDir opts, False, ''context''))
      else case Expand fromRef esc (lookup_var st) of
             Inl e \<Rightarrow> (bd, Inl (LexErr e))
           | Inr ref \<Rightarrow> (case baseState env ref bd of
               (bd1, Inl e) \<Rightarrow> (bd1, Inl e)
             | (bd1, Inr from) \<Rightarrow> (case io_fromPrepare io of
                 Some e \<Rightarrow> (bd1, Inl (FsErr e))
               | None \<Rightarrow> (bd1, Inr (io_fromRoot io, True, ''from:'' @ ss_key from)))))"

definition copy_words :: "char \<Rightarrow> stage_state \<Rightarrow> instruction \<Rightarrow> build_error + (string list \<times> string) \<times> copy_flags" where
  "copy_words esc st i =
     bind_res (copy_flags_of (in_cmd i = ''add'') (in_flags i) \<lparr>cf_from = [], cf_chown = [], cf_chmod = [], cf_checksum = []\<rparr>) (\<lambda>cf.
     bind_res (instruction_words esc st i) (\<lambda>ws.
       if length ws < 2 then Inl TooFewWords
       else bind_res (expand_flags esc (lookup_var st) cf) (\<lambda>cf'. Inr ((butlast ws, last ws), cf'))))"

definition copy_instruction ::
  "build_env \<Rightarrow> build_opts \<Rightarrow> char \<Rightarrow> instruction \<Rightarrow> stage_state \<Rightarrow> build_state \<Rightarrow> build_state \<times> (build_error + stage_state)" where
  "copy_instruction env opts esc i st bd =
     (let io = be_io env (bd_step bd); isAdd = (in_cmd i = ''add'')
      in case copy_words esc st i of
           Inl e \<Rightarrow> (bd, Inl e)
         | Inr ((srcs, dest), cf) \<Rightarrow> (case copy_from env io esc (cf_from cf) st opts bd of
             (bd1, Inl e) \<Rightarrow> (bd1, Inl e)
           | (bd1, Inr (root, keepOwn, fromKey)) \<Rightarrow>
               (case bind_res (chmod_of (cf_chmod cf)) (\<lambda>chmod.
                     bind_res (map_res (resolve_source env io isAdd root (cf_checksum cf)) srcs) (\<lambda>sss.
                       if cf_checksum cf \<noteq> [] \<and> \<not> (isAdd \<and> length srcs = 1 \<and> isURL (hd srcs)) then Inl ChecksumUse
                       else Inr (chmod, concat sss))) of
                  Inl e \<Rightarrow> (bd1, Inl e)
                | Inr (chmod, sources) \<Rightarrow> copy_sources env opts io (in_cmd i) fromKey keepOwn cf chmod sources dest st bd1)))"

section \<open>exec\<close>

definition exec_arg :: "build_env \<Rightarrow> build_opts \<Rightarrow> char \<Rightarrow> instruction \<Rightarrow> stage_state \<Rightarrow> build_state \<Rightarrow>
   build_state \<times> (build_error + stage_state)" where
  "exec_arg env opts esc i st bd =
     (case argDecl (in_raw i) esc (lookup_var st) of
        Inl e \<Rightarrow> (bd, Inl e)
      | Inr ds \<Rightarrow> (case foldl (stage_arg env opts) (st, bd) ds of (st', bd') \<Rightarrow> (bd', Inr st')))"

definition exec_workdir :: "build_env \<Rightarrow> build_opts \<Rightarrow> char \<Rightarrow> instruction \<Rightarrow> stage_state \<Rightarrow> build_state \<Rightarrow>
   build_state \<times> (build_error + stage_state)" where
  "exec_workdir env opts esc i st bd =
     (case Expand (in_raw i) esc (lookup_var st) of
        Inl e \<Rightarrow> (bd, Inl (LexErr e))
      | Inr w \<Rightarrow>
          (let w1 = (if is_abs w then w else path_join [''/'', cc_workingDir (ic_config (ss_cfg st)), w])
           in ensureWorkdir env opts (on_cfg (\<lambda>c. c\<lparr>cc_workingDir := path_clean w1\<rparr>) st) bd))"

definition volume_dir :: "string \<Rightarrow> string \<Rightarrow> string" where
  "volume_dir wd v = path_clean (if is_abs v then v else path_join [if wd = [] then ''/'' else wd, v])"

definition exec_volume :: "build_env \<Rightarrow> build_opts \<Rightarrow> char \<Rightarrow> instruction \<Rightarrow> stage_state \<Rightarrow> build_state \<Rightarrow>
   build_state \<times> (build_error + stage_state)" where
  "exec_volume env opts esc i st bd =
     (case instruction_words esc st i of
        Inl e \<Rightarrow> (bd, Inl e)
      | Inr ws \<Rightarrow>
          (let dirs = map (volume_dir (cc_workingDir (ic_config (ss_cfg st)))) ws
           in commitMkdirs env opts ''volume'' (''VOLUME '' @ join_with '' '' dirs) dirs
                (on_cfg (\<lambda>c. c\<lparr>cc_volumes := foldl (\<lambda>vs v. set_add v vs) (cc_volumes c) dirs\<rparr>) st) bd))"

definition exec :: "build_env \<Rightarrow> build_opts \<Rightarrow> char \<Rightarrow> instruction \<Rightarrow> stage_state \<Rightarrow> build_state \<Rightarrow>
   build_state \<times> (build_error + stage_state)" where
  "exec env opts esc i st bd =
     (if in_cmd i = ''arg'' then exec_arg env opts esc i st bd
      else if in_cmd i = ''workdir'' then exec_workdir env opts esc i st bd
      else if in_cmd i = ''volume'' then exec_volume env opts esc i st bd
      else if in_cmd i = ''run'' then run_instruction env opts i st bd
      else if in_cmd i = ''copy'' \<or> in_cmd i = ''add'' then copy_instruction env opts esc i st bd
      else (bd, config_step env esc i st))"

definition printStep :: "build_state \<Rightarrow> build_state" where
  "printStep bd = bd\<lparr>bd_step := bd_step bd + 1\<rparr>"

fun exec_all :: "build_env \<Rightarrow> build_opts \<Rightarrow> char \<Rightarrow> instruction list \<Rightarrow> stage_state \<Rightarrow> build_state \<Rightarrow>
   build_state \<times> (build_error + stage_state)" where
  "exec_all env opts esc [] st bd = (bd, Inr st)"
| "exec_all env opts esc (i # is) st bd =
     (case exec env opts esc i st (printStep bd) of
        (bd1, Inl e) \<Rightarrow> (bd1, Inl (AtLine (in_line i) e))
      | (bd1, Inr st1) \<Rightarrow> exec_all env opts esc is st1 bd1)"

definition platform_ok :: "build_env \<Rightarrow> char \<Rightarrow> instruction \<Rightarrow> lookup \<Rightarrow> build_error option" where
  "platform_ok env esc i lk =
     (case Flag i ''platform'' of
        None \<Rightarrow> None
      | Some v \<Rightarrow> (case Expand v esc lk of
          Inl e \<Rightarrow> Some (LexErr e)
        | Inr p \<Rightarrow> if p \<noteq> [] \<and> p \<noteq> ''linux/'' @ be_arch env \<and> p \<noteq> ''$BUILDPLATFORM'' then Some (PlatformErr p) else None))"

definition runStage :: "build_env \<Rightarrow> build_opts \<Rightarrow> char \<Rightarrow> stage \<Rightarrow> build_state \<Rightarrow> build_state \<times> (build_error + stage_state)" where
  "runStage env opts esc s bd0 =
     (let bd = printStep bd0; lk = map_of (bd_meta bd)
      in case platform_ok env esc (sg_from s) lk of
           Some e \<Rightarrow> (bd, Inl e)
         | None \<Rightarrow> (case Expand (hd (Nyx_Prelude.fields (in_raw (sg_from s)))) esc lk of
             Inl e \<Rightarrow> (bd, Inl (AtLine (in_line (sg_from s)) (LexErr e)))
           | Inr ref \<Rightarrow> (case baseState env ref bd of
               (bd1, Inl e) \<Rightarrow> (bd1, Inl (AtLine (in_line (sg_from s)) e))
             | (bd1, Inr st) \<Rightarrow> exec_all env opts esc (sg_instructions s) (st\<lparr>ss_name := sg_name s\<rparr>) bd1)))"

fun run_stages :: "build_env \<Rightarrow> build_opts \<Rightarrow> char \<Rightarrow> stage list \<Rightarrow> build_state \<Rightarrow> build_state \<times> build_error option" where
  "run_stages env opts esc [] bd = (bd, None)"
| "run_stages env opts esc (s # ss) bd =
     (case runStage env opts esc s bd of
        (bd1, Inl e) \<Rightarrow> (bd1, Some e)
      | (bd1, Inr st) \<Rightarrow> run_stages env opts esc ss
          (bd1\<lparr>bd_stages := bd_stages bd1 @ [st],
             bd_byName := (if ss_name st \<noteq> [] then AList.update (ss_name st) st (bd_byName bd1) else bd_byName bd1)\<rparr>))"

section \<open>Commit\<close>

definition MediaTypeImageManifest :: string where
  "MediaTypeImageManifest = ''application/vnd.oci.image.manifest.v1+json''"

definition MediaTypeImageConfig :: string where
  "MediaTypeImageConfig = ''application/vnd.oci.image.config.v1+json''"

definition final_config :: "build_env \<Rightarrow> stage_state \<Rightarrow> image_config" where
  "final_config env st =
     (let cfg = ss_cfg st
      in cfg\<lparr>ic_os := (if ic_os cfg = [] then ''linux'' else ic_os cfg),
             ic_architecture := (if ic_architecture cfg = [] then be_arch env else ic_architecture cfg)\<rparr>)"

definition final_layer :: "descriptor \<Rightarrow> descriptor" where
  "final_layer d =
     (if d_mediaType d = MediaTypeDockerLayerGzip \<or> d_mediaType d = [] then d\<lparr>d_mediaType := MediaTypeImageLayerGzip\<rparr> else d)"

definition short_id :: "string \<Rightarrow> string" where
  "short_id imageID = take 12 (trim_prefix imageID ''sha256:'')"

fun save_tags :: "build_env \<Rightarrow> string list \<Rightarrow> manifest \<Rightarrow> image_config \<Rightarrow> store \<Rightarrow> store \<times> image_error option" where
  "save_tags env [] m cfg s = (s, None)"
| "save_tags env (t # ts) m cfg s =
     (case SaveImage (be_write env) t m cfg s of (s1, Some e) \<Rightarrow> (s1, Some e) | (s1, None) \<Rightarrow> save_tags env ts m cfg s1)"

definition commitImage :: "build_env \<Rightarrow> build_opts \<Rightarrow> stage_state \<Rightarrow> build_state \<Rightarrow> build_state \<times> (build_error + string \<times> string list)" where
  "commitImage env opts st bd =
     (let cfg = final_config env st
      in case be_marshalConfig env cfg of
           Inl e \<Rightarrow> (bd, Inl (MarshalErr e))
         | Inr data \<Rightarrow>
             (let imageID = digest_of (be_sha env) data
              in case PutBlob (be_sha env) (be_write env) data (bd_store bd) of
                   (s, Inl e) \<Rightarrow> (bd\<lparr>bd_store := s\<rparr>, Inl (ImgErr e))
                 | (s, Inr _) \<Rightarrow>
                     (let m = \<lparr>mf_mediaType = MediaTypeImageManifest,
                            mf_config = \<lparr>d_mediaType = MediaTypeImageConfig, d_digest = imageID, d_size = int (length data)\<rparr>,
                            mf_layers = map final_layer (ss_layers st)\<rparr>;
                          tags = (if bo_tags opts = [] then [''nyx-build:'' @ short_id imageID] else bo_tags opts)
                      in case save_tags env tags m cfg s of
                           (s1, Some e) \<Rightarrow> (bd\<lparr>bd_store := s1\<rparr>, Inl (ImgErr e))
                         | (s1, None) \<Rightarrow> (bd\<lparr>bd_store := s1\<rparr>, Inr (imageID, tags)))))"

definition target_stages :: "build_opts \<Rightarrow> stage list \<Rightarrow> build_error + stage list" where
  "target_stages opts ss =
     (if bo_target opts = [] then Inr ss
      else if list_ex (\<lambda>s. sg_name s = to_lower (bo_target opts)) ss
      then (let before = takeWhile (\<lambda>s. sg_name s \<noteq> to_lower (bo_target opts)) ss in Inr (take (length before + 1) ss))
      else Inl (TargetErr (bo_target opts)))"

definition read_dockerfile :: "build_env \<Rightarrow> build_opts \<Rightarrow> build_error + dockerfile" where
  "read_dockerfile env opts =
     (let name = (if bo_dockerfile opts = [] then ''Dockerfile'' else bo_dockerfile opts)
      in case ScopedJoin (be_ctxLst env) (bo_contextDir opts) name of
           Inl e \<Rightarrow> Inl (ScopedErr e)
         | Inr p \<Rightarrow> (case be_openFile env p of
             None \<Rightarrow> Inl (OpenErr p)
           | Some text \<Rightarrow> (case Parse_dockerfile text of Inl e \<Rightarrow> Inl (DfErr e) | Inr df \<Rightarrow> Inr df)))"

definition start_state :: "store \<Rightarrow> (string, cache_entry) gomap \<Rightarrow> build_state" where
  "start_state s c =
     \<lparr>bd_store = s, bd_cache = c, bd_meta = [], bd_stages = [], bd_byName = [], bd_usedArg = [], bd_step = 0\<rparr>"

definition Build :: "build_env \<Rightarrow> build_opts \<Rightarrow> store \<Rightarrow> (string, cache_entry) gomap \<Rightarrow> build_state \<times> (build_error + string \<times> string list)" where
  "Build env opts s c =
     (let bd = start_state s c
      in case bind_res (read_dockerfile env opts) (\<lambda>df.
              bind_res (metaArgs opts (df_escape df) (df_metaArgs df) bd) (\<lambda>bd1.
              bind_res (target_stages opts (df_stages df)) (\<lambda>ss. Inr (df_escape df, ss, bd1)))) of
           Inl e \<Rightarrow> (bd, Inl e)
         | Inr (esc, ss, bd1) \<Rightarrow> (case run_stages env opts esc ss bd1 of
             (bd2, Some e) \<Rightarrow> (bd2, Inl e)
           | (bd2, None) \<Rightarrow> commitImage env opts (last (bd_stages bd2)) bd2))"

end
