(* ===== verification/Build_Props.thy ===== *)
theory Build_Props
  imports Build_Exec
begin

text \<open>
  What a build guarantees: a stage extends the image it starts from by layers, diff ids and history that
  match, the cache replays a step without running it, RUN is confined, and the image that is committed
  is complete under every tag.
\<close>

section \<open>A stage extends its base\<close>

definition matching :: "descriptor list \<Rightarrow> string list \<Rightarrow> history_entry list \<Rightarrow> bool" where
  "matching ls ds hs \<longleftrightarrow> length ls = length ds \<and> length (filter (\<lambda>h. \<not> he_emptyLayer h) hs) = length ls"

definition grows :: "stage_state \<Rightarrow> stage_state \<Rightarrow> bool" where
  "grows st st' \<longleftrightarrow> (\<exists>ls ds hs. ss_layers st' = ss_layers st @ ls \<and> ic_diffIDs (ss_cfg st') = ic_diffIDs (ss_cfg st) @ ds \<and>
     ic_history (ss_cfg st') = ic_history (ss_cfg st) @ hs \<and> matching ls ds hs)"

definition same_image :: "stage_state \<Rightarrow> stage_state \<Rightarrow> bool" where
  "same_image st st' \<longleftrightarrow> ss_layers st' = ss_layers st \<and> ic_diffIDs (ss_cfg st') = ic_diffIDs (ss_cfg st) \<and>
     ic_history (ss_cfg st') = ic_history (ss_cfg st)"

lemma grows_refl [simp]: "grows st st"
  by (simp add: grows_def matching_def)

lemma grows_trans: "grows st st1 \<Longrightarrow> grows st1 st2 \<Longrightarrow> grows st st2"
  unfolding grows_def matching_def
proof (elim exE conjE)
  fix ls ds hs ls' ds' hs'
  assume "ss_layers st1 = ss_layers st @ ls" "ic_diffIDs (ss_cfg st1) = ic_diffIDs (ss_cfg st) @ ds"
    "ic_history (ss_cfg st1) = ic_history (ss_cfg st) @ hs" "length ls = length ds"
    "length (filter (\<lambda>h. \<not> he_emptyLayer h) hs) = length ls"
    "ss_layers st2 = ss_layers st1 @ ls'" "ic_diffIDs (ss_cfg st2) = ic_diffIDs (ss_cfg st1) @ ds'"
    "ic_history (ss_cfg st2) = ic_history (ss_cfg st1) @ hs'" "length ls' = length ds'"
    "length (filter (\<lambda>h. \<not> he_emptyLayer h) hs') = length ls'"
  then show "\<exists>ls ds hs. ss_layers st2 = ss_layers st @ ls \<and> ic_diffIDs (ss_cfg st2) = ic_diffIDs (ss_cfg st) @ ds \<and>
      ic_history (ss_cfg st2) = ic_history (ss_cfg st) @ hs \<and> length ls = length ds \<and>
      length (filter (\<lambda>h. \<not> he_emptyLayer h) hs) = length ls"
    by (intro exI [of _ "ls @ ls'"] exI [of _ "ds @ ds'"] exI [of _ "hs @ hs'"]) simp
qed

lemma same_grows: "same_image st st1 \<Longrightarrow> grows st1 st2 \<Longrightarrow> grows st st2"
  by (simp add: same_image_def grows_def)

lemma grows_addLayer [simp]: "grows st (addLayer e c st)"
proof (cases "ce_layer e")
  case None
  then show ?thesis by (auto simp: addLayer_def Let_def grows_def matching_def)
next
  case (Some d)
  then show ?thesis unfolding grows_def matching_def
    by (intro exI [of _ "[d]"] exI [of _ "[ce_diffID e]"] exI [of _ "[\<lparr>he_createdBy = c, he_emptyLayer = False\<rparr>]"])
      (simp add: addLayer_def Let_def)
qed

lemma grows_emptyStep [simp]: "grows st (emptyStep env cmd desc st)"
  unfolding grows_def matching_def
  by (intro exI [of _ "[]"] exI [of _ "[\<lparr>he_createdBy = to_upper cmd @ '' '' @ desc, he_emptyLayer = True\<rparr>]"])
    (simp add: emptyStep_def)

lemma same_on_cfg [simp]:
  "same_image st (on_cfg f st)" "same_image st (st\<lparr>ss_key := k\<rparr>)" "same_image st (st\<lparr>ss_name := n\<rparr>)" "same_image st st"
  "same_image st (st\<lparr>ss_args := a, ss_key := k\<rparr>)" "same_image st (set_command cmd argv st)" "same_image st (setEnv k v st)"
  by (simp_all add: same_image_def on_cfg_def set_command_def setEnv_def)

lemma same_trans: "same_image st st1 \<Longrightarrow> same_image st1 st2 \<Longrightarrow> same_image st st2"
  by (simp add: same_image_def)

lemma same_foldl: "(\<And>st x. same_image st (f st x)) \<Longrightarrow> same_image st (foldl f st xs)"
  by (induction xs arbitrary: st) (auto intro: same_trans)

lemma finish_step_grows: "finish_step env io c st bd = (bd', Inr st') \<Longrightarrow> grows st st'"
  by (auto simp: finish_step_def split: option.splits prod.splits sum.splits)

lemma commitMkdirs_grows:
  assumes "commitMkdirs env opts k c dirs st bd = (bd', Inr st')"
  shows "grows st st'"
proof -
  let ?st = "st\<lparr>ss_key := chainKey (be_sha env) (ss_key st) [k, join_with [CHR 0x0A] dirs]\<rparr>"
  from assms have "grows ?st st'"
    by (auto simp: commitMkdirs_def Let_def dest: finish_step_grows split: option.splits if_splits)
  then show ?thesis by (rule same_grows [rotated]) simp
qed

lemma run_step_grows: "run_step env io argv envs c st bd = (bd', Inr st') \<Longrightarrow> grows st st'"
  by (auto simp: run_step_def Let_def dest: finish_step_grows split: option.splits sum.splits)

lemma run_instruction_grows:
  assumes "run_instruction env opts i st bd = (bd', Inr st')"
  shows "grows st st'"
proof -
  let ?cc = "ic_config (ss_cfg st)"
  let ?st = "st\<lparr>ss_key := chainKey (be_sha env) (ss_key st)
    [''run'', json_array (command_line st i), join_with [CHR 0x0A] (runEnv st), cc_user ?cc, cc_workingDir ?cc]\<rparr>"
  from assms have "grows ?st st'"
    by (auto simp: run_instruction_def Let_def dest: run_step_grows split: option.splits if_splits)
  then show ?thesis by (rule same_grows [rotated]) simp
qed

lemma copy_sources_grows:
  assumes "copy_sources env opts io cmd fk own cf chmod srcs dest st bd = (bd', Inr st')"
  shows "grows st st'"
proof -
  from assms obtain k where "grows (st\<lparr>ss_key := k\<rparr>) st'"
    unfolding copy_sources_def Let_def
    by (auto dest!: finish_step_grows simp: split: option.splits sum.splits) (metis grows_addLayer)+
  then show ?thesis by (rule same_grows [rotated]) simp
qed

lemma copy_instruction_grows: "copy_instruction env opts esc i st bd = (bd', Inr st') \<Longrightarrow> grows st st'"
  unfolding copy_instruction_def Let_def by (auto dest: copy_sources_grows split: sum.splits prod.splits)

lemma stage_arg_same: "same_image st (fst (stage_arg env opts (st, bd) d))"
  by (auto simp: stage_arg_def Let_def split: option.splits)

lemma foldl_stage_arg: "foldl (stage_arg env opts) (st, bd) ds = (st', bd') \<Longrightarrow> same_image st st'"
proof (induction ds arbitrary: st bd)
  case (Cons d ds)
  obtain st1 bd1 where s: "stage_arg env opts (st, bd) d = (st1, bd1)" by fastforce
  with Cons show ?case using stage_arg_same [of st env opts bd d] by (auto intro: same_trans)
qed simp

lemma config_step_grows: "config_step env esc i st = Inr st' \<Longrightarrow> grows st st'"
  by (auto simp: config_step_def Let_def bind_res_Inr_iff split: if_splits
      intro!: same_grows [OF _ grows_emptyStep] same_foldl split: prod.splits)

lemma grows_on_cfgD: "grows (on_cfg f st) st' \<Longrightarrow> grows st st'"
  by (rule same_grows) simp_all

lemma same_grows_refl: "same_image st st' \<Longrightarrow> grows st st'"
  by (rule same_grows [OF _ grows_refl])

lemma exec_grows: "exec env opts esc i st bd = (bd', Inr st') \<Longrightarrow> grows st st'"
  unfolding exec_def exec_arg_def exec_workdir_def exec_volume_def ensureWorkdir_def Let_def
  by (auto dest!: run_instruction_grows copy_instruction_grows config_step_grows foldl_stage_arg commitMkdirs_grows
      grows_on_cfgD intro: same_grows_refl split: if_splits sum.splits prod.splits)

lemma exec_all_grows: "exec_all env opts esc is st bd = (bd', Inr st') \<Longrightarrow> grows st st'"
  by (induction "is" arbitrary: st bd) (auto dest!: exec_grows intro: grows_trans split: prod.splits sum.splits)


definition demo_io :: step_io where
  "demo_io =
     \<lparr>io_id = ''x'', io_prepare = None, io_merged = ''/m'', io_lst = (\<lambda>_. Plain), io_open = (\<lambda>_. None), io_notDir = (\<lambda>_. False),
      io_mkdirAll = (\<lambda>_. None), io_resolv = True, io_generate = (\<lambda>_. None), io_run = (\<lambda>_. None), io_fromPrepare = None,
      io_fromRoot = ''/f'', io_srcLst = (\<lambda>_. Plain), io_stat = (\<lambda>_. Stat (Node 420 2 None (KFile (Some ''hi'')))),
      io_glob = (\<lambda>_. None), io_download = (\<lambda>_. Inl []), io_isDir = (\<lambda>_. True), io_copyInto = (\<lambda>_ _ _ _. None),
      io_unmount = None, io_upper = Upper ''hello'' ''sha256:d'', io_cachePut = True\<rparr>"

definition demo_build_env :: build_env where
  "demo_build_env =
     \<lparr>be_sha = demo_sha, be_arch = ''amd64'', be_rootless = True, be_ctxLst = (\<lambda>_. Plain),
      be_openFile = (\<lambda>_. Some (join_with [CHR 0x0A] [''from scratch'', ''run a'', ''copy b c''])),
      be_pull = demo_env, be_registry = (\<lambda>_. demo_registry), be_write = (\<lambda>_. None), be_tempDir = ''/s/tmp'', be_buildDir = ''/b'',
      be_parseDuration = (\<lambda>_. None), be_marshalHealth = (\<lambda>_. []), be_marshalConfig = (\<lambda>_. Inr ''{}''), be_io = (\<lambda>_. demo_io)\<rparr>"

definition demo_build_opts :: build_opts where
  "demo_build_opts =
     \<lparr>bo_contextDir = ''/c'', bo_dockerfile = [], bo_tags = [''app:1''], bo_buildArgs = [], bo_target = [], bo_noCache = False\<rparr>"

definition demo_instruction :: "string \<Rightarrow> string \<Rightarrow> instruction" where
  "demo_instruction cmd raw =
     \<lparr>in_cmd = cmd, in_flags = [], in_args = [], in_raw = raw, in_json = False, in_line = 1, in_original = raw\<rparr>"

definition demo_stage :: stage where
  "demo_stage =
     \<lparr>sg_index = 0, sg_name = [], sg_from = demo_instruction ''from'' ''scratch'',
      sg_instructions = [demo_instruction ''run'' ''a'', demo_instruction ''copy'' ''b c'']\<rparr>"

definition demo_staged :: "build_state \<times> (build_error + stage_state)" where
  "demo_staged = runStage demo_build_env demo_build_opts backslash demo_stage (start_state demo_store0 [])"


section \<open>The cache\<close>

lemma AdoptBlob_has: "AdoptBlob wr src d st = (st', None) \<Longrightarrow> blob_path st' d = blob_path st d \<and>
    (src \<noteq> blob_path st d \<longrightarrow> HasBlob st' d)"
  by (auto simp: AdoptBlob_def Let_def HasBlob_def split: if_splits option.splits)

text \<open>What a step that succeeded leaves in the cache.\<close>

definition cached :: "build_state \<Rightarrow> string \<Rightarrow> cache_entry \<Rightarrow> bool" where
  "cached bd key e \<longleftrightarrow> map_of (bd_cache bd) key = Some e \<and>
     (case ce_layer e of None \<Rightarrow> True | Some d \<Rightarrow> HasBlob (bd_store bd) (d_digest d))"

lemma cached_get: "cached bd key e \<Longrightarrow> cache_get bd key = Some e"
  by (auto simp: cached_def cache_get_def split: option.splits)

lemma get_cached: "cache_get bd key = Some e \<Longrightarrow> cached bd key e"
  by (auto simp: cached_def cache_get_def split: option.splits if_splits)

definition temp_apart :: "build_env \<Rightarrow> step_io \<Rightarrow> build_state \<Rightarrow> bool" where
  "temp_apart env io bd \<longleftrightarrow> (case io_upper io of
     Upper bytes _ \<Rightarrow> path_join [be_tempDir env, ''layer-'' @ io_id io] \<noteq> blob_path (bd_store bd) (digest_of (be_sha env) bytes)
   | _ \<Rightarrow> True)"

lemma finish_step_cached:
  assumes "finish_step env io c st bd = (bd', Inr st')" and "io_cachePut io" and "temp_apart env io bd"
  shows "\<exists>e. cached bd' (ss_key st) e \<and> st' = addLayer e c st"
proof -
  from assms(1) obtain bd1 e where e: "commitLayer env io bd = (bd1, Inr e)" "st' = addLayer e c st"
    "bd' = cache_put True (ss_key st) e bd1"
    using assms(2) by (auto simp: finish_step_def split: option.splits prod.splits sum.splits)
  from e(1) assms(3) have "case ce_layer e of None \<Rightarrow> True | Some d \<Rightarrow> HasBlob (bd_store bd1) (d_digest d)"
    by (auto simp: commitLayer_def temp_apart_def Let_def dest!: AdoptBlob_has split: upper.splits prod.splits option.splits)
  with e show ?thesis by (cases "ce_layer e") (auto simp: cached_def cache_put_def update_conv')
qed

text \<open>C17. A RUN step that succeeded is replayed from the cache: doing it again, in whatever environment and
  without running anything, gives the same image and changes nothing.\<close>

theorem run_replayed:
  assumes "run_instruction env opts i st bd = (bd1, Inr st1)" and "io_cachePut (be_io env (bd_step bd))"
    and "temp_apart env (be_io env (bd_step bd)) bd"
    and "be_sha env' = be_sha env" and "\<not> bo_noCache opts'" and "bd_cache bd2 = bd_cache bd1" and "bd_store bd2 = bd_store bd1"
  shows "run_instruction env' opts' i st bd2 = (bd2, Inr st1)"
proof -
  let ?argv = "command_line st i" and ?cc = "ic_config (ss_cfg st)"
  define c where "c = ''RUN '' @ (if in_json i then json_array ?argv else join_with '' '' ?argv)"
  define st0 where "st0 = st\<lparr>ss_key := chainKey (be_sha env) (ss_key st)
    [''run'', json_array ?argv, join_with [CHR 0x0A] (runEnv st), cc_user ?cc, cc_workingDir ?cc]\<rparr>"
  have f: "run_flags (in_flags i) = None" and a: "?argv \<noteq> []"
    using assms(1) by (auto simp: run_instruction_def Let_def split: option.splits if_splits)
  have "(\<exists>e. use_cache opts st0 bd = Some e \<and> bd1 = bd \<and> st1 = addLayer e c st0) \<or>
    run_step env (be_io env (bd_step bd)) ?argv (runEnv st) c st0 bd = (bd1, Inr st1)"
    using assms(1) f a by (auto simp: run_instruction_def Let_def c_def st0_def split: option.splits)
  moreover have "\<exists>e. cached bd1 (ss_key st0) e \<and> st1 = addLayer e c st0"
    if "run_step env (be_io env (bd_step bd)) ?argv (runEnv st) c st0 bd = (bd1, Inr st1)"
    using that finish_step_cached [OF _ assms(2,3)] by (auto simp: run_step_def Let_def split: option.splits sum.splits)
  ultimately obtain e where e: "cached bd1 (ss_key st0) e" "st1 = addLayer e c st0"
    by (auto simp: use_cache_def split: if_splits dest: get_cached)
  then have "cached bd2 (ss_key st0) e" using assms(6,7) by (simp add: cached_def split: option.splits)
  then have "use_cache opts' st0 bd2 = Some e" using assms(5) by (simp add: use_cache_def cached_get)
  then show ?thesis using f a e(2) assms(4)
    by (simp add: run_instruction_def Let_def c_def st0_def)
qed

definition demo_ran :: "build_state \<times> (build_error + stage_state)" where
  "demo_ran = run_instruction demo_build_env demo_build_opts (demo_instruction ''run'' ''a'') (scratch_state demo_build_env) (start_state demo_store0 [])"

text \<open>The second time every outside operation would fail.\<close>

theorem run_replayed_witness:
  "\<exists>bd1 st1. demo_ran = (bd1, Inr st1) \<and>
     run_instruction (demo_build_env\<lparr>be_io := (\<lambda>_. demo_io\<lparr>io_prepare := Some ''no''\<rparr>)\<rparr>) demo_build_opts (demo_instruction ''run'' ''a'')
       (scratch_state demo_build_env) bd1 = (bd1, Inr st1)"
proof -
  have e: "(case snd demo_ran of Inr st \<Rightarrow> length (ss_layers st) = 1 | Inl _ \<Rightarrow> False)" by code_simp
  then obtain bd1 st1 where s: "demo_ran = (bd1, Inr st1)" by (metis (no_types, lifting) prod.collapse sum.case(1) sumE)
  have "io_cachePut (be_io demo_build_env 0)" "temp_apart demo_build_env (be_io demo_build_env 0) (start_state demo_store0 [])"
    "\<not> bo_noCache demo_build_opts" by code_simp+
  moreover have "bd_step (start_state demo_store0 []) = 0" by (simp add: start_state_def)
  ultimately have "run_instruction (demo_build_env\<lparr>be_io := (\<lambda>_. demo_io\<lparr>io_prepare := Some ''no''\<rparr>)\<rparr>) demo_build_opts
      (demo_instruction ''run'' ''a'') (scratch_state demo_build_env) bd1 = (bd1, Inr st1)"
    by (intro run_replayed [OF s [unfolded demo_ran_def]]) simp_all
  with s show ?thesis by blast
qed

section \<open>RUN is confined\<close>

text \<open>The sandbox of a RUN step: no capability beyond the minimum, a seccomp filter, masked and
  read-only kernel paths, no new privileges, and no mount from the host but the resolver configuration.\<close>

theorem run_confined:
  assumes "resolveSeccomp goarch rd dec (run_options env io argv envs cwd u) = Inr sec"
  shows "let s = buildSpec (run_options env io argv envs cwd u) sec in
    l_seccomp (s_linux s) \<noteq> None \<and> l_maskedPaths (s_linux s) = maskedPaths \<and> l_readonlyPaths (s_linux s) = readonlyPaths \<and>
    p_noNewPrivileges (s_process s) \<and> p_user (s_process s) = u \<and> p_args (s_process s) = argv \<and>
    (\<exists>C. p_capabilities (s_process s) = Some C \<and> set (c_permitted C) \<subseteq> set minimalCapNames \<and> c_ambient C = []) \<and>
    s_mounts s = resolvThenDefault (if io_resolv io then ''/etc/resolv.conf'' else []) (be_rootless env)"
proof -
  have "sec \<noteq> None" using assms
    by (auto simp: resolveSeccomp_def run_options_def Let_def trim_space_def trim_by_def trim_right_def trim_left_def to_lower_def split: if_splits)
  moreover have "set (c_permitted (mergeCapabilities minimalCapNames [] [])) \<subseteq> set minimalCapNames"
    by (auto simp: mergeCapabilities_shape mergeCapabilities_sets)
  ultimately show ?thesis
    by (auto simp: buildSpec_def run_options_def Let_def mergeCapabilities_shape appendMounts_def
        empty_image_config_def empty_container_config_def split: option.splits)
qed

theorem run_confined_witness:
  "let s = buildSpec (run_options demo_build_env demo_io [''a''] [] ''/'' \<lparr>u_uid = 0, u_gid = 0, u_additionalGids = []\<rparr>)
      (Some (defaultSeccompProfile ''amd64'')) in
   p_noNewPrivileges (s_process s) \<and> p_args (s_process s) = [''a''] \<and> l_seccomp (s_linux s) \<noteq> None"
  using run_confined [of "''amd64''" "\<lambda>_. Inl []" "\<lambda>_. Inl []" demo_build_env demo_io "[''a'']" "[]" "''/''"
    "\<lparr>u_uid = 0, u_gid = 0, u_additionalGids = []\<rparr>" "Some (defaultSeccompProfile ''amd64'')"]
  by (auto simp: Let_def resolveSeccomp_def run_options_def trim_space_def trim_by_def trim_right_def trim_left_def to_lower_def)

section \<open>Commit\<close>

lemma writeImageMeta_keeps:
  assumes "writeImageMeta wr t m cfg st = (st', None)" and "loadImageMeta st t' = Inr (m, cfg)"
  shows "loadImageMeta st' t' = Inr (m, cfg)"
proof (cases "imageDir (sto_root st) t' = imageDir (sto_root st) t")
  case True
  have "sto_root st' = sto_root st" using writeImageMeta_files [OF assms(1)] by simp
  with True writeImageMeta_loads [OF assms(1)] show ?thesis by (auto simp: loadImageMeta_def Let_def split: json.splits)
next
  case False
  then have meta: "meta_at st' (imageDir (sto_root st) t') = meta_at st (imageDir (sto_root st) t')" and root: "sto_root st' = sto_root st"
    using assms(1) by (auto simp: writeImageMeta_def Let_def split: option.splits)
  show ?thesis using assms(2) unfolding loadImageMeta_def root meta .
qed

lemma SaveImage_ok:
  assumes "SaveImage wr t m cfg st = (st', None)"
  shows "loadImageMeta st' t = Inr (m, cfg)" and "\<And>t'. loadImageMeta st t' = Inr (m, cfg) \<Longrightarrow> loadImageMeta st' t' = Inr (m, cfg)"
    and "\<And>d. HasBlob st' d = HasBlob st d" and "list_all (\<lambda>l. HasBlob st' (d_digest l)) (mf_layers m)"
proof -
  from assms have n: "find (\<lambda>l. \<not> HasBlob st (d_digest l)) (mf_layers m) = None" and w: "writeImageMeta wr t m cfg st = (st', None)"
    by (auto simp: SaveImage_def split: option.splits)
  show "loadImageMeta st' t = Inr (m, cfg)" by (rule writeImageMeta_loads [OF w])
  show "loadImageMeta st' t' = Inr (m, cfg)" if "loadImageMeta st t' = Inr (m, cfg)" for t' by (rule writeImageMeta_keeps [OF w that])
  show h: "HasBlob st' d = HasBlob st d" for d using writeImageMeta_files [OF w] by (simp add: HasBlob_def blob_path_def)
  show "list_all (\<lambda>l. HasBlob st' (d_digest l)) (mf_layers m)" using n by (simp add: find_None_iff list_all_iff h)
qed

lemma save_tags_keeps:
  "save_tags env ts m cfg s = (s', None) \<Longrightarrow> loadImageMeta s t' = Inr (m, cfg) \<Longrightarrow> loadImageMeta s' t' = Inr (m, cfg)"
  by (induction ts arbitrary: s) (auto dest: SaveImage_ok(2) split: prod.splits option.splits)

lemma save_tags_blobs: "save_tags env ts m cfg s = (s', None) \<Longrightarrow> HasBlob s' d = HasBlob s d"
  by (induction ts arbitrary: s) (auto dest: SaveImage_ok(3) split: prod.splits option.splits)

lemma save_tags_ok:
  assumes "save_tags env ts m cfg s = (s', None)"
  shows "\<forall>t\<in>set ts. loadImageMeta s' t = Inr (m, cfg)" and "ts \<noteq> [] \<Longrightarrow> list_all (\<lambda>l. HasBlob s' (d_digest l)) (mf_layers m)"
  using assms
proof (induction ts arbitrary: s)
  case (Cons t ts)
  {
    case 1
    then obtain s1 where "SaveImage (be_write env) t m cfg s = (s1, None)" "save_tags env ts m cfg s1 = (s', None)"
      by (auto split: prod.splits option.splits)
    then show ?case using Cons.IH(1) save_tags_keeps SaveImage_ok(1) by fastforce
  next
    case 2
    then obtain s1 where s1: "SaveImage (be_write env) t m cfg s = (s1, None)" "save_tags env ts m cfg s1 = (s', None)"
      by (auto split: prod.splits option.splits)
    then show ?case using SaveImage_ok(4) [OF s1(1)] save_tags_blobs [OF s1(2)] by simp
  }
qed simp_all

lemma PutBlob_has: "PutBlob sha wr data st = (st', Inr d) \<Longrightarrow> d = digest_of sha data \<and> HasBlob st' d"
  by (auto simp: PutBlob_def HasBlob_def Let_def split: if_splits option.splits)

text \<open>C10. A build that succeeds leaves a complete image: its configuration is a blob under the image id it
  returns, every layer is in the store, and each of its tags, of which there is at least one, leads to
  this manifest and to the configuration of the last stage that was built.\<close>

theorem Build_commits:
  assumes "Build env opts s c = (bd, Inr (imageID, tags))"
  shows "tags \<noteq> [] \<and> (bo_tags opts \<noteq> [] \<longrightarrow> tags = bo_tags opts) \<and> HasBlob (bd_store bd) imageID \<and>
    (\<exists>m. d_digest (mf_config m) = imageID \<and> list_all (\<lambda>l. HasBlob (bd_store bd) (d_digest l)) (mf_layers m) \<and>
       map d_digest (mf_layers m) = map d_digest (ss_layers (last (bd_stages bd))) \<and>
       list_all (\<lambda>t. loadImageMeta (bd_store bd) t = Inr (m, final_config env (last (bd_stages bd)))) tags)"
proof -
  from assms obtain bd2 where k: "commitImage env opts (last (bd_stages bd2)) bd2 = (bd, Inr (imageID, tags))"
    by (auto simp: Build_def Let_def split: sum.splits prod.splits option.splits)
  let ?st = "last (bd_stages bd2)"
  define mk where "mk data = \<lparr>mf_mediaType = MediaTypeImageManifest, mf_config = \<lparr>d_mediaType = MediaTypeImageConfig,
    d_digest = digest_of (be_sha env) data, d_size = int (length data)\<rparr>, mf_layers = map final_layer (ss_layers ?st)\<rparr>" for data
  define tg where "tg data = (if bo_tags opts = [] then [''nyx-build:'' @ short_id (digest_of (be_sha env) data)] else bo_tags opts)" for data
  from k obtain data where k1: "(case PutBlob (be_sha env) (be_write env) data (bd_store bd2) of
      (s, Inl e) \<Rightarrow> (bd2\<lparr>bd_store := s\<rparr>, Inl (ImgErr e))
    | (s, Inr _) \<Rightarrow> (case save_tags env (tg data) (mk data) (final_config env ?st) s of
        (s1, Some e) \<Rightarrow> (bd2\<lparr>bd_store := s1\<rparr>, Inl (ImgErr e))
      | (s1, None) \<Rightarrow> (bd2\<lparr>bd_store := s1\<rparr>, Inr (digest_of (be_sha env) data, tg data)))) = (bd, Inr (imageID, tags))"
    unfolding commitImage_def Let_def mk_def tg_def
    by (cases "be_marshalConfig env (final_config env ?st)") simp_all
  obtain s1 r1 where p0: "PutBlob (be_sha env) (be_write env) data (bd_store bd2) = (s1, r1)" by fastforce
  obtain s2 r2 where t0: "save_tags env (tg data) (mk data) (final_config env ?st) s1 = (s2, r2)" by fastforce
  from k1 p0 t0 obtain d where p: "PutBlob (be_sha env) (be_write env) data (bd_store bd2) = (s1, Inr d)"
    and t: "save_tags env tags (mk data) (final_config env ?st) s1 = (s2, None)"
    and r: "bd = bd2\<lparr>bd_store := s2\<rparr>" "imageID = digest_of (be_sha env) data" "tags = tg data"
    by (cases r1; cases r2) simp_all
  have r': "tags \<noteq> []" "bo_tags opts \<noteq> [] \<longrightarrow> tags = bo_tags opts" by (simp_all add: r tg_def)
  note PutBlob_has [OF p] and save_tags_ok [OF t] and save_tags_blobs [OF t]
  moreover have "map d_digest (mf_layers (mk data)) = map d_digest (ss_layers ?st)" by (simp add: mk_def final_layer_def)
  moreover have "d_digest (mf_config (mk data)) = imageID" by (simp add: mk_def r)
  ultimately show ?thesis using r r' by (intro conjI exI [of _ "mk data"]) (auto simp: list_all_iff)
qed

definition demo_build :: "build_state \<times> (build_error + string \<times> string list)" where
  "demo_build = Build demo_build_env demo_build_opts demo_store0 []"

theorem Build_commits_witness:
  "\<exists>m. list_all (\<lambda>l. HasBlob (bd_store (fst demo_build)) (d_digest l)) (mf_layers m) \<and>
     loadImageMeta (bd_store (fst demo_build)) ''app:1'' = Inr (m, final_config demo_build_env (last (bd_stages (fst demo_build))))"
proof -
  have "snd demo_build = Inr (''sha256:2'', [''app:1''])" by code_simp
  then have "demo_build = (fst demo_build, Inr (''sha256:2'', [''app:1'']))" by (metis prod.collapse)
  from Build_commits [OF this [unfolded demo_build_def]] show ?thesis unfolding demo_build_def [symmetric] by auto
qed

end
