(* ===== verification/Logs.thy ===== *)
theory Logs
  imports Go_Path Oci_Types "HOL-Library.AList"
begin

text \<open>
  Container logs (src/internal/logs/logger.go): files rotated by size, the lines a follower asks for, and
  the sizes of the configuration. The files of one container are a map from numbers to contents: 0 is
  id.log, i is id.log.i. Encoding an entry as JSON and the clock are left out: a line that is
  written is already encoded.
\<close>

section \<open>State\<close>

text \<open>The handle of the current file: closed after a reopen failed, on a file that was deleted, or on id.log.\<close>

datatype handle = Closed | Unlinked | Linked

record log_file =
  lf_f :: handle
  lf_size :: int
  lf_refs :: int

record collector =
  co_maxSize :: int
  co_maxFiles :: int

type_synonym log_files = "(nat, string) gomap"

text \<open>What the file system does during one operation.\<close>

record log_io =
  li_renameFails :: bool
  li_openFails :: bool
  li_statFails :: bool

definition no_fault :: log_io where
  "no_fault = \<lparr>li_renameFails = False, li_openFails = False, li_statFails = False\<rparr>"

definition DefaultMaxSize :: int where "DefaultMaxSize = 10485760"
definition DefaultMaxFiles :: int where "DefaultMaxFiles = 3"

definition SetRotation :: "int \<Rightarrow> int \<Rightarrow> collector" where
  "SetRotation maxSize maxFiles = \<lparr>co_maxSize = maxSize, co_maxFiles = (if maxFiles < 1 then 1 else maxFiles)\<rparr>"

definition log_path :: "string \<Rightarrow> string \<Rightarrow> string" where
  "log_path logDir containerID = path_join [logDir, containerID @ ''.log'']"

definition file_of :: "log_files \<Rightarrow> nat \<Rightarrow> string" where
  "file_of fs i = (case map_of fs i of Some c \<Rightarrow> c | None \<Rightarrow> [])"

section \<open>Opening and closing\<close>

definition open_log :: "log_io \<Rightarrow> log_file option \<Rightarrow> log_files \<Rightarrow> log_files \<times> log_file option" where
  "open_log io lf fs =
     (case lf of
        Some l \<Rightarrow> (fs, Some (l\<lparr>lf_refs := lf_refs l + 1\<rparr>))
      | None \<Rightarrow>
          if li_openFails io then (fs, None)
          else (let fs' = AList.update 0 (file_of fs 0) fs
                in if li_statFails io then (fs', None)
                   else (fs', Some \<lparr>lf_f = Linked, lf_size = int (length (file_of fs 0)), lf_refs = 1\<rparr>)))"

definition release_log :: "log_file \<Rightarrow> log_file option" where
  "release_log l = (if lf_refs l - 1 > 0 then Some (l\<lparr>lf_refs := lf_refs l - 1\<rparr>) else None)"

section \<open>Writing\<close>

text \<open>os.Rename: a source that is not there is an error, which the shift ignores.\<close>

definition rename_file :: "nat \<Rightarrow> nat \<Rightarrow> log_files \<Rightarrow> log_files" where
  "rename_file i j fs = (case map_of fs i of None \<Rightarrow> fs | Some c \<Rightarrow> AList.update j c (AList.delete i fs))"

fun shift :: "nat \<Rightarrow> log_files \<Rightarrow> log_files" where
  "shift 0 fs = fs"
| "shift (Suc i) fs = shift i (rename_file (Suc i) (Suc (Suc i)) fs)"

definition shift_files :: "log_io \<Rightarrow> nat \<Rightarrow> log_files \<Rightarrow> log_files" where
  "shift_files io maxFiles fs =
     (if li_renameFails io then fs
      else if maxFiles \<le> 1 then AList.delete 0 fs
      else rename_file 0 1 (shift (maxFiles - 2) (AList.delete (maxFiles - 1) fs)))"

definition rotate :: "log_io \<Rightarrow> collector \<Rightarrow> log_file \<Rightarrow> log_files \<Rightarrow> log_files \<times> log_file" where
  "rotate io co l fs =
     (let fs1 = shift_files io (nat (co_maxFiles co)) fs
      in if li_openFails io then (fs1, l\<lparr>lf_f := Closed\<rparr>)
         else (AList.update 0 (file_of fs1 0) fs1,
               l\<lparr>lf_f := Linked, lf_size := (if li_statFails io then 0 else int (length (file_of fs1 0)))\<rparr>))"

definition append_line :: "string \<Rightarrow> log_file \<Rightarrow> log_files \<Rightarrow> log_files \<times> log_file" where
  "append_line line l fs =
     (case lf_f l of
        Closed \<Rightarrow> (fs, l)
      | Unlinked \<Rightarrow> (fs, l\<lparr>lf_size := lf_size l + int (length line)\<rparr>)
      | Linked \<Rightarrow> (AList.update 0 (file_of fs 0 @ line) fs, l\<lparr>lf_size := lf_size l + int (length line)\<rparr>))"

definition write_line :: "log_io \<Rightarrow> collector \<Rightarrow> string \<Rightarrow> log_file \<times> log_files \<Rightarrow> log_file \<times> log_files" where
  "write_line io co line s =
     (case s of (l, fs) \<Rightarrow>
        let (fs1, l1) = (if co_maxSize co > 0 \<and> lf_size l > 0 \<and> lf_size l + int (length line) > co_maxSize co
                         then rotate io co l fs else (fs, l));
            (fs2, l2) = append_line line l1 fs1
        in (l2, fs2))"

definition remove_log :: "log_files \<Rightarrow> log_file option \<Rightarrow> log_files \<times> log_file option \<times> bool" where
  "remove_log fs lf = ([], map_option (\<lambda>l. if lf_f l = Linked then l\<lparr>lf_f := Unlinked\<rparr> else l) lf, fs \<noteq> [])"

section \<open>Reading backwards\<close>

definition countLines :: "string \<Rightarrow> nat" where
  "countLines b = length (filter (\<lambda>c. c = CHR 0x0A) b)"

text \<open>\<open>pos\<close> bytes of the file are still unread; the rest is in the buffer.\<close>

function (sequential) read_back :: "nat \<Rightarrow> string \<Rightarrow> int \<Rightarrow> nat \<Rightarrow> nat \<times> string" where
  "read_back block content n pos =
     (if block > 0 \<and> pos > 0 \<and> int (countLines (drop pos content)) \<le> n
      then read_back block content n (pos - min block pos)
      else (pos, drop pos content))"
  by pat_completeness auto
termination by (relation "measure (\<lambda>(_, _, _, pos). pos)") auto

declare read_back.simps [simp del]

definition last_n :: "int \<Rightarrow> 'a list \<Rightarrow> 'a list" where
  "last_n n xs = (if int (length xs) > n then drop (length xs - nat n) xs else xs)"

definition tail_block :: nat where
  "tail_block = 32768"

definition tail_text :: "nat \<Rightarrow> string \<Rightarrow> int \<Rightarrow> string list" where
  "tail_text block content n =
     (if n \<le> 0 \<or> content = [] then []
      else case read_back block content n (length content) of (pos, buf) \<Rightarrow>
        let parts = split_on (CHR 0x0A) (trim_suffix buf [CHR 0x0A]);
            parts1 = (if pos > 0 then tl parts else parts)
        in filter (\<lambda>p. p \<noteq> []) (last_n n parts1))"

definition tailFile :: "string \<Rightarrow> int \<Rightarrow> string list \<times> int" where
  "tailFile content n = (tail_text tail_block content n, int (length content))"

text \<open>The rotated files from number \<open>i\<close> on, while lines are missing; \<open>left\<close> bounds the numbers that exist.\<close>

fun tail_older :: "log_files \<Rightarrow> int \<Rightarrow> nat \<Rightarrow> nat \<Rightarrow> string list \<Rightarrow> string list" where
  "tail_older fs n i 0 ls = ls"
| "tail_older fs n i (Suc left) ls =
     (if int (length ls) < n then
        (case map_of fs i of
           None \<Rightarrow> ls
         | Some c \<Rightarrow> tail_older fs n (i + 1) left (fst (tailFile c (n - int (length ls))) @ ls))
      else ls)"

definition TailLines :: "log_files \<Rightarrow> int \<Rightarrow> (string list \<times> int) option" where
  "TailLines fs n =
     (case map_of fs 0 of
        None \<Rightarrow> None
      | Some c \<Rightarrow> (case tailFile c n of (ls, endpos) \<Rightarrow> Some (tail_older fs n 1 (length fs) ls, endpos)))"

section \<open>Sizes\<close>

definition ParseSize :: "string \<Rightarrow> int option" where
  "ParseSize s =
     (let v = trim_suffix (to_lower (trim_space s)) ''b'';
          (mult, w) = (if has_suffix v ''k'' then (1024, trim_suffix v ''k'')
                       else if has_suffix v ''m'' then (1048576, trim_suffix v ''m'')
                       else if has_suffix v ''g'' then (1073741824, trim_suffix v ''g'') else (1, v))
      in case atoi w of None \<Rightarrow> None | Some n \<Rightarrow> if n < 0 then None else Some (wrap64 (n * mult)))"

section \<open>The last lines of a file\<close>

abbreviation newline :: char where "newline \<equiv> CHR 0x0A"

lemma split_on_append_any:
  "split_on d (xs @ ys) = butlast (split_on d xs) @ (last (split_on d xs) @ hd (split_on d ys)) # tl (split_on d ys)"
proof (induction xs)
  case Nil
  show ?case by (cases "split_on d ys") simp_all
next
  case (Cons c xs)
  show ?case
  proof (cases "c = d")
    case False
    obtain w ws where w: "split_on d xs = w # ws" by (cases "split_on d xs") simp_all
    with False Cons show ?thesis by (cases ws) simp_all
  qed (use Cons in simp)
qed

lemma length_split_on: "length (split_on d s) = length (filter (\<lambda>c. c = d) s) + 1"
  by (induction s) (auto split: list.splits)

lemma read_back_spec:
  assumes "read_back block content n pos = (pos', buf)" and "block > 0"
  shows "buf = drop pos' content \<and> (pos' = 0 \<or> n < int (countLines buf)) \<and> pos' \<le> pos"
  using assms
proof (induction block content n pos rule: read_back.induct)
  case (1 block content n pos)
  show ?case
  proof (cases "pos > 0 \<and> int (countLines (drop pos content)) \<le> n")
    case True
    then show ?thesis using 1(1) [OF _ _ 1(3)] 1(2,3) by (auto simp: read_back.simps [of block content n pos])
  qed (use 1(2,3) in \<open>auto simp: read_back.simps [of block content n pos]\<close>)
qed

lemma last_n_append: "0 \<le> n \<Longrightarrow> n \<le> int (length ys) \<Longrightarrow> last_n n (xs @ ys) = last_n n ys"
  by (auto simp: last_n_def)

lemma trim_suffix_snoc: "trim_suffix (s @ [c]) [d] = (if c = d then s else s @ [c])"
  by (simp add: trim_suffix_def has_suffix_def has_prefix_def)

lemma trim_suffix_append: "ys \<noteq> [] \<Longrightarrow> trim_suffix (xs @ ys) [d] = xs @ trim_suffix ys [d]"
  by (cases ys rule: rev_cases) (simp_all add: trim_suffix_snoc flip: append_assoc)

lemma countLines_trim: "countLines s \<le> countLines (trim_suffix s [newline]) + 1"
  by (cases s rule: rev_cases) (auto simp: trim_suffix_snoc countLines_def trim_suffix_def)

text \<open>Reading a log backwards in blocks gives the last lines of the file, whatever the size of the
  blocks: no line is cut where two blocks meet and none is missed.\<close>

theorem tail_reads_last_lines:
  assumes "block > 0" and "n > 0" and "content \<noteq> []"
  shows "tail_text block content n = filter (\<lambda>p. p \<noteq> []) (last_n n (split_on newline (trim_suffix content [newline])))"
proof -
  obtain pos buf where r: "read_back block content n (length content) = (pos, buf)" by fastforce
  note s = read_back_spec [OF r assms(1)]
  show ?thesis
  proof (cases "pos = 0")
    case True
    then show ?thesis using s r assms by (simp add: tail_text_def)
  next
    case False
    define pre where "pre = take pos content"
    have c: "content = pre @ buf" using s by (simp add: pre_def)
    have n: "n < int (countLines buf)" using s False by auto
    then have "buf \<noteq> []" using assms(2) by (auto simp: countLines_def)
    then have t: "trim_suffix content [newline] = pre @ trim_suffix buf [newline]" unfolding c by (rule trim_suffix_append)
    have "n \<le> int (length (tl (split_on newline (trim_suffix buf [newline]))))"
      using n countLines_trim [of buf] by (simp add: length_split_on countLines_def)
    then have "last_n n (split_on newline (trim_suffix content [newline])) = last_n n (tl (split_on newline (trim_suffix buf [newline])))"
      unfolding t split_on_append_any
      using last_n_append [of n "tl (split_on newline (trim_suffix buf [newline]))" "butlast _ @ [_]"] assms(2) by simp
    then show ?thesis using r False assms by (simp add: tail_text_def Let_def)
  qed
qed

theorem tail_reads_last_lines_witness:
  "tail_text 3 (''one'' @ [newline] @ ''two'' @ [newline] @ ''three'' @ [newline]) 2 = [''two'', ''three'']"
  using tail_reads_last_lines [of 3 2 "''one'' @ [newline] @ ''two'' @ [newline] @ ''three'' @ [newline]"]
  by (simp add: last_n_def trim_suffix_def has_suffix_def has_prefix_def)

section \<open>Files as lists of lines\<close>

definition good_line :: "string \<Rightarrow> bool" where
  "good_line l \<longleftrightarrow> l \<noteq> [] \<and> newline \<notin> set l"

definition text_of :: "string list \<Rightarrow> string" where
  "text_of ls = concat (map (\<lambda>l. l @ [newline]) ls)"

lemma text_of_simps [simp]: "text_of [] = []" "text_of (xs @ ys) = text_of xs @ text_of ys" "text_of [l] = l @ [newline]"
  by (simp_all add: text_of_def)

lemma split_text_of: "list_all good_line ls \<Longrightarrow> ls \<noteq> [] \<Longrightarrow> split_on newline (trim_suffix (text_of ls) [newline]) = ls"
proof (induction ls rule: rev_induct)
  case (snoc l ls)
  have t: "trim_suffix (text_of (ls @ [l])) [newline] = text_of ls @ l" by (simp add: trim_suffix_snoc flip: append_assoc)
  have l: "split_on newline l = [l]" using snoc.prems by (simp add: split_on_single good_line_def)
  show ?case
  proof (cases ls rule: rev_cases)
    case (snoc ks k)
    have "trim_suffix (text_of ls) [newline] = text_of ks @ k" by (simp add: snoc trim_suffix_snoc flip: append_assoc)
    moreover have "text_of ls @ l = (text_of ks @ k) @ newline # l" by (simp add: snoc)
    ultimately show ?thesis unfolding t using snoc.IH snoc.prems l \<open>ls = ks @ [k]\<close>
      by (simp only: split_on_append) simp
  qed (use t l in simp)
qed simp

lemma text_of_nonempty: "ls \<noteq> [] \<Longrightarrow> text_of ls \<noteq> []"
  by (cases ls) (simp_all add: text_of_def)

lemma last_n_set: "set (last_n n xs) \<subseteq> set xs"
  by (auto simp: last_n_def dest: in_set_dropD)

lemma tail_text_of:
  assumes "list_all good_line ls" and "n > 0"
  shows "fst (tailFile (text_of ls) n) = last_n n ls"
proof (cases "ls = []")
  case False
  have "filter (\<lambda>p. p \<noteq> []) (last_n n ls) = last_n n ls"
    using assms(1) last_n_set [of n ls] by (intro filter_True) (auto simp: list_all_iff good_line_def)
  then show ?thesis using tail_reads_last_lines [OF _ assms(2) text_of_nonempty [OF False], of tail_block]
    by (simp add: tailFile_def tail_block_def split_text_of [OF assms(1) False])
qed (simp add: tailFile_def tail_text_def last_n_def)

text \<open>The files hold these lines, the current file first.\<close>

definition rep :: "log_files \<Rightarrow> string list list \<Rightarrow> bool" where
  "rep fs Ls \<longleftrightarrow> Ls \<noteq> [] \<and> (\<forall>i. map_of fs i = (if i < length Ls then Some (text_of (Ls ! i)) else None))"

lemma last_n_concat: "n > 0 \<Longrightarrow> int (length ls) < n \<Longrightarrow> last_n n (as @ ls) = last_n (n - int (length ls)) as @ ls"
  by (auto simp: last_n_def nat_diff_distrib Suc_diff_le)

lemma rep_length: "rep fs Ls \<Longrightarrow> length Ls \<le> length fs"
proof -
  assume r: "rep fs Ls"
  then have "{..<length Ls} \<subseteq> dom (map_of fs)" by (auto simp: rep_def)
  then have "card {..<length Ls} \<le> card (dom (map_of fs))" by (intro card_mono) (simp_all add: finite_dom_map_of)
  also have "\<dots> \<le> length fs" unfolding dom_map_of_conv_image_fst by (metis card_length length_map set_map)
  finally show ?thesis by simp
qed

lemma tail_older_lines:
  assumes "rep fs Ls" and "list_all (list_all good_line) Ls" and "n > 0" and "0 < i" and "i \<le> length Ls" and "length Ls \<le> i + left"
    and "ls = last_n n (concat (rev (take i Ls)))"
  shows "tail_older fs n i left ls = last_n n (concat (rev Ls))"
  using assms(4-)
proof (induction left arbitrary: i ls)
  case (Suc left)
  show ?case
  proof (cases "int (length ls) < n \<and> i < length Ls")
    case True
    then have ls: "ls = concat (rev (take i Ls))" using Suc.prems(4) by (auto simp: last_n_def split: if_splits)
    have m: "map_of fs i = Some (text_of (Ls ! i))" using assms(1) True by (simp add: rep_def)
    have "fst (tailFile (text_of (Ls ! i)) (n - int (length ls))) = last_n (n - int (length ls)) (Ls ! i)"
      using assms(2) True by (intro tail_text_of) (auto simp: list_all_length)
    moreover have "last_n n (concat (rev (take (i + 1) Ls))) = last_n (n - int (length ls)) (Ls ! i) @ ls"
      using True assms(3) last_n_concat [of n ls "Ls ! i"] by (simp add: take_Suc_conv_app_nth ls)
    ultimately show ?thesis using Suc.IH [of "i + 1" "last_n (n - int (length ls)) (Ls ! i) @ ls"] Suc.prems True m by simp
  next
    case False
    then consider "n \<le> int (length ls)" | "i = length Ls" "int (length ls) < n" using Suc.prems(2) by linarith
    then show ?thesis
    proof cases
      case 1
      then have "n \<le> int (length (concat (rev (take i Ls))))" using Suc.prems(4) by (auto simp: last_n_def split: if_splits)
      moreover have "concat (rev Ls) = concat (rev (drop i Ls)) @ concat (rev (take i Ls))"
        by (metis append_take_drop_id concat_append rev_append)
      ultimately have "last_n n (concat (rev Ls)) = ls" using Suc.prems(4) last_n_append assms(3) by (metis less_imp_le)
      then show ?thesis using 1 by simp
    next
      case 2
      then have "map_of fs i = None" using assms(1) by (simp add: rep_def)
      then show ?thesis using 2 Suc.prems(4) by simp
    qed
  qed
qed simp

lemma TailLines_rep:
  assumes "rep fs Ls" and "list_all (list_all good_line) Ls" and "n > 0"
  shows "TailLines fs n = Some (last_n n (concat (rev Ls)), int (length (text_of (hd Ls))))"
proof -
  have ne: "Ls \<noteq> []" using assms(1) by (simp add: rep_def)
  then have m: "map_of fs 0 = Some (text_of (hd Ls))" using assms(1) by (simp add: rep_def hd_conv_nth)
  have "fst (tailFile (text_of (hd Ls)) n) = last_n n (hd Ls)" by (rule tail_text_of) (use assms ne in \<open>auto simp: list_all_iff\<close>)
  also have "\<dots> = last_n n (concat (rev (take 1 Ls)))" using ne by (cases Ls) simp_all
  finally have "tail_older fs n 1 (length fs) (fst (tailFile (text_of (hd Ls)) n)) = last_n n (concat (rev Ls))"
    using rep_length [OF assms(1)] ne by (intro tail_older_lines [OF assms]) (auto simp: Suc_le_eq)
  then show ?thesis using m by (simp add: TailLines_def tailFile_def)
qed

section \<open>Rotation\<close>

lemma map_of_rename: "map_of (rename_file i j fs) k =
  (if map_of fs i = None then map_of fs k else if k = j then map_of fs i else if k = i then None else map_of fs k)"
  by (auto simp: rename_file_def update_conv' delete_conv' split: option.splits)

lemma map_of_shift:
  assumes "\<And>i. 1 \<le> i \<Longrightarrow> i \<le> k \<Longrightarrow> map_of fs i = None \<Longrightarrow> map_of fs (Suc i) = None"
  shows "map_of (shift k fs) j = (if 2 \<le> j \<and> j \<le> k + 1 then map_of fs (j - 1) else if j = 1 \<and> k \<ge> 1 then None else map_of fs j)"
  using assms
proof (induction k arbitrary: fs)
  case (Suc k)
  let ?fs = "rename_file (Suc k) (Suc (Suc k)) fs"
  have a: "map_of ?fs i = (if i = Suc (Suc k) then map_of fs (Suc k) else if i = Suc k then None else map_of fs i)" for i
    using Suc.prems [of "Suc k"] by (auto simp: map_of_rename)
  have "map_of (shift k ?fs) j = (if 2 \<le> j \<and> j \<le> k + 1 then map_of ?fs (j - 1) else if j = 1 \<and> k \<ge> 1 then None else map_of ?fs j)"
    by (rule Suc.IH) (use Suc.prems in \<open>auto simp: a split: if_splits\<close>)
  then show ?case by (auto simp: a)
qed auto

lemma rep_rotated:
  assumes "rep fs Ls" and "length Ls \<le> m" and "0 < m"
  shows "rep (AList.update 0 (file_of (shift_files no_fault m fs) 0) (shift_files no_fault m fs)) ([] # take (m - 1) Ls)"
proof (cases "m \<le> 1")
  case True
  then have m: "m = 1" using assms(3) by simp
  then have "length Ls = 1" using assms(1,2) by (cases Ls) (auto simp: rep_def)
  note this m
  then show ?thesis using assms(1)
    by (auto simp: rep_def shift_files_def no_fault_def update_conv' delete_conv' file_of_def)
next
  case False
  define D where "D = AList.delete (m - 1) fs"
  have d: "map_of D i = (if i < length Ls \<and> i < m - 1 then Some (text_of (Ls ! i)) else None)" for i
    using assms(1,2) by (auto simp: rep_def delete_conv' D_def)
  have "map_of (shift (m - 2) D) j = (if 2 \<le> j \<and> j \<le> m - 2 + 1 then map_of D (j - 1) else if j = 1 \<and> m - 2 \<ge> 1 then None else map_of D j)" for j
    by (rule map_of_shift) (auto simp: d split: if_splits)
  moreover have "m - 2 + 1 = m - 1" using False by simp
  ultimately have s: "map_of (shift (m - 2) D) j = (if 2 \<le> j \<and> j \<le> m - 1 then map_of D (j - 1) else if j = 1 \<and> m - 2 \<ge> 1 then None else map_of D j)" for j
    by simp
  have "map_of (shift_files no_fault m fs) j =
    (if j = 0 then None else if j < m \<and> j - 1 < length Ls then Some (text_of (Ls ! (j - 1))) else None)" for j
    using False assms(1) unfolding shift_files_def D_def [symmetric]
    by (auto simp: no_fault_def map_of_rename s d rep_def nth_Cons' split: if_splits)
  then show ?thesis using assms by (auto simp: rep_def update_conv' file_of_def nth_Cons')
qed

text \<open>What is on disk after lines were written: the most recent of them, in at most \<open>maxFiles\<close> files, of which
  each stays within the limit unless it holds a single line.\<close>

definition kept :: "collector \<Rightarrow> string list \<Rightarrow> log_file \<times> log_files \<Rightarrow> bool" where
  "kept co ws s \<longleftrightarrow> (case s of (l, fs) \<Rightarrow> lf_f l = Linked \<and>
     (\<exists>Ls dropped. rep fs Ls \<and> int (length Ls) \<le> co_maxFiles co \<and> lf_size l = int (length (text_of (hd Ls))) \<and>
        ws = dropped @ concat (rev Ls) \<and>
        (co_maxSize co > 0 \<longrightarrow> list_all (\<lambda>ls. int (length (text_of ls)) \<le> co_maxSize co \<or> length ls \<le> 1) Ls)))"

lemma rep_append:
  assumes "rep fs (L # Ls)"
  shows "rep (AList.update 0 (file_of fs 0 @ w @ [newline]) fs) ((L @ [w]) # Ls)"
  using assms by (auto simp: rep_def update_conv' file_of_def nth_Cons')

lemma write_line_kept:
  assumes "kept co ws (l, fs)" and "1 \<le> co_maxFiles co"
  shows "kept co (ws @ [w]) (write_line no_fault co (w @ [newline]) (l, fs))"
proof -
  from assms(1) obtain Ks dropped where k: "rep fs Ks" "int (length Ks) \<le> co_maxFiles co" "lf_size l = int (length (text_of (hd Ks)))"
    "ws = dropped @ concat (rev Ks)" "lf_f l = Linked"
    "co_maxSize co > 0 \<longrightarrow> list_all (\<lambda>ls. int (length (text_of ls)) \<le> co_maxSize co \<or> length ls \<le> 1) Ks"
    unfolding kept_def by auto
  from k(1) obtain L Ls where "Ks = L # Ls" by (cases Ks) (auto simp: rep_def)
  with k have r: "rep fs (L # Ls)" and n: "int (length (L # Ls)) \<le> co_maxFiles co"
    and z: "lf_size l = int (length (text_of L))" and ws: "ws = dropped @ concat (rev (L # Ls))" and f: "lf_f l = Linked"
    and b: "co_maxSize co > 0 \<longrightarrow> list_all (\<lambda>ls. int (length (text_of ls)) \<le> co_maxSize co \<or> length ls \<le> 1) (L # Ls)"
    by simp_all
  show ?thesis
  proof (cases "co_maxSize co > 0 \<and> lf_size l > 0 \<and> lf_size l + int (length (w @ [newline])) > co_maxSize co")
    case True
    let ?m = "nat (co_maxFiles co)"
    let ?s = "shift_files no_fault ?m fs"
    let ?fs = "AList.update 0 (file_of ?s 0) ?s"
    have m: "length (L # Ls) \<le> ?m" "0 < ?m" using n assms(2) by linarith+
    have rr: "rep ?fs ([] # take (?m - 1) (L # Ls))" by (rule rep_rotated [OF r m])
    then have "file_of ?fs 0 = []" by (simp add: rep_def file_of_def)
    then have e: "file_of ?s 0 = []" by (simp add: file_of_def update_conv')
    have out: "write_line no_fault co (w @ [newline]) (l, fs) =
      (l\<lparr>lf_f := Linked, lf_size := int (length (w @ [newline]))\<rparr>, AList.update 0 (file_of ?fs 0 @ w @ [newline]) ?fs)"
      using True by (simp add: write_line_def rotate_def append_line_def no_fault_def [symmetric] e Let_def)
        (simp add: no_fault_def e file_of_def update_conv')
    have "ws @ [w] = (dropped @ concat (rev (drop (?m - 1) (L # Ls)))) @ concat (rev ([w] # take (?m - 1) (L # Ls)))"
      unfolding ws by (simp, metis append_take_drop_id concat_append rev_append rev.simps(2) concat.simps append_Nil2 append_assoc)
    moreover have "list_all (\<lambda>ls. int (length (text_of ls)) \<le> co_maxSize co \<or> length ls \<le> 1) ([w] # take (?m - 1) (L # Ls))"
      using b True set_take_subset [of "?m - 1" "L # Ls"] unfolding list_all_iff by (simp add: subset_iff) blast
    moreover have "int (length ([w] # take (?m - 1) (L # Ls))) \<le> co_maxFiles co" using m assms(2) by simp
    moreover have "rep (AList.update 0 (file_of ?fs 0 @ w @ [newline]) ?fs) ([w] # take (?m - 1) (L # Ls))"
      using rep_append [OF rr, of w] by simp
    ultimately show ?thesis unfolding out kept_def by (intro case_prodI2) (force simp del: take_Cons)
  next
    case False
    then have out: "write_line no_fault co (w @ [newline]) (l, fs) =
      (l\<lparr>lf_size := lf_size l + int (length (w @ [newline]))\<rparr>, AList.update 0 (file_of fs 0 @ w @ [newline]) fs)"
      using f by (auto simp: write_line_def append_line_def)
    have "co_maxSize co > 0 \<longrightarrow> int (length (text_of (L @ [w]))) \<le> co_maxSize co \<or> length (L @ [w]) \<le> 1"
      using False z by (cases L) (auto simp: text_of_def)
    then have "co_maxSize co > 0 \<longrightarrow> list_all (\<lambda>ls. int (length (text_of ls)) \<le> co_maxSize co \<or> length ls \<le> 1) ((L @ [w]) # Ls)"
      using b by simp
    moreover have "ws @ [w] = dropped @ concat (rev ((L @ [w]) # Ls))" by (simp add: ws)
    ultimately show ?thesis using rep_append [OF r] n z f unfolding out kept_def
      by (auto intro!: exI [of _ "(L @ [w]) # Ls"])
  qed
qed

text \<open>A container's lines, written one after the other to a new log.\<close>

definition logged :: "collector \<Rightarrow> string list \<Rightarrow> log_file \<times> log_files" where
  "logged co ws = foldl (\<lambda>s w. write_line no_fault co (w @ [newline]) s)
     (case open_log no_fault None [] of (fs, l) \<Rightarrow> (the l, fs)) ws"

lemma logged_kept: "kept (SetRotation maxSize maxFiles) ws (logged (SetRotation maxSize maxFiles) ws)"
proof (induction ws rule: rev_induct)
  case Nil
  show ?case by (auto simp: logged_def kept_def open_log_def no_fault_def rep_def file_of_def SetRotation_def intro!: exI [of _ "[[]]"])
next
  case (snoc w ws)
  then show ?case using write_line_kept [of "SetRotation maxSize maxFiles" ws] unfolding logged_def
    by (cases "logged (SetRotation maxSize maxFiles) ws") (simp add: logged_def SetRotation_def)
qed



text \<open>When id.log cannot be reopened after a rotation, every further line shifts the rotated files again,
  until none is left.\<close>

lemma failed_reopen_empties:
  "snd (foldl (\<lambda>s w. write_line (no_fault\<lparr>li_openFails := True\<rparr>) (SetRotation 4 3) w s)
     (\<lparr>lf_f = Linked, lf_size = 4, lf_refs = 1\<rparr>, [(0, ''new''), (1, ''old'')]) [''a'', ''b'', ''c'']) = []"
  by code_simp

text \<open>A size that does not fit an int64 wraps around, to a limit that was not asked for.\<close>

lemma ParseSize_wraps: "ParseSize ''17179869184g'' = Some 0"
  by (simp add: ParseSize_def wrap64_def atoi_def digits_val_def digit_val_def all_digits_def is_digit_def go_defs)

end
