(* ===== verification/Control_Ids.thy ===== *)
theory Control_Ids
  imports Compose_Parse Logs
begin

text \<open>
  Container ids at the daemon's socket (src/internal/control/resolve.go, src/internal/supervisor/displayid.go,
  generateContainerID of server.go): short ids, the resolution of what a user typed to a tracked container,
  the ids the daemon makes up, and the file name of a log. \<open>ids\<close> is what List returns, in the order of
  iteration of a Go map, so nothing may depend on it; \<open>sha\<close> is the hexadecimal SHA-256. Ids are taken as
  ASCII: a letter or digit outside it, which unicode.IsLetter and IsDigit accept in an id, is rejected by
  the model.
\<close>

section \<open>Short ids\<close>

definition DisplayID :: "(string \<Rightarrow> string) \<Rightarrow> string \<Rightarrow> string" where
  "DisplayID sha canonicalID = (if canonicalID = [] then [] else take 12 (sha canonicalID))"

definition is_hex :: "char \<Rightarrow> bool" where
  "is_hex c \<longleftrightarrow> is_digit c \<or> c \<in> set ''abcdefABCDEF''"

definition isAllHexDigits :: "string \<Rightarrow> bool" where
  "isAllHexDigits s \<longleftrightarrow> s \<noteq> [] \<and> list_all is_hex s"

section \<open>Resolution\<close>

datatype resolve_error = MissingID | NoSuchID string | AmbiguousID string "string list"

text \<open>\<open>None\<close>: the server has no supervisor.\<close>

definition resolve_short :: "(string \<Rightarrow> string) \<Rightarrow> string list \<Rightarrow> string \<Rightarrow> resolve_error + string" where
  "resolve_short sha ids raw =
     (if isAllHexDigits raw \<and> length raw \<ge> 1 \<and> length raw \<le> 12 then
        (case filter (\<lambda>i. has_prefix (to_lower (DisplayID sha i)) (to_lower raw)) ids of
           [i] \<Rightarrow> Inr i
         | [] \<Rightarrow> Inl (NoSuchID raw)
         | ms \<Rightarrow> Inl (AmbiguousID raw ms))
      else Inl (NoSuchID raw))"

definition resolve_prefix :: "(string \<Rightarrow> string) \<Rightarrow> string list \<Rightarrow> string \<Rightarrow> resolve_error + string" where
  "resolve_prefix sha ids raw =
     (case filter (\<lambda>i. has_prefix i raw) ids of
        [i] \<Rightarrow> Inr i
      | [] \<Rightarrow> resolve_short sha ids raw
      | ms \<Rightarrow> Inl (AmbiguousID raw ms))"

definition resolveContainerID :: "(string \<Rightarrow> string) \<Rightarrow> string list option \<Rightarrow> string \<Rightarrow> resolve_error + string" where
  "resolveContainerID sha tracked raw0 =
     (let raw = trim_space raw0
      in if raw = [] then Inl MissingID
         else case tracked of
                None \<Rightarrow> Inr raw
              | Some ids \<Rightarrow>
                  (case find (\<lambda>i. i = raw) ids of
                     Some i \<Rightarrow> Inr i
                   | None \<Rightarrow>
                       (case (if length raw = 12 \<and> isAllHexDigits raw
                              then find (\<lambda>i. equal_fold (DisplayID sha i) raw) ids else None) of
                          Some i \<Rightarrow> Inr i
                        | None \<Rightarrow> resolve_prefix sha ids raw)))"

definition id_char :: "char \<Rightarrow> bool" where
  "id_char c \<longleftrightarrow> is_letter c \<or> is_digit c \<or> c = CHR ''-'' \<or> c = CHR ''_''"

definition safeLogContainerID :: "string \<Rightarrow> bool" where
  "safeLogContainerID cid \<longleftrightarrow>
     cid \<noteq> [] \<and> length cid \<le> 256 \<and>
     list_all (\<lambda>r. \<not> (r = CHR ''.'' \<or> r = CHR ''/'' \<or> r = CHR 0x5C \<or> is_space r) \<and> id_char r) cid"

text \<open>\<open>ex\<close> says whether a file exists.\<close>

definition resolveContainerIDForLogs ::
  "(string \<Rightarrow> string) \<Rightarrow> (string \<Rightarrow> bool) \<Rightarrow> string \<Rightarrow> string list option \<Rightarrow> string \<Rightarrow> resolve_error + string" where
  "resolveContainerIDForLogs sha ex dataDir tracked raw0 =
     (case resolveContainerID sha tracked raw0 of
        Inr canon \<Rightarrow> Inr canon
      | Inl err \<Rightarrow>
          (case err of
             NoSuchID _ \<Rightarrow>
               (let raw = trim_space raw0
                in if tracked = None then Inl err
                   else if \<not> safeLogContainerID raw then Inl err
                   else if ex (path_join [dataDir, ''logs'', raw @ ''.log'']) then Inr raw
                   else Inl err)
           | _ \<Rightarrow> Inl err))"

definition containerInSupervisor :: "string list option \<Rightarrow> string \<Rightarrow> bool" where
  "containerInSupervisor tracked cid = (case tracked of None \<Rightarrow> False | Some ids \<Rightarrow> list_ex (\<lambda>x. x = cid) ids)"

definition resolve_status :: "resolve_error \<Rightarrow> int" where
  "resolve_status e = (case e of NoSuchID _ \<Rightarrow> 404 | AmbiguousID _ _ \<Rightarrow> 400 | MissingID \<Rightarrow> 500)"

section \<open>Generated ids\<close>

definition id_base_char :: "char \<Rightarrow> char" where
  "id_base_char r = (if id_char r then r else CHR ''-'')"

definition generateContainerID :: "string \<Rightarrow> nat \<Rightarrow> string" where
  "generateContainerID img now =
     (let base0 = trim_by (\<lambda>c. c = CHR ''-'') (map id_base_char img);
          base1 = (if length base0 > 48 then take 48 base0 else base0);
          base = (if base1 = [] then ''c'' else base1)
      in base @ ''-'' @ itoa_nat (now mod 1000000000))"

section \<open>What a name can mean\<close>

text \<open>The readings of a name in the order they are tried; the first that some tracked container has decides.\<close>

definition readings :: "(string \<Rightarrow> string) \<Rightarrow> string \<Rightarrow> (string \<Rightarrow> bool) list" where
  "readings sha raw =
     [\<lambda>i. i = raw,
      \<lambda>i. length raw = 12 \<and> isAllHexDigits raw \<and> equal_fold (DisplayID sha i) raw,
      \<lambda>i. has_prefix i raw,
      \<lambda>i. isAllHexDigits raw \<and> length raw \<le> 12 \<and> has_prefix (to_lower (DisplayID sha i)) (to_lower raw)]"

fun meant :: "(string \<Rightarrow> bool) list \<Rightarrow> string set \<Rightarrow> string set" where
  "meant [] ids = {}"
| "meant (p # ps) ids = (if (\<exists>i \<in> ids. p i) then {i \<in> ids. p i} else meant ps ids)"

lemma filter_single_iff:
  assumes "distinct xs"
  shows "filter p xs = [x] \<longleftrightarrow> {y \<in> set xs. p y} = {x}"
proof
  assume "filter p xs = [x]"
  then show "{y \<in> set xs. p y} = {x}" by (metis list.set(1,2) set_filter)
next
  assume s: "{y \<in> set xs. p y} = {x}"
  have "distinct (filter p xs)" "set (filter p xs) = {x}" using assms s by auto
  then have "length (filter p xs) = 1" by (metis card.empty card_insert_disjoint distinct_card empty_iff finite.emptyI One_nat_def)
  then obtain y where "filter p xs = [y]" by (auto simp: length_Suc_conv)
  with \<open>set (filter p xs) = {x}\<close> show "filter p xs = [x]" by simp
qed

lemma find_Some_mem: "find p xs = Some x \<Longrightarrow> x \<in> set xs \<and> p x"
  by (auto simp: find_Some_iff)

lemma find_meant:
  assumes "inj_on f {i \<in> set ids. p i}" and "\<And>i j. p i \<Longrightarrow> p j \<Longrightarrow> f i = f j" and "find p ids = Some i"
  shows "{i \<in> set ids. p i} = {i}"
proof -
  have i: "i \<in> set ids" "p i" using assms(3) by (auto simp: find_Some_iff)
  moreover have "j = i" if "j \<in> set ids" "p j" for j
    using inj_onD [OF assms(1) assms(2) [OF that(2) i(2)]] that i by simp
  ultimately show ?thesis by blast
qed

lemma resolve_short_iff:
  assumes "distinct ids" and "raw \<noteq> []"
  shows "resolve_short sha ids raw = Inr cid \<longleftrightarrow> meant (drop 3 (readings sha raw)) (set ids) = {cid}"
proof (cases "isAllHexDigits raw \<and> length raw \<le> 12")
  case True
  let ?p = "\<lambda>i. has_prefix (to_lower (DisplayID sha i)) (to_lower raw)"
  have "resolve_short sha ids raw = Inr cid \<longleftrightarrow> filter ?p ids = [cid]"
    using True assms(2) by (auto simp: resolve_short_def Suc_le_eq split: list.splits)
  also have "\<dots> \<longleftrightarrow> {i \<in> set ids. ?p i} = {cid}" by (rule filter_single_iff [OF assms(1)])
  finally show ?thesis
    using True by (cases "\<exists>i \<in> set ids. ?p i") (simp add: readings_def, simp add: readings_def, blast)
next
  case False
  then have "resolve_short sha ids raw = Inl (NoSuchID raw)" by (auto simp: resolve_short_def)
  moreover have "meant (drop 3 (readings sha raw)) (set ids) = {}" using False by (auto simp: readings_def)
  ultimately show ?thesis by simp
qed

lemma resolve_prefix_iff:
  assumes "distinct ids" and "raw \<noteq> []"
  shows "resolve_prefix sha ids raw = Inr cid \<longleftrightarrow> meant (drop 2 (readings sha raw)) (set ids) = {cid}"
proof (cases "\<exists>i \<in> set ids. has_prefix i raw")
  case True
  then have "filter (\<lambda>i. has_prefix i raw) ids \<noteq> []" by (simp add: filter_empty_conv)
  then have "resolve_prefix sha ids raw = Inr cid \<longleftrightarrow> filter (\<lambda>i. has_prefix i raw) ids = [cid]"
    by (auto simp: resolve_prefix_def split: list.splits)
  with True show ?thesis using filter_single_iff [OF assms(1)] by (simp add: readings_def)
next
  case False
  then have "filter (\<lambda>i. has_prefix i raw) ids = []" by (simp add: filter_empty_conv)
  with False resolve_short_iff [OF assms] show ?thesis by (simp add: readings_def resolve_prefix_def)
qed

section \<open>Safe names\<close>

lemma id_char_clean: "id_char c \<Longrightarrow> c \<noteq> CHR ''.'' \<and> c \<noteq> CHR ''/'' \<and> c \<noteq> CHR 0x5C \<and> \<not> is_space c"
  by (auto simp: id_char_def is_letter_def is_upper_def is_lower_def is_digit_def is_space_def Let_def)

lemma safe_iff: "safeLogContainerID cid \<longleftrightarrow> cid \<noteq> [] \<and> length cid \<le> 256 \<and> list_all id_char cid"
  using id_char_clean by (fastforce simp: safeLogContainerID_def list_all_iff)

lemma id_chars_plain:
  assumes "list_all id_char cid" and "cid \<noteq> []"
  shows "plain cid" and "plain (cid @ ''.log'')"
proof -
  have c: "CHR ''/'' \<notin> set cid" "CHR ''.'' \<notin> set cid" using assms(1) id_char_clean by (auto simp: list_all_iff)
  then show "plain cid" using assms(2) by (auto simp: plain_def)
  from c show "plain (cid @ ''.log'')" using assms(2) by (cases cid) (auto simp: plain_def)
qed

lemma itoa_nat_chars: "list_all id_char (itoa_nat n)"
  using itoa_nat_digits [of n] by (auto simp: all_digits_def list_all_iff id_char_def)

lemma itoa_nat_length: "n < 10 ^ k \<Longrightarrow> 0 < k \<Longrightarrow> length (itoa_nat n) \<le> k"
proof (induction n arbitrary: k rule: itoa_nat.induct)
  case (1 n)
  show ?case
  proof (cases "n < 10")
    case True
    then show ?thesis using 1(3) by (subst itoa_nat.simps) simp
  next
    case False
    from 1(3) obtain k' where k: "k = Suc k'" by (cases k) auto
    have "0 < k'" using 1(2) k False by (cases k') simp_all
    have "n div 10 < 10 ^ k'" using 1(2) k by (simp add: less_mult_imp_div_less mult.commute)
    with 1(1) [of k'] False k \<open>0 < k'\<close> show ?thesis by (subst itoa_nat.simps) simp
  qed
qed

lemma safe_generated: "safeLogContainerID (generateContainerID img now)"
proof -
  define base0 where "base0 = trim_by (\<lambda>c. c = CHR ''-'') (map id_base_char img)"
  define base where "base = (if take 48 base0 = [] then ''c'' else take 48 base0)"
  have gen: "generateContainerID img now = base @ ''-'' @ itoa_nat (now mod 1000000000)"
    by (auto simp: generateContainerID_def Let_def base_def base0_def [symmetric])
  have "list_all id_char (map id_base_char img)" by (auto simp: list_all_iff id_base_char_def id_char_def)
  then have "list_all id_char base0" using set_trim_by by (fastforce simp: base0_def list_all_iff)
  then have "list_all id_char (take 48 base0)" using set_take_subset by (fastforce simp: list_all_iff)
  moreover have "list_all id_char ''c''" by (simp add: id_char_def is_letter_def is_lower_def Let_def)
  ultimately have chars: "list_all id_char base" by (simp add: base_def)
  have "length (take 48 base0) \<le> 48" by simp
  then have "length base \<le> 48" by (simp add: base_def)
  moreover have "length (itoa_nat (now mod 1000000000)) \<le> 9" by (rule itoa_nat_length) simp_all
  ultimately have len: "length (generateContainerID img now) \<le> 256" unfolding gen by simp
  have "list_all id_char (generateContainerID img now)"
    unfolding gen using chars itoa_nat_chars by (simp add: id_char_def)
  with len gen show ?thesis unfolding safe_iff by simp
qed

lemma compose_id_chars: "list_all id_char (composeContainerID project svc) \<and> composeContainerID project svc \<noteq> []"
proof -
  have "list_all id_char (sanitizePathPart s)" for s
    using sanitize_chars [of s] by (auto simp: list_all_iff path_part_char_def id_char_def is_letter_def)
  then show ?thesis by (simp add: composeContainerID_def Let_def id_char_def)
qed

lemma log_path_in_dir:
  assumes "is_abs dataDir" and "list_all id_char cid" and "cid \<noteq> []"
  shows "log_path (path_join [dataDir, ''logs'']) cid = render_abs (path_elems dataDir @ [''logs'', cid @ ''.log''])"
proof -
  have p: "plain ''logs''" by (simp add: plain_def)
  have d: "path_join [dataDir, ''logs''] = render_abs (path_elems dataDir @ [''logs''])"
    using path_join_plain [OF assms(1), of "[''logs'']"] p by simp
  have "is_abs (render_abs (path_elems dataDir @ [''logs'']))" by (simp add: render_abs_def is_abs_def has_prefix_def)
  from path_join_plain [OF this, of "[cid @ ''.log'']"] id_chars_plain(2) [OF assms(2,3)] p show ?thesis
    by (simp add: log_path_def d)
qed

section \<open>Properties\<close>

text \<open>C38. What a user types names a container exactly when it means one: the first of exact id, short id, prefix of an
  id, prefix of a short id that some tracked container satisfies must be satisfied by one container only. The
  answer does not depend on the order in which the containers are listed; it needs that no two tracked
  containers have the same short id.\<close>

theorem resolve_unique:
  assumes "distinct ids" and "inj_on (\<lambda>i. to_lower (DisplayID sha i)) (set ids)" and "trim_space raw \<noteq> []"
  shows "resolveContainerID sha (Some ids) raw = Inr cid \<longleftrightarrow> meant (readings sha (trim_space raw)) (set ids) = {cid}"
proof -
  let ?r = "trim_space raw" and ?f = "\<lambda>i. to_lower (DisplayID sha i)"
  let ?s = "\<lambda>i. length ?r = 12 \<and> isAllHexDigits ?r \<and> equal_fold (DisplayID sha i) ?r"
  have fs: "(if length ?r = 12 \<and> isAllHexDigits ?r then find (\<lambda>i. equal_fold (DisplayID sha i) ?r) ids else None) = find ?s ids"
    by (auto intro!: sym [OF iffD2 [OF find_None_iff]])
  define rest where "rest = drop 2 (readings sha ?r)"
  have rd: "readings sha ?r = (\<lambda>i. i = ?r) # ?s # rest" by (simp add: readings_def rest_def)
  show ?thesis
  proof (cases "find (\<lambda>i. i = ?r) ids")
    case (Some i)
    have "{i \<in> set ids. i = ?r} = {i}"
      by (rule find_meant [where f = "\<lambda>i. i", OF _ _ Some]) (auto simp: inj_on_def)
    moreover from this have "\<exists>i \<in> set ids. i = ?r" by blast
    ultimately have "meant (readings sha ?r) (set ids) = {i}" unfolding rd meant.simps by (simp only: if_True)
    then show ?thesis using Some assms(3) by (auto simp: resolveContainerID_def)
  next
    case None
    then have n1: "\<not> (\<exists>i \<in> set ids. i = ?r)" by (auto simp: find_None_iff)
    show ?thesis
    proof (cases "find ?s ids")
      case (Some i)
      have "inj_on ?f {i \<in> set ids. ?s i}" using assms(2) by (rule inj_on_subset) blast
      then have "{i \<in> set ids. ?s i} = {i}"
        by (rule find_meant [OF _ _ Some]) (simp add: equal_fold_def)
      moreover from this have "\<exists>i \<in> set ids. ?s i" by blast
      ultimately have "meant (readings sha ?r) (set ids) = {i}" using n1 unfolding rd meant.simps by (simp only: if_True if_False)
      then show ?thesis using None Some assms(3) by (auto simp: resolveContainerID_def fs)
    next
      case none: None
      then have "\<not> (\<exists>i \<in> set ids. ?s i)" by (auto simp: find_None_iff)
      then have "meant (readings sha ?r) (set ids) = meant rest (set ids)"
        using n1 unfolding rd meant.simps by (simp only: if_False)
      moreover have "resolveContainerID sha (Some ids) raw = resolve_prefix sha ids ?r"
        using None none assms(3) by (simp add: resolveContainerID_def fs)
      ultimately show ?thesis using resolve_prefix_iff [OF assms(1,3)] by (simp add: rest_def)
    qed
  qed
qed

theorem resolve_unique_witness:
  "resolveContainerID (\<lambda>s. s @ ''0123456789ab'') (Some [''web-1'', ''web-2'']) ''web-1'' = Inr ''web-1''"
proof -
  have "inj_on (\<lambda>i. to_lower (DisplayID (\<lambda>s. s @ ''0123456789ab'') i)) (set [''web-1'', ''web-2''])"
    by (simp add: inj_on_def) code_simp
  moreover have "trim_space ''web-1'' \<noteq> []" "trim_space ''web-1'' = ''web-1''" by code_simp+
  ultimately show ?thesis
    using resolve_unique [of "[''web-1'', ''web-2'']" "\<lambda>s. s @ ''0123456789ab''" "''web-1''" "''web-1''"]
    by (auto simp: readings_def)
qed

text \<open>A request for logs reads a file of the log directory: whatever the client sends, the path is
  the directory followed by one name, provided the supervisor tracks no container whose id has other characters than
  letters, digits, dash and underscore.\<close>

theorem log_request_confined:
  assumes "resolveContainerIDForLogs sha ex dataDir (Some ids) raw = Inr cid" and "is_abs dataDir"
    and "list_all (\<lambda>i. i \<noteq> [] \<and> list_all id_char i) ids"
  shows "log_path (path_join [dataDir, ''logs'']) cid = render_abs (path_elems dataDir @ [''logs'', cid @ ''.log''])"
proof (rule log_path_in_dir [OF assms(2)])
  have "cid \<in> set ids \<or> safeLogContainerID cid"
  proof (cases "resolveContainerID sha (Some ids) raw")
    case (Inr c)
    have "c \<in> set ids" using Inr
      by (auto simp: resolveContainerID_def resolve_prefix_def resolve_short_def Let_def filter_eq_Cons_iff
          dest!: find_Some_mem split: if_splits option.splits list.splits)
    with Inr assms(1) show ?thesis by (simp add: resolveContainerIDForLogs_def)
  next
    case (Inl e)
    with assms(1) show ?thesis
      by (auto simp: resolveContainerIDForLogs_def Let_def split: resolve_error.splits if_splits)
  qed
  with assms(3) have "list_all id_char cid \<and> cid \<noteq> []" by (auto simp: list_all_iff safe_iff)
  then show "list_all id_char cid" "cid \<noteq> []" by simp_all
qed

theorem log_request_confined_witness:
  "log_path (path_join [''/var/lib/nyxd'', ''logs'']) ''job'' =
     render_abs (path_elems ''/var/lib/nyxd'' @ [''logs'', ''job.log''])"
proof -
  have "resolveContainerIDForLogs (\<lambda>s. s) (\<lambda>_. True) ''/var/lib/nyxd'' (Some []) ''job'' = Inr ''job''" by code_simp
  from log_request_confined [OF this] show ?thesis by (simp add: is_abs_def has_prefix_def)
qed

end
