(* ===== verification/Supervisor_Resources.thy ===== *)
theory Supervisor_Resources
  imports Supervisor
begin

text \<open>
  Which resources the supervisor holds for a container, read off its calls, and what every
  operation does to them: a start that fails releases everything it acquired, a start that
  succeeds holds what the network mode asks for, an exit releases it. The frame \<open>keeps i\<close> says that
  an operation on entry \<open>i\<close> leaves the configuration, the map and the other entries alone.
\<close>

section \<open>Held resources\<close>

fun holds :: "(call \<Rightarrow> bool) \<Rightarrow> (call \<Rightarrow> bool) \<Rightarrow> call list \<Rightarrow> bool" where
  "holds acq rel [] = False"
| "holds acq rel (c # cs) = (if acq c then True else if rel c then False else holds acq rel cs)"

definition overlay_held :: "string \<Rightarrow> call list \<Rightarrow> bool" where
  "overlay_held cid = holds (\<lambda>c. c = OvlPrepare cid) (\<lambda>c. c = OvlRemove cid)"

definition netns_held :: "string \<Rightarrow> call list \<Rightarrow> bool" where
  "netns_held cid = holds (\<lambda>c. c = NetNSCreate cid) (\<lambda>c. c = NetNSDelete cid)"

definition net_held :: "string \<Rightarrow> call list \<Rightarrow> bool" where
  "net_held cid = holds (\<lambda>c. c = NetSetup cid) (\<lambda>c. \<exists>ns. c = NetTeardown cid ns)"

definition idle :: "string \<Rightarrow> call list \<Rightarrow> bool" where
  "idle cid log \<longleftrightarrow> \<not> overlay_held cid log \<and> \<not> netns_held cid log \<and> \<not> net_held cid log"

text \<open>What a specification may hold: no namespace on the host network, no driver set-up for a container
  that opts into the host network under another driver.\<close>

definition fits :: "sup_config \<Rightarrow> container_spec \<Rightarrow> call list \<Rightarrow> bool" where
  "fits cfg spec log \<longleftrightarrow>
     (onHostNetwork cfg spec \<longrightarrow> \<not> netns_held (cs_id spec) log) \<and>
     (cs_hostNetwork spec \<and> \<not> hostNetwork cfg \<longrightarrow> \<not> net_held (cs_id spec) log)"

lemmas held_defs = overlay_held_def netns_held_def net_held_def

lemma held_Cons [simp]:
  "overlay_held cid (c # log) = (c = OvlPrepare cid \<or> c \<noteq> OvlRemove cid \<and> overlay_held cid log)"
  "netns_held cid (c # log) = (c = NetNSCreate cid \<or> c \<noteq> NetNSDelete cid \<and> netns_held cid log)"
  "net_held cid (c # log) = (c = NetSetup cid \<or> (\<forall>ns. c \<noteq> NetTeardown cid ns) \<and> net_held cid log)"
  by (auto simp: held_defs)

lemma idle_fits: "idle (cs_id spec) log \<Longrightarrow> fits cfg spec log"
  by (simp add: idle_def fits_def)

text \<open>Two logs agree on a container.\<close>

definition agree :: "string \<Rightarrow> call list \<Rightarrow> call list \<Rightarrow> bool" where
  "agree cid a b \<longleftrightarrow>
     overlay_held cid a = overlay_held cid b \<and> netns_held cid a = netns_held cid b \<and> net_held cid a = net_held cid b"

lemma agree_refl [simp]: "agree cid a a"
  by (simp add: agree_def)

lemma agree_trans: "agree cid a b \<Longrightarrow> agree cid b c \<Longrightarrow> agree cid a c"
  by (simp add: agree_def)

lemma agree_idle: "agree cid a b \<Longrightarrow> idle cid a = idle cid b"
  by (simp add: agree_def idle_def)

section \<open>The frame\<close>

definition keeps :: "nat \<Rightarrow> sup \<Rightarrow> sup \<Rightarrow> bool" where
  "keeps i s s' \<longleftrightarrow>
     sup_cfg s' = sup_cfg s \<and> sup_containers s' = sup_containers s \<and>
     length (sup_entries s') = length (sup_entries s) \<and>
     (\<forall>k. k \<noteq> i \<longrightarrow> sup_entries s' ! k = sup_entries s ! k) \<and>
     e_spec (sup_entries s' ! i) = e_spec (sup_entries s ! i) \<and>
     e_restarts (sup_entries s' ! i) = e_restarts (sup_entries s ! i) \<and>
     e_stopped (sup_entries s' ! i) = e_stopped (sup_entries s ! i) \<and>
     (\<forall>cid. cid \<noteq> cs_id (e_spec (sup_entries s ! i)) \<longrightarrow> agree cid (sup_log s') (sup_log s))"

lemma keeps_refl [simp]: "keeps i s s"
  by (simp add: keeps_def)

lemma keeps_trans [trans]: "keeps i s s' \<Longrightarrow> keeps i s' s'' \<Longrightarrow> keeps i s s''"
  unfolding keeps_def by (simp, blast intro: agree_trans)

lemma keeps_record:
  assumes "keeps i s s'" and "\<And>cid. cid \<noteq> cs_id (e_spec (sup_entries s ! i)) \<Longrightarrow> agree cid (c # sup_log s') (sup_log s')"
  shows "keeps i s (record_call c s')"
  using assms unfolding keeps_def record_call_def by (auto intro: agree_trans)

lemma keeps_upd:
  assumes "keeps i s s'" and "\<And>e. e_spec (f e) = e_spec e \<and> e_restarts (f e) = e_restarts e \<and> e_stopped (f e) = e_stopped e"
  shows "keeps i s (upd_entry i f s')"
  using assms unfolding keeps_def upd_entry_def
  by (cases "i < length (sup_entries s')") (auto simp: nth_list_update list_update_beyond)

lemma keepsD:
  assumes "keeps i s s'"
  shows "sup_cfg s' = sup_cfg s" and "sup_containers s' = sup_containers s"
    and "id_at s' i = id_at s i" and "e_spec (entry_at s' i) = e_spec (entry_at s i)"
    and "e_stopped (entry_at s' i) = e_stopped (entry_at s i)" and "e_restarts (entry_at s' i) = e_restarts (entry_at s i)"
    and "length (sup_entries s') = length (sup_entries s)"
    and "k \<noteq> i \<Longrightarrow> entry_at s' k = entry_at s k" and "id_at s' k = id_at s k"
    and "cid \<noteq> id_at s i \<Longrightarrow> agree cid (sup_log s') (sup_log s)"
  using assms by (cases "k = i"; simp add: keeps_def id_at_def entry_at_def)+

text \<open>Calls that concern no other container.\<close>

definition about :: "string \<Rightarrow> call \<Rightarrow> bool" where
  "about cid c = (case c of OvlPrepare x \<Rightarrow> x = cid | OvlRemove x \<Rightarrow> x = cid | NetNSCreate x \<Rightarrow> x = cid
     | NetNSDelete x \<Rightarrow> x = cid | NetSetup x \<Rightarrow> x = cid | NetTeardown x _ \<Rightarrow> x = cid | _ \<Rightarrow> True)"

lemma about_agree: "about cid' c \<Longrightarrow> cid \<noteq> cid' \<Longrightarrow> agree cid (c # log) log"
  by (cases c) (auto simp: about_def agree_def)

lemma keeps_call: "keeps i s s' \<Longrightarrow> about (id_at s i) c \<Longrightarrow> keeps i s (record_call c s')"
  by (rule keeps_record) (auto simp: id_at_def entry_at_def intro: about_agree)

lemma keeps_if: "keeps i s a \<Longrightarrow> keeps i s b \<Longrightarrow> keeps i s (if c then a else b)"
  by simp

lemmas keeps_intros = keeps_refl keeps_call keeps_upd keeps_if

lemma proj_simps [simp]:
  "sup_cfg (record_call c s) = sup_cfg s" "sup_entries (record_call c s) = sup_entries s"
  "sup_containers (record_call c s) = sup_containers s" "sup_log (record_call c s) = c # sup_log s"
  "sup_cfg (upd_entry i f s) = sup_cfg s" "sup_containers (upd_entry i f s) = sup_containers s"
  "sup_log (upd_entry i f s) = sup_log s" "length (sup_entries (upd_entry i f s)) = length (sup_entries s)"
  "sup_cfg (drop_id cid s) = sup_cfg s" "sup_entries (drop_id cid s) = sup_entries s"
  "sup_containers (drop_id cid s) = (sup_containers s)(cid := None)" "sup_log (drop_id cid s) = sup_log s"
  "entry_at (record_call c s) k = entry_at s k" "entry_at (drop_id cid s) k = entry_at s k"
  "id_at (record_call c s) k = id_at s k" "id_at (drop_id cid s) k = id_at s k"
  by (simp_all add: record_call_def upd_entry_def drop_id_def entry_at_def id_at_def)

lemma entry_upd [simp]:
  "i < length (sup_entries s) \<Longrightarrow> entry_at (upd_entry i f s) i = f (entry_at s i)"
  "k \<noteq> i \<Longrightarrow> entry_at (upd_entry i f s) k = entry_at s k"
  by (simp_all add: upd_entry_def entry_at_def)

lemma about_simps [simp]:
  "about cid (OvlPrepare x) = (x = cid)" "about cid (OvlRemove x) = (x = cid)"
  "about cid (NetNSCreate x) = (x = cid)" "about cid (NetNSDelete x) = (x = cid)"
  "about cid (NetSetup x) = (x = cid)" "about cid (NetTeardown x ns) = (x = cid)"
  "about cid (BundleGenerate d opts)" "about cid (BundleMeta d m)" "about cid (BundleRemove d)" "about cid (CrunRun x)"
  "about cid (CrunKill x sig)" "about cid (CrunDelete x b)" "about cid (CancelRun x)"
  "about cid (DnsRegister g h ip)" "about cid (DnsDeregister g h)" "about cid (PersistWrite x)"
  "about cid (PersistRemove x)" "about cid (LogsRemove x)" "about cid (HealthStart x)" "about cid (HealthStop x)"
  by (simp_all add: about_def)

section \<open>The helpers keep the frame\<close>

lemma keeps_helpers:
  assumes "keeps i s s'"
  shows "keeps i s (removeBundle d s')" and "keeps i s (removePersistedState x s')" and "keeps i s (removeLogs x s')"
    and "keeps i s (registerEmbeddedDNS spec ip s')" and "keeps i s (dnsDeregisterForSpec spec s')"
    and "keeps i s (stopHealth i s')" and "keeps i s (closeStdinHold i s')" and "keeps i s (resetLogIO i s')"
    and "keeps i s (startHealthMonitor i s')" and "keeps i s (ensureCrunIDFreeForFreshStart x p s')"
  using assms
  by (auto simp: removeBundle_def removePersistedState_def removeLogs_def registerEmbeddedDNS_def
      dnsDeregisterForSpec_def stopHealth_def closeStdinHold_def resetLogIO_def startHealthMonitor_def
      ensureCrunIDFreeForFreshStart_def intro!: keeps_intros split: option.splits crun_result.splits)

lemma keeps_release:
  assumes "keeps i s s'" and "cid = id_at s i"
  shows "keeps i s (teardownNetwork cid s')" and "keeps i s (releaseNetAndOverlay cid s')" and "keeps i s (abort_run cid s')"
proof -
  have t: "keeps i s (teardownNetwork cid s'')" if "keeps i s s''" for s''
    using that assms(2)
    by (auto simp: teardownNetwork_def intro!: keeps_intros keeps_helpers split: option.splits)
  from t [OF assms(1)] show "keeps i s (teardownNetwork cid s')" .
  then show "keeps i s (releaseNetAndOverlay cid s')"
    using assms(2) by (auto simp: releaseNetAndOverlay_def intro!: keeps_intros)
  from t [OF keeps_call [OF assms(1)]] show "keeps i s (abort_run cid s')"
    using assms(2) by (auto simp: abort_run_def releaseNetAndOverlay_def intro!: keeps_intros)
qed

lemma keeps_fast_exit:
  assumes "keeps i s s'"
  shows "keeps i s (finishForegroundFastExit i s')"
  using assms keepsD(3) [OF assms]
  by (auto simp: finishForegroundFastExit_def Let_def intro!: keeps_intros keeps_release keeps_helpers)

text \<open>What a release leaves: nothing, when what was held fits the specification.\<close>

lemma release_idle:
  assumes "sup_containers s cid = None \<or>
      (\<exists>i. sup_containers s cid = Some i \<and> cs_id (e_spec (entry_at s i)) = cid \<and>
           fits (sup_cfg s) (e_spec (entry_at s i)) (sup_log s))"
    and "hostNetwork (sup_cfg s) \<Longrightarrow> \<not> netns_held cid (sup_log s)"
  shows "idle cid (sup_log (releaseNetAndOverlay cid s))"
  using assms
  by (auto simp: releaseNetAndOverlay_def teardownNetwork_def idle_def fits_def onHostNetwork_def
      dnsDeregisterForSpec_def split: option.splits)

section \<open>startOnce\<close>

lemma start_acquire_keeps:
  assumes "start_acquire i env s = (s', r)"
  shows "keeps i s s'"
proof -
  have "keeps i s (fst (start_acquire i env s))"
    unfolding start_acquire_def Let_def
    by (auto simp: id_at_def intro!: keeps_intros split: option.splits sum.splits if_splits)
  with assms show ?thesis by simp
qed

lemma start_bundle_keeps:
  assumes "start_bundle i env user ns s = (s', r)"
  shows "keeps i s s'"
proof -
  have "keeps i s (fst (start_bundle i env user ns s))"
    unfolding start_bundle_def Let_def
    by (auto simp: id_at_def intro!: keeps_intros keeps_release split: option.splits sum.splits prod.splits)
  with assms show ?thesis by simp
qed

text \<open>The states start_run goes through: logging wired up, crun started, running.\<close>

definition run_wired :: "nat \<Rightarrow> sup \<Rightarrow> sup" where
  "run_wired i s = upd_entry i (\<lambda>e. e\<lparr>e_logCancel := True\<rparr>) (resetLogIO i s)"

definition run_begun :: "nat \<Rightarrow> sup \<Rightarrow> sup" where
  "run_begun i s = record_call (CrunRun (id_at s i))
     (if \<not> e_attached (entry_at (run_wired i s) i) \<and> cs_stdinOpen (e_spec (entry_at s i))
      then upd_entry i (\<lambda>e. e\<lparr>e_stdinHold := True\<rparr>) (run_wired i s) else run_wired i s)"

definition run_up :: "nat \<Rightarrow> string \<Rightarrow> sup \<Rightarrow> sup" where
  "run_up i ip s = registerEmbeddedDNS (e_spec (entry_at s i)) ip
     (upd_entry i (\<lambda>e. e\<lparr>e_runDone := True, e_exited := Some False\<rparr>) (run_begun i s))"

lemma start_run_cases:
  assumes "start_run i env ip s = (s', r)"
  obtains (aborted) e where "r = Inl e" and "s' = abort_run (id_at s i) (run_wired i s) \<or> s' = abort_run (id_at s i) (run_begun i s)"
  | (completed) "r = Inr True" and "s' = finishForegroundFastExit i (run_begun i s)"
  | (running) "r = Inr False" and "s' = record_call (PersistWrite (id_at s i)) (run_up i ip s) \<or> s' = run_up i ip s"
proof -
  have cid: "cs_id (e_spec (entry_at s i)) = id_at s i" by (simp add: id_at_def)
  show thesis
    using assms unfolding start_run_def Let_def run_wired_def [symmetric] cid run_begun_def [symmetric] run_up_def [symmetric]
    by (cases "se_pipes env"; auto split: option.splits start_outcome.splits if_splits intro: aborted completed running)
qed

lemma run_states_keep: "keeps i s (run_wired i s)" "keeps i s (run_begun i s)" "keeps i s (run_up i ip s)"
proof -
  show 1: "keeps i s (run_wired i s)"
    unfolding run_wired_def by (intro keeps_upd keeps_helpers keeps_refl) simp
  then show 2: "keeps i s (run_begun i s)"
    unfolding run_begun_def by (intro keeps_call keeps_if keeps_upd) simp_all
  then show "keeps i s (run_up i ip s)"
    unfolding run_up_def by (intro keeps_helpers keeps_upd) simp_all
qed

lemma start_run_keeps:
  assumes "start_run i env ip s = (s', r)"
  shows "keeps i s s'"
  using assms
proof (cases rule: start_run_cases)
  case (aborted e)
  then show ?thesis using keeps_release(3) [OF run_states_keep(1) refl] keeps_release(3) [OF run_states_keep(2) refl] by blast
next
  case completed
  then show ?thesis using keeps_fast_exit [OF run_states_keep(2)] by simp
next
  case running
  then show ?thesis using run_states_keep(3) keeps_call [OF run_states_keep(3)] by auto
qed

lemma startOnce_keeps:
  assumes "startOnce i env s = (s', r)"
  shows "keeps i s s'"
proof -
  obtain s1 r1 where a: "start_acquire i env s = (s1, r1)" by (cases "start_acquire i env s")
  note k1 = start_acquire_keeps [OF a]
  show ?thesis
  proof (cases r1)
    case (Inl e)
    with a assms k1 show ?thesis by (simp add: startOnce_def)
  next
    case (Inr v)
    obtain user ns ip where v: "v = (user, ns, ip)" by (cases v)
    obtain s2 r2 where b: "start_bundle i env user ns s1 = (s2, r2)" by (cases "start_bundle i env user ns s1")
    note k2 = keeps_trans [OF k1 start_bundle_keeps [OF b]]
    show ?thesis
    proof (cases r2)
      case None
      let ?s3 = "ensureCrunIDFreeForFreshStart (id_at s2 i) (se_stateProbe env) s2"
      from None a b Inr v assms have "start_run i env ip ?s3 = (s', r)" by (simp add: startOnce_def)
      from keeps_trans [OF keeps_helpers(10) [OF k2] start_run_keeps [OF this]] show ?thesis .
    next
      case (Some e)
      with a b Inr v assms k2 show ?thesis by (simp add: startOnce_def)
    qed
  qed
qed

text \<open>What is held after the first phase.\<close>

definition holds_as_asked :: "sup_config \<Rightarrow> container_spec \<Rightarrow> call list \<Rightarrow> bool" where
  "holds_as_asked cfg spec log \<longleftrightarrow>
     overlay_held (cs_id spec) log \<and> netns_held (cs_id spec) log = (\<not> onHostNetwork cfg spec) \<and>
     net_held (cs_id spec) log = (\<not> (cs_hostNetwork spec \<and> \<not> hostNetwork cfg))"

lemma holds_as_asked_fits: "holds_as_asked cfg spec log \<Longrightarrow> fits cfg spec log"
  by (simp add: holds_as_asked_def fits_def)

lemma start_acquire_held:
  assumes "start_acquire i env s = (s', r)" and "idle (id_at s i) (sup_log s)"
  shows "case r of Inl e \<Rightarrow> idle (id_at s i) (sup_log s')
     | Inr v \<Rightarrow> holds_as_asked (sup_cfg s) (e_spec (entry_at s i)) (sup_log s')"
proof -
  have "case snd (start_acquire i env s) of Inl e \<Rightarrow> idle (id_at s i) (sup_log (fst (start_acquire i env s)))
     | Inr v \<Rightarrow> holds_as_asked (sup_cfg s) (e_spec (entry_at s i)) (sup_log (fst (start_acquire i env s)))"
    using assms(2) unfolding start_acquire_def Let_def
    by (auto simp: idle_def holds_as_asked_def id_at_def onHostNetwork_def split: option.splits sum.splits if_splits)
  then show ?thesis unfolding assms(1) by (cases r) simp_all
qed

text \<open>A log that grew by calls without effect on resources.\<close>

lemma agree_holds_as_asked:
  "agree (cs_id spec) a b \<Longrightarrow> holds_as_asked cfg spec a = holds_as_asked cfg spec b"
  by (simp add: agree_def holds_as_asked_def)

lemma release_asked_idle:
  assumes "sup_containers s (id_at s i) = Some i" and "holds_as_asked (sup_cfg s) (e_spec (entry_at s i)) (sup_log s)"
  shows "idle (id_at s i) (sup_log (releaseNetAndOverlay (id_at s i) s))"
proof (rule release_idle)
  show "sup_containers s (id_at s i) = None \<or>
      (\<exists>k. sup_containers s (id_at s i) = Some k \<and> cs_id (e_spec (entry_at s k)) = id_at s i \<and>
           fits (sup_cfg s) (e_spec (entry_at s k)) (sup_log s))"
    using assms holds_as_asked_fits by (auto simp: id_at_def)
  show "\<not> netns_held (id_at s i) (sup_log s)" if "hostNetwork (sup_cfg s)"
    using that assms(2) by (simp add: holds_as_asked_def onHostNetwork_def id_at_def)
qed

lemma start_bundle_held:
  assumes "start_bundle i env user ns s = (s', r)" and "sup_containers s (id_at s i) = Some i"
    and "holds_as_asked (sup_cfg s) (e_spec (entry_at s i)) (sup_log s)"
  shows "case r of Some e \<Rightarrow> idle (id_at s i) (sup_log s')
     | None \<Rightarrow> holds_as_asked (sup_cfg s) (e_spec (entry_at s i)) (sup_log s')"
proof -
  note idle = release_asked_idle [OF assms(2,3)]
  have "case snd (start_bundle i env user ns s) of Some e \<Rightarrow> idle (id_at s i) (sup_log (fst (start_bundle i env user ns s)))
     | None \<Rightarrow> holds_as_asked (sup_cfg s) (e_spec (entry_at s i)) (sup_log (fst (start_bundle i env user ns s)))"
    using idle assms(3) unfolding start_bundle_def Let_def
    by (auto simp: id_at_def holds_as_asked_def split: option.splits sum.splits prod.splits)
  then show ?thesis unfolding assms(1) by (cases r) simp_all
qed

text \<open>Operations that touch no resource.\<close>

definition neutral :: "call \<Rightarrow> bool" where
  "neutral c \<longleftrightarrow> (\<forall>cid. about cid c)"

lemma neutral_agree: "neutral c \<Longrightarrow> agree cid (c # log) log"
  by (cases c) (auto simp: neutral_def agree_def about_def)

lemma neutral_simps [simp]:
  "neutral (BundleGenerate d opts)" "neutral (BundleMeta d m)" "neutral (BundleRemove d)" "neutral (CrunRun x)" "neutral (CrunKill x sig)"
  "neutral (CrunDelete x b)" "neutral (CancelRun x)" "neutral (DnsRegister g h ip)" "neutral (DnsDeregister g h)"
  "neutral (PersistWrite x)" "neutral (PersistRemove x)" "neutral (LogsRemove x)" "neutral (HealthStart x)"
  "neutral (HealthStop x)"
  by (simp_all add: neutral_def)

lemma neutral_helpers [simp]:
  "agree cid (sup_log (removeBundle d s)) (sup_log s)"
  "agree cid (sup_log (removePersistedState x s)) (sup_log s)"
  "agree cid (sup_log (removeLogs x s)) (sup_log s)"
  "agree cid (sup_log (registerEmbeddedDNS spec ip s)) (sup_log s)"
  "agree cid (sup_log (dnsDeregisterForSpec spec s)) (sup_log s)"
  "agree cid (sup_log (stopHealth i s)) (sup_log s)"
  "agree cid (sup_log (closeStdinHold i s)) (sup_log s)"
  "agree cid (sup_log (resetLogIO i s)) (sup_log s)"
  "agree cid (sup_log (startHealthMonitor i s)) (sup_log s)"
  "agree cid (sup_log (ensureCrunIDFreeForFreshStart x p s)) (sup_log s)"
  by (auto simp: removeBundle_def removePersistedState_def removeLogs_def registerEmbeddedDNS_def
      dnsDeregisterForSpec_def stopHealth_def closeStdinHold_def resetLogIO_def startHealthMonitor_def
      ensureCrunIDFreeForFreshStart_def neutral_agree split: option.splits crun_result.splits)

lemma asked_step:
  assumes "keeps i s s'" and "agree (id_at s i) (sup_log s') (sup_log s)"
    and "sup_containers s (id_at s i) = Some i" and "holds_as_asked (sup_cfg s) (e_spec (entry_at s i)) (sup_log s)"
  shows "sup_containers s' (id_at s' i) = Some i \<and> holds_as_asked (sup_cfg s') (e_spec (entry_at s' i)) (sup_log s')"
  using assms keepsD [OF assms(1)] agree_holds_as_asked [of "e_spec (entry_at s i)" "sup_log s'" "sup_log s"]
  by (simp add: id_at_def)

lemma abort_run_idle:
  assumes "keeps i s s'" and "agree (id_at s i) (sup_log s') (sup_log s)"
    and "sup_containers s (id_at s i) = Some i" and "holds_as_asked (sup_cfg s) (e_spec (entry_at s i)) (sup_log s)"
  shows "idle (id_at s i) (sup_log (abort_run (id_at s i) s'))"
proof -
  let ?s1 = "record_call (CancelRun (id_at s i)) s'"
  have "keeps i s ?s1" using assms(1) by (auto intro: keeps_call)
  moreover have "agree (id_at s i) (sup_log ?s1) (sup_log s)"
    using agree_trans [OF neutral_agree assms(2)] by simp
  ultimately have "sup_containers ?s1 (id_at ?s1 i) = Some i"
    and "holds_as_asked (sup_cfg ?s1) (e_spec (entry_at ?s1 i)) (sup_log ?s1)"
    using asked_step [OF _ _ assms(3,4)] by blast+
  from release_asked_idle [OF this] keepsD(3) [OF \<open>keeps i s ?s1\<close>] show ?thesis
    by (simp add: abort_run_def)
qed

lemma fast_exit_idle:
  assumes "sup_containers s (id_at s i) = Some i" and "holds_as_asked (sup_cfg s) (e_spec (entry_at s i)) (sup_log s)"
  shows "idle (id_at s i) (sup_log (finishForegroundFastExit i s))"
proof -
  let ?s1 = "closeStdinHold i (resetLogIO i s)"
  have k: "keeps i s ?s1" by (intro keeps_helpers keeps_refl)
  have "agree (id_at s i) (sup_log ?s1) (sup_log s)"
    by (rule agree_trans [OF neutral_helpers(7) neutral_helpers(8)])
  note a = asked_step [OF k this assms]
  from release_asked_idle [OF conjunct1 [OF a] conjunct2 [OF a]] keepsD(3) [OF k] show ?thesis
    by (simp add: finishForegroundFastExit_def Let_def idle_def)
qed

lemma run_states_agree:
  "agree cid (sup_log (run_wired i s)) (sup_log s)"
  "agree cid (sup_log (run_begun i s)) (sup_log s)"
  "agree cid (sup_log (run_up i ip s)) (sup_log s)"
proof -
  show 1: "agree cid (sup_log (run_wired i s)) (sup_log s)" by (simp add: run_wired_def)
  show 2: "agree cid (sup_log (run_begun i s)) (sup_log s)"
    using agree_trans [OF neutral_agree 1] by (simp add: run_begun_def)
  let ?s = "upd_entry i (\<lambda>e. e\<lparr>e_runDone := True, e_exited := Some False\<rparr>) (run_begun i s)"
  have "agree cid (sup_log ?s) (sup_log s)" using 2 by simp
  from agree_trans [OF neutral_helpers(4) this] show "agree cid (sup_log (run_up i ip s)) (sup_log s)"
    by (simp add: run_up_def)
qed

lemma start_run_held:
  assumes "start_run i env ip s = (s', r)" and "sup_containers s (id_at s i) = Some i"
    and "holds_as_asked (sup_cfg s) (e_spec (entry_at s i)) (sup_log s)"
  shows "if r = Inr False then holds_as_asked (sup_cfg s) (e_spec (entry_at s i)) (sup_log s')
     else idle (id_at s i) (sup_log s')"
  using assms(1)
proof (cases rule: start_run_cases)
  case (aborted e)
  then show ?thesis
    using abort_run_idle [OF run_states_keep(1) run_states_agree(1) assms(2,3)]
      abort_run_idle [OF run_states_keep(2) run_states_agree(2) assms(2,3)] by auto
next
  case completed
  then show ?thesis
    using asked_step [OF run_states_keep(2) run_states_agree(2) assms(2,3)] fast_exit_idle [of "run_begun i s" i]
      keepsD(3) [OF run_states_keep(2), of i s] by auto
next
  case running
  have "agree (id_at s i) (sup_log s') (sup_log s)"
    using running(2) run_states_agree(3) agree_trans [OF neutral_agree run_states_agree(3)] by auto
  then show ?thesis
    using running(1) assms(3) agree_holds_as_asked [of "e_spec (entry_at s i)" "sup_log s'" "sup_log s"]
    by (simp add: id_at_def)
qed

text \<open>All of startOnce: after an error, or an exit during the start, nothing is held; while the
  container runs, what its network mode asks for is held.\<close>

lemma startOnce_held:
  assumes "startOnce i env s = (s', r)" and "sup_containers s (id_at s i) = Some i" and "idle (id_at s i) (sup_log s)"
  shows "if r = Inr False then holds_as_asked (sup_cfg s) (e_spec (entry_at s i)) (sup_log s')
     else idle (id_at s i) (sup_log s')"
proof -
  obtain s1 r1 where a: "start_acquire i env s = (s1, r1)" by (cases "start_acquire i env s")
  note k1 = start_acquire_keeps [OF a] and h1 = start_acquire_held [OF a assms(3)]
  note d1 = keepsD [OF k1]
  show ?thesis
  proof (cases r1)
    case (Inl e)
    with a assms(1) h1 show ?thesis by (auto simp: startOnce_def)
  next
    case (Inr v)
    obtain user ns ip where v: "v = (user, ns, ip)" by (cases v)
    obtain s2 r2 where b: "start_bundle i env user ns s1 = (s2, r2)" by (cases "start_bundle i env user ns s1")
    from h1 Inr d1 assms(2) have pre: "sup_containers s1 (id_at s1 i) = Some i"
      "holds_as_asked (sup_cfg s1) (e_spec (entry_at s1 i)) (sup_log s1)" by simp_all
    note h2 = start_bundle_held [OF b pre] and k2 = start_bundle_keeps [OF b]
    show ?thesis
    proof (cases r2)
      case None
      define s3 where "s3 = ensureCrunIDFreeForFreshStart (id_at s2 i) (se_stateProbe env) s2"
      have k3: "keeps i s1 s3" unfolding s3_def by (rule keeps_helpers(10) [OF k2])
      have run: "start_run i env ip s3 = (s', r)" using None a b Inr v assms(1) by (simp add: startOnce_def s3_def)
      have "holds_as_asked (sup_cfg s1) (e_spec (entry_at s1 i)) (sup_log s3)"
        unfolding s3_def agree_holds_as_asked [OF neutral_helpers(10)] using h2 None by simp
      then have "sup_containers s3 (id_at s3 i) = Some i"
        "holds_as_asked (sup_cfg s3) (e_spec (entry_at s3 i)) (sup_log s3)"
        using keepsD(1-4) [OF k3] pre(1) by simp_all
      from start_run_held [OF run this] show ?thesis
        unfolding keepsD(1) [OF k3] keepsD(3) [OF k3] keepsD(4) [OF k3] d1(1,3,4) .
    next
      case (Some e)
      with a b Inr v assms(1) h2 d1 show ?thesis by (auto simp: startOnce_def)
    qed
  qed
qed

end
