(* ===== verification/Supervisor_System.thy ===== *)
theory Supervisor_System
  imports Supervisor_Resources Transition_Systems
begin

text \<open>
  The supervisor as a system of interleaved goroutines: one supervise goroutine per started
  container and any number of callers of Start, Stop, Kill, KillForRestart and Remove. A step of
  the relation is one section of a goroutine between two points where it waits (for the container
  to exit, for a delay, for the foreground run to end); the sections are the definitions of the
  previous theories. Start is one step, its readiness wait included, and RunAttached, which blocks
  its caller for the whole life of the container, is left out.
\<close>

record conf =
  c_sup :: sup
  c_pc :: "nat \<Rightarrow> sv_pc"

datatype label =
    LStart string | LExit nat | LWake nat | LStop string | LKill string | LUnmark nat | LPoll nat | LRemove string

definition mk_conf :: "sup \<Rightarrow> (nat \<Rightarrow> sv_pc) \<Rightarrow> conf" where
  "mk_conf s pc = \<lparr>c_sup = s, c_pc = pc\<rparr>"

inductive step :: "conf \<Rightarrow> label \<Rightarrow> conf \<Rightarrow> bool" where
  start: "Start env rdy w spec s = (s', StartSupervised i) \<Longrightarrow>
    step (mk_conf s pc) (LStart (cs_id spec)) (mk_conf s' (pc(i := SvWait)))"
| start_over: "Start env rdy w spec s = (s', r) \<Longrightarrow> (\<And>i. r \<noteq> StartSupervised i) \<Longrightarrow>
    step (mk_conf s pc) (LStart (cs_id spec)) (mk_conf s' pc)"
| exit: "pc i = SvWait \<Longrightarrow> supervise_exit i code s = (s', p) \<Longrightarrow>
    step (mk_conf s pc) (LExit i) (mk_conf s' (pc(i := p)))"
| wake: "pc i \<in> {SvBackoff, SvRetry} \<Longrightarrow> supervise_restart i env s = (s', p) \<Longrightarrow>
    step (mk_conf s pc) (LWake i) (mk_conf s' (pc(i := p)))"
| stop: "sup_containers s cid = Some i \<Longrightarrow> stop_signals env i (set_stopped i True s) = (s', r) \<Longrightarrow>
    step (mk_conf s pc) (LStop cid) (mk_conf s' pc)"
| kill: "sup_containers s cid = Some i \<Longrightarrow>
    step (mk_conf s pc) (LKill cid) (mk_conf (record_call (CrunKill cid sig) (set_stopped i True s)) pc)"
| kill_restart: "sup_containers s cid = Some i \<Longrightarrow>
    step (mk_conf s pc) (LKill cid) (mk_conf (record_call (CrunKill cid sig) s) pc)"
| unmark: "i < length (sup_entries s) \<Longrightarrow>
    step (mk_conf s pc) (LUnmark i) (mk_conf (set_stopped i False s) pc)"
| poll: "i < length (sup_entries s) \<Longrightarrow> stop_poll w i s = (s', r) \<Longrightarrow>
    step (mk_conf s pc) (LPoll i) (mk_conf s' pc)"
| remove: "i < length (sup_entries s) \<Longrightarrow> id_at s i = cid \<Longrightarrow>
    step (mk_conf s pc) (LRemove cid) (mk_conf (remove_rest cid i s) pc)"

inductive_cases step_cases: "step (mk_conf s pc) l c'"

section \<open>Well-formedness and bounded restarts\<close>

definition wf_map :: "sup \<Rightarrow> bool" where
  "wf_map s \<longleftrightarrow> (\<forall>cid i. sup_containers s cid = Some i \<longrightarrow> i < length (sup_entries s) \<and> id_at s i = cid)"

definition restarts_ok :: "entry \<Rightarrow> bool" where
  "restarts_ok e \<longleftrightarrow> 0 \<le> e_restarts e \<and>
     (0 < cs_maxRestarts (e_spec e) \<longrightarrow> e_restarts e \<le> cs_maxRestarts (e_spec e))"

definition sys_inv :: "conf \<Rightarrow> bool" where
  "sys_inv c \<longleftrightarrow>
     wf_map (c_sup c) \<and>
     (\<forall>i. c_pc c i \<noteq> SvDone \<longrightarrow> i < length (sup_entries (c_sup c))) \<and>
     (\<forall>cid i. sup_containers (c_sup c) cid = Some i \<longrightarrow> c_pc c i \<noteq> SvDone) \<and>
     (\<forall>i < length (sup_entries (c_sup c)). restarts_ok (entry_at (c_sup c) i))"

text \<open>An operation that keeps the entries' identities and restart counts, and at most drops names.\<close>

definition narrows :: "sup \<Rightarrow> sup \<Rightarrow> bool" where
  "narrows s s' \<longleftrightarrow>
     sup_cfg s' = sup_cfg s \<and> length (sup_entries s') = length (sup_entries s) \<and>
     (\<forall>k. e_spec (entry_at s' k) = e_spec (entry_at s k) \<and> e_restarts (entry_at s' k) = e_restarts (entry_at s k)) \<and>
     (\<forall>cid i. sup_containers s' cid = Some i \<longrightarrow> sup_containers s cid = Some i)"

lemma narrows_refl [simp]: "narrows s s"
  by (simp add: narrows_def)

lemma narrows_trans [trans]: "narrows s s' \<Longrightarrow> narrows s' s'' \<Longrightarrow> narrows s s''"
  by (simp add: narrows_def)

lemma keeps_narrows: "keeps i s s' \<Longrightarrow> narrows s s'"
proof -
  assume k: "keeps i s s'"
  have "e_spec (entry_at s' n) = e_spec (entry_at s n) \<and> e_restarts (entry_at s' n) = e_restarts (entry_at s n)" for n
    using keepsD(4,6) [OF k] keepsD(8) [OF k, of n] by (cases "n = i") auto
  with k show ?thesis by (simp add: narrows_def keeps_def)
qed

lemma narrows_drop: "narrows s (drop_id cid s)"
  by (simp add: narrows_def)

lemma narrows_stopped: "narrows s (set_stopped i b s)"
proof -
  have "entry_at (set_stopped i b s) k = (if k = i \<and> i < length (sup_entries s)
      then (entry_at s i)\<lparr>e_stopped := b\<rparr> else entry_at s k)" for k
    by (auto simp: set_stopped_def upd_entry_def entry_at_def nth_list_update list_update_beyond)
  then show ?thesis by (simp add: narrows_def set_stopped_def)
qed

lemma narrows_call: "narrows s (record_call c s)"
  by (simp add: narrows_def)

lemma narrows_id: "narrows s s' \<Longrightarrow> id_at s' k = id_at s k"
  by (simp add: narrows_def id_at_def)

lemma narrows_inv:
  assumes "sys_inv (mk_conf s pc)" and "narrows s s'"
  shows "sys_inv (mk_conf s' pc)"
  using assms unfolding sys_inv_def narrows_def wf_map_def restarts_ok_def mk_conf_def id_at_def
  by (simp, blast)

section \<open>Each section narrows\<close>

lemma narrows_helpers:
  "narrows s (removeBundle d s)" "narrows s (removePersistedState x s)" "narrows s (removeLogs x s)"
  "narrows s (closeStdinHold i s)" "narrows s (stopHealth i s)" "narrows s (resetLogIO i s)"
  "narrows s (startHealthMonitor i s)" "narrows s (dnsDeregisterForSpec spec s)"
  by (rule keeps_narrows [of i], rule keeps_helpers, rule keeps_refl)+

lemma narrows_teardown: "narrows s (teardownNetwork cid s)" "narrows s (releaseNetAndOverlay cid s)"
proof -
  show 1: "narrows s (teardownNetwork cid s)"
    using narrows_helpers(8)
    by (auto simp: teardownNetwork_def split: option.splits intro!: narrows_trans [OF _ narrows_call] narrows_call)
  show "narrows s (releaseNetAndOverlay cid s)"
    unfolding releaseNetAndOverlay_def by (rule narrows_trans [OF 1 narrows_call])
qed

lemma narrows_wait: "waitStoppedOrForceDelete cid w s = (s', r) \<Longrightarrow> narrows s s'"
  by (auto simp: waitStoppedOrForceDelete_def narrows_call split: if_splits)

lemmas narrows_then = narrows_trans [OF _ narrows_helpers(1)] narrows_trans [OF _ narrows_helpers(2)]
  narrows_trans [OF _ narrows_helpers(3)] narrows_trans [OF _ narrows_helpers(4)] narrows_trans [OF _ narrows_helpers(5)]
  narrows_trans [OF _ narrows_helpers(6)] narrows_trans [OF _ narrows_helpers(7)] narrows_trans [OF _ narrows_helpers(8)]
  narrows_trans [OF _ narrows_drop] narrows_trans [OF _ narrows_call] narrows_trans [OF _ narrows_teardown(2)]

lemma narrows_finish: "narrows s (finishExited i s)" "narrows s (forget i s)" "narrows s (cleanup i s)"
  by (simp_all add: finishExited_def forget_def cleanup_def Let_def narrows_then)

lemma narrows_remove: "narrows s (remove_rest cid i s)"
  by (simp add: remove_rest_def Let_def narrows_then narrows_trans [OF _ narrows_finish(3)] split: option.split)

lemma narrows_stop_signals: "stop_signals env i s = (s', r) \<Longrightarrow> narrows s s'"
  by (auto simp: stop_signals_def Let_def split: crun_result.splits
      intro: narrows_call narrows_trans [OF narrows_call narrows_call]
        narrows_trans [OF narrows_trans [OF narrows_call narrows_call] narrows_stopped])

lemma narrows_stop_poll:
  assumes "stop_poll w i s = (s', r)"
  shows "narrows s s'"
proof -
  obtain s1 r1 where w: "waitStoppedOrForceDelete (id_at s i) w (resetLogIO i s) = (s1, r1)"
    by (cases "waitStoppedOrForceDelete (id_at s i) w (resetLogIO i s)")
  have "narrows s s1" by (rule narrows_trans [OF narrows_helpers(6) narrows_wait [OF w]])
  with assms w narrows_trans [OF this narrows_stopped] show ?thesis
    by (auto simp: stop_poll_def split: option.splits)
qed

section \<open>The system invariant\<close>

lemma add_entry_simps:
  "sup_cfg (add_entry spec b s) = sup_cfg s"
  "length (sup_entries (add_entry spec b s)) = Suc (length (sup_entries s))"
  "entry_at (add_entry spec b s) (length (sup_entries s)) = new_entry spec b"
  "k < length (sup_entries s) \<Longrightarrow> entry_at (add_entry spec b s) k = entry_at s k"
  "sup_containers (add_entry spec b s) = (sup_containers s)(cs_id spec \<mapsto> length (sup_entries s))"
  "sup_log (add_entry spec b s) = sup_log s"
  "id_at (add_entry spec b s) (length (sup_entries s)) = cs_id spec"
  by (simp_all add: add_entry_def entry_at_def id_at_def nth_append new_entry_def)

text \<open>The four ways Start ends.\<close>

lemma Start_cases:
  assumes "Start env rdy w spec0 s = (s', res)"
  obtains (exists) "s' = s" and "res = StartFailed (AlreadyRunning (cs_id spec0))"
      and "sup_containers s (cs_id spec0) \<noteq> None"
  | (failed) e s1 where "sup_containers s (cs_id spec0) = None" and "res = StartFailed e"
      and "startOnce (length (sup_entries s)) env (add_entry (normalize_spec spec0) False s) = (s1, Inl e)"
      and "s' = removeBundle (path_join [cfg_baseDir (sup_cfg s), ''bundles'', cs_id spec0]) (drop_id (cs_id spec0) s1)"
  | (completed) s1 where "sup_containers s (cs_id spec0) = None" and "res = StartCompleted"
      and "startOnce (length (sup_entries s)) env (add_entry (normalize_spec spec0) False s) = (s1, Inr True)"
      and "s' = (let s2 = removeBundle (e_bundleDir (entry_at s1 (length (sup_entries s))))
              (removePersistedState (cs_id spec0) (drop_id (cs_id spec0) s1))
            in if cs_autoRemove spec0 then removeLogs (cs_id spec0) s2 else s2)"
  | (unready) s1 where "sup_containers s (cs_id spec0) = None" and "res = StartFailed Readiness"
      and "startOnce (length (sup_entries s)) env (add_entry (normalize_spec spec0) False s) = (s1, Inr False)"
      and "s' = removePersistedState (cs_id spec0)
              (drop_id (cs_id spec0) (abortAfterFailedReadiness (length (sup_entries s)) w s1))"
  | (supervised) s1 where "sup_containers s (cs_id spec0) = None" and "res = StartSupervised (length (sup_entries s))"
      and "startOnce (length (sup_entries s)) env (add_entry (normalize_spec spec0) False s) = (s1, Inr False)"
      and "s' = startHealthMonitor (length (sup_entries s)) s1"
proof -
  have norm: "cs_id (normalize_spec spec0) = cs_id spec0" "cs_autoRemove (normalize_spec spec0) = cs_autoRemove spec0"
    by (simp_all add: normalize_spec_def)
  obtain s1 r1 where so: "startOnce (length (sup_entries s)) env (add_entry (normalize_spec spec0) False s) = (s1, r1)"
    by (cases "startOnce (length (sup_entries s)) env (add_entry (normalize_spec spec0) False s)")
  show ?thesis
  proof (cases "sup_containers s (cs_id spec0)")
    case (Some k)
    with assms have "s' = s" "res = StartFailed (AlreadyRunning (cs_id spec0))" by (simp_all add: Start_def Let_def norm)
    with Some show ?thesis by (intro exists) simp_all
  next
    case None
    consider (f) e where "r1 = Inl e" | (c) "r1 = Inr True"
      | (u) "r1 = Inr False" "cs_healthcheck (normalize_spec spec0) \<noteq> None \<and> rdy \<noteq> Ready"
      | (o) "r1 = Inr False" "\<not> (cs_healthcheck (normalize_spec spec0) \<noteq> None \<and> rdy \<noteq> Ready)"
      by (cases r1) (blast, metis (full_types))
    then show ?thesis
    proof cases
      case f
      with assms None so show ?thesis by (intro failed [of e s1]) (simp_all add: Start_def Let_def norm)
    next
      case c
      with assms None so show ?thesis by (intro completed [of s1]) (auto simp: Start_def Let_def norm)
    next
      case u
      with assms None so show ?thesis by (intro unready [of s1]) (simp_all add: Start_def Let_def norm)
    next
      case o
      from assms None so o have "s' = startHealthMonitor (length (sup_entries s)) s1"
        "res = StartSupervised (length (sup_entries s))"
        by (auto simp: Start_def Let_def norm split: if_splits)
      with None so o show ?thesis by (intro supervised [of s1]) simp_all
    qed
  qed
qed

lemma narrows_abort: "narrows s (abortAfterFailedReadiness i w s)"
proof -
  obtain s1 r where w: "waitStoppedOrForceDelete (id_at s i) w (record_call (CrunKill (id_at s i) ''KILL'') (resetLogIO i s)) = (s1, r)"
    by (cases "waitStoppedOrForceDelete (id_at s i) w (record_call (CrunKill (id_at s i) ''KILL'') (resetLogIO i s))")
  have "narrows s s1"
    by (rule narrows_trans [OF _ narrows_wait [OF w]]) (simp add: narrows_then)
  with w show ?thesis
    by (simp add: abortAfterFailedReadiness_def Let_def narrows_then)
qed

text \<open>Start appends at most one entry, whose restart count is zero, and names at most that one.\<close>

lemma Start_frame:
  assumes "Start env rdy w spec s = (s', res)" and "wf_map s"
  shows "\<exists>n. sup_cfg s' = sup_cfg s \<and>
     length (sup_entries s') = length (sup_entries s) + n \<and> n \<le> 1 \<and>
     (\<forall>k < length (sup_entries s). e_spec (entry_at s' k) = e_spec (entry_at s k) \<and>
        e_restarts (entry_at s' k) = e_restarts (entry_at s k)) \<and>
     (n = 1 \<longrightarrow> e_spec (entry_at s' (length (sup_entries s))) = normalize_spec spec \<and>
        e_restarts (entry_at s' (length (sup_entries s))) = 0) \<and>
     (case res of
        StartSupervised i \<Rightarrow> n = 1 \<and> i = length (sup_entries s) \<and> sup_containers s (cs_id spec) = None \<and>
          sup_containers s' = (sup_containers s)(cs_id spec \<mapsto> i)
      | _ \<Rightarrow> sup_containers s' = sup_containers s)"
proof -
  let ?i = "length (sup_entries s)"
  let ?a = "add_entry (normalize_spec spec) False s"
  have nid: "cs_id (normalize_spec spec) = cs_id spec" by (simp add: normalize_spec_def)
  have new: "e_spec (entry_at s'' ?i) = normalize_spec spec \<and> e_restarts (entry_at s'' ?i) = 0"
    "length (sup_entries s'') = Suc ?i" "sup_cfg s'' = sup_cfg s"
    "k < ?i \<Longrightarrow> e_spec (entry_at s'' k) = e_spec (entry_at s k) \<and> e_restarts (entry_at s'' k) = e_restarts (entry_at s k)"
    if "narrows ?a s''" for s'' k
    using that add_entry_simps(4) [of k s] by (auto simp: narrows_def add_entry_simps new_entry_def)
  have once: "narrows ?a s1 \<and> sup_containers s1 = (sup_containers s)(cs_id spec \<mapsto> ?i)"
    if "startOnce ?i env ?a = (s1, r)" for s1 r
    using keeps_narrows [OF startOnce_keeps [OF that]] keepsD(2) [OF startOnce_keeps [OF that]]
    by (simp add: add_entry_simps nid)
  have undo: "((sup_containers s)(cs_id spec \<mapsto> ?i))(cs_id spec := None) = sup_containers s"
    if "sup_containers s (cs_id spec) = None" using that by auto
  have drop: "sup_containers (removeBundle d x) = sup_containers x"
    "sup_containers (removePersistedState c x) = sup_containers x"
    "sup_containers (removeLogs c x) = sup_containers x"
    "sup_containers (startHealthMonitor i x) = sup_containers x"
    "sup_containers (abortAfterFailedReadiness i w x) = sup_containers x" for d c i x
    by (simp_all add: removeBundle_def removePersistedState_def removeLogs_def startHealthMonitor_def
        abortAfterFailedReadiness_def releaseNetAndOverlay_def teardownNetwork_def dnsDeregisterForSpec_def
        waitStoppedOrForceDelete_def resetLogIO_def Let_def split: option.splits)
  from assms(1) show ?thesis
  proof (cases rule: Start_cases)
    case exists
    then show ?thesis by (intro exI [of _ 0]) simp
  next
    case (failed e s1)
    have "narrows ?a s'" using once [OF failed(3)] failed(4) by (simp add: narrows_then)
    from new [OF this] once [OF failed(3)] failed undo show ?thesis
      by (intro exI [of _ 1]) (simp add: drop)
  next
    case (completed s1)
    have "narrows ?a s'" using once [OF completed(3)] completed(4) by (simp add: narrows_then Let_def)
    from new [OF this] once [OF completed(3)] completed undo show ?thesis
      by (intro exI [of _ 1]) (simp add: drop Let_def)
  next
    case (unready s1)
    have "narrows ?a s'"
      using once [OF unready(3)] unready(4) by (simp add: narrows_then narrows_trans [OF _ narrows_abort])
    from new [OF this] once [OF unready(3)] unready undo show ?thesis
      by (intro exI [of _ 1]) (simp add: drop)
  next
    case (supervised s1)
    have "narrows ?a s'" using once [OF supervised(3)] supervised(4) by (simp add: narrows_then)
    from new [OF this] once [OF supervised(3)] supervised show ?thesis
      by (intro exI [of _ 1]) (simp add: drop)
  qed
qed

text \<open>The sections of supervise.\<close>

definition exit_quiet :: "nat \<Rightarrow> sup \<Rightarrow> sup" where
  "exit_quiet i s = resetLogIO i (stopHealth i (supervise_take i s))"

definition exit_released :: "nat \<Rightarrow> sup \<Rightarrow> sup" where
  "exit_released i s = releaseNetAndOverlay (id_at s i) (exit_quiet i s)"

definition one_more :: "nat \<Rightarrow> sup \<Rightarrow> sup" where
  "one_more i s = upd_entry i (\<lambda>e. e\<lparr>e_restarts := e_restarts e + 1\<rparr>) s"

lemma one_more_simps [simp]:
  "sup_containers (one_more i s) = sup_containers s" "length (sup_entries (one_more i s)) = length (sup_entries s)"
  "sup_log (one_more i s) = sup_log s" "sup_cfg (one_more i s) = sup_cfg s"
  by (simp_all add: one_more_def)

lemma keeps_take: "keeps i s (stopHealth i (supervise_take i s))" "keeps i s (exit_quiet i s)"
proof -
  have "keeps i s (supervise_take i s)"
    unfolding supervise_take_def by (intro keeps_if keeps_upd keeps_refl) simp
  then show "keeps i s (stopHealth i (supervise_take i s))" by (rule keeps_helpers)
  then show "keeps i s (exit_quiet i s)" unfolding exit_quiet_def by (rule keeps_helpers)
qed

lemma supervise_exit_cases:
  assumes "supervise_exit i code s = (s', p)"
  obtains (over) "s' = finishExited i (record_call (CrunDelete (id_at s i) False) (exit_released i s))" and "p = SvDone"
  | (again) "\<not> e_stopped (entry_at s i)"
      and "shouldRestart (e_spec (entry_at s i)) (e_restarts (entry_at s i)) code"
      and "s' = one_more i (exit_released i s)" and "p = SvBackoff"
  using assms keepsD(4-6) [OF keeps_take(1) [of i s]]
  unfolding supervise_exit_def Let_def exit_quiet_def [symmetric] exit_released_def [symmetric] one_more_def [symmetric]
  by (cases "e_stopped (entry_at s i)"; cases "shouldRestart (e_spec (entry_at s i)) (e_restarts (entry_at s i)) code")
    auto

lemma supervise_restart_cases:
  assumes "supervise_restart i env s = (s', p)"
  obtains (retry) e where "startOnce i env s = (s', Inl e)" and "p = SvRetry"
  | (up) s1 where "startOnce i env s = (s1, Inr False)" and "s' = startHealthMonitor i s1" and "p = SvWait"
  | (over) s1 where "startOnce i env s = (s1, Inr True)" and "s' = forget i s1" and "p = SvDone"
  | (again) s1 where "startOnce i env s = (s1, Inr True)" and "\<not> e_stopped (entry_at s1 i)"
      and "shouldRestart (e_spec (entry_at s1 i)) (e_restarts (entry_at s1 i)) 0"
      and "s' = one_more i s1" and "p = SvBackoff"
proof -
  obtain s1 r where so: "startOnce i env s = (s1, r)" by (cases "startOnce i env s")
  consider (f) e where "r = Inl e" | (c) "r = Inr True" | (u) "r = Inr False"
    by (cases r) (blast, metis (full_types))
  then show ?thesis
  proof cases
    case f
    with so assms retry show ?thesis by (simp add: supervise_restart_def)
  next
    case u
    with so assms up show ?thesis by (simp add: supervise_restart_def)
  next
    case c
    with so assms over again show ?thesis
      by (auto simp: supervise_restart_def one_more_def split: if_splits)
  qed
qed

lemma dropped [simp]:
  "sup_containers (finishExited i s) = (sup_containers s)(id_at s i := None)"
  "sup_containers (forget i s) = (sup_containers s)(id_at s i := None)"
  by (simp_all add: finishExited_def forget_def Let_def removeBundle_def removePersistedState_def removeLogs_def
      closeStdinHold_def)

lemma inv_live:
  assumes "sys_inv (mk_conf s pc)" and "narrows s s'" and "pc i \<noteq> SvDone" and "p \<noteq> SvDone"
  shows "sys_inv (mk_conf s' (pc(i := p)))"
  using narrows_inv [OF assms(1,2)] assms unfolding sys_inv_def narrows_def mk_conf_def by auto

lemma inv_over:
  assumes "sys_inv (mk_conf s pc)" and "narrows s s'" and "sup_containers s' (id_at s i) = None"
  shows "sys_inv (mk_conf s' (pc(i := SvDone)))"
proof -
  have inv: "sys_inv (mk_conf s' pc)" by (rule narrows_inv [OF assms(1,2)])
  have "sup_containers s' cid \<noteq> Some i" for cid
    using inv narrows_id [OF assms(2), of i] assms(3) unfolding sys_inv_def wf_map_def mk_conf_def by auto
  with inv show ?thesis unfolding sys_inv_def mk_conf_def by auto
qed

lemma inv_again:
  assumes "sys_inv (mk_conf s pc)" and "narrows s s2" and "pc i \<noteq> SvDone"
    and "shouldRestart (e_spec (entry_at s i)) (e_restarts (entry_at s i)) code"
  shows "sys_inv (mk_conf (one_more i s2) (pc(i := SvBackoff)))"
proof -
  have inv: "sys_inv (mk_conf s2 (pc(i := SvBackoff)))" by (rule inv_live [OF assms(1-3)]) simp
  have i: "i < length (sup_entries s2)" using inv by (auto simp: sys_inv_def mk_conf_def)
  have e: "e_spec (entry_at s2 i) = e_spec (entry_at s i)" "e_restarts (entry_at s2 i) = e_restarts (entry_at s i)"
    using assms(2) by (simp_all add: narrows_def)
  have "restarts_ok (entry_at s2 i)" using inv i by (simp add: sys_inv_def mk_conf_def)
  then have ok: "restarts_ok ((entry_at s2 i)\<lparr>e_restarts := e_restarts (entry_at s2 i) + 1\<rparr>)"
    using assms(4) e by (auto simp: restarts_ok_def shouldRestart_def split: if_splits)
  have at: "entry_at (one_more i s2) k =
      (if k = i then (entry_at s2 i)\<lparr>e_restarts := e_restarts (entry_at s2 i) + 1\<rparr> else entry_at s2 k)" for k
    using i by (simp add: one_more_def)
  then have "id_at (one_more i s2) k = id_at s2 k" for k by (simp add: id_at_def)
  with inv ok at show ?thesis
    unfolding sys_inv_def wf_map_def mk_conf_def by auto
qed

lemma exit_released_frame: "narrows s (exit_released i s)" "sup_containers (exit_released i s) = sup_containers s"
proof -
  show "narrows s (exit_released i s)"
    unfolding exit_released_def by (rule narrows_trans [OF keeps_narrows [OF keeps_take(2)] narrows_teardown(2)])
  have "keeps i s (exit_released i s)" unfolding exit_released_def by (rule keeps_release [OF keeps_take(2) refl])
  then show "sup_containers (exit_released i s) = sup_containers s" by (rule keepsD)
qed

theorem step_sys_inv:
  assumes "step c l c'" and "sys_inv c"
  shows "sys_inv c'"
  using assms
proof (induction rule: step.induct)
  case (start env rdy w spec s s' i pc)
  then have "wf_map s" by (simp add: sys_inv_def mk_conf_def)
  with Start_frame [OF start(1)] start(2) show ?case
    unfolding sys_inv_def wf_map_def mk_conf_def restarts_ok_def
    by (auto simp: id_at_def normalize_spec_def less_Suc_eq)
next
  case (start_over env rdy w spec s s' r pc)
  then have "wf_map s" by (simp add: sys_inv_def mk_conf_def)
  with Start_frame [OF start_over(1)] start_over(2,3) show ?case
    unfolding sys_inv_def wf_map_def mk_conf_def restarts_ok_def
    by (cases r) (auto simp: id_at_def normalize_spec_def less_Suc_eq le_Suc_eq)
next
  case (exit pc i code s s' p)
  from exit(2) show ?case
  proof (cases rule: supervise_exit_cases)
    case over
    have "narrows s s'" unfolding over
      by (rule narrows_trans [OF exit_released_frame(1) narrows_trans [OF narrows_call narrows_finish(1)]])
    with exit(3) over show ?thesis
      using narrows_id [OF exit_released_frame(1), of i s i] by (auto intro: inv_over)
  next
    case again
    with exit(1,3) show ?thesis by (auto intro: inv_again [OF _ exit_released_frame(1)])
  qed
next
  case (wake pc i env s s' p)
  note k = keeps_narrows [OF startOnce_keeps]
  have live: "pc i \<noteq> SvDone" using wake(1) by auto
  from wake(2) show ?case
  proof (cases rule: supervise_restart_cases)
    case (retry e)
    then show ?thesis using inv_live [OF wake(3) k [OF retry(1)] live] by simp
  next
    case (up s1)
    then show ?thesis
      using inv_live [OF wake(3) narrows_trans [OF k [OF up(1)] narrows_helpers(7)] live] by simp
  next
    case (over s1)
    then show ?thesis
      using inv_over [OF wake(3) narrows_trans [OF k [OF over(1)] narrows_finish(2)]] narrows_id [OF k [OF over(1)]] by simp
  next
    case (again s1)
    have "shouldRestart (e_spec (entry_at s i)) (e_restarts (entry_at s i)) 0"
      using again(3) k [OF again(1)] by (simp add: narrows_def)
    from inv_again [OF wake(3) k [OF again(1)] live this] again show ?thesis by simp
  qed
next
  case (stop s cid i env s' r pc)
  then show ?case by (blast intro: narrows_inv narrows_trans [OF narrows_stopped narrows_stop_signals])
next
  case (kill s cid i pc sig)
  then show ?case by (blast intro: narrows_inv narrows_trans [OF narrows_stopped narrows_call])
next
  case (kill_restart s cid i pc sig)
  then show ?case by (blast intro: narrows_inv narrows_call)
next
  case (unmark i s pc)
  then show ?case by (blast intro: narrows_inv narrows_stopped)
next
  case (poll i s w s' r pc)
  then show ?case by (blast intro: narrows_inv narrows_stop_poll)
next
  case (remove i s cid pc)
  then show ?case by (blast intro: narrows_inv narrows_remove)
qed

section \<open>No leaks\<close>

text \<open>
  Without Remove, a name is tracked exactly while its goroutine lives, an untracked name holds
  nothing, and a tracked one holds what its network mode asks for while the container runs, and
  nothing between two runs.
\<close>

definition leak_inv :: "conf \<Rightarrow> bool" where
  "leak_inv c \<longleftrightarrow>
     sys_inv c \<and>
     (\<forall>i. c_pc c i \<noteq> SvDone \<longrightarrow> sup_containers (c_sup c) (id_at (c_sup c) i) = Some i) \<and>
     (\<forall>cid. sup_containers (c_sup c) cid = None \<longrightarrow> idle cid (sup_log (c_sup c))) \<and>
     (\<forall>cid i. sup_containers (c_sup c) cid = Some i \<longrightarrow>
        (if c_pc c i = SvWait then holds_as_asked (sup_cfg (c_sup c)) (e_spec (entry_at (c_sup c) i)) (sup_log (c_sup c))
         else idle cid (sup_log (c_sup c))))"

definition held_at :: "sup \<Rightarrow> sv_pc \<Rightarrow> string \<Rightarrow> nat \<Rightarrow> bool" where
  "held_at s p cid i \<longleftrightarrow>
     (if p = SvWait then holds_as_asked (sup_cfg s) (e_spec (entry_at s i)) (sup_log s) else idle cid (sup_log s))"

lemma leak_inv_iff:
  "leak_inv (mk_conf s pc) \<longleftrightarrow>
     sys_inv (mk_conf s pc) \<and>
     (\<forall>i. pc i \<noteq> SvDone \<longrightarrow> sup_containers s (id_at s i) = Some i) \<and>
     (\<forall>cid. sup_containers s cid = None \<longrightarrow> idle cid (sup_log s)) \<and>
     (\<forall>cid i. sup_containers s cid = Some i \<longrightarrow> held_at s (pc i) cid i)"
  unfolding leak_inv_def mk_conf_def held_at_def conf.select_convs by (rule refl)

lemma leak_invD:
  assumes "leak_inv (mk_conf s pc)"
  shows "sys_inv (mk_conf s pc)"
    and "pc i \<noteq> SvDone \<Longrightarrow> sup_containers s (id_at s i) = Some i"
    and "sup_containers s cid = None \<Longrightarrow> idle cid (sup_log s)"
    and "sup_containers s cid = Some i \<Longrightarrow> held_at s (pc i) cid i"
  using assms unfolding leak_inv_iff by blast+

text \<open>Sections that change neither the map nor the resources.\<close>

definition quiet :: "sup \<Rightarrow> sup \<Rightarrow> bool" where
  "quiet s s' \<longleftrightarrow> narrows s s' \<and> sup_containers s' = sup_containers s \<and> (\<forall>cid. agree cid (sup_log s') (sup_log s))"

lemma quiet_trans: "quiet s s' \<Longrightarrow> quiet s' s'' \<Longrightarrow> quiet s s''"
  unfolding quiet_def by (auto intro: narrows_trans agree_trans)

lemma set_stopped_simps [simp]:
  "sup_containers (set_stopped i b s) = sup_containers s" "sup_log (set_stopped i b s) = sup_log s"
  by (simp_all add: set_stopped_def)

lemma quiet_simps [simp]:
  "quiet s s" "quiet s (set_stopped i b s)" "neutral c \<Longrightarrow> quiet s (record_call c s)" "quiet s (resetLogIO i s)"
  "quiet s (startHealthMonitor i s)"
proof -
  show "quiet s (resetLogIO i s)" "quiet s (startHealthMonitor i s)"
    using narrows_helpers keepsD(2) [OF keeps_helpers(8) [OF keeps_refl]] keepsD(2) [OF keeps_helpers(9) [OF keeps_refl]]
    by (auto simp: quiet_def)
qed (simp_all add: quiet_def narrows_stopped narrows_call neutral_agree)

lemma quiet_signals: "stop_signals env i s = (s', r) \<Longrightarrow> quiet s s'"
proof -
  let ?s1 = "record_call (CrunKill (id_at s i) (stop_signal_name (e_spec (entry_at s i)))) s"
  let ?s2 = "record_call (CrunKill (id_at s i) ''KILL'') ?s1"
  have q: "quiet s ?s1" "quiet s ?s2" "quiet s (set_stopped i False ?s2)"
    using quiet_trans [of s ?s1 ?s2] quiet_trans [of s ?s2 "set_stopped i False ?s2"] by simp_all
  assume "stop_signals env i s = (s', r)"
  with q show ?thesis by (auto simp: stop_signals_def Let_def split: crun_result.splits)
qed

lemma quiet_poll:
  assumes "stop_poll w i s = (s', r)"
  shows "quiet s s'"
proof -
  let ?s1 = "resetLogIO i s" let ?s2 = "record_call (CrunDelete (id_at s i) True) ?s1"
  have q: "quiet s ?s1" "quiet s ?s2" "quiet s (set_stopped i False ?s2)"
    using quiet_trans [of s ?s1 ?s2] quiet_trans [of s ?s2 "set_stopped i False ?s2"] by simp_all
  with assms show ?thesis
    by (auto simp: stop_poll_def waitStoppedOrForceDelete_def split: option.splits if_splits)
qed

lemma leak_quiet:
  assumes "leak_inv (mk_conf s pc)" and "quiet s s'"
  shows "leak_inv (mk_conf s' pc)"
proof -
  have n: "narrows s s'" "sup_containers s' = sup_containers s" "agree cid (sup_log s') (sup_log s)" for cid
    using assms(2) by (simp_all add: quiet_def)
  have ids: "id_at s' k = id_at s k" for k by (rule narrows_id [OF n(1)])
  have held: "held_at s' p cid k = held_at s p cid k" for p cid k
    using n(1) agree_holds_as_asked [OF n(3)] agree_idle [OF n(3)] by (simp add: held_at_def narrows_def)
  have idle: "idle cid (sup_log s') = idle cid (sup_log s)" for cid by (rule agree_idle [OF n(3)])
  have "sys_inv (mk_conf s' pc)" by (rule narrows_inv [OF leak_invD(1) [OF assms(1)] n(1)])
  then show ?thesis
    using assms(1) unfolding leak_inv_iff n(2) ids held idle by blast
qed

text \<open>A section of the goroutine of entry \<open>i\<close>: what it does to its own name decides.\<close>

definition same_specs :: "sup \<Rightarrow> sup \<Rightarrow> bool" where
  "same_specs s s' \<longleftrightarrow> sup_cfg s' = sup_cfg s \<and> (\<forall>k. e_spec (entry_at s' k) = e_spec (entry_at s k))"

lemma narrows_same: "narrows s s' \<Longrightarrow> same_specs s s'" "narrows s s' \<Longrightarrow> same_specs s (one_more i s')"
proof -
  have "e_spec (entry_at (one_more i s') k) = e_spec (entry_at s' k)" for k
    by (cases "i < length (sup_entries s')"; cases "k = i")
      (simp_all add: one_more_def upd_entry_def entry_at_def list_update_beyond)
  then show "narrows s s' \<Longrightarrow> same_specs s s'" "narrows s s' \<Longrightarrow> same_specs s (one_more i s')"
    by (simp_all add: narrows_def same_specs_def)
qed

lemma leak_own:
  assumes "leak_inv (mk_conf s pc)" and "pc i \<noteq> SvDone" and "sys_inv (mk_conf s' (pc(i := p)))"
    and "same_specs s s'" and "\<And>cid. cid \<noteq> id_at s i \<Longrightarrow> sup_containers s' cid = sup_containers s cid"
    and "\<And>cid. cid \<noteq> id_at s i \<Longrightarrow> agree cid (sup_log s') (sup_log s)"
    and "sup_containers s' (id_at s i) = (if p = SvDone then None else Some i)"
    and "held_at s' p (id_at s i) i"
  shows "leak_inv (mk_conf s' (pc(i := p)))"
proof -
  have own: "sup_containers s (id_at s i) = Some i" by (rule leak_invD(2) [OF assms(1,2)])
  have n: "sup_cfg s' = sup_cfg s" "e_spec (entry_at s' k) = e_spec (entry_at s k)" "id_at s' k = id_at s k" for k
    using assms(4) by (simp_all add: same_specs_def id_at_def)
  have live: "sup_containers s' (id_at s' k) = Some k" if "(pc(i := p)) k \<noteq> SvDone" for k
  proof (cases "k = i")
    case True
    with that assms(7) n show ?thesis by simp
  next
    case False
    with that have k: "sup_containers s (id_at s k) = Some k" using leak_invD(2) [OF assms(1)] by simp
    with False own have "id_at s k \<noteq> id_at s i" by auto
    with k assms(5) n show ?thesis by simp
  qed
  have none: "idle cid (sup_log s')" if "sup_containers s' cid = None" for cid
  proof (cases "cid = id_at s i")
    case True
    with that assms(7,8) show ?thesis by (auto simp: held_at_def split: if_splits)
  next
    case False
    with that assms(5) have "idle cid (sup_log s)" using leak_invD(3) [OF assms(1)] by simp
    with agree_idle [OF assms(6) [OF False]] show ?thesis by simp
  qed
  have some: "held_at s' ((pc(i := p)) k) cid k" if "sup_containers s' cid = Some k" for cid k
  proof (cases "cid = id_at s i")
    case True
    with that assms(7,8) show ?thesis by (auto split: if_splits)
  next
    case False
    from that False assms(5) have k: "sup_containers s cid = Some k" by simp
    have "id_at s k = cid" using leak_invD(1) [OF assms(1)] k by (auto simp: sys_inv_def wf_map_def mk_conf_def)
    with False own have "k \<noteq> i" by auto
    moreover have "holds_as_asked (sup_cfg s) (e_spec (entry_at s k)) (sup_log s') =
        holds_as_asked (sup_cfg s) (e_spec (entry_at s k)) (sup_log s)"
      using assms(6) [OF False] \<open>id_at s k = cid\<close> by (intro agree_holds_as_asked) (simp add: id_at_def)
    ultimately show ?thesis
      using leak_invD(4) [OF assms(1) k] agree_idle [OF assms(6) [OF False]] by (simp add: n held_at_def)
  qed
  show ?thesis
    unfolding leak_inv_iff using assms(3) live none some by blast
qed

text \<open>The logs the last sections leave.\<close>

lemma finish_agree:
  "agree cid (sup_log (finishExited i s)) (sup_log s)" "agree cid (sup_log (forget i s)) (sup_log s)"
proof -
  have drop: "agree cid (sup_log (drop_id x s')) (sup_log s')" for x s' by simp
  have c: "agree cid (sup_log (removeBundle d (removePersistedState x (drop_id y s')))) (sup_log s')" for d x y s'
    by (rule agree_trans [OF neutral_helpers(1) agree_trans [OF neutral_helpers(2) drop]])
  show "agree cid (sup_log (forget i s)) (sup_log s)" unfolding forget_def Let_def by (rule c)
  have e: "agree cid (sup_log (removeBundle d (removePersistedState x (drop_id y (closeStdinHold i s))))) (sup_log s)" for d x y
    by (rule agree_trans [OF c neutral_helpers(7)])
  show "agree cid (sup_log (finishExited i s)) (sup_log s)"
    using e agree_trans [OF neutral_helpers(3) e] by (simp add: finishExited_def Let_def)
qed

lemma exit_released_idle:
  assumes "sup_containers s (id_at s i) = Some i" and "holds_as_asked (sup_cfg s) (e_spec (entry_at s i)) (sup_log s)"
  shows "idle (id_at s i) (sup_log (exit_released i s))"
    and "cid \<noteq> id_at s i \<Longrightarrow> agree cid (sup_log (exit_released i s)) (sup_log s)"
proof -
  have take: "sup_log (supervise_take i s) = sup_log s" by (simp add: supervise_take_def)
  have "agree (id_at s i) (sup_log (exit_quiet i s)) (sup_log s)"
    using agree_trans [OF neutral_helpers(8) neutral_helpers(6)] take by (metis exit_quiet_def)
  note q = asked_step [OF keeps_take(2) this assms]
  from release_asked_idle [OF conjunct1 [OF q] conjunct2 [OF q]] keepsD(3) [OF keeps_take(2)]
  show "idle (id_at s i) (sup_log (exit_released i s))" by (simp add: exit_released_def)
  have "keeps i s (exit_released i s)" unfolding exit_released_def by (rule keeps_release [OF keeps_take(2) refl])
  then show "cid \<noteq> id_at s i \<Longrightarrow> agree cid (sup_log (exit_released i s)) (sup_log s)" by (rule keepsD)
qed

lemma leak_exit:
  assumes "pc i = SvWait" and "supervise_exit i code s = (s', p)" and "leak_inv (mk_conf s pc)"
  shows "leak_inv (mk_conf s' (pc(i := p)))"
proof -
  have live: "pc i \<noteq> SvDone" using assms(1) by simp
  have own: "sup_containers s (id_at s i) = Some i" by (rule leak_invD(2) [OF assms(3) live])
  have asked: "holds_as_asked (sup_cfg s) (e_spec (entry_at s i)) (sup_log s)"
    using leak_invD(4) [OF assms(3) own] assms(1) by (simp add: held_at_def)
  note rel = exit_released_idle [OF own asked]
  have inv: "sys_inv (mk_conf s' (pc(i := p)))"
    using step_sys_inv [OF step.exit [of pc, OF assms(1,2)] leak_invD(1) [OF assms(3)]] .
  have ids: "id_at (exit_released i s) i = id_at s i" by (rule narrows_id [OF exit_released_frame(1)])
  from assms(2) show ?thesis
  proof (cases rule: supervise_exit_cases)
    case over
    let ?d = "record_call (CrunDelete (id_at s i) False) (exit_released i s)"
    have ag: "agree cid (sup_log s') (sup_log (exit_released i s))" for cid
    proof -
      have "agree cid (sup_log ?d) (sup_log (exit_released i s))" by (simp add: neutral_agree)
      with finish_agree(1) show ?thesis unfolding over by (rule agree_trans)
    qed
    have cont: "sup_containers s' = (sup_containers s)(id_at s i := None)"
      unfolding over using exit_released_frame(2) ids by simp
    have "narrows s s'" unfolding over
      by (rule narrows_trans [OF exit_released_frame(1) narrows_trans [OF narrows_call narrows_finish(1)]])
    then have same: "same_specs s s'" by (rule narrows_same)
    show ?thesis
    proof (rule leak_own [OF assms(3) live inv same])
      show "agree cid (sup_log s') (sup_log s)" if "cid \<noteq> id_at s i" for cid
        by (rule agree_trans [OF ag rel(2) [OF that]])
      show "held_at s' p (id_at s i) i"
        unfolding held_at_def agree_idle [OF ag] using rel(1) over(2) by simp
    qed (simp_all add: cont over(2))
  next
    case again
    have log: "sup_log s' = sup_log (exit_released i s)" using again by simp
    have cont: "sup_containers s' = sup_containers s" using again exit_released_frame(2) by simp
    have "same_specs s s'" unfolding again by (rule narrows_same(2) [OF exit_released_frame(1)])
    from leak_own [OF assms(3) live inv this] show ?thesis
      using cont own again(4) log rel by (simp add: held_at_def)
  qed
qed

text \<open>A restart, and the first start, of entry \<open>i\<close>: what startOnce and the calls after it leave.\<close>

lemma leak_started:
  assumes "leak_inv (mk_conf s pc)" and "pc i \<in> {SvBackoff, SvRetry}" and "startOnce i env s = (s1, r)"
    and "sys_inv (mk_conf s' (pc(i := p)))" and "same_specs s1 s'"
    and "sup_containers s' = (if p = SvDone then (sup_containers s)(id_at s i := None) else sup_containers s)"
    and "\<And>cid. cid \<noteq> id_at s i \<Longrightarrow> agree cid (sup_log s') (sup_log s1)"
    and "if p = SvWait then r = Inr False \<and> agree (id_at s i) (sup_log s') (sup_log s1)
      else idle (id_at s i) (sup_log s')"
  shows "leak_inv (mk_conf s' (pc(i := p)))"
proof (rule leak_own [OF assms(1) _ assms(4)])
  note k = startOnce_keeps [OF assms(3)]
  show live: "pc i \<noteq> SvDone" using assms(2) by auto
  note own = leak_invD(2) [OF assms(1) live]
  have "idle (id_at s i) (sup_log s)"
    using leak_invD(4) [OF assms(1) own] assms(2) by (auto simp: held_at_def)
  note held = startOnce_held [OF assms(3) own this]
  show "same_specs s s'" using assms(5) narrows_same(1) [OF keeps_narrows [OF k]] by (simp add: same_specs_def)
  show "cid \<noteq> id_at s i \<Longrightarrow> sup_containers s' cid = sup_containers s cid" for cid using assms(6) by simp
  show "sup_containers s' (id_at s i) = (if p = SvDone then None else Some i)" using assms(6) own by simp
  show "cid \<noteq> id_at s i \<Longrightarrow> agree cid (sup_log s') (sup_log s)" for cid
    by (rule agree_trans [OF assms(7) keepsD(10) [OF k]])
  have "holds_as_asked (sup_cfg s') (e_spec (entry_at s' i)) (sup_log s')" if "p = SvWait"
    using assms(8) that held agree_holds_as_asked [of "e_spec (entry_at s i)" "sup_log s'" "sup_log s1"] assms(5)
      keepsD(1,4) [OF k] by (simp add: same_specs_def id_at_def)
  then show "held_at s' p (id_at s i) i" using assms(8) by (auto simp: held_at_def split: if_splits)
qed

lemma once_idle:
  assumes "leak_inv (mk_conf s pc)" and "pc i \<in> {SvBackoff, SvRetry}" and "startOnce i env s = (s1, r)"
    and "r \<noteq> Inr False"
  shows "idle (id_at s i) (sup_log s1)"
proof -
  have "pc i \<noteq> SvDone" using assms(2) by auto
  note own = leak_invD(2) [OF assms(1) this]
  have "idle (id_at s i) (sup_log s)" using leak_invD(4) [OF assms(1) own] assms(2) by (auto simp: held_at_def)
  from startOnce_held [OF assms(3) own this] assms(4) show ?thesis by simp
qed

lemma leak_wake:
  assumes "pc i \<in> {SvBackoff, SvRetry}" and "supervise_restart i env s = (s', p)" and "leak_inv (mk_conf s pc)"
  shows "leak_inv (mk_conf s' (pc(i := p)))"
proof -
  have inv: "sys_inv (mk_conf s' (pc(i := p)))"
    using step_sys_inv [OF step.wake [of pc, OF assms(1,2)] leak_invD(1) [OF assms(3)]] .
  note cont = keepsD(2,3) [OF startOnce_keeps]
  from assms(2) show ?thesis
  proof (cases rule: supervise_restart_cases)
    case (retry e)
    show ?thesis
      by (rule leak_started [OF assms(3,1) retry(1) inv])
        (use retry cont once_idle [OF assms(3,1) retry(1)] in \<open>simp_all add: narrows_same\<close>)
  next
    case (up s1)
    show ?thesis
      by (rule leak_started [OF assms(3,1) up(1) inv])
        (use up cont [OF up(1)] narrows_same(1) [OF narrows_helpers(7)] quiet_simps(5) in \<open>simp_all add: quiet_def\<close>)
  next
    case (over s1)
    show ?thesis
      by (rule leak_started [OF assms(3,1) over(1) inv])
        (use over cont [OF over(1)] narrows_same(1) [OF narrows_finish(2)] agree_idle [OF finish_agree(2)]
          once_idle [OF assms(3,1) over(1)] in \<open>simp_all add: finish_agree\<close>)
  next
    case (again s1)
    show ?thesis
      by (rule leak_started [OF assms(3,1) again(1) inv])
        (use again cont [OF again(1)] narrows_same(2) [OF narrows_refl] once_idle [OF assms(3,1) again(1)] in \<open>simp_all\<close>)
  qed
qed

text \<open>Start registers its entry, and goes on as a restart does.\<close>

lemma leak_add:
  assumes "leak_inv (mk_conf s pc)" and "sup_containers s (cs_id spec) = None"
  shows "leak_inv (mk_conf (add_entry spec b s) (pc(length (sup_entries s) := SvBackoff)))"
proof -
  let ?i = "length (sup_entries s)" and ?a = "add_entry spec b s"
  note inv = leak_invD(1) [OF assms(1)]
  have old: "k < ?i" if "pc k \<noteq> SvDone" for k using inv that by (simp add: sys_inv_def mk_conf_def)
  have old2: "k < ?i \<and> id_at s k = cid" if "sup_containers s cid = Some k" for cid k
    using inv that by (simp add: sys_inv_def mk_conf_def wf_map_def)
  have at: "entry_at ?a k = entry_at s k \<and> id_at ?a k = id_at s k" if "k < ?i" for k
    using that by (simp add: add_entry_simps id_at_def)
  have "sys_inv (mk_conf ?a (pc(?i := SvBackoff)))"
    unfolding sys_inv_def wf_map_def mk_conf_def conf.select_convs
  proof (intro conjI allI impI)
    fix k assume "k < length (sup_entries ?a)"
    then show "restarts_ok (entry_at ?a k)"
      using inv at by (cases "k = ?i")
        (auto simp: sys_inv_def mk_conf_def add_entry_simps less_Suc_eq restarts_ok_def new_entry_def)
  next
    fix k assume "(pc(?i := SvBackoff)) k \<noteq> SvDone"
    then show "k < length (sup_entries ?a)" using old by (auto simp: add_entry_simps less_Suc_eq split: if_splits)
  next
    fix cid k assume c: "sup_containers ?a cid = Some k"
    then show "k < length (sup_entries ?a)" "id_at ?a k = cid"
      using old2 at by (auto simp: add_entry_simps less_Suc_eq split: if_splits)
    from c inv show "(pc(?i := SvBackoff)) k \<noteq> SvDone"
      by (auto simp: add_entry_simps sys_inv_def mk_conf_def split: if_splits)
  qed
  moreover have "sup_containers ?a (id_at ?a k) = Some k" if "(pc(?i := SvBackoff)) k \<noteq> SvDone" for k
  proof (cases "k = ?i")
    case False
    with that have "k < ?i" "sup_containers s (id_at s k) = Some k" using old leak_invD(2) [OF assms(1)] by simp_all
    with assms(2) at show ?thesis by (auto simp: add_entry_simps)
  qed (simp add: add_entry_simps)
  moreover have "idle cid (sup_log ?a)" if "sup_containers ?a cid = None" for cid
    using that leak_invD(3) [OF assms(1)] by (simp add: add_entry_simps split: if_splits)
  moreover have "held_at ?a ((pc(?i := SvBackoff)) k) cid k" if "sup_containers ?a cid = Some k" for cid k
  proof (cases "cid = cs_id spec")
    case True
    with that assms(2) leak_invD(3) [OF assms(1)] show ?thesis by (simp add: add_entry_simps held_at_def)
  next
    case False
    with that have k: "sup_containers s cid = Some k" by (simp add: add_entry_simps)
    with old2 have "k < ?i" by blast
    with leak_invD(4) [OF assms(1) k] at show ?thesis by (auto simp: add_entry_simps held_at_def)
  qed
  ultimately show ?thesis unfolding leak_inv_iff by blast
qed

lemma abort_idle:
  assumes "sup_containers s (id_at s i) = Some i" and "holds_as_asked (sup_cfg s) (e_spec (entry_at s i)) (sup_log s)"
  shows "idle (id_at s i) (sup_log (abortAfterFailedReadiness i w s))"
    and "keeps i s (abortAfterFailedReadiness i w s)"
proof -
  let ?k = "record_call (CrunKill (id_at s i) ''KILL'') (resetLogIO i s)"
  define s2 where "s2 = fst (waitStoppedOrForceDelete (id_at s i) w ?k)"
  have k1: "keeps i s ?k" by (intro keeps_call keeps_helpers keeps_refl) simp
  then have k: "keeps i s s2" unfolding s2_def waitStoppedOrForceDelete_def by (auto intro: keeps_call)
  have a1: "agree (id_at s i) (sup_log ?k) (sup_log s)"
    using agree_trans [OF neutral_agree neutral_helpers(8)] by simp
  then have "agree (id_at s i) (sup_log s2) (sup_log s)"
    using agree_trans [OF neutral_agree a1] by (simp add: s2_def waitStoppedOrForceDelete_def)
  note q = asked_step [OF k this assms]
  have "idle (id_at s i) (sup_log (releaseNetAndOverlay (id_at s i) s2))"
    using release_asked_idle [OF conjunct1 [OF q] conjunct2 [OF q]] keepsD(3) [OF k] by simp
  then show "idle (id_at s i) (sup_log (abortAfterFailedReadiness i w s))"
    unfolding abortAfterFailedReadiness_def Let_def s2_def [symmetric] by (simp add: idle_def)
  show "keeps i s (abortAfterFailedReadiness i w s)"
    unfolding abortAfterFailedReadiness_def Let_def s2_def [symmetric]
    by (intro keeps_call keeps_release [OF k refl]) simp
qed

lemma start_entries:
  assumes "Start env rdy w spec0 s = (s', res)" and "sys_inv (mk_conf s pc)"
  shows "sys_inv (mk_conf s' (case res of StartSupervised i \<Rightarrow> pc(i := SvWait) | _ \<Rightarrow> pc))"
proof (cases res)
  case (StartSupervised i)
  with step_sys_inv [OF step.start [where pc = pc] assms(2)] assms(1) show ?thesis by simp
qed (use step_sys_inv [OF step.start_over [where pc = pc, OF assms(1)] assms(2)] in simp_all)

lemma fresh_pc:
  assumes "leak_inv (mk_conf s pc)"
  shows "pc(length (sup_entries s) := SvBackoff, length (sup_entries s) := SvDone) = pc"
proof -
  have "pc (length (sup_entries s)) = SvDone"
    using leak_invD(1) [OF assms] unfolding sys_inv_def mk_conf_def by auto
  then show ?thesis by (simp add: fun_upd_idem)
qed

text \<open>The first start of a fresh entry holds as a restart does; a Start that tracks no container in the
  end leaves nothing behind.\<close>

lemma first_start:
  assumes "leak_inv (mk_conf s pc)" and "sup_containers s (cs_id spec) = None"
    and "startOnce (length (sup_entries s)) env (add_entry spec False s) = (s1, r)"
  shows "id_at s1 (length (sup_entries s)) = cs_id spec"
    and "sup_containers s1 = (sup_containers s)(cs_id spec \<mapsto> length (sup_entries s))"
    and "if r = Inr False then holds_as_asked (sup_cfg s1) (e_spec (entry_at s1 (length (sup_entries s)))) (sup_log s1)
      else idle (cs_id spec) (sup_log s1)"
proof -
  note k = keepsD [OF startOnce_keeps [OF assms(3)]]
  show "id_at s1 (length (sup_entries s)) = cs_id spec"
    and "sup_containers s1 = (sup_containers s)(cs_id spec \<mapsto> length (sup_entries s))"
    using k by (simp_all add: add_entry_simps)
  have own: "sup_containers (add_entry spec False s) (id_at (add_entry spec False s) (length (sup_entries s))) =
      Some (length (sup_entries s))"
    "idle (id_at (add_entry spec False s) (length (sup_entries s))) (sup_log (add_entry spec False s))"
    using leak_invD(3) [OF assms(1,2)] by (simp_all add: add_entry_simps)
  show "if r = Inr False then holds_as_asked (sup_cfg s1) (e_spec (entry_at s1 (length (sup_entries s)))) (sup_log s1)
      else idle (cs_id spec) (sup_log s1)"
    using startOnce_held [OF assms(3) own] unfolding k(1,4) add_entry_simps(7) .
qed

lemma leak_untracked:
  assumes "leak_inv (mk_conf s pc)" and "sup_containers s (cs_id spec) = None"
    and "startOnce (length (sup_entries s)) env (add_entry spec False s) = (s1, r)" and "narrows s1 s'"
    and "sup_containers s' = (sup_containers s1)(cs_id spec := None)"
    and "\<And>cid. cid \<noteq> cs_id spec \<Longrightarrow> agree cid (sup_log s') (sup_log s1)"
    and "idle (cs_id spec) (sup_log s')" and "sys_inv (mk_conf s' pc)"
  shows "leak_inv (mk_conf s' pc)"
proof -
  let ?i = "length (sup_entries s)" and ?a = "add_entry spec False s"
  note l = leak_add [OF assms(1,2), of False]
  have "leak_inv (mk_conf s' (pc(?i := SvBackoff, ?i := SvDone)))"
  proof (rule leak_started [OF l _ assms(3)])
    show "same_specs s1 s'" by (rule narrows_same(1) [OF assms(4)])
    show "sys_inv (mk_conf s' (pc(?i := SvBackoff, ?i := SvDone)))" unfolding fresh_pc [OF assms(1)] by (rule assms(8))
  qed (use assms(5-7) first_start(2) [OF assms(1-3)] in \<open>simp_all add: add_entry_simps\<close>)
  then show ?thesis unfolding fresh_pc [OF assms(1)] .
qed

lemma leak_start:
  assumes "Start env rdy w spec0 s = (s', res)" and "leak_inv (mk_conf s pc)"
  shows "leak_inv (mk_conf s' (case res of StartSupervised i \<Rightarrow> pc(i := SvWait) | _ \<Rightarrow> pc))"
proof -
  let ?spec = "normalize_spec spec0" and ?i = "length (sup_entries s)"
  have nid: "cs_id spec0 = cs_id ?spec" by (simp add: normalize_spec_def)
  note inv = start_entries [OF assms(1) leak_invD(1) [OF assms(2)]]
  from assms(1) show ?thesis
  proof (cases rule: Start_cases)
    case exists
    with assms(2) show ?thesis by simp
  next
    case (failed e s1)
    note f = first_start [OF assms(2) failed(1) [unfolded nid] failed(3)]
    have ag: "agree cid (sup_log s') (sup_log s1)" for cid
      unfolding failed(4) using neutral_helpers(1) [of cid _ "drop_id (cs_id spec0) s1"] by simp
    have "narrows s1 s'" unfolding failed(4) by (rule narrows_trans [OF narrows_drop narrows_helpers(1)])
    from leak_untracked [OF assms(2) failed(1) [unfolded nid] failed(3) this] f(3) inv failed(2,4) ag agree_idle [OF ag]
    show ?thesis by (simp add: removeBundle_def nid)
  next
    case (completed s1)
    note f = first_start [OF assms(2) completed(1) [unfolded nid] completed(3)]
    have ag: "agree cid (sup_log s') (sup_log s1)" for cid
      unfolding completed(4) Let_def using agree_trans [OF neutral_helpers(1) neutral_helpers(2)]
        agree_trans [OF neutral_helpers(3) agree_trans [OF neutral_helpers(1) neutral_helpers(2)]]
      by (simp add: agree_def)
    have "narrows s1 s'" unfolding completed(4) by (simp add: Let_def narrows_then narrows_drop)
    from leak_untracked [OF assms(2) completed(1) [unfolded nid] completed(3) this]
      f(3) inv completed(2,4) ag agree_idle [OF ag]
    show ?thesis by (simp add: removeBundle_def removePersistedState_def removeLogs_def Let_def nid)
  next
    case (unready s1)
    let ?u = "abortAfterFailedReadiness ?i w s1"
    note f = first_start [OF assms(2) unready(1) [unfolded nid] unready(3)]
    have "sup_containers s1 (id_at s1 ?i) = Some ?i" using f(1,2) by simp
    note ab = abort_idle [OF this, of w]
    have asked: "holds_as_asked (sup_cfg s1) (e_spec (entry_at s1 ?i)) (sup_log s1)" using f(3) by simp
    have ag: "agree cid (sup_log s') (sup_log ?u)" for cid
      unfolding unready(4) using neutral_helpers(2) [of cid _ "drop_id (cs_id spec0) ?u"] by simp
    have n: "narrows s1 s'" unfolding unready(4) by (simp add: narrows_then narrows_abort)
    have others: "agree cid (sup_log s') (sup_log s1)" if "cid \<noteq> cs_id ?spec" for cid
      by (rule agree_trans [OF ag keepsD(10) [OF ab(2) [OF asked]]]) (simp add: that f(1))
    have c: "sup_containers s' = (sup_containers s1)(cs_id ?spec := None)"
      using keepsD(2) [OF ab(2) [OF asked]] unready(4) by (simp add: removePersistedState_def nid)
    from leak_untracked [OF assms(2) unready(1) [unfolded nid] unready(3) n c others] ab(1) [OF asked] f(1) inv
      unready(2) agree_idle [OF ag]
    show ?thesis by simp
  next
    case (supervised s1)
    note f = first_start [OF assms(2) supervised(1) [unfolded nid] supervised(3)]
    have q: "quiet s1 s'" unfolding supervised(4) by simp
    have "leak_inv (mk_conf s' (pc(?i := SvBackoff, ?i := SvWait)))"
      by (rule leak_started [OF leak_add [OF assms(2) supervised(1) [unfolded nid]] _ supervised(3)])
        (use q f(2) inv supervised(2) in \<open>simp_all add: quiet_def narrows_same add_entry_simps\<close>)
    with supervised(2) show ?thesis by simp
  qed
qed

theorem step_leak_inv:
  assumes "step c l c'" and "leak_inv c" and "\<And>cid. l \<noteq> LRemove cid"
  shows "leak_inv c'"
  using assms
proof (induction rule: step.induct)
  case (start env rdy w spec s s' i pc)
  from leak_start [OF start(1,2)] show ?case by simp
next
  case (start_over env rdy w spec s s' r pc)
  from leak_start [OF start_over(1,3)] start_over(2) show ?case by (cases r) (simp, simp, blast)
next
  case (stop s cid i env s' r pc)
  then show ?case by (blast intro: leak_quiet quiet_trans [OF quiet_simps(2) quiet_signals])
next
  case (kill s cid i pc sig)
  have "quiet s (record_call (CrunKill cid sig) (set_stopped i True s))"
    by (rule quiet_trans [OF quiet_simps(2) quiet_simps(3)]) simp
  with kill(2) show ?case by (rule leak_quiet)
next
  case (kill_restart s cid i pc sig)
  have "quiet s (record_call (CrunKill cid sig) s)" by simp
  with kill_restart(2) show ?case by (rule leak_quiet)
next
  case (unmark i s pc)
  then show ?case by (blast intro: leak_quiet quiet_simps(2))
next
  case (poll i s w s' r pc)
  then show ?case by (blast intro: leak_quiet quiet_poll)
qed (blast intro: leak_exit leak_wake)+

end
