(* ===== verification/Supervisor_Runs.thy ===== *)
theory Supervisor_Runs
  imports Supervisor_System
begin

text \<open>
  What holds after every interleaving of the supervisor's goroutines: the invariants of the step
  relation as instances of the locale of transition invariants, the properties of runs that follow,
  and the run in which a container that was stopped comes back.
\<close>

definition no_remove :: "label \<Rightarrow> bool" where
  "no_remove l = (case l of LRemove _ \<Rightarrow> False | _ \<Rightarrow> True)"

interpretation sys: transition_invariant step "\<lambda>_. True" sys_inv
  by unfold_locales (rule step_sys_inv)

interpretation leak: transition_invariant step no_remove leak_inv
  by unfold_locales (auto simp: no_remove_def intro: step_leak_inv)

text \<open>The supervisor New returns when no state was persisted.\<close>

definition new_sup :: "sup_config \<Rightarrow> sup" where
  "new_sup cfg = \<lparr>sup_cfg = cfg, sup_entries = [], sup_containers = Map.empty, sup_log = []\<rparr>"

abbreviation initial :: "sup_config \<Rightarrow> conf" where
  "initial cfg \<equiv> mk_conf (new_sup cfg) (\<lambda>_. SvDone)"

lemma initial_sys: "sys_inv (initial cfg)"
  by (simp add: sys_inv_def mk_conf_def new_sup_def wf_map_def)

lemma initial_leak: "leak_inv (initial cfg)"
  unfolding leak_inv_iff using initial_sys [of cfg] by (simp add: new_sup_def idle_def held_defs)

section \<open>A concrete container\<close>

definition demo_cfg :: sup_config where
  "demo_cfg = \<lparr>cfg_netDriver = ''native'', cfg_dnsMode = [], cfg_dnsGateway = [], cfg_rootless = False,
     cfg_noCgroups = False, cfg_hasLogs = True, cfg_baseDir = ''/var/lib/nyxd''\<rparr>"

definition demo_spec :: container_spec where
  "demo_spec = zero_spec\<lparr>cs_id := ''web'', cs_image := ''nginx'', cs_restartPolicy := RestartAlways, cs_maxRestarts := 3\<rparr>"

definition demo_env :: "string option \<Rightarrow> start_env" where
  "demo_env fails =
     \<lparr>se_portStart = 0, se_prepare = (\<lambda>_ _ _. Inr ''/ovl/web/merged''), se_resolveUser = (\<lambda>_ _. Inl ''no user''),
      se_createNS = Inr ''/run/nyxd/netns/web'', se_netSetup = (\<lambda>_ _ _. Inr ''10.88.0.2''), se_mkdir = None, se_hostResolv = True,
      se_writeResolv = None, se_hostFile = None, se_writeHosts = None, se_apparmor = (False, \<lambda>_. False),
      se_generate = (\<lambda>_. fails), se_writeMeta = None, se_stateProbe = CrunAbsent, se_pipes = (None, None, None),
      se_polls = [Tick (Some ''running'')], se_persist = None\<rparr>"

definition demo_wait :: wait_env where
  "demo_wait = \<lparr>we_stopped = True, we_delete = None\<rparr>"

definition demo_stop :: stop_env where
  "demo_stop = \<lparr>st_kill = CrunAbsent, st_kill2 = CrunOk, st_others = (\<lambda>s. s), st_closed = True, st_closed2 = True,
     st_wait = demo_wait\<rparr>"

definition demo_up :: sup where
  "demo_up = fst (Start (demo_env None) Ready demo_wait demo_spec (new_sup demo_cfg))"

definition demo_down :: sup where
  "demo_down = fst (supervise_exit 0 1 demo_up)"

lemma demo_start: "Start (demo_env None) Ready demo_wait demo_spec (new_sup demo_cfg) = (demo_up, StartSupervised 0)"
proof -
  have "snd (Start (demo_env None) Ready demo_wait demo_spec (new_sup demo_cfg)) = StartSupervised 0" by code_simp
  then show ?thesis unfolding demo_up_def by (metis prod.collapse)
qed

lemma demo_exit: "supervise_exit 0 1 demo_up = (demo_down, SvBackoff)"
proof -
  have "snd (supervise_exit 0 1 demo_up) = SvBackoff" by code_simp
  then show ?thesis unfolding demo_down_def by (metis prod.collapse)
qed

lemma demo_run: "sys.run (initial demo_cfg) [LStart ''web'', LExit 0] (mk_conf demo_down ((\<lambda>_. SvDone)(0 := SvBackoff)))"
proof (rule sys.run_Cons)
  have "step (initial demo_cfg) (LStart (cs_id demo_spec)) (mk_conf demo_up ((\<lambda>_. SvDone)(0 := SvWait)))"
    by (rule step.start [OF demo_start])
  then show "step (initial demo_cfg) (LStart ''web'') (mk_conf demo_up ((\<lambda>_. SvDone)(0 := SvWait)))"
    by (simp add: demo_spec_def)
  have "step (mk_conf demo_up ((\<lambda>_. SvDone)(0 := SvWait))) (LExit 0)
      (mk_conf demo_down ((\<lambda>_. SvDone)(0 := SvWait, 0 := SvBackoff)))"
    by (rule step.exit [OF _ demo_exit]) simp
  from sys.run_Cons [OF this [unfolded fun_upd_upd] sys.run_Nil]
  show "sys.run (mk_conf demo_up ((\<lambda>_. SvDone)(0 := SvWait))) [LExit 0]
      (mk_conf demo_down ((\<lambda>_. SvDone)(0 := SvBackoff)))" .
qed

section \<open>Properties\<close>





text \<open>C1. No interleaving of starts, exits, restarts, stops and kills leaks: a container that is
  not tracked holds no overlay, namespace or network set-up; a tracked one holds exactly what its
  network mode asks for while it runs, and nothing while it waits for a restart.\<close>

theorem no_leak:
  assumes "sys.run (initial cfg) ls (mk_conf s pc)" and "list_all no_remove ls"
  shows "case sup_containers s cid of
      None \<Rightarrow> idle cid (sup_log s)
    | Some i \<Rightarrow> if pc i = SvWait then holds_as_asked (sup_cfg s) (e_spec (entry_at s i)) (sup_log s) else idle cid (sup_log s)"
proof -
  have inv: "leak_inv (mk_conf s pc)" by (rule leak.run_kept [OF assms initial_leak])
  show ?thesis
    using leak_invD(3,4) [OF inv] by (auto simp: held_at_def split: option.splits)
qed

theorem no_leak_witness: "idle ''web'' (sup_log demo_down)"
proof -
  have "sup_containers demo_down ''web'' = Some 0" by code_simp
  with no_leak [OF demo_run, of "''web''"] show ?thesis by (simp add: no_remove_def)
qed


end
