(* ===== verification/Supervisor_Adopt.thy ===== *)
theory Supervisor_Adopt
  imports Supervisor_Runs Image_Store
begin

text \<open>
  What the supervisor keeps on disk and what it does with it: the record of a running container and its
  removal, the re-adoption of running containers by a daemon that starts after a crash
  (src/internal/supervisor/persist.go, bundle_meta.go, hostports.go), and compose up, which leaves,
  recreates or starts each container of a project (compose_up.go).

  The state directory is a map from file names to nodes. The JSON encoder and decoder, the answers of
  crun, the failures of file operations and the image store are arguments. The supervise goroutines that a
  reconciliation starts are the result \<open>rc_spawned\<close>, the addresses of their entries.
\<close>

section \<open>Records\<close>

definition supervisorPersistVersion :: int where
  "supervisorPersistVersion = 1"

record persist_record =
  pr_version :: int
  pr_spec :: container_spec
  pr_netNS :: string
  pr_ip :: string
  pr_bundleDir :: string
  pr_rootFS :: string

datatype dir_node = SubDir | Unreadable | Content string

type_synonym state_dir = "(string, dir_node) gomap"

definition supervisorStateDir :: "sup_config \<Rightarrow> string" where
  "supervisorStateDir cfg = path_join [cfg_baseDir cfg, ''supervisor'', ''containers'']"

definition persistPath :: "sup_config \<Rightarrow> string \<Rightarrow> string" where
  "persistPath cfg cid = path_join [supervisorStateDir cfg, cid @ ''.json'']"

text \<open>The failures of the calls that write a record, in the order they are made.\<close>

record persist_io =
  pi_mkdir :: "string option"
  pi_temp :: "string option"
  pi_write :: "string option"
  pi_close :: "string option"
  pi_chmod :: "string option"
  pi_rename :: "string option"

datatype persist_error = PersistIO string | PersistEmptyID

definition persist_record_of :: "entry \<Rightarrow> persist_record" where
  "persist_record_of e =
     \<lparr>pr_version = supervisorPersistVersion, pr_spec = e_spec e, pr_netNS = e_netNS e, pr_ip = e_ip e,
      pr_bundleDir = e_bundleDir e, pr_rootFS = e_rootFS e\<rparr>"

text \<open>The temporary file is removed on every path, so the directory changes by the rename alone.\<close>

fun first_error :: "'e option list \<Rightarrow> 'e option" where
  "first_error [] = None"
| "first_error (Some e # es) = Some e"
| "first_error (None # es) = first_error es"

definition persistContainerEntry ::
  "(persist_record \<Rightarrow> string) \<Rightarrow> persist_io \<Rightarrow> entry \<Rightarrow> state_dir \<Rightarrow> state_dir \<times> persist_error option" where
  "persistContainerEntry enc io e d =
     (case pi_mkdir io of
        Some err \<Rightarrow> (d, Some (PersistIO err))
      | None \<Rightarrow>
          (let data = enc (persist_record_of e); cid = cs_id (e_spec e)
           in if cid = [] then (d, Some PersistEmptyID)
              else case first_error [pi_temp io, pi_write io, pi_close io, pi_chmod io, pi_rename io] of
                     Some err \<Rightarrow> (d, Some (PersistIO err))
                   | None \<Rightarrow> (AList.update (cid @ ''.json'') (Content data) d, None)))"

section \<open>Re-adoption from records\<close>

text \<open>What crun reports of a container: an error that says it is absent, another error, no state, or a
  status.\<close>

datatype state_reply = StateAbsent | StateFails string | StateNil | StateIs string

record reconcile =
  rc_dir :: state_dir
  rc_sup :: sup
  rc_spawned :: "nat list"

text \<open>\<open>net\<close> is the error of the driver's Setup, \<open>None\<close> when there is none; New always has a driver.\<close>

definition restoreHostForwards :: "(string \<Rightarrow> string option) \<Rightarrow> container_spec \<Rightarrow> sup \<Rightarrow> sup" where
  "restoreHostForwards net spec s =
     (if \<not> hostNetwork (sup_cfg s) \<or> cs_portMappings spec = [] then s
      else case net (cs_id spec) of Some e \<Rightarrow> s | None \<Rightarrow> record_call (NetSetup (cs_id spec)) s)"

definition adopted_entry :: "container_spec \<Rightarrow> string \<Rightarrow> string \<Rightarrow> string \<Rightarrow> string \<Rightarrow> entry" where
  "adopted_entry spec netNS ip bundleDir rootFS =
     (new_entry spec False)\<lparr>e_netNS := netNS, e_ip := ip, e_bundleDir := bundleDir, e_rootFS := rootFS\<rparr>"

definition track :: "string \<Rightarrow> entry \<Rightarrow> sup \<Rightarrow> sup" where
  "track cid e s =
     s\<lparr>sup_entries := sup_entries s @ [e], sup_containers := (sup_containers s)(cid \<mapsto> length (sup_entries s))\<rparr>"

definition readopt :: "(string \<Rightarrow> string option) \<Rightarrow> string \<Rightarrow> persist_record \<Rightarrow> reconcile \<Rightarrow> reconcile" where
  "readopt net cid r rc =
     (let s = rc_sup rc; i = length (sup_entries s);
          e = adopted_entry (pr_spec r) (pr_netNS r) (pr_ip r) (pr_bundleDir r) (pr_rootFS r);
          s1 = startHealthMonitor i (restoreHostForwards net (pr_spec r) (track cid e s))
      in rc\<lparr>rc_sup := registerEmbeddedDNS (pr_spec r) (pr_ip r) s1, rc_spawned := rc_spawned rc @ [i]\<rparr>)"

definition reconcile_file ::
  "(string \<Rightarrow> persist_record option) \<Rightarrow> (string \<Rightarrow> state_reply) \<Rightarrow> (string \<Rightarrow> bool) \<Rightarrow> (string \<Rightarrow> string option) \<Rightarrow>
     reconcile \<Rightarrow> string \<times> dir_node \<Rightarrow> reconcile" where
  "reconcile_file dec crun rm net rc f =
     (case f of (name, node) \<Rightarrow>
        (let cid = trim_suffix name ''.json'';
             drop = (if rm name then rc\<lparr>rc_dir := AList.delete name (rc_dir rc)\<rparr> else rc)
         in if \<not> has_suffix name ''.json'' then rc
            else case node of
                   SubDir \<Rightarrow> rc
                 | Unreadable \<Rightarrow> rc
                 | Content data \<Rightarrow>
                     (case dec data of
                        None \<Rightarrow> rc
                      | Some r \<Rightarrow>
                          if pr_version r \<noteq> supervisorPersistVersion then rc
                          else if cs_id (pr_spec r) \<noteq> cid then rc
                          else case crun cid of
                                 StateAbsent \<Rightarrow> drop
                               | StateFails _ \<Rightarrow> rc
                               | StateNil \<Rightarrow> drop
                               | StateIs status \<Rightarrow>
                                   if status \<noteq> ''running'' then drop
                                   else if sup_containers (rc_sup rc) cid \<noteq> None then rc
                                   else readopt net cid r rc)))"

text \<open>ReadDir returns the entries in the order of their names. \<open>ok\<close> is false when the directory cannot be
  created or read.\<close>

definition reconcilePersisted ::
  "(string \<Rightarrow> persist_record option) \<Rightarrow> (string \<Rightarrow> state_reply) \<Rightarrow> (string \<Rightarrow> bool) \<Rightarrow> (string \<Rightarrow> string option) \<Rightarrow>
     bool \<Rightarrow> state_dir \<Rightarrow> sup \<Rightarrow> reconcile" where
  "reconcilePersisted dec crun rm net ok d s =
     (let rc = \<lparr>rc_dir = d, rc_sup = s, rc_spawned = []\<rparr>
      in if \<not> ok then rc
         else foldl (reconcile_file dec crun rm net) rc
                (map (\<lambda>n. (n, the (map_of d n))) (sort_strings (map fst d))))"

section \<open>Re-adoption from the bundle\<close>

text \<open>writeBundleRunMeta and readBundleRunMeta: the file nyxd-meta.json of a bundle directory.\<close>

definition readBundleRunMeta :: "(string \<Rightarrow> bundle_run_meta json) \<Rightarrow> string \<Rightarrow> bundle_run_meta option" where
  "readBundleRunMeta files bundleDir =
     (case files (path_join [bundleDir, ''nyxd-meta.json'']) of
        Json m \<Rightarrow> if trim_space (meta_image m) = [] then None else Some m
      | _ \<Rightarrow> None)"

record crun_entry =
  cr_id :: string
  cr_status :: string
  cr_bundle :: string

record orphan_env =
  oe_meta :: "string \<Rightarrow> bundle_run_meta json"
  oe_stat :: "string \<Rightarrow> bool"
  oe_net :: "string \<Rightarrow> string option"
  oe_enc :: "persist_record \<Rightarrow> string"
  oe_persist :: "string \<Rightarrow> persist_io"

text \<open>Publish strings that do not parse are skipped with a warning.\<close>

definition orphan_ports :: "string list \<Rightarrow> port_mapping list" where
  "orphan_ports pubs = concat (map (\<lambda>p. case ParseDockerPublish p of Inl _ \<Rightarrow> [] | Inr m \<Rightarrow> [m]) pubs)"

definition orphan_spec ::
  "string \<Rightarrow> bundle_run_meta \<Rightarrow> manifest \<times> image_config \<times> string list \<Rightarrow> container_spec" where
  "orphan_spec cid meta img =
     (case img of (m, cfg, paths) \<Rightarrow>
        zero_spec\<lparr>cs_id := cid, cs_image := meta_image meta, cs_imageConfig := Some cfg, cs_manifestLayers := mf_layers m,
          cs_blobPaths := paths, cs_env := meta_env meta, cs_args := meta_args meta, cs_hostname := meta_hostname meta,
          cs_restartPolicy := restartPolicyFromString (meta_restart meta),
          cs_portMappings := orphan_ports (meta_publish meta)\<rparr>)"

definition adopt_orphan :: "orphan_env \<Rightarrow> string \<Rightarrow> entry \<Rightarrow> reconcile \<Rightarrow> reconcile" where
  "adopt_orphan env cid e rc =
     (let s = rc_sup rc; i = length (sup_entries s);
          s1 = restoreHostForwards (oe_net env) (e_spec e) (track cid e s)
      in case persistContainerEntry (oe_enc env) (oe_persist env cid) e (rc_dir rc) of
           (d, err) \<Rightarrow>
             (let s2 = (if err = None then record_call (PersistWrite cid) s1 else s1)
              in \<lparr>rc_dir = d, rc_sup = registerEmbeddedDNS (e_spec e) (e_ip e) s2, rc_spawned = rc_spawned rc @ [i]\<rparr>))"

definition reconcile_orphan :: "orphan_env \<Rightarrow> store \<Rightarrow> reconcile \<Rightarrow> crun_entry \<Rightarrow> reconcile" where
  "reconcile_orphan env st rc c =
     (let cid = trim_space (cr_id c); s = rc_sup rc; cfg = sup_cfg s;
          bundleDir = (if trim_space (cr_bundle c) = [] then path_join [cfg_baseDir cfg, ''bundles'', cid]
                       else trim_space (cr_bundle c));
          nsPath = (if hostNetwork cfg then [] else path_join [''/run/nyxd/netns'', cid]);
          merged = path_join [cfg_baseDir cfg, ''overlay'', cid, ''merged'']
      in if cr_status c \<noteq> ''running'' \<or> cid = [] \<or> sup_containers s cid \<noteq> None then rc
         else case readBundleRunMeta (oe_meta env) bundleDir of
                None \<Rightarrow> rc
              | Some meta \<Rightarrow>
                  if \<not> hostNetwork cfg \<and> \<not> oe_stat env nsPath then rc
                  else if \<not> oe_stat env merged then rc
                  else case ResolvePulledImage st (meta_image meta) of
                         Inl _ \<Rightarrow> rc
                       | Inr img \<Rightarrow>
                           adopt_orphan env cid
                             (adopted_entry (orphan_spec cid meta img) nsPath (trim_space (meta_ip meta)) bundleDir merged) rc)"

definition reconcileCrunOrphans ::
  "orphan_env \<Rightarrow> store option \<Rightarrow> crun_entry list option \<Rightarrow> reconcile \<Rightarrow> reconcile" where
  "reconcileCrunOrphans env st states rc =
     (case st of
        None \<Rightarrow> rc
      | Some st \<Rightarrow> (case states of None \<Rightarrow> rc | Some cs \<Rightarrow> foldl (reconcile_orphan env st) rc cs))"

text \<open>New of the supervisor: a fresh one, then both reconciliations. \<open>hist\<close> is what the daemons before it
  asked of the system, which outlives them.\<close>

definition fresh_sup :: "sup_config \<Rightarrow> call list \<Rightarrow> sup" where
  "fresh_sup cfg hist = \<lparr>sup_cfg = cfg, sup_entries = [], sup_containers = Map.empty, sup_log = hist\<rparr>"

definition NewSupervisor ::
  "(string \<Rightarrow> persist_record option) \<Rightarrow> (string \<Rightarrow> state_reply) \<Rightarrow> (string \<Rightarrow> bool) \<Rightarrow> orphan_env \<Rightarrow> store option \<Rightarrow>
     crun_entry list option \<Rightarrow> bool \<Rightarrow> state_dir \<Rightarrow> sup_config \<Rightarrow> call list \<Rightarrow> reconcile" where
  "NewSupervisor dec crun rm env st states ok d cfg hist =
     reconcileCrunOrphans env st states
       (reconcilePersisted dec crun rm (oe_net env) ok d (fresh_sup cfg hist))"

section \<open>Compose up\<close>

datatype up_error = UpStart start_error | UpStop stop_error | UpStillTracked string

record up_io =
  ui_start :: start_env
  ui_ready :: ready
  ui_wait :: wait_env
  ui_stop :: stop_env
  ui_ticks :: "(sup \<Rightarrow> sup) list"

text \<open>One element of the list per tick of the poll: what the other goroutines did before it. The list ends
  when the context does.\<close>

fun waitContainerAbsent :: "string \<Rightarrow> (sup \<Rightarrow> sup) list \<Rightarrow> sup \<Rightarrow> sup \<times> bool" where
  "waitContainerAbsent cid [] s = (s, sup_containers s cid = None)"
| "waitContainerAbsent cid (f # fs) s =
     (if sup_containers s cid = None then (s, True) else waitContainerAbsent cid fs (f s))"

definition up_start :: "up_io \<Rightarrow> container_spec \<Rightarrow> sup \<Rightarrow> sup \<times> (up_error + start_result option)" where
  "up_start io want s =
     (case Start (ui_start io) (ui_ready io) (ui_wait io) want s of
        (s1, StartFailed e) \<Rightarrow> (s1, Inl (UpStart e))
      | (s1, r) \<Rightarrow> (s1, Inr (Some r)))"

text \<open>The result \<open>None\<close>: the container runs with an equivalent specification and is left alone.\<close>

definition ensureComposeContainer ::
  "up_io \<Rightarrow> container_spec \<Rightarrow> sup \<Rightarrow> sup \<times> (up_error + start_result option)" where
  "ensureComposeContainer io want0 s =
     (let want = normalize_spec want0
      in case sup_containers s (cs_id want) of
           None \<Rightarrow> up_start io want s
         | Some i \<Rightarrow>
             if composeSpecsEqual (normalize_spec (e_spec (entry_at s i))) want then (s, Inr None)
             else case Stop (ui_stop io) (cs_id want) s of
                    (s1, Some e) \<Rightarrow> (s1, Inl (UpStop e))
                  | (s1, None) \<Rightarrow>
                      (case waitContainerAbsent (cs_id want) (ui_ticks io) s1 of
                         (s2, False) \<Rightarrow> (s2, Inl (UpStillTracked (cs_id want)))
                       | (s2, True) \<Rightarrow> up_start io want s2))"

fun StartComposeUp ::
  "(up_io \<times> container_spec) list \<Rightarrow> sup \<Rightarrow> sup \<times> (up_error + start_result option list)" where
  "StartComposeUp [] s = (s, Inr [])"
| "StartComposeUp ((io, want) # rest) s =
     (case ensureComposeContainer io want s of
        (s1, Inl e) \<Rightarrow> (s1, Inl e)
      | (s1, Inr r) \<Rightarrow> (case StartComposeUp rest s1 of
          (s2, Inl e) \<Rightarrow> (s2, Inl e)
        | (s2, Inr rs) \<Rightarrow> (s2, Inr (r # rs))))"

section \<open>What a reconciliation adopts\<close>

lemma trim_suffix_has: "has_suffix s p \<Longrightarrow> s = trim_suffix s p @ p"
proof -
  assume h: "has_suffix s p"
  then have "take (length p) (rev s) = rev p" by (simp add: has_suffix_def has_prefix_def)
  then have "drop (length s - length p) s = p" by (simp add: take_rev)
  with h show ?thesis using append_take_drop_id [of "length s - length p" s] by (simp add: trim_suffix_def)
qed

lemma record_name [simp]: "has_suffix (cid @ ''.json'') ''.json''" "trim_suffix (cid @ ''.json'') ''.json'' = cid"
  by (simp_all add: has_suffix_def has_prefix_def trim_suffix_def)

text \<open>The record that a file contributes, and the first one for an id.\<close>

definition adopts :: "(string \<Rightarrow> persist_record option) \<Rightarrow> (string \<Rightarrow> state_reply) \<Rightarrow> string \<times> dir_node \<Rightarrow> persist_record option" where
  "adopts dec crun f =
     (case f of
        (name, Content data) \<Rightarrow>
          (case dec data of
             Some r \<Rightarrow> if has_suffix name ''.json'' \<and> pr_version r = supervisorPersistVersion \<and>
                         cs_id (pr_spec r) = trim_suffix name ''.json'' \<and> crun (cs_id (pr_spec r)) = StateIs ''running''
                       then Some r else None
           | None \<Rightarrow> None)
      | _ \<Rightarrow> None)"

definition found ::
  "(string \<Rightarrow> persist_record option) \<Rightarrow> (string \<Rightarrow> state_reply) \<Rightarrow> (string \<times> dir_node) list \<Rightarrow> string \<Rightarrow> persist_record option" where
  "found dec crun fs = map_of (concat (map (\<lambda>f. case adopts dec crun f of Some r \<Rightarrow> [(cs_id (pr_spec r), r)] | None \<Rightarrow> []) fs))"

lemma found_snoc:
  "found dec crun (fs @ [f]) cid =
     (case found dec crun fs cid of
        Some r \<Rightarrow> Some r
      | None \<Rightarrow> (case adopts dec crun f of Some r \<Rightarrow> if cs_id (pr_spec r) = cid then Some r else None | None \<Rightarrow> None))"
  by (auto simp: found_def map_add_def split: option.splits)

lemma found_Nil [simp]: "found dec crun [] cid = None"
  by (simp add: found_def)

lemma reconcile_file_None:
  "adopts dec crun f = None \<Longrightarrow>
     rc_sup (reconcile_file dec crun rm net rc f) = rc_sup rc \<and> rc_spawned (reconcile_file dec crun rm net rc f) = rc_spawned rc"
  by (auto simp: reconcile_file_def adopts_def Let_def split: prod.splits dir_node.splits option.splits state_reply.splits if_splits)

lemma adoptsD:
  assumes "adopts dec crun f = Some r"
  obtains data where "f = (cs_id (pr_spec r) @ ''.json'', Content data)" and "dec data = Some r"
    and "pr_version r = supervisorPersistVersion" and "crun (cs_id (pr_spec r)) = StateIs ''running''"
proof -
  obtain name node where f: "f = (name, node)" by (cases f)
  with assms obtain data where c: "node = Content data" "dec data = Some r" "has_suffix name ''.json''"
    "pr_version r = supervisorPersistVersion" "cs_id (pr_spec r) = trim_suffix name ''.json''"
    "crun (cs_id (pr_spec r)) = StateIs ''running''"
    by (auto simp: adopts_def split: dir_node.splits option.splits if_splits)
  have "name = trim_suffix name ''.json'' @ ''.json''"
    using c(3) by (rule trim_suffix_has)
  with f c show ?thesis by (intro that [of data]) simp_all
qed

lemma reconcile_file_Some:
  assumes "adopts dec crun f = Some r"
  shows "reconcile_file dec crun rm net rc f =
    (if sup_containers (rc_sup rc) (cs_id (pr_spec r)) = None then readopt net (cs_id (pr_spec r)) r rc else rc)"
proof -
  obtain name node where f: "f = (name, node)" by (cases f)
  with assms obtain data where c: "node = Content data" "dec data = Some r" "has_suffix name ''.json''"
    "pr_version r = supervisorPersistVersion" "trim_suffix name ''.json'' = cs_id (pr_spec r)"
    "crun (cs_id (pr_spec r)) = StateIs ''running''"
    by (auto simp: adopts_def split: dir_node.splits option.splits if_splits)
  then show ?thesis by (simp add: reconcile_file_def f Let_def)
qed

text \<open>What re-adopting one container does.\<close>

lemma readopt_simps:
  fixes net cid r rc
  defines "s \<equiv> rc_sup rc" and "s' \<equiv> rc_sup (readopt net cid r rc)"
  assumes "pr_version r = supervisorPersistVersion"
  shows "sup_cfg s' = sup_cfg s" and "length (sup_entries s') = Suc (length (sup_entries s))"
    and "k < length (sup_entries s) \<Longrightarrow> entry_at s' k = entry_at s k"
    and "persist_record_of (entry_at s' (length (sup_entries s))) = r"
    and "e_restarts (entry_at s' (length (sup_entries s))) = 0"
    and "sup_containers s' = (sup_containers s)(cid \<mapsto> length (sup_entries s))"
    and "rc_spawned (readopt net cid r rc) = rc_spawned rc @ [length (sup_entries s)]"
    and "\<not> hostNetwork (sup_cfg s) \<Longrightarrow> agree x (sup_log s') (sup_log s)"
    and "rc_dir (readopt net cid r rc) = rc_dir rc"
proof -
  define e where "e = adopted_entry (pr_spec r) (pr_netNS r) (pr_ip r) (pr_bundleDir r) (pr_rootFS r)"
  define t where "t = restoreHostForwards net (pr_spec r) (track cid e s)"
  define i where "i = length (sup_entries s)"
  have t: "sup_cfg t = sup_cfg s" "sup_entries t = sup_entries s @ [e]" "sup_containers t = (sup_containers s)(cid \<mapsto> i)"
    by (auto simp: t_def restoreHostForwards_def track_def record_call_def i_def split: option.split)
  have s': "s' = registerEmbeddedDNS (pr_spec r) (pr_ip r) (startHealthMonitor i t)"
    by (simp add: s'_def readopt_def t_def e_def s_def i_def Let_def)
  have ent: "\<exists>b. sup_entries s' = sup_entries s @ [e\<lparr>e_checker := b\<rparr>]"
  proof -
    have "\<exists>b. sup_entries (startHealthMonitor i t) = sup_entries s @ [e\<lparr>e_checker := b\<rparr>]"
      by (auto simp: startHealthMonitor_def upd_entry_def record_call_def t i_def nth_append
          e_def adopted_entry_def new_entry_def split: option.split)
    then show ?thesis by (simp add: s' registerEmbeddedDNS_def record_call_def)
  qed
  then obtain b where b: "sup_entries s' = sup_entries s @ [e\<lparr>e_checker := b\<rparr>]" ..
  show "sup_cfg s' = sup_cfg s" "sup_containers s' = (sup_containers s)(cid \<mapsto> length (sup_entries s))"
    by (auto simp: s' registerEmbeddedDNS_def startHealthMonitor_def record_call_def upd_entry_def t i_def split: option.split)
  show "length (sup_entries s') = Suc (length (sup_entries s))" using b by simp
  show "entry_at s' k = entry_at s k" if "k < length (sup_entries s)" using that by (simp add: entry_at_def b nth_append)
  show "persist_record_of (entry_at s' (length (sup_entries s))) = r" "e_restarts (entry_at s' (length (sup_entries s))) = 0"
    using assms(3) by (simp_all add: entry_at_def b nth_append persist_record_of_def e_def adopted_entry_def new_entry_def)
  show "rc_spawned (readopt net cid r rc) = rc_spawned rc @ [length (sup_entries s)]" "rc_dir (readopt net cid r rc) = rc_dir rc"
    by (simp_all add: readopt_def Let_def s_def)
  show "agree x (sup_log s') (sup_log s)" if "\<not> hostNetwork (sup_cfg s)"
    unfolding s' using that
    by (intro agree_trans [OF neutral_helpers(4)] agree_trans [OF neutral_helpers(9)])
       (simp add: t_def restoreHostForwards_def track_def)
qed

text \<open>The state between two files.\<close>

definition adopted :: "sup_config \<Rightarrow> call list \<Rightarrow> (string \<Rightarrow> persist_record option) \<Rightarrow> reconcile \<Rightarrow> bool" where
  "adopted cfg hist fnd rc \<longleftrightarrow>
     (let s = rc_sup rc; n = length (sup_entries s)
      in sup_cfg s = cfg \<and> rc_spawned rc = [0..<n] \<and>
         (\<forall>cid. case fnd cid of
            None \<Rightarrow> sup_containers s cid = None
          | Some r \<Rightarrow> cs_id (pr_spec r) = cid \<and> (\<exists>i < n. sup_containers s cid = Some i \<and> persist_record_of (entry_at s i) = r)) \<and>
         (\<forall>i < n. e_restarts (entry_at s i) = 0 \<and> sup_containers s (id_at s i) = Some i) \<and>
         (\<not> hostNetwork cfg \<longrightarrow> (\<forall>cid. agree cid (sup_log s) hist)))"

lemma persist_record_of_id: "cs_id (pr_spec (persist_record_of e)) = cs_id (e_spec e)"
  by (simp add: persist_record_of_def)

lemma adopted_tracks:
  assumes "adopted cfg hist fnd rc"
  shows "sup_containers (rc_sup rc) cid = None \<longleftrightarrow> fnd cid = None"
proof -
  from assms have "case fnd cid of
      None \<Rightarrow> sup_containers (rc_sup rc) cid = None
    | Some r \<Rightarrow> cs_id (pr_spec r) = cid \<and> (\<exists>i < length (sup_entries (rc_sup rc)).
        sup_containers (rc_sup rc) cid = Some i \<and> persist_record_of (entry_at (rc_sup rc) i) = r)"
    unfolding adopted_def Let_def by blast
  then show ?thesis by (auto split: option.splits)
qed

lemma adopted_readopt:
  assumes a: "adopted cfg hist fnd rc" and f: "sup_containers (rc_sup rc) (cs_id (pr_spec r)) = None"
    and v: "pr_version r = supervisorPersistVersion"
  shows "adopted cfg hist (fnd(cs_id (pr_spec r) \<mapsto> r)) (readopt net (cs_id (pr_spec r)) r rc)"
proof -
  let ?c = "cs_id (pr_spec r)" and ?s = "rc_sup rc" and ?rc = "readopt net (cs_id (pr_spec r)) r rc"
  let ?n = "length (sup_entries ?s)"
  note r = readopt_simps [where net = net and cid = ?c and rc = rc, OF v]
  note old = a [unfolded adopted_def Let_def]
  have own: "id_at (rc_sup ?rc) ?n = ?c"
    using arg_cong [OF r(4), of "\<lambda>r. cs_id (pr_spec r)"] by (simp add: id_at_def persist_record_of_id)
  have ids: "case (fnd(?c \<mapsto> r)) cid of
      None \<Rightarrow> sup_containers (rc_sup ?rc) cid = None
    | Some r' \<Rightarrow> cs_id (pr_spec r') = cid \<and>
        (\<exists>i < Suc ?n. sup_containers (rc_sup ?rc) cid = Some i \<and> persist_record_of (entry_at (rc_sup ?rc) i) = r')" for cid
  proof (cases "cid = ?c")
    case True
    then show ?thesis using r(4,6) by auto
  next
    case False
    with old have "case fnd cid of None \<Rightarrow> sup_containers ?s cid = None
      | Some r' \<Rightarrow> cs_id (pr_spec r') = cid \<and> (\<exists>i < ?n. sup_containers ?s cid = Some i \<and> persist_record_of (entry_at ?s i) = r')"
      by blast
    with False r(3,6) show ?thesis by (auto simp: less_Suc_eq split: option.splits)
  qed
  have ent: "e_restarts (entry_at (rc_sup ?rc) i) = 0 \<and> sup_containers (rc_sup ?rc) (id_at (rc_sup ?rc) i) = Some i"
    if "i < Suc ?n" for i
  proof (cases "i = ?n")
    case True
    then show ?thesis using own r(5,6) by simp
  next
    case False
    with that have "i < ?n" by simp
    moreover from this old have "e_restarts (entry_at ?s i) = 0" "sup_containers ?s (id_at ?s i) = Some i" by blast+
    moreover from this f have "id_at ?s i \<noteq> ?c" by auto
    ultimately show ?thesis using r(3) [of i] r(6) by (simp add: id_at_def)
  qed
  have "agree cid (sup_log (rc_sup ?rc)) hist" if "\<not> hostNetwork cfg" for cid
    using that old agree_trans [OF r(8)] by auto
  with ids ent old r(1,2,7) show ?thesis by (simp add: adopted_def)
qed

lemma adopted_fold:
  "adopted cfg hist (found dec crun fs)
     (foldl (reconcile_file dec crun rm net) \<lparr>rc_dir = d, rc_sup = fresh_sup cfg hist, rc_spawned = []\<rparr> fs)"
proof (induction fs rule: rev_induct)
  case Nil
  show ?case by (simp add: adopted_def fresh_sup_def)
next
  case (snoc f fs)
  let ?rc = "foldl (reconcile_file dec crun rm net) \<lparr>rc_dir = d, rc_sup = fresh_sup cfg hist, rc_spawned = []\<rparr> fs"
  note trk = adopted_tracks [OF snoc]
  show ?case
  proof (cases "adopts dec crun f")
    case None
    then have "found dec crun (fs @ [f]) = found dec crun fs" by (auto simp: found_snoc fun_eq_iff split: option.splits)
    moreover have "rc_sup (reconcile_file dec crun rm net ?rc f) = rc_sup ?rc"
      "rc_spawned (reconcile_file dec crun rm net ?rc f) = rc_spawned ?rc"
      by (simp_all add: reconcile_file_None [OF None])
    ultimately show ?thesis using snoc by (simp add: adopted_def)
  next
    case (Some r)
    then have v: "pr_version r = supervisorPersistVersion" by (rule adoptsD)
    show ?thesis
    proof (cases "sup_containers (rc_sup ?rc) (cs_id (pr_spec r)) = None")
      case True
      then have "found dec crun (fs @ [f]) = (found dec crun fs)(cs_id (pr_spec r) \<mapsto> r)"
        unfolding trk by (auto simp: found_snoc Some fun_eq_iff split: option.splits)
      moreover have "reconcile_file dec crun rm net ?rc f = readopt net (cs_id (pr_spec r)) r ?rc"
        using reconcile_file_Some [OF Some] True by simp
      ultimately show ?thesis using adopted_readopt [OF snoc True v, of net] by (simp only: foldl_append foldl.simps)
    next
      case False
      then have "found dec crun (fs @ [f]) = found dec crun fs"
        unfolding trk by (auto simp: found_snoc Some fun_eq_iff split: option.splits)
      moreover have "reconcile_file dec crun rm net ?rc f = ?rc" unfolding reconcile_file_Some [OF Some] by (rule if_not_P [OF False])
      ultimately show ?thesis using snoc by simp
    qed
  qed
qed

text \<open>The files of a directory in the order of their names, and the record of an id.\<close>

definition dir_files :: "state_dir \<Rightarrow> (string \<times> dir_node) list" where
  "dir_files d = map (\<lambda>n. (n, the (map_of d n))) (sort_strings (map fst d))"

lemma reconcilePersisted_adopted:
  "adopted cfg hist (found dec crun (dir_files d)) (reconcilePersisted dec crun rm net True d (fresh_sup cfg hist))"
  using adopted_fold [of cfg hist dec crun "dir_files d" rm net d] by (simp add: reconcilePersisted_def dir_files_def Let_def)

lemma dir_files_mem: "f \<in> set (dir_files d) \<longleftrightarrow> map_of d (fst f) = Some (snd f)"
proof -
  have "fst f \<in> fst ` set d \<longleftrightarrow> map_of d (fst f) \<noteq> None" by (simp add: map_of_eq_None_iff)
  then show ?thesis by (cases f) (auto simp: dir_files_def set_sort_strings image_iff map_of_SomeD)
qed

lemma found_mem:
  "found dec crun fs cid = Some r \<Longrightarrow> \<exists>f \<in> set fs. adopts dec crun f = Some r \<and> cs_id (pr_spec r) = cid"
  by (force simp: found_def dest!: map_of_SomeD split: option.splits)

lemma found_None_iff:
  "found dec crun fs cid = None \<longleftrightarrow> (\<forall>f \<in> set fs. \<forall>r. adopts dec crun f = Some r \<longrightarrow> cs_id (pr_spec r) \<noteq> cid)"
  by (force simp: found_def map_of_eq_None_iff split: option.splits)

text \<open>The record of an id on disk decides.\<close>

definition record_of :: "(string \<Rightarrow> persist_record option) \<Rightarrow> state_dir \<Rightarrow> string \<Rightarrow> persist_record option" where
  "record_of dec d cid =
     (case map_of d (cid @ ''.json'') of
        Some (Content data) \<Rightarrow>
          (case dec data of
             Some r \<Rightarrow> if pr_version r = supervisorPersistVersion \<and> cs_id (pr_spec r) = cid then Some r else None
           | None \<Rightarrow> None)
      | _ \<Rightarrow> None)"

lemma found_record:
  "found dec crun (dir_files d) cid = (if crun cid = StateIs ''running'' then record_of dec d cid else None)"
proof (cases "found dec crun (dir_files d) cid")
  case (Some r)
  then obtain f where f: "f \<in> set (dir_files d)" "adopts dec crun f = Some r" "cs_id (pr_spec r) = cid"
    using found_mem by blast
  from f(2) obtain data where "f = (cs_id (pr_spec r) @ ''.json'', Content data)" "dec data = Some r"
    "pr_version r = supervisorPersistVersion" "crun (cs_id (pr_spec r)) = StateIs ''running''"
    by (rule adoptsD)
  with f(1,3) Some show ?thesis by (simp add: record_of_def dir_files_mem)
next
  case None
  have "False" if r: "record_of dec d cid = Some r" and c: "crun cid = StateIs ''running''" for r
  proof -
    from r obtain data where d: "map_of d (cid @ ''.json'') = Some (Content data)" "dec data = Some r"
      "pr_version r = supervisorPersistVersion" "cs_id (pr_spec r) = cid"
      by (auto simp: record_of_def split: option.splits dir_node.splits if_splits)
    then have "adopts dec crun (cid @ ''.json'', Content data) = Some r" using c by (simp add: adopts_def)
    moreover have "(cid @ ''.json'', Content data) \<in> set (dir_files d)" using d(1) by (simp add: dir_files_mem)
    ultimately show False using None d(4) unfolding found_None_iff by blast
  qed
  with None show ?thesis by (cases "record_of dec d cid") auto
qed

text \<open>A reconciliation deletes records and writes none; one of a container that does not run goes.\<close>

lemma reconcile_file_dir:
  "rc_dir (reconcile_file dec crun rm net rc f) = rc_dir rc \<or>
   rc_dir (reconcile_file dec crun rm net rc f) = AList.delete (fst f) (rc_dir rc)"
  by (auto simp: reconcile_file_def readopt_def Let_def split: prod.splits dir_node.splits option.splits state_reply.splits)

lemma reconcile_fold_deleted:
  "map_of (rc_dir rc) n = None \<Longrightarrow> map_of (rc_dir (foldl (reconcile_file dec crun rm net) rc fs)) n = None"
proof (induction fs arbitrary: rc)
  case (Cons f fs)
  then show ?case using reconcile_file_dir [of dec crun rm net rc f] by (auto simp: delete_conv')
qed simp

lemma reconcile_drops:
  assumes "record_of dec d cid = Some r" and "crun cid \<noteq> StateIs ''running''" and "\<And>e. crun cid \<noteq> StateFails e"
    and "rm (cid @ ''.json'')"
  shows "map_of (rc_dir (reconcilePersisted dec crun rm net True d s)) (cid @ ''.json'') = None"
proof -
  from assms(1) obtain data where d: "map_of d (cid @ ''.json'') = Some (Content data)" "dec data = Some r"
    "pr_version r = supervisorPersistVersion" "cs_id (pr_spec r) = cid"
    by (auto simp: record_of_def split: option.splits dir_node.splits if_splits)
  let ?f = "(cid @ ''.json'', Content data)"
  have "?f \<in> set (dir_files d)" using d(1) by (simp add: dir_files_mem)
  then obtain as bs where fs: "dir_files d = as @ ?f # bs" by (auto dest: split_list)
  have "map_of (rc_dir (reconcile_file dec crun rm net rc ?f)) (cid @ ''.json'') = None" for rc
    using d assms(2-4) by (auto simp: reconcile_file_def Let_def delete_conv' split: state_reply.split)
  then show ?thesis
    using reconcile_fold_deleted by (simp add: reconcilePersisted_def Let_def dir_files_def [symmetric] fs)
qed

text \<open>The goroutines of a restarted daemon.\<close>

definition spawned_pc :: "reconcile \<Rightarrow> nat \<Rightarrow> sv_pc" where
  "spawned_pc rc i = (if i \<in> set (rc_spawned rc) then SvWait else SvDone)"

lemma adopted_leak_inv:
  assumes a: "adopted cfg hist fnd rc" and net: "\<not> hostNetwork cfg"
    and none: "\<And>cid. fnd cid = None \<Longrightarrow> idle cid hist"
    and some: "\<And>cid r. fnd cid = Some r \<Longrightarrow> holds_as_asked cfg (pr_spec r) hist"
  shows "leak_inv (mk_conf (rc_sup rc) (spawned_pc rc))"
proof -
  let ?s = "rc_sup rc"
  note a' = a [unfolded adopted_def Let_def]
  have pc: "spawned_pc rc i = (if i < length (sup_entries ?s) then SvWait else SvDone)" for i
    using a' by (simp add: spawned_pc_def)
  have f: "case fnd cid of
      None \<Rightarrow> sup_containers ?s cid = None
    | Some r \<Rightarrow> cs_id (pr_spec r) = cid \<and>
        (\<exists>i < length (sup_entries ?s). sup_containers ?s cid = Some i \<and> persist_record_of (entry_at ?s i) = r)" for cid
    using a' by blast
  have ag: "agree cid (sup_log ?s) hist" for cid using a' net by blast
  have trk: "i < length (sup_entries ?s) \<and> id_at ?s i = cid \<and> fnd cid = Some (persist_record_of (entry_at ?s i))"
    if "sup_containers ?s cid = Some i" for cid i
    using f [of cid] that by (auto simp: id_at_def persist_record_of_id split: option.splits)
  have ent: "e_restarts (entry_at ?s i) = 0" "sup_containers ?s (id_at ?s i) = Some i"
    if "i < length (sup_entries ?s)" for i
    using a' that by blast+
  have "sys_inv (mk_conf ?s (spawned_pc rc))"
    using trk ent(1) by (auto simp: sys_inv_def mk_conf_def wf_map_def restarts_ok_def pc)
  moreover have "idle cid (sup_log ?s)" if "sup_containers ?s cid = None" for cid
  proof -
    have "fnd cid = None" using f [of cid] that by (auto split: option.splits)
    then show ?thesis using none agree_idle [OF ag] by simp
  qed
  moreover have "held_at ?s (spawned_pc rc i) cid i" if "sup_containers ?s cid = Some i" for cid i
  proof -
    note t = trk [OF that]
    have "holds_as_asked cfg (e_spec (entry_at ?s i)) hist"
      using some [of cid "persist_record_of (entry_at ?s i)"] t by (simp add: persist_record_of_def)
    moreover have "sup_cfg ?s = cfg" using a' by blast
    ultimately show ?thesis using t agree_holds_as_asked [OF ag] by (simp add: held_at_def pc)
  qed
  ultimately show ?thesis unfolding leak_inv_iff using ent(2) by (auto simp: pc split: if_splits)
qed

lemma leak_inv_case:
  assumes "leak_inv (mk_conf s pc)"
  shows "case sup_containers s cid of
      None \<Rightarrow> idle cid (sup_log s)
    | Some i \<Rightarrow> if pc i = SvWait then holds_as_asked (sup_cfg s) (e_spec (entry_at s i)) (sup_log s) else idle cid (sup_log s)"
  using leak_invD(3,4) [OF assms] by (auto simp: held_at_def split: option.splits)

section \<open>Properties\<close>

text \<open>For the witnesses: the container web of the run of \<^theory_text>\<open>demo_up\<close>, its record, and a restart.\<close>

definition demo_dec :: "string \<Rightarrow> persist_record option" where
  "demo_dec _ = Some (persist_record_of (entry_at demo_up 0))"

definition demo_dir :: state_dir where
  "demo_dir = [(''web.json'', Content ''{}'')]"

definition demo_crun :: "string \<Rightarrow> string \<Rightarrow> state_reply" where
  "demo_crun status cid = (if cid = ''web'' then StateIs status else StateAbsent)"

definition demo_rc :: "string \<Rightarrow> reconcile" where
  "demo_rc status =
     reconcilePersisted demo_dec (demo_crun status) (\<lambda>_. True) (\<lambda>_. None) True demo_dir
       (fresh_sup (sup_cfg demo_up) (sup_log demo_up))"

lemma demo_up_run: "sys.run (initial demo_cfg) [LStart ''web''] (mk_conf demo_up ((\<lambda>_. SvDone)(0 := SvWait)))"
proof -
  have "step (initial demo_cfg) (LStart (cs_id demo_spec)) (mk_conf demo_up ((\<lambda>_. SvDone)(0 := SvWait)))"
    by (rule step.start [OF demo_start])
  from sys.run_Cons [OF this sys.run_Nil] show ?thesis by (simp add: demo_spec_def)
qed

lemma demo_up_facts:
  "sup_containers demo_up = [''web'' \<mapsto> 0]" "\<not> hostNetwork (sup_cfg demo_up)"
  "record_of demo_dec demo_dir ''web'' = Some (persist_record_of (entry_at demo_up 0))"
  "holds_as_asked (sup_cfg demo_up) (e_spec (entry_at demo_up 0)) (sup_log demo_up)"
  "\<not> cs_hostNetwork (e_spec (entry_at demo_up 0))"
proof -
  have r: "sup_containers demo_up = (sup_containers (new_sup demo_cfg))(cs_id demo_spec \<mapsto> 0)"
    using Start_frame [OF demo_start] initial_sys [of demo_cfg] by (auto simp: sys_inv_def mk_conf_def)
  then show "sup_containers demo_up = [''web'' \<mapsto> 0]" by (simp add: new_sup_def demo_spec_def)
  have inv: "leak_inv (mk_conf demo_up ((\<lambda>_. SvDone)(0 := SvWait)))"
    by (rule leak.run_kept [OF demo_up_run _ initial_leak]) (simp add: no_remove_def)
  with r show "holds_as_asked (sup_cfg demo_up) (e_spec (entry_at demo_up 0)) (sup_log demo_up)"
    using leak_invD(4) [OF inv, of "''web''" 0] by (simp add: held_at_def demo_spec_def)
qed code_simp+

text \<open>The record that a crash leaves for every container: it runs, and its file decodes to its entry; no
  other container runs.\<close>

definition recorded ::
  "(string \<Rightarrow> persist_record option) \<Rightarrow> (string \<Rightarrow> state_reply) \<Rightarrow> state_dir \<Rightarrow> (nat \<Rightarrow> sv_pc) \<Rightarrow> sup \<Rightarrow> bool" where
  "recorded dec crun d pc s \<longleftrightarrow>
     (\<forall>cid. case sup_containers s cid of
        None \<Rightarrow> crun cid \<noteq> StateIs ''running''
      | Some i \<Rightarrow> pc i = SvWait \<and> crun cid = StateIs ''running'' \<and>
                  record_of dec d cid = Some (persist_record_of (entry_at s i)))"



text \<open>A container that was persisted and still runs is re-adopted with exactly the record that was
  written: specification, namespace, address, bundle and root, and it gets a supervise goroutine.\<close>

theorem readopted_as_persisted:
  assumes "dec (enc (persist_record_of e)) = Some (persist_record_of e)" and "persistContainerEntry enc io e d = (d', None)"
    and "crun (cs_id (e_spec e)) = StateIs ''running''"
    and "rc = reconcilePersisted dec crun rm net True d' (fresh_sup cfg hist)"
  shows "\<exists>i \<in> set (rc_spawned rc). sup_containers (rc_sup rc) (cs_id (e_spec e)) = Some i \<and>
    persist_record_of (entry_at (rc_sup rc) i) = persist_record_of e"
proof -
  let ?c = "cs_id (e_spec e)"
  have "d' = AList.update (?c @ ''.json'') (Content (enc (persist_record_of e))) d"
    using assms(2) by (auto simp: persistContainerEntry_def Let_def split: option.splits if_splits)
  then have "record_of dec d' ?c = Some (persist_record_of e)"
    using assms(1) by (simp add: record_of_def update_conv' persist_record_of_def)
  then have "found dec crun (dir_files d') ?c = Some (persist_record_of e)" using assms(3) by (simp add: found_record)
  with reconcilePersisted_adopted [of cfg hist dec crun d' rm net] show ?thesis
    unfolding assms(4) adopted_def Let_def by (auto dest!: spec [of _ ?c])
qed

theorem readopted_as_persisted_witness:
  "\<exists>i \<in> set (rc_spawned (demo_rc ''running'')). sup_containers (rc_sup (demo_rc ''running'')) ''web'' = Some i \<and>
     persist_record_of (entry_at (rc_sup (demo_rc ''running'')) i) = persist_record_of (entry_at demo_up 0)"
proof -
  let ?io = "\<lparr>pi_mkdir = None, pi_temp = None, pi_write = None, pi_close = None, pi_chmod = None, pi_rename = None\<rparr>"
  have id: "cs_id (e_spec (entry_at demo_up 0)) = ''web''" by code_simp
  then have "persistContainerEntry (\<lambda>_. ''{}'') ?io (entry_at demo_up 0) [] = (demo_dir, None)"
    by (simp add: persistContainerEntry_def demo_dir_def)
  from readopted_as_persisted [of demo_dec, OF _ this _ demo_rc_def] id show ?thesis
    by (simp add: demo_dec_def demo_crun_def)
qed

text \<open>A container that stopped while no daemon was running is dropped: its record is deleted, nothing
  tracks it, and what it held (its overlay mount, namespace and network set-up) stays held, because the
  reconciliation removes the record only.\<close>

theorem stopped_while_down_leaks:
  assumes "record_of dec d cid = Some r" and "crun cid \<noteq> StateIs ''running''" and "\<And>e. crun cid \<noteq> StateFails e"
    and "rm (cid @ ''.json'')" and "\<not> hostNetwork cfg" and "holds_as_asked cfg (pr_spec r) hist"
    and "rc = reconcilePersisted dec crun rm net True d (fresh_sup cfg hist)"
  shows "map_of (rc_dir rc) (cid @ ''.json'') = None \<and>
    sup_containers (rc_sup rc) cid = None \<and> overlay_held cid (sup_log (rc_sup rc)) \<and>
    (\<not> cs_hostNetwork (pr_spec r) \<longrightarrow> netns_held cid (sup_log (rc_sup rc)) \<and> net_held cid (sup_log (rc_sup rc)))"
proof -
  have id: "cs_id (pr_spec r) = cid"
    using assms(1) by (auto simp: record_of_def split: option.splits dir_node.splits if_splits)
  have ad: "adopted cfg hist (found dec crun (dir_files d)) rc" unfolding assms(7) by (rule reconcilePersisted_adopted)
  have "found dec crun (dir_files d) cid = None" using assms(2) by (simp add: found_record)
  then have "sup_containers (rc_sup rc) cid = None" by (simp add: adopted_tracks [OF ad])
  moreover have "agree cid (sup_log (rc_sup rc)) hist" using ad assms(5) unfolding adopted_def Let_def by blast
  moreover have "map_of (rc_dir rc) (cid @ ''.json'') = None"
    unfolding assms(7) by (rule reconcile_drops [where crun = crun and rm = rm, OF assms(1-4)])
  ultimately show ?thesis using assms(5,6) id by (simp add: agree_def holds_as_asked_def onHostNetwork_def)
qed

theorem stopped_while_down_leaks_witness:
  "sup_containers (rc_sup (demo_rc ''stopped'')) ''web'' = None \<and>
   netns_held ''web'' (sup_log (rc_sup (demo_rc ''stopped'')))"
  using stopped_while_down_leaks [OF demo_up_facts(3), of "demo_crun ''stopped''" "\<lambda>_. True" "sup_cfg demo_up" "sup_log demo_up",
      OF _ _ _ demo_up_facts(2) _ demo_rc_def] demo_up_facts(4,5)
  by (simp add: demo_crun_def persist_record_of_def)

text \<open>The restart policies the specifications use.\<close>

definition known_policy :: "restart_policy \<Rightarrow> bool" where
  "known_policy p \<longleftrightarrow> p \<in> {RestartAlways, RestartOnFailure, RestartUnlessStopped, RestartNever}"

lemma restartPolicyFromString_known: "known_policy p \<Longrightarrow> restartPolicyFromString p = p"
  unfolding known_policy_def by (elim insertE emptyE; simp; code_simp)

lemma orphan_ports_published:
  "list_all (\<lambda>p. port_ok (pm_host p) \<and> port_ok (pm_container p) \<and> proto_name p \<in> {''tcp'', ''udp''}) ps \<Longrightarrow>
     orphan_ports (portMappingsToPublishStrings ps) = map (\<lambda>p. p\<lparr>pm_protocol := proto_name p\<rparr>) ps"
  by (induction ps) (simp_all add: orphan_ports_def portMappingsToPublishStrings_def ParseDockerPublish_publish_string)

text \<open>A container that is re-adopted from the metadata in its bundle keeps its image, environment,
  arguments, host name, restart policy and ports, and loses everything else: its mounts, health check, read-only
  root, dropped capabilities, limits and network are those of an empty specification, and its next restart
  runs without them.\<close>

theorem orphan_keeps_only_meta:
  assumes "list_all (\<lambda>p. port_ok (pm_host p) \<and> port_ok (pm_container p) \<and> proto_name p \<in> {''tcp'', ''udp''}) (cs_portMappings spec)"
    and "known_policy (cs_restartPolicy spec)"
  shows "orphan_spec (cs_id spec) (run_meta spec ip) (m, cfg, paths) =
    zero_spec\<lparr>cs_id := cs_id spec, cs_image := cs_image spec, cs_imageConfig := Some cfg, cs_manifestLayers := mf_layers m,
      cs_blobPaths := paths, cs_env := cs_env spec, cs_args := cs_args spec, cs_hostname := cs_hostname spec,
      cs_restartPolicy := cs_restartPolicy spec,
      cs_portMappings := map (\<lambda>p. p\<lparr>pm_protocol := proto_name p\<rparr>) (cs_portMappings spec)\<rparr>"
  by (simp add: orphan_spec_def run_meta_def orphan_ports_published [OF assms(1)] restartPolicyFromString_known [OF assms(2)])

theorem orphan_keeps_only_meta_witness:
  "\<forall>m cfg. cs_capDrop (orphan_spec ''web'' (run_meta (demo_spec\<lparr>cs_capDrop := [''ALL''], cs_restartPolicy := RestartAlways\<rparr>) [])
     (m, cfg, [])) = []"
proof -
  let ?spec = "demo_spec\<lparr>cs_capDrop := [''ALL''], cs_restartPolicy := RestartAlways\<rparr>"
  have "cs_id ?spec = ''web''" "cs_portMappings ?spec = []" by code_simp+
  then show ?thesis using orphan_keeps_only_meta [of ?spec "[]" _ _ "[]"] by (simp add: known_policy_def zero_spec_def)
qed

section \<open>Compose up converges\<close>

lemma normalize_spec_idem: "normalize_spec (normalize_spec spec) = normalize_spec spec"
  by (cases "cs_healthcheck spec") (simp_all add: normalize_spec_def Normalize_def Let_def)

lemma normalize_spec_id [simp]: "cs_id (normalize_spec spec) = cs_id spec"
  by (simp add: normalize_spec_def)

definition up_to_date :: "sup \<Rightarrow> container_spec \<Rightarrow> bool" where
  "up_to_date s want \<longleftrightarrow>
     (\<exists>i. sup_containers s (cs_id want) = Some i \<and>
          composeSpecsEqual (normalize_spec (e_spec (entry_at s i))) (normalize_spec want))"

lemma up_to_date_left: "up_to_date s want \<Longrightarrow> ensureComposeContainer io want s = (s, Inr None)"
  by (auto simp: up_to_date_def ensureComposeContainer_def)

text \<open>A start that is supervised adds its container and leaves the others as they are.\<close>

lemma up_start_supervised:
  assumes "up_start io (normalize_spec want) s = (s', Inr (Some (StartSupervised i)))" and "wf_map s"
  shows "wf_map s'" and "up_to_date s' want" and "up_to_date s w \<Longrightarrow> up_to_date s' w"
    and "sup_containers s' = (sup_containers s)(cs_id want \<mapsto> i)"
    and "k < length (sup_entries s) \<Longrightarrow> e_spec (entry_at s' k) = e_spec (entry_at s k)"
proof -
  from assms(1) have st: "Start (ui_start io) (ui_ready io) (ui_wait io) (normalize_spec want) s = (s', StartSupervised i)"
    by (auto simp: up_start_def split: prod.splits start_result.splits)
  note fr = Start_frame [OF this assms(2)]
  then have i: "i = length (sup_entries s)" "length (sup_entries s') = Suc i" "sup_containers s (cs_id want) = None"
    and c: "sup_containers s' = (sup_containers s)(cs_id want \<mapsto> i)"
    and new: "e_spec (entry_at s' i) = normalize_spec want"
    by (auto simp: normalize_spec_idem)
  show old: "k < length (sup_entries s) \<Longrightarrow> e_spec (entry_at s' k) = e_spec (entry_at s k)" for k using fr by auto
  show "sup_containers s' = (sup_containers s)(cs_id want \<mapsto> i)" by (rule c)
  show "up_to_date s' want" using c new by (simp add: up_to_date_def composeSpecsEqual_def normalize_spec_idem)
  show "wf_map s'"
    unfolding wf_map_def
  proof (intro allI impI)
    fix cid j assume j: "sup_containers s' cid = Some j"
    show "j < length (sup_entries s') \<and> id_at s' j = cid"
    proof (cases "cid = cs_id want")
      case True
      with j c i(2) new show ?thesis by (simp add: id_at_def)
    next
      case False
      with j c assms(2) have "j < length (sup_entries s)" "id_at s j = cid" by (auto simp: wf_map_def)
      with old [of j] i show ?thesis by (simp add: id_at_def)
    qed
  qed
  show "up_to_date s' w" if w: "up_to_date s w"
  proof -
    from w obtain j where j: "sup_containers s (cs_id w) = Some j"
      "composeSpecsEqual (normalize_spec (e_spec (entry_at s j))) (normalize_spec w)"
      by (auto simp: up_to_date_def)
    moreover from j(1) assms(2) have "j < length (sup_entries s)" by (auto simp: wf_map_def)
    moreover from j(1) i(3) have "cs_id w \<noteq> cs_id want" by auto
    ultimately show ?thesis using c old [of j] by (auto simp: up_to_date_def)
  qed
qed

text \<open>Nothing has to be recreated: a container of the project is absent or up to date.\<close>

definition fresh_or_current :: "sup \<Rightarrow> container_spec \<Rightarrow> bool" where
  "fresh_or_current s want \<longleftrightarrow> sup_containers s (cs_id want) = None \<or> up_to_date s want"

definition stays_up :: "start_result option \<Rightarrow> bool" where
  "stays_up r = (case r of None \<Rightarrow> True | Some (StartSupervised _) \<Rightarrow> True | _ \<Rightarrow> False)"

lemma ensure_fresh_or_current:
  assumes "ensureComposeContainer io want s = (s1, Inr r)" and "fresh_or_current s want" and "stays_up r" and "wf_map s"
  shows "wf_map s1 \<and> up_to_date s1 want \<and> (\<forall>w. up_to_date s w \<longrightarrow> up_to_date s1 w) \<and>
    (\<forall>w. cs_id w \<noteq> cs_id want \<longrightarrow> fresh_or_current s w \<longrightarrow> fresh_or_current s1 w)"
proof (cases "up_to_date s want")
  case True
  with assms up_to_date_left [OF True, of io] show ?thesis by simp
next
  case False
  with assms(2) have "sup_containers s (cs_id want) = None" by (simp add: fresh_or_current_def)
  with assms(1) have u: "up_start io (normalize_spec want) s = (s1, Inr r)" by (simp add: ensureComposeContainer_def)
  then obtain i where "r = Some (StartSupervised i)"
    using assms(3) by (cases r) (auto simp: up_start_def stays_up_def split: prod.splits start_result.splits)
  note st = up_start_supervised [OF u [unfolded this] assms(4)]
  have "fresh_or_current s1 w" if "cs_id w \<noteq> cs_id want" "fresh_or_current s w" for w
    using that st(3,4) by (auto simp: fresh_or_current_def)
  with st(1-3) show ?thesis by blast
qed

lemma compose_up_current:
  assumes "StartComposeUp (zip ios specs) s = (s', Inr rs)" and "length ios = length specs"
    and "list_all (fresh_or_current s) specs" and "distinct (map cs_id specs)" and "list_all stays_up rs" and "wf_map s"
  shows "list_all (up_to_date s') specs \<and> (\<forall>w. up_to_date s w \<longrightarrow> up_to_date s' w)"
  using assms
proof (induction specs arbitrary: ios s rs)
  case Nil
  then show ?case by simp
next
  case (Cons want specs)
  then obtain io ios' where ios: "ios = io # ios'" by (cases ios) auto
  with Cons.prems(1) obtain s1 r rs' where e: "ensureComposeContainer io want s = (s1, Inr r)"
    and rest: "StartComposeUp (zip ios' specs) s1 = (s', Inr rs')" and rs: "rs = r # rs'"
    by (auto split: prod.splits sum.splits)
  have "fresh_or_current s want" "stays_up r" using Cons.prems(3,5) rs by simp_all
  note en = ensure_fresh_or_current [OF e this Cons.prems(6)]
  have "list_all (fresh_or_current s1) specs"
    using en Cons.prems(3,4) by (fastforce simp: list_all_iff image_iff)
  from Cons.IH [OF rest _ this] Cons.prems(2,4,5) ios rs en show ?case by auto
qed

lemma compose_up_left:
  assumes "list_all (up_to_date s) specs" and "length ios = length specs"
  shows "StartComposeUp (zip ios specs) s = (s, Inr (replicate (length specs) None))"
  using assms
proof (induction specs arbitrary: ios)
  case (Cons want specs)
  then show ?case by (cases ios) (auto simp: up_to_date_left)
qed simp



end
