(* ===== verification/Compose_Mounts.thy ===== *)
theory Compose_Mounts
  imports Compose_Env Bundle
begin

text \<open>
  Volumes of compose services and of \<open>nyx run -v\<close> (src/internal/compose/mounts.go) with the mapping of
  Windows drive paths (src/internal/wslpath/wslpath.go). The working directory and the result of
  creating the directory of a named volume are arguments.
\<close>

section \<open>Windows paths\<close>

definition HasDrive :: "string \<Rightarrow> bool" where
  "HasDrive s \<longleftrightarrow> length s \<ge> 3 \<and> is_letter (s ! 0) \<and> s ! 1 = CHR '':'' \<and> (s ! 2 = CHR 0x5C \<or> s ! 2 = CHR ''/'')"

datatype volume_error =
    UncPath string | NotWindowsPath string | EmptyVolume | InvalidVolume string | UnknownMode string
  | RelativeDestination string | NamedVolumeDir string string | EscapesComposeDir string string | RelativeSource string

definition ToWSL :: "string \<Rightarrow> volume_error + string" where
  "ToWSL p =
     (if has_prefix p [CHR 0x5C, CHR 0x5C] \<or> has_prefix p ''//'' then Inl (UncPath p)
      else if has_prefix p ''/'' then Inr p
      else if length p < 2 \<or> p ! 1 \<noteq> CHR '':'' \<or> \<not> is_letter (p ! 0) \<or> (length p > 2 \<and> \<not> HasDrive p)
      then Inl (NotWindowsPath p)
      else let rest = trim_prefix (map (\<lambda>c. if c = CHR 0x5C then CHR ''/'' else c) (drop 2 p)) ''/'';
               out = ''/mnt/'' @ to_lower (take 1 p)
           in Inr (if rest \<noteq> [] then out @ ''/'' @ rest else out))"

section \<open>Sources\<close>

definition path_abs :: "string \<Rightarrow> string \<Rightarrow> string" where
  "path_abs cwd p = (if is_abs p then path_clean p else path_join [cwd, p])"

definition isNamedVolume :: "string \<Rightarrow> stack \<Rightarrow> bool" where
  "isNamedVolume src stack \<longleftrightarrow> trim_space src \<noteq> [] \<and> map_of (st_volumes stack) (trim_space src) \<noteq> None"

definition resolveBindSource :: "string \<Rightarrow> string \<Rightarrow> string \<Rightarrow> volume_error + string" where
  "resolveBindSource cwd src0 composeDir =
     (let src = trim_space src0
      in if is_abs src then Inr (path_clean src)
         else let base = path_abs cwd composeDir;
                  joinedAbs = path_abs cwd (path_clean (path_join [base, src]))
              in if joinedAbs = base \<or> has_prefix joinedAbs (base @ ''/'') then Inr joinedAbs
                 else Inl (EscapesComposeDir src composeDir))"

definition ensureNamedVolumeDir :: "(string \<Rightarrow> string option) \<Rightarrow> string \<Rightarrow> string \<Rightarrow> string \<Rightarrow> volume_error + string" where
  "ensureNamedVolumeDir mkdir dataDir project volName =
     (let p = NamedVolumeHostPath dataDir project volName
      in case mkdir p of Some e \<Rightarrow> Inl (NamedVolumeDir volName e) | None \<Rightarrow> Inr p)"

section \<open>Volume lines\<close>

record volume_env =
  ve_cwd :: string
  ve_mkdir :: "string \<Rightarrow> string option"

definition cut_mode :: "string \<Rightarrow> string \<times> bool" where
  "cut_mode line =
     (if has_suffix line '':ro'' then (trim_space (trim_suffix line '':ro''), True)
      else if has_suffix line '':rw'' then (trim_space (trim_suffix line '':rw''), False)
      else (line, False))"

definition volume_mount ::
  "volume_env \<Rightarrow> stack \<Rightarrow> string \<Rightarrow> string \<Rightarrow> string \<Rightarrow> string \<Rightarrow> string \<Rightarrow> bool \<Rightarrow> volume_error + mount" where
  "volume_mount env stack composeDir project dataDir src dest ro =
     (if \<not> is_abs dest then Inl (RelativeDestination dest)
      else bind_res (if isNamedVolume src stack then ensureNamedVolumeDir (ve_mkdir env) dataDir project src
                     else resolveBindSource (ve_cwd env) src composeDir) (\<lambda>host.
           Inr (mk_mount dest ''bind'' host [''rbind'', if ro then ''ro'' else ''rw''])))"

definition parseVolumeMount ::
  "volume_env \<Rightarrow> string \<Rightarrow> stack \<Rightarrow> string \<Rightarrow> string \<Rightarrow> string \<Rightarrow> volume_error + mount" where
  "parseVolumeMount env line0 stack composeDir project dataDir =
     (if line0 = [] then Inl EmptyVolume
      else let (line1, ro1) = cut_mode line0;
               hasDrive = HasDrive line1 \<and> contains (drop 2 line1) '':'';
               drive = (if hasDrive then take 2 line1 else []);
               line = (if hasDrive then drop 2 line1 else line1);
               parts = split_on (CHR '':'') line
           in if length parts < 2 then Inl (InvalidVolume (drive @ line))
              else bind_res (if drive \<noteq> [] then ToWSL (drive @ parts ! 0) else Inr (parts ! 0)) (\<lambda>src.
                   let dest = parts ! 1
                   in bind_res (if length parts = 3 then
                                  (let mode = to_lower (trim_space (parts ! 2))
                                   in if mode = ''ro'' then Inr True
                                      else if mode = ''rw'' \<or> mode = [] then Inr ro1
                                      else Inl (UnknownMode (parts ! 2)))
                                else if length parts > 3 then Inl (InvalidVolume line)
                                else Inr ro1) (\<lambda>ro.
                      volume_mount env stack composeDir project dataDir src dest ro)))"

definition BindMount :: "volume_env \<Rightarrow> string \<Rightarrow> volume_error + mount" where
  "BindMount env line0 =
     (let line = trim_space line0; (src, _, _) = cut_str line '':''
      in if \<not> is_abs src \<and> \<not> HasDrive line then Inl (RelativeSource line)
         else parseVolumeMount env line
           \<lparr>st_name = [], st_version = [], st_services = [], st_networks = [], st_volumes = []\<rparr> [] [] [])"

definition ServiceExtraMounts ::
  "volume_env \<Rightarrow> service \<Rightarrow> stack \<Rightarrow> string \<Rightarrow> string \<Rightarrow> string \<Rightarrow> volume_error + mount list" where
  "ServiceExtraMounts env svc stack composeDir project dataDir =
     map_res (\<lambda>line. parseVolumeMount env (trim_space line) stack composeDir project dataDir) (svc_volumes svc)"

section \<open>Where a mount can come from\<close>

lemma path_abs_abs: "is_abs cwd \<Longrightarrow> is_abs (path_abs cwd p)"
  by (auto simp: path_abs_def path_join_def is_abs_nonempty is_abs_append split: list.splits)

lemma path_abs_clean: "is_abs cwd \<Longrightarrow> path_abs cwd p = render_abs (path_elems (path_abs cwd p))"
proof -
  assume cwd: "is_abs cwd"
  have "path_clean (path_abs cwd p) = path_abs cwd p"
    using cwd by (auto simp: path_abs_def path_join_def path_clean_idem is_abs_nonempty is_abs_append split: list.splits)
  then show ?thesis using path_clean_abs [OF path_abs_abs [OF cwd, of p]] by simp
qed

text \<open>A relative source stays below the directory of the compose file.\<close>

lemma resolve_contained:
  assumes "resolveBindSource cwd src composeDir = Inr p" and "is_abs cwd" and "\<not> is_abs (trim_space src)"
  shows "prefix (path_elems (path_abs cwd composeDir)) (path_elems p)"
proof -
  let ?base = "path_abs cwd composeDir"
  let ?j = "path_abs cwd (path_clean (path_join [?base, trim_space src]))"
  from assms(1,3) have p: "p = ?j" and c: "?j = ?base \<or> has_prefix ?j (?base @ ''/'')"
    by (auto simp: resolveBindSource_def Let_def split: if_splits)
  show ?thesis
  proof (cases "?j = ?base \<or> path_elems ?base = []")
    case True
    then show ?thesis using p by auto
  next
    case False
    with c have "has_prefix (render_abs (path_elems ?j)) (render_abs (path_elems ?base) @ ''/'')"
      using path_abs_clean [OF assms(2)] by metis
    then obtain more where "path_elems ?j = path_elems ?base @ more"
      using prefix_render_elems [OF path_elems_plain path_elems_plain] False by metis
    then show ?thesis using p by simp
  qed
qed

lemma parseVolumeMount_Inr:
  assumes "parseVolumeMount env line stack composeDir project dataDir = Inr m"
  obtains src dest ro where "volume_mount env stack composeDir project dataDir src dest ro = Inr m"
  using assms by (auto simp: parseVolumeMount_def Let_def bind_res_Inr_iff split: if_splits prod.splits)

text \<open>Cutting the mode off a trimmed line leaves a prefix of it, so the source is still the text before
  the first colon.\<close>

lemma trim_take_prefix:
  assumes "trim_space line = line"
  shows "prefix (trim_space (take n line)) line"
proof -
  have "line = [] \<or> \<not> is_space (hd line)" using assms trim_by_hd [of is_space line] by (auto simp: trim_space_def)
  then have "dropWhile is_space (take n line) = take n line"
    by (cases line; cases n) (auto simp: dropWhile_eq_self_iff)
  moreover have "prefix (trim_right is_space s) s" for s
    unfolding trim_right_def
    by (metis rev_append rev_rev_ident takeWhile_dropWhile_id prefixI)
  ultimately show ?thesis
    unfolding trim_space_def trim_by_def trim_left_def by (metis prefix_order.trans take_is_prefix)
qed

lemma cut_mode_prefix: "trim_space line = line \<Longrightarrow> prefix (fst (cut_mode line)) line"
  by (auto simp: cut_mode_def trim_suffix_def trim_take_prefix)

lemma split_on_hd: "split_on d s ! 0 = takeWhile (\<lambda>c. c \<noteq> d) s"
  by (induction s) (auto split: list.splits)

lemma split_on_sep: "2 \<le> length (split_on d s) \<Longrightarrow> d \<in> set s"
  using split_on_single [of d s] by fastforce

lemma HasDrive_prefix: "HasDrive s \<Longrightarrow> prefix s t \<Longrightarrow> HasDrive t"
  by (auto simp: HasDrive_def prefix_def nth_append)

lemma parseVolumeMount_source:
  assumes "parseVolumeMount env line stack composeDir project dataDir = Inr m"
    and "trim_space line = line" and "\<not> HasDrive line"
  obtains dest ro where
    "volume_mount env stack composeDir project dataDir (takeWhile (\<lambda>c. c \<noteq> CHR '':'') line) dest ro = Inr m"
proof -
  obtain line1 ro1 where c: "cut_mode line = (line1, ro1)" by fastforce
  then have p: "prefix line1 line" using cut_mode_prefix [OF assms(2)] by simp
  then have d: "\<not> HasDrive line1" using HasDrive_prefix assms(3) by blast
  from assms(1) c d have two: "2 \<le> length (split_on (CHR '':'') line1)"
    by (auto simp: parseVolumeMount_def Let_def split: if_splits)
  then have "takeWhile (\<lambda>c. c \<noteq> CHR '':'') line1 = takeWhile (\<lambda>c. c \<noteq> CHR '':'') line"
    using p split_on_sep [OF two] by (auto simp: prefix_def)
  with assms(1) c d two that show thesis
    by (auto simp: parseVolumeMount_def Let_def bind_res_Inr_iff split_on_hd split: if_splits)
qed

lemma volume_mount_Inr:
  assumes "volume_mount env stack composeDir project dataDir src dest ro = Inr m"
  shows "is_abs (m_destination m)" and "m_type m = ''bind''"
    and "if isNamedVolume src stack then m_source m = NamedVolumeHostPath dataDir project src
         else resolveBindSource (ve_cwd env) src composeDir = Inr (m_source m)"
  using assms
  by (auto simp: volume_mount_def bind_res_Inr_iff ensureNamedVolumeDir_def Let_def mk_mount_def
      split: if_splits option.splits)


definition demo_volumes :: "volume_env \<times> stack" where
  "demo_volumes = (\<lparr>ve_cwd = ''/srv'', ve_mkdir = (\<lambda>_. None)\<rparr>,
     \<lparr>st_name = [], st_version = [], st_services = [], st_networks = [], st_volumes = [(''data'', \<lparr>vol_driver = []\<rparr>)]\<rparr>)"


end
