(* ===== verification/Compose_Specs.thy ===== *)
theory Compose_Specs
  imports Compose_Mounts Native_Driver
begin

text \<open>
  From a compose file to container specifications (src/internal/compose/specs.go, network_bridge.go,
  dnsnets.go, network_mode.go, hostnet.go, resources.go, ulimits.go, healthcfg.go). The image store is
  a parameter, a record of its two operations on a state of any type; the arithmetic of 64-bit
  floating point numbers in sizes and CPU shares is an argument.
\<close>

section \<open>Networks\<close>

definition ServiceUsesHostNetwork :: "stack \<Rightarrow> service \<Rightarrow> bool" where
  "ServiceUsesHostNetwork stack svc \<longleftrightarrow>
     to_lower (trim_space (svc_network_mode svc)) = ''host'' \<or>
     list_ex (\<lambda>name. case map_of (st_networks stack) name of
         None \<Rightarrow> False | Some nw \<Rightarrow> equal_fold (trim_space (nw_driver nw)) ''host'') (svc_networks svc)"

definition StackUsesHostNetwork :: "stack \<Rightarrow> bool" where
  "StackUsesHostNetwork stack \<longleftrightarrow> list_ex (\<lambda>(n, svc). ServiceUsesHostNetwork stack svc) (st_services stack)"

definition ServiceUsesOnlyInternalNetworks :: "stack \<Rightarrow> service \<Rightarrow> bool" where
  "ServiceUsesOnlyInternalNetworks stack svc =
     (if st_networks stack = [] then False
      else if svc_networks svc = [] then
        (case map_of (st_networks stack) ''default'' of
           Some nw \<Rightarrow> nw_internal nw
         | None \<Rightarrow> (case st_networks stack of [(_, nw)] \<Rightarrow> nw_internal nw | _ \<Rightarrow> False))
      else list_all (\<lambda>name. case map_of (st_networks stack) name of None \<Rightarrow> False | Some nw \<Rightarrow> nw_internal nw)
             (svc_networks svc))"

record service_bridge =
  sb_bridge :: string
  sb_subnet :: string
  sb_gateway :: string

definition no_bridge :: service_bridge where
  "no_bridge = \<lparr>sb_bridge = [], sb_subnet = [], sb_gateway = []\<rparr>"

datatype spec_error =
    SubnetSyntax string | SubnetWide string | NoGateway string | BadBridgeName string
  | NotBuilt string | PullFails string string | ResolveFails string string | Volumes volume_error
  | PublishedOnHost string | Ports publish_error | EmptyHealthCommand | UserSyntax string
  | Size string | SizeSuffix string | Cpus string | Ulimits string | DnsServer string | Environment env_error

text \<open>The last byte of the masked address is incremented.\<close>

definition gatewayFromSubnet :: "string \<Rightarrow> spec_error + string" where
  "gatewayFromSubnet cidr =
     (case parse_cidr (trim_space cidr) of
        None \<Rightarrow> Inl (SubnetSyntax cidr)
      | Some (ip, n) \<Rightarrow>
          if cidr_ones n > 30 then Inl (SubnetWide cidr)
          else let base = ip AND mask_of (cidr_ones n); gw = (base AND NOT 0xFF) OR ((base + 1) AND 0xFF)
               in if cidr_contains n gw then Inr (ip4_string gw) else Inl (NoGateway cidr))"

definition validateBridgeName :: "string \<Rightarrow> bool" where
  "validateBridgeName name \<longleftrightarrow>
     name \<noteq> [] \<and> length name \<le> 15 \<and> (name = ''nyxbr0'' \<or> has_prefix name ''nyxbr'') \<and> list_all bridge_char name"

fun resolve_bridge :: "stack \<Rightarrow> string list \<Rightarrow> spec_error + service_bridge" where
  "resolve_bridge stack [] = Inr no_bridge"
| "resolve_bridge stack (name # rest) =
     (case map_of (st_networks stack) name of
        None \<Rightarrow> resolve_bridge stack rest
      | Some nw \<Rightarrow>
          let bridge = trim_space (nw_bridge nw); subnet = trim_space (nw_subnet nw)
          in if bridge = [] \<or> subnet = [] then resolve_bridge stack rest
             else case gatewayFromSubnet subnet of
                    Inl e \<Rightarrow> Inl e
                  | Inr gw \<Rightarrow>
                      if validateBridgeName bridge
                      then Inr \<lparr>sb_bridge = bridge, sb_subnet = subnet, sb_gateway = gw\<rparr>
                      else Inl (BadBridgeName bridge))"

definition ResolveServiceBridge :: "stack \<Rightarrow> service \<Rightarrow> spec_error + service_bridge" where
  "ResolveServiceBridge stack svc =
     (if st_networks stack = [] \<or> svc_networks svc = [] then Inr no_bridge else resolve_bridge stack (svc_networks svc))"

section \<open>Warnings about the host network\<close>

datatype host_warning = NotIsolated "string list" | PortClash string string string

definition internal_services :: "stack \<Rightarrow> string list \<Rightarrow> string list" where
  "internal_services st ns =
     filter (\<lambda>n. let svc = service_at (st_services st) n
                 in \<not> ServiceUsesHostNetwork st svc \<and>
                    list_ex (\<lambda>net. case map_of (st_networks st) net of None \<Rightarrow> False | Some nw \<Rightarrow> nw_internal nw)
                      (svc_networks svc)) ns"

definition claim_port ::
  "string \<Rightarrow> string \<Rightarrow> host_warning list \<times> (string, string) gomap \<Rightarrow> int \<Rightarrow> host_warning list \<times> (string, string) gomap" where
  "claim_port n proto acc port =
     (case acc of (out, owner) \<Rightarrow>
        let key = itoa port @ ''/'' @ proto
        in case map_of owner key of
             Some prev \<Rightarrow> if prev \<noteq> n then (out @ [PortClash prev n key], owner) else (out, AList.update key n owner)
           | None \<Rightarrow> (out, AList.update key n owner))"

definition claim_publish ::
  "string \<Rightarrow> host_warning list \<times> (string, string) gomap \<Rightarrow> string \<Rightarrow> host_warning list \<times> (string, string) gomap" where
  "claim_publish n acc p =
     (case ParseDockerPublish p of
        Inl e \<Rightarrow> acc
      | Inr pm \<Rightarrow>
          (let proto = (if to_lower (pm_protocol pm) = [] then ''tcp'' else to_lower (pm_protocol pm))
           in foldl (claim_port n proto) acc [pm_container pm, pm_host pm]))"

definition claim_service ::
  "stack \<Rightarrow> host_warning list \<times> (string, string) gomap \<Rightarrow> string \<Rightarrow> host_warning list \<times> (string, string) gomap" where
  "claim_service st acc n =
     (let svc = service_at (st_services st) n
      in if StackUsesHostNetwork st \<and> \<not> ServiceUsesHostNetwork st svc then acc
         else foldl (claim_publish n) acc (svc_ports svc))"

definition HostNetworkWarnings :: "stack \<Rightarrow> host_warning list" where
  "HostNetworkWarnings st =
     (let ns = sort_strings (names (st_services st)); internal = internal_services st ns
      in fst (foldl (claim_service st) (if internal = [] then [] else [NotIsolated internal], []) ns))"

section \<open>Resources\<close>

text \<open>\<open>fl_scale num mult\<close> is int64(ParseFloat(num) * mult), \<open>fl_quota s\<close> is ParseFloat(s) > 0 with
  int64(ParseFloat(s) * 100000 + 0.5).\<close>

record float_ops =
  fl_scale :: "string \<Rightarrow> int \<Rightarrow> int option"
  fl_quota :: "string \<Rightarrow> (bool \<times> int) option"

definition size_mult :: "string \<Rightarrow> int option" where
  "size_mult suf =
     (if suf \<in> {[], ''b''} then Some 1
      else if suf \<in> {''k'', ''kb'', ''kib''} then Some 1024
      else if suf \<in> {''m'', ''mb'', ''mib''} then Some (1024 * 1024)
      else if suf \<in> {''g'', ''gb'', ''gib''} then Some (1024 * 1024 * 1024)
      else None)"

definition parseByteSize :: "float_ops \<Rightarrow> string \<Rightarrow> spec_error + int" where
  "parseByteSize fl s0 =
     (let s = trim_space (to_lower s0)
      in if s = [] then Inr 0
         else let num = takeWhile (\<lambda>c. c = CHR ''.'' \<or> is_digit c) s; suf = trim_space (drop (length num) s)
              in if num = [] then Inl (Size s)
                 else case fl_scale fl (trim_space num) 1 of
                        None \<Rightarrow> Inl (Size s)
                      | Some _ \<Rightarrow> (case size_mult suf of
                          None \<Rightarrow> Inl (SizeSuffix s)
                        | Some m \<Rightarrow> (case fl_scale fl (trim_space num) m of
                            None \<Rightarrow> Inl (Size s)
                          | Some v \<Rightarrow> if v < 0 then Inl (Size s) else Inr v)))"

definition parseCPUQuota :: "float_ops \<Rightarrow> string \<Rightarrow> spec_error + int \<times> int" where
  "parseCPUQuota fl s0 =
     (let s = trim_space s0
      in if s = [] then Inr (0, 0)
         else case fl_quota fl s of
                None \<Rightarrow> Inl (Cpus s)
              | Some (pos, q) \<Rightarrow> if \<not> pos then Inl (Cpus s) else Inr (if q < 1000 then 1000 else q, 100000))"

definition zero_memory :: memory_res where
  "zero_memory = \<lparr>mem_limit = 0, mem_swap = 0, mem_reservation = 0, mem_oomKillDisable = None, mem_oomScoreAdj = None\<rparr>"

definition zero_cpu :: cpu_res where
  "zero_cpu = \<lparr>cpu_shares = 0, cpu_quota = 0, cpu_period = 0, cpu_cpus = [], cpu_mems = []\<rparr>"

text \<open>The memory block is allocated when the first of its values is set.\<close>

definition on_memory :: "(memory_res \<Rightarrow> memory_res) \<Rightarrow> memory_res option \<Rightarrow> memory_res option" where
  "on_memory f m = Some (f (case m of None \<Rightarrow> zero_memory | Some r \<Rightarrow> r))"

definition memory_size ::
  "float_ops \<Rightarrow> string \<Rightarrow> (int \<Rightarrow> memory_res \<Rightarrow> memory_res) \<Rightarrow> memory_res option \<Rightarrow> spec_error + memory_res option" where
  "memory_size fl s set_to m =
     (if s = [] then Inr m
      else bind_res (parseByteSize fl s) (\<lambda>b. Inr (if b > 0 then on_memory (set_to b) m else m)))"

definition deploy_memory :: "float_ops \<Rightarrow> resource_spec \<Rightarrow> resource_spec \<Rightarrow> spec_error + memory_res option" where
  "deploy_memory fl lim res =
     bind_res (memory_size fl (rs_memory lim) (\<lambda>b m. zero_memory\<lparr>mem_limit := b\<rparr>) None) (\<lambda>m1.
     bind_res (memory_size fl (rs_memory_swap lim) (\<lambda>b m. m\<lparr>mem_swap := b\<rparr>) m1) (\<lambda>m2.
     bind_res (memory_size fl (rs_memory res) (\<lambda>b m. m\<lparr>mem_reservation := b\<rparr>) m2) (\<lambda>m3.
       let m4 = (case rs_oom_kill_disable lim of None \<Rightarrow> m3
                 | Some v \<Rightarrow> on_memory (\<lambda>m. m\<lparr>mem_oomKillDisable := Some v\<rparr>) m3)
       in Inr (case rs_oom_score_adj lim of None \<Rightarrow> m4
               | Some v \<Rightarrow> on_memory (\<lambda>m. m\<lparr>mem_oomScoreAdj := Some v\<rparr>) m4))))"

definition deploy_cpu :: "float_ops \<Rightarrow> resource_spec \<Rightarrow> spec_error + cpu_res option" where
  "deploy_cpu fl lim =
     bind_res (if rs_cpus lim = [] then Inr None
               else bind_res (parseCPUQuota fl (rs_cpus lim)) (\<lambda>(q, p).
                    Inr (if q > 0 \<and> p > 0 then Some (zero_cpu\<lparr>cpu_quota := q, cpu_period := p\<rparr>) else None))) (\<lambda>c.
       Inr (if rs_cpuset_cpus lim \<noteq> [] \<or> rs_cpuset_mems lim \<noteq> []
            then Some ((case c of None \<Rightarrow> zero_cpu | Some r \<Rightarrow> r)\<lparr>cpu_cpus := trim_space (rs_cpuset_cpus lim),
                   cpu_mems := trim_space (rs_cpuset_mems lim)\<rparr>)
            else c))"

definition BundleResourcesFromDeploy :: "float_ops \<Rightarrow> deploy option \<Rightarrow> spec_error + resources_spec option" where
  "BundleResourcesFromDeploy fl d =
     (case d of
        None \<Rightarrow> Inr None
      | Some dep \<Rightarrow>
          let lim = r_limits (dep_resources dep); res = r_reservations (dep_resources dep)
          in bind_res (deploy_memory fl lim res) (\<lambda>mem. bind_res (deploy_cpu fl lim) (\<lambda>cpu.
             let pids = (case rs_pids_limit lim of Some n \<Rightarrow> if n > 0 then Some n else None | None \<Rightarrow> None);
                 blk = (case rs_blkio_weight lim of Some w \<Rightarrow> if w > 0 then Some (min w 0xffff) else None | None \<Rightarrow> None)
             in Inr (if mem = None \<and> cpu = None \<and> pids = None \<and> blk = None then None
                     else Some \<lparr>res_memory = mem, res_cpu = cpu, res_pids = pids, res_blockIO = blk\<rparr>))))"

definition ResolveSeccompProfilePath :: "string \<Rightarrow> string \<Rightarrow> string" where
  "ResolveSeccompProfilePath composeDir profile =
     (let p = trim_space profile; low = to_lower p
      in if p = [] then []
         else if low \<in> {''unconfined'', ''default'', ''builtin'', ''runtime/default'', ''disabled''} then p
         else if is_abs p then p
         else if composeDir = [] then p
         else path_clean (path_join [composeDir, p]))"

section \<open>Limits, health checks, users, servers\<close>

definition ulimitType :: "string \<Rightarrow> string option" where
  "ulimitType name =
     (let n = to_lower (trim_space name)
      in if n = ''nofile'' then Some ''RLIMIT_NOFILE''
         else if n = ''nproc'' then Some ''RLIMIT_NPROC''
         else if n = ''core'' then Some ''RLIMIT_CORE''
         else if n = ''memlock'' then Some ''RLIMIT_MEMLOCK''
         else if n = ''stack'' then Some ''RLIMIT_STACK''
         else if n = ''as'' then Some ''RLIMIT_AS''
         else if has_prefix (to_upper n) ''RLIMIT_'' then Some (to_upper n)
         else None)"

definition rlimit_of :: "string \<times> ulimit \<Rightarrow> spec_error + rlimit" where
  "rlimit_of u =
     (case ulimitType (fst u) of
        None \<Rightarrow> Inl (Ulimits (fst u))
      | Some typ \<Rightarrow>
          let hard = uint (ul_hard (snd u)); soft = uint (ul_soft (snd u))
          in if hard = 0 \<and> soft = 0 then Inl (Ulimits (fst u))
             else let hard1 = (if hard = 0 then soft else hard); soft1 = (if soft = 0 then hard1 else soft)
                  in if soft1 > hard1 then Inl (Ulimits (fst u))
                     else Inr \<lparr>rl_type = typ, rl_hard = hard1, rl_soft = soft1\<rparr>)"

definition BundleRlimitsFromUlimits :: "(string, ulimit) gomap \<Rightarrow> spec_error + rlimit list" where
  "BundleRlimitsFromUlimits us = map_res rlimit_of us"

definition HealthcheckToConfig :: "healthcheck \<Rightarrow> spec_error + health_config option" where
  "HealthcheckToConfig h =
     (case hc_test h of
        [] \<Rightarrow> Inr None
      | t # ts \<Rightarrow>
          let kind = to_upper (trim_space t);
              cfg = \<lparr>h_type = [], h_command = [], h_url = [], h_address = [], h_interval = hc_interval h,
                     h_timeout = hc_timeout h, h_retries = hc_retries h, h_start_period = hc_start_period h\<rparr>
          in if kind = ''NONE'' then Inr (Some (cfg\<lparr>h_type := ''none''\<rparr>))
             else let cmd = (if kind = ''CMD'' then ts
                             else if kind = ''CMD-SHELL'' then [''/bin/sh'', ''-c'', join_with '' '' ts]
                             else t # ts)
                  in if cmd = [] then Inl EmptyHealthCommand
                     else Inr (Some (cfg\<lparr>h_type := ''exec'', h_command := cmd,
                       h_interval := (if hc_interval h \<le> 0 then 30 * second else hc_interval h),
                       h_timeout := (if hc_timeout h \<le> 0 then 10 * second else hc_timeout h),
                       h_retries := (if hc_retries h \<le> 0 then 3 else hc_retries h)\<rparr>)))"

definition parseComposeUser :: "string \<Rightarrow> spec_error + user option" where
  "parseComposeUser s0 =
     (let s = trim_space s0
      in if s = [] then Inr None
         else case split_on (CHR '':'') s of
                [u, g] \<Rightarrow> (case (parse_uint 32 (trim_space u), parse_uint 32 (trim_space g)) of
                    (Some uid, Some gid) \<Rightarrow> Inr (Some \<lparr>u_uid = int uid, u_gid = int gid, u_additionalGids = []\<rparr>)
                  | _ \<Rightarrow> Inl (UserSyntax s))
              | _ \<Rightarrow> Inl (UserSyntax s))"

fun validateDNSServers :: "string list \<Rightarrow> spec_error + string list" where
  "validateDNSServers [] = Inr []"
| "validateDNSServers (s0 # ss) =
     (let s = trim_space s0
      in if s = [] then validateDNSServers ss
         else case parse_ip4 s of
                None \<Rightarrow> Inl (DnsServer s)
              | Some ip \<Rightarrow> bind_res (validateDNSServers ss) (\<lambda>out. Inr (ip4_string ip # out)))"

definition composeRestartPolicy :: "string \<Rightarrow> restart_policy" where
  "composeRestartPolicy r =
     (let p = to_lower r
      in if p = ''always'' then RestartAlways
         else if p = ''on-failure'' then RestartOnFailure
         else if p = ''unless-stopped'' then RestartUnlessStopped
         else RestartNever)"

definition composeArgs :: "service \<Rightarrow> image_config option \<Rightarrow> string list" where
  "composeArgs svc cfg =
     (let ep = (if svc_entrypoint svc \<noteq> [] then svc_entrypoint svc
                else case cfg of None \<Rightarrow> [] | Some c \<Rightarrow> cc_entrypoint (ic_config c));
          cmd = (if svc_command svc \<noteq> [] then svc_command svc
                 else case cfg of None \<Rightarrow> [] | Some c \<Rightarrow> cc_cmd (ic_config c))
      in ep @ cmd)"

section \<open>Specifications\<close>

record registry_auth =
  ra_username :: string
  ra_password :: string

record 's image_store =
  is_resolve :: "'s \<Rightarrow> string \<Rightarrow> string + descriptor list \<times> image_config option \<times> string list"
  is_pull :: "'s \<Rightarrow> string \<Rightarrow> registry_auth option \<Rightarrow> 's \<times> string option"

record up_meta =
  um_composeDir :: string
  um_project :: string
  um_dataDir :: string
  um_auth :: "string \<Rightarrow> registry_auth option"

record up_env =
  ue_volumes :: volume_env
  ue_files :: fs
  ue_floats :: float_ops
  ue_netDriver :: string
  ue_dnsMode :: string

definition pullAuth :: "service \<Rightarrow> (string \<Rightarrow> registry_auth option) \<Rightarrow> string \<Rightarrow> registry_auth option" where
  "pullAuth svc auth img =
     (let u = trim_space (svc_registry_username svc)
      in if u = [] then auth img else Some \<lparr>ra_username = u, ra_password = svc_registry_password svc\<rparr>)"

text \<open>The first loop: every image once, pulled when the store does not have it.\<close>

fun pull_images ::
  "'s image_store \<Rightarrow> stack \<Rightarrow> up_meta \<Rightarrow> string list \<Rightarrow> string list \<Rightarrow> 's \<Rightarrow> 's \<times> spec_error option" where
  "pull_images st stack meta seen [] s = (s, None)"
| "pull_images st stack meta seen (name # rest) s =
     (let svc = service_at (st_services stack) name; img = trim_space (svc_image svc)
      in if img \<in> set seen then pull_images st stack meta seen rest s
         else case is_resolve st s img of
                Inr _ \<Rightarrow> pull_images st stack meta (img # seen) rest s
              | Inl _ \<Rightarrow>
                  if svc_build svc \<noteq> None then (s, Some (NotBuilt name))
                  else (case is_pull st s img (pullAuth svc (um_auth meta) img) of
                          (s1, Some e) \<Rightarrow> (s1, Some (PullFails name e))
                        | (s1, None) \<Rightarrow> pull_images st stack meta (img # seen) rest s1))"

definition aliases :: "stack \<Rightarrow> up_meta \<Rightarrow> bool \<Rightarrow> string list \<Rightarrow> string list" where
  "aliases stack meta hostOnly order =
     concat (map (\<lambda>name. [name, composeContainerID (um_project meta) name])
       (filter (\<lambda>name. \<not> hostOnly \<or> ServiceUsesHostNetwork stack (service_at (st_services stack) name)) order))"

definition embed_dns :: "up_env \<Rightarrow> stack \<Rightarrow> service \<Rightarrow> bool" where
  "embed_dns env stack svc =
     (let nd = to_lower (trim_space (ue_netDriver env)); dm0 = to_lower (trim_space (ue_dnsMode env));
          dm = (if dm0 = [] then ''auto'' else dm0)
      in nd = ''cni'' \<and> (dm = ''embedded'' \<or> dm = ''auto'' \<and> ServiceUsesOnlyInternalNetworks stack svc))"

text \<open>The body of the second loop.\<close>

definition service_spec ::
  "'s image_store \<Rightarrow> up_env \<Rightarrow> stack \<Rightarrow> up_meta \<Rightarrow> string list \<Rightarrow> 's \<Rightarrow> string \<Rightarrow> spec_error + container_spec" where
  "service_spec st env stack meta order s name =
     (let svc = service_at (st_services stack) name; img = trim_space (svc_image svc);
          hostNet = ServiceUsesHostNetwork stack svc;
          daemonHost = equal_fold (trim_space (ue_netDriver env)) ''host''
      in case is_resolve st s img of
           Inl e \<Rightarrow> Inl (ResolveFails name e)
         | Inr (layers, cfg, paths) \<Rightarrow>
           (case ServiceExtraMounts (ue_volumes env) svc stack (um_composeDir meta) (um_project meta) (um_dataDir meta) of
              Inl e \<Rightarrow> Inl (Volumes e)
            | Inr mounts \<Rightarrow>
              if hostNet \<and> svc_ports svc \<noteq> [] then Inl (PublishedOnHost name)
              else (case map_res ParseDockerPublish (if hostNet then [] else svc_ports svc) of
                Inl e \<Rightarrow> Inl (Ports e)
              | Inr portMaps \<Rightarrow>
                bind_res (case svc_healthcheck svc of None \<Rightarrow> Inr None | Some h \<Rightarrow> HealthcheckToConfig h) (\<lambda>hc.
                bind_res (parseComposeUser (svc_user svc)) (\<lambda>u.
                bind_res (if hostNet then Inr no_bridge else ResolveServiceBridge stack svc) (\<lambda>bridgeNet.
                bind_res (BundleResourcesFromDeploy (ue_floats env) (svc_deploy svc)) (\<lambda>res.
                bind_res (BundleRlimitsFromUlimits (svc_ulimits svc)) (\<lambda>rlimits.
                bind_res (validateDNSServers (svc_dns svc)) (\<lambda>dnsServers.
                bind_res (case ServiceEnv (ue_files env) svc (um_composeDir meta) of Inl e \<Rightarrow> Inl (Environment e) | Inr x \<Rightarrow> Inr x)
                  (\<lambda>environment.
                  Inr (zero_spec\<lparr>
                    cs_id := composeContainerID (um_project meta) name, cs_image := img, cs_imageConfig := cfg,
                    cs_manifestLayers := layers, cs_blobPaths := paths, cs_env := EnvMapToSlice environment,
                    cs_args := composeArgs svc cfg, cs_user := u, cs_portMappings := portMaps,
                    cs_readOnly := svc_read_only svc, cs_hostname := trim_space name,
                    cs_hostAliases := (if daemonHost then aliases stack meta False order
                                       else if hostNet then aliases stack meta True order else []),
                    cs_hostNetwork := hostNet, cs_restartPolicy := composeRestartPolicy (svc_restart svc),
                    cs_stopTimeout := svc_stop_timeout svc, cs_healthcheck := hc, cs_extraMounts := mounts,
                    cs_embedDNS := \<not> hostNet \<and> embed_dns env stack svc, cs_dns := dnsServers,
                    cs_composeInternalNet := \<not> hostNet \<and> ServiceUsesOnlyInternalNetworks stack svc,
                    cs_networkBridge := sb_bridge bridgeNet, cs_networkSubnet := sb_subnet bridgeNet,
                    cs_networkGateway := sb_gateway bridgeNet, cs_resources := res, cs_privileged := svc_privileged svc,
                    cs_seccompProfile := ResolveSeccompProfilePath (um_composeDir meta) (svc_seccomp_profile svc),
                    cs_apparmorProfile := trim_space (svc_apparmor_profile svc), cs_capAdd := svc_cap_add svc,
                    cs_capDrop := svc_cap_drop svc, cs_noNewPrivileges := svc_no_new_privileges svc,
                    cs_rlimits := rlimits\<rparr>)))))))))))"

definition BuildContainerSpecs ::
  "'s image_store \<Rightarrow> up_env \<Rightarrow> stack \<Rightarrow> up_meta \<Rightarrow> 's \<Rightarrow> 's \<times> (spec_error + container_spec list)" where
  "BuildContainerSpecs st env stack meta s =
     (let order = TopologicalOrder (st_services stack)
      in case pull_images st stack meta [] order s of
           (s1, Some e) \<Rightarrow> (s1, Inl e)
         | (s1, None) \<Rightarrow> (s1, map_res (service_spec st env stack meta order s1) order))"

section \<open>Gateways\<close>

lemma base_low_bits:
  assumes "ones \<le> 30"
  shows "\<not> bit ((w :: ip4) AND mask_of ones) 0"
  using assms by (auto simp: mask_of_def bit_simps)

lemma last_byte_incremented:
  assumes "\<not> bit (b :: ip4) 0"
  shows "(b AND NOT 0xFF) OR ((b + 1) AND 0xFF) = b + 1"
proof -
  have "b AND 1 = 0" using assms by (simp add: and_one_eq mod2_eq_if bit_0 flip: one_and_eq)
  then have plus: "b + 1 = b OR 1" by (simp add: disjunctive_add_eq_or)
  have "(0xFF :: ip4) = mask 8" by (simp add: mask_eq_exp_minus_1)
  then show ?thesis unfolding plus by (intro bit_word_eqI) (auto simp: bit_simps)
qed

lemma subnet_bounds:
  fixes w :: ip4
  assumes "ones \<le> 30"
  defines "b \<equiv> w AND mask_of ones"
  shows "b < b + 1" and "b + 1 < b OR NOT (mask_of ones)"
proof -
  let ?m = "2 ^ (32 - ones) :: nat"
  have m: "4 \<le> ?m"
    using power_increasing [of 2 "32 - ones" "2 :: nat"] assms(1) by simp
  have u: "unat b = unat w div ?m * ?m" by (simp add: b_def unat_and_mask)
  have "?m * 2 ^ ones = (2 :: nat) ^ 32" using assms(1) by (simp add: power_add [symmetric])
  moreover have "unat w div ?m < 2 ^ ones"
    using unsigned_less [of w, where 'a = nat] calculation by (simp add: less_mult_imp_div_less mult.commute)
  then have "(unat w div ?m + 1) * ?m \<le> 2 ^ ones * ?m" by (intro mult_right_mono) simp_all
  ultimately have top: "unat b + ?m \<le> 2 ^ 32" unfolding u by (simp add: algebra_simps)
  have one: "unat (b + 1) = unat b + 1" using top m by (simp add: unat_word_ariths)
  then show "b < b + 1" by (simp add: word_less_nat_alt)
  have "unat (mask (32 - ones) :: ip4) = ?m - 1"
  proof -
    have "(mask (32 - ones) :: ip4) = word_of_nat (mask (32 - ones))" by (simp add: of_nat_mask_eq)
    then have "unat (mask (32 - ones) :: ip4) = take_bit 32 (mask (32 - ones))"
      by (simp only: unsigned_of_nat) simp
    also have "\<dots> = mask (32 - ones)" by (simp only: take_bit_of_mask) simp
    finally show ?thesis by (simp only: mask_eq_exp_minus_1)
  qed
  then have "unat (b + mask (32 - ones)) = unat b + (?m - 1)" using top m by (simp add: unat_word_ariths)
  moreover have "b AND mask_of ones = b" by (simp add: b_def and.assoc)
  ultimately show "b + 1 < b OR NOT (mask_of ones)"
    using one m by (simp add: broadcast_plus word_less_nat_alt)
qed

lemma ip4_string_unspaced [simp]: "trim_space (ip4_string w) = ip4_string w"
proof (rule trim_space_none)
  have "list_all (\<lambda>c. \<not> is_space c) (itoa_nat n)" for n
    using itoa_nat_digits [of n] by (auto simp: all_digits_def list_all_iff is_digit_def is_space_def Let_def)
  then show "list_all (\<lambda>c. \<not> is_space c) (ip4_string w)" by (simp add: ip4_string_def is_space_def Let_def)
qed

lemma gateway_accepted:
  assumes "gatewayFromSubnet subnet = Inr gw" and "trim_space subnet = subnet"
  shows "\<exists>ip n a. parse_cidr subnet = Some (ip, n) \<and> cidr_ones n \<le> 30 \<and> parse_ip4 gw \<noteq> None \<and>
     trim_space gw = gw \<and> gw \<noteq> [] \<and> newIPAM None subnet gw = Inr a"
proof -
  obtain ip n where c: "parse_cidr subnet = Some (ip, n)" "cidr_ones n \<le> 30"
    "gw = ip4_string ((ip AND mask_of (cidr_ones n)) + 1)"
    using assms last_byte_incremented [OF base_low_bits]
    by (auto simp: gatewayFromSubnet_def Let_def split: option.splits if_splits)
  have n: "cidr_base n = ip AND mask_of (cidr_ones n)"
    using c(1) by (auto simp: parse_cidr_def split: prod.splits if_splits option.splits)
  have "gw \<noteq> []" unfolding c(3) by (simp add: ip4_string_def)
  with c n subnet_bounds [OF c(2), of ip] show ?thesis
    by (simp add: newIPAM_def parse_ip4_string not_le [symmetric] Let_def)
qed

lemma bridge_name_accepted: "validateBridgeName name \<Longrightarrow> validateNativeBridgeName name = None"
  by (auto simp: validateBridgeName_def validateNativeBridgeName_def BridgeName_def list_all_iff find_None_iff)

lemma resolve_bridge_Inr:
  "resolve_bridge stack ns = Inr sb \<Longrightarrow> sb_bridge sb \<noteq> [] \<Longrightarrow>
     gatewayFromSubnet (sb_subnet sb) = Inr (sb_gateway sb) \<and> validateBridgeName (sb_bridge sb) \<and>
     trim_space (sb_subnet sb) = sb_subnet sb \<and> trim_space (sb_bridge sb) = sb_bridge sb \<and> sb_subnet sb \<noteq> []"
  by (induction stack ns rule: resolve_bridge.induct)
    (auto simp: no_bridge_def Let_def split: option.splits if_splits sum.splits)

section \<open>The specification of a service\<close>

lemma service_spec_Inr:
  fixes stack :: stack and name :: string
  assumes "service_spec st env stack meta order s name = Inr spec"
  defines "svc \<equiv> service_at (st_services stack) name"
  shows "cs_id spec = composeContainerID (um_project meta) name"
    and "cs_hostNetwork spec = ServiceUsesHostNetwork stack svc"
    and "cs_hostNetwork spec \<Longrightarrow> svc_ports svc = [] \<and> cs_portMappings spec = [] \<and> cs_networkBridge spec = [] \<and>
      \<not> cs_embedDNS spec \<and> \<not> cs_composeInternalNet spec"
    and "\<not> cs_hostNetwork spec \<Longrightarrow> map_res ParseDockerPublish (svc_ports svc) = Inr (cs_portMappings spec)"
    and "cs_networkBridge spec \<noteq> [] \<Longrightarrow> \<exists>sb. ResolveServiceBridge stack svc = Inr sb \<and>
      sb_bridge sb = cs_networkBridge spec \<and> sb_subnet sb = cs_networkSubnet spec \<and> sb_gateway sb = cs_networkGateway spec"
    and "cs_privileged spec = svc_privileged svc \<and> cs_capAdd spec = svc_cap_add svc \<and> cs_capDrop spec = svc_cap_drop svc \<and>
      cs_noNewPrivileges spec = svc_no_new_privileges svc \<and> cs_readOnly spec = svc_read_only svc"
    and "cs_restartPolicy spec = composeRestartPolicy (svc_restart svc) \<and>
      ServiceExtraMounts (ue_volumes env) svc stack (um_composeDir meta) (um_project meta) (um_dataDir meta) = Inr (cs_extraMounts spec)"
  using assms(1) unfolding svc_def service_spec_def Let_def
  by (auto simp: bind_res_Inr_iff no_bridge_def split: sum.splits if_splits prod.splits)

section \<open>Properties\<close>


definition demo_store :: "unit image_store" where
  "demo_store = \<lparr>is_resolve = (\<lambda>_ img. Inr ([], None, [''/blobs/'' @ img])), is_pull = (\<lambda>s _ _. (s, None))\<rparr>"

definition demo_up_env :: up_env where
  "demo_up_env = \<lparr>ue_volumes = \<lparr>ve_cwd = ''/srv'', ve_mkdir = (\<lambda>_. None)\<rparr>, ue_files = (\<lambda>_. NotExist),
     ue_floats = \<lparr>fl_scale = (\<lambda>_ _. None), fl_quota = (\<lambda>_. None)\<rparr>, ue_netDriver = ''native'', ue_dnsMode = []\<rparr>"

definition demo_up_meta :: up_meta where
  "demo_up_meta = \<lparr>um_composeDir = ''/srv/app'', um_project = ''app'', um_dataDir = ''/var/lib/nyxd'', um_auth = (\<lambda>_. None)\<rparr>"

definition demo_up_stack :: stack where
  "demo_up_stack =
     \<lparr>st_name = ''app'', st_version = [],
      st_services = [(''web'', zero_service\<lparr>svc_image := ''nginx'', svc_depends_on := [''db''], svc_ports := [''81:80''],
                        svc_networks := [''back'']\<rparr>),
                     (''db'', zero_service\<lparr>svc_image := ''redis'', svc_network_mode := ''host''\<rparr>)],
      st_networks = [(''back'', \<lparr>nw_driver = [], nw_bridge = ''nyxbr7'', nw_subnet = ''10.90.0.0/24'', nw_internal = False\<rparr>)],
      st_volumes = []\<rparr>"

definition demo_specs :: "container_spec list" where
  "demo_specs = (case snd (BuildContainerSpecs demo_store demo_up_env demo_up_stack demo_up_meta ()) of Inr ss \<Rightarrow> ss | Inl e \<Rightarrow> [])"

lemma demo_specs_built: "BuildContainerSpecs demo_store demo_up_env demo_up_stack demo_up_meta () = ((), Inr demo_specs)"
proof -
  have "isl (snd (BuildContainerSpecs demo_store demo_up_env demo_up_stack demo_up_meta ())) = False" by code_simp
  then show ?thesis unfolding demo_specs_def by (intro prod_eqI) (auto split: sum.splits)
qed


text \<open>C24. A network of its own that compose up accepted is accepted by the native driver too: the
  bridge name passes the driver's check, the subnet is not too small, and the gateway compose
  computed from it lies strictly inside, so that the address allocator can be set up.\<close>

theorem compose_bridge_accepted:
  assumes "BuildContainerSpecs st env stack meta s = (s', Inr specs)" and "spec \<in> set specs"
    and "cs_networkBridge spec \<noteq> []"
  shows "\<exists>conf a. bridgeConfFromOpts nenv (net_options spec) = Inr conf \<and> bc_bridge conf = cs_networkBridge spec \<and>
     newIPAM None (bc_subnet conf) (bc_gateway conf) = Inr a"
proof -
  obtain name s1 where "service_spec st env stack meta (TopologicalOrder (st_services stack)) s1 name = Inr spec"
    using assms(1,2) by (auto simp: BuildContainerSpecs_def Let_def split: prod.splits option.splits dest: map_res_mem)
  from service_spec_Inr(5) [OF this assms(3)] obtain svc sb where r: "ResolveServiceBridge stack svc = Inr sb"
    and sb: "sb_bridge sb = cs_networkBridge spec" "sb_subnet sb = cs_networkSubnet spec" "sb_gateway sb = cs_networkGateway spec"
    by blast
  have "resolve_bridge stack (svc_networks svc) = Inr sb"
    using r sb(1) assms(3) by (auto simp: ResolveServiceBridge_def no_bridge_def split: if_splits)
  from resolve_bridge_Inr [OF this] sb assms(3) have
    b: "gatewayFromSubnet (cs_networkSubnet spec) = Inr (cs_networkGateway spec)" "validateBridgeName (cs_networkBridge spec)"
      "trim_space (cs_networkSubnet spec) = cs_networkSubnet spec" "trim_space (cs_networkBridge spec) = cs_networkBridge spec"
      "cs_networkSubnet spec \<noteq> []" by simp_all
  from gateway_accepted [OF b(1,3)] obtain ip n a where
    "parse_cidr (cs_networkSubnet spec) = Some (ip, n)" "cidr_ones n \<le> 30" "parse_ip4 (cs_networkGateway spec) \<noteq> None"
    "trim_space (cs_networkGateway spec) = cs_networkGateway spec" "cs_networkGateway spec \<noteq> []"
    "newIPAM None (cs_networkSubnet spec) (cs_networkGateway spec) = Inr a" by blast
  with b bridge_name_accepted [OF b(2)] assms(3) show ?thesis
    by (auto simp: net_options_def bridgeConfFromOpts_def Let_def)
qed

theorem compose_bridge_accepted_witness:
  "\<exists>conf a. bridgeConfFromOpts (demo_host None) (net_options (last demo_specs)) = Inr conf \<and> bc_bridge conf = ''nyxbr7'' \<and>
     newIPAM None (bc_subnet conf) (bc_gateway conf) = Inr a"
proof -
  have b: "cs_networkBridge (last demo_specs) = ''nyxbr7''" and "demo_specs \<noteq> []" by code_simp+
  then show ?thesis using compose_bridge_accepted [OF demo_specs_built, of "last demo_specs" "demo_host None"] by auto
qed

end
