(* ===== verification/Control.thy ===== *)
theory Control
  imports Control_Ids Supervisor_Adopt Compose_Specs
begin

text \<open>
  The handlers of the daemon's HTTP API (src/internal/control/server.go, handlers_more.go): each takes the
  server and a request and gives the server after it and the response. Error texts are values of
  \<open>ctl_error\<close>, with the status the handler sends; the text matters where the code looks into it, which is the
  words \<open>not found\<close> in the error of a stop. The body of a request is what the JSON decoder returns. List returns
  the tracked ids in the order of their entries; Control\_Ids shows that no order matters.
\<close>

section \<open>Server and responses\<close>

record server =
  sv_sup :: "sup option"
  sv_store :: "store option"
  sv_dataDir :: string
  sv_netDriver :: string
  sv_dnsMode :: string
  sv_logs :: "(string, log_files) gomap"
  sv_removedDirs :: "string list"

datatype health_error = MissingType | BadInterval string | BadTimeout string | BadStartPeriod string
  | ExecNeedsCommand | HttpNeedsUrl | TcpNeedsAddress | UnknownType string

datatype compose_load_error = OneOfFileOrYaml | ReadFails string | ParseFails compose_error | MissingContextDir

datatype ctl_error =
    Unavailable string | BadBody string | Resolve resolve_error | Stopping stop_error | NoImage | InvalidID
  | AutoRemovePolicy | Publish publish_error | PortProtocol string | PortRange | NetworkName string | PortsOnHost
  | Volume volume_error | VolumeMissing string string | Pulling image_error | Store image_error | HealthCheck health_error
  | NoDuplex string | Starting start_error | Compose compose_load_error | Specs spec_error | ComposeUp up_error
  | MissingRef | ImageMissing string | NoLogFile | EmptyArgv | HeaderLine string

datatype pull_event = Progress string | EvError ctl_error | EvDone string | EvRun string string

datatype ctl_json =
    OkId string | Killed string string | Stopped "string list" | Removed "string list" "string list"
  | Up "string list" "host_warning list" | Ran string string | Images "string list" | ImageId string string | OkRef string
  | Pruned bool "string list" nat

datatype out = OutError ctl_error | OutJson ctl_json | OutEvent pull_event | OutLine string | OutExec string

text \<open>A response: the status is the one sent first, and everything written after it goes to the body.\<close>

record resp =
  rs_status :: "int option"
  rs_out :: "out list"

definition no_resp :: resp where
  "no_resp = \<lparr>rs_status = None, rs_out = []\<rparr>"

definition write_header :: "int \<Rightarrow> resp \<Rightarrow> resp" where
  "write_header code w = (case rs_status w of None \<Rightarrow> w\<lparr>rs_status := Some code\<rparr> | Some _ \<Rightarrow> w)"

definition write_out :: "out \<Rightarrow> resp \<Rightarrow> resp" where
  "write_out x w = (let w1 = write_header 200 w in w1\<lparr>rs_out := rs_out w1 @ [x]\<rparr>)"

definition http_error :: "int \<Rightarrow> ctl_error \<Rightarrow> resp \<Rightarrow> resp" where
  "http_error code e w = write_out (OutError e) (write_header code w)"

definition refuse :: "int \<Rightarrow> ctl_error \<Rightarrow> resp" where
  "refuse code e = http_error code e no_resp"

definition answer :: "ctl_json \<Rightarrow> resp" where
  "answer j = write_out (OutJson j) no_resp"

section \<open>The tracked containers\<close>

definition tracked_at :: "sup \<Rightarrow> nat list" where
  "tracked_at s = filter (\<lambda>i. sup_containers s (id_at s i) = Some i) [0..<length (sup_entries s)]"

definition List :: "sup \<Rightarrow> string list" where
  "List s = map (id_at s) (tracked_at s)"

definition tracked_entries :: "sup \<Rightarrow> entry list" where
  "tracked_entries s = map (entry_at s) (tracked_at s)"

section \<open>Stop, remove, kill\<close>

text \<open>The texts of the errors of Stop, Kill and Remove; the part of the wait is not modelled.\<close>

definition stop_msg :: "stop_error \<Rightarrow> string" where
  "stop_msg e =
     (case e of
        stop_error.NotFound cid \<Rightarrow> ''container '' @ cid @ '' not found''
      | KillFails t \<Rightarrow> ''kill container: '' @ t
      | WaitFails t \<Rightarrow> ''wait container stopped: context deadline exceeded; force delete: '' @ t)"

definition stop_status :: "stop_error \<Rightarrow> int" where
  "stop_status e = (if contains (stop_msg e) ''not found'' then 404 else 400)"

definition handleContainerStop :: "(string \<Rightarrow> string) \<Rightarrow> stop_env \<Rightarrow> string \<Rightarrow> server \<Rightarrow> server \<times> resp" where
  "handleContainerStop sha env pathId srv =
     (case sv_sup srv of
        None \<Rightarrow> (srv, refuse 503 (Unavailable ''supervisor''))
      | Some s \<Rightarrow>
          (case resolveContainerID sha (Some (List s)) (trim_space pathId) of
             Inl e \<Rightarrow> (srv, refuse (resolve_status e) (Resolve e))
           | Inr cid \<Rightarrow>
               (case Stop env cid s of
                  (s1, Some e) \<Rightarrow> (srv\<lparr>sv_sup := Some s1\<rparr>, refuse (stop_status e) (Stopping e))
                | (s1, None) \<Rightarrow> (srv\<lparr>sv_sup := Some s1\<rparr>, answer (OkId cid)))))"

text \<open>logs.Remove on the files of an id, with whether there were any.\<close>

definition logs_Remove :: "string \<Rightarrow> server \<Rightarrow> server \<times> bool" where
  "logs_Remove cid srv =
     (case map_of (sv_logs srv) cid of
        None \<Rightarrow> (srv, False)
      | Some fs \<Rightarrow> (srv\<lparr>sv_logs := AList.delete cid (sv_logs srv)\<rparr>, snd (snd (remove_log fs None))))"

definition handleContainerRemove :: "(string \<Rightarrow> string) \<Rightarrow> stop_env \<Rightarrow> string \<Rightarrow> server \<Rightarrow> server \<times> resp" where
  "handleContainerRemove sha env pathId srv =
     (case sv_sup srv of
        None \<Rightarrow> (srv, refuse 503 (Unavailable ''supervisor''))
      | Some s \<Rightarrow>
          (let cid0 = trim_space pathId
           in case resolveContainerID sha (Some (List s)) cid0 of
                Inl e \<Rightarrow>
                  (case e of
                     NoSuchID _ \<Rightarrow>
                       if safeLogContainerID cid0 then
                         (case logs_Remove cid0 srv of
                            (srv1, True) \<Rightarrow> (srv1, answer (OkId cid0))
                          | (srv1, False) \<Rightarrow> (srv1, refuse (resolve_status e) (Resolve e)))
                       else (srv, refuse (resolve_status e) (Resolve e))
                   | _ \<Rightarrow> (srv, refuse (resolve_status e) (Resolve e)))
              | Inr cid \<Rightarrow>
                  (case Remove env cid s of
                     (s1, Some e) \<Rightarrow> (srv\<lparr>sv_sup := Some s1\<rparr>, refuse (stop_status e) (Stopping e))
                   | (s1, None) \<Rightarrow> (srv\<lparr>sv_sup := Some s1\<rparr>, answer (OkId cid)))))"

text \<open>\<open>body\<close>: the signal field of the body, empty when the body does not decode.\<close>

definition kill_signal :: "string \<Rightarrow> string" where
  "kill_signal body = (let sig = trim_space body in if sig \<noteq> [] then trim_prefix sig ''SIG'' else ''KILL'')"

definition handleContainerKill :: "(string \<Rightarrow> string) \<Rightarrow> stop_env \<Rightarrow> string \<Rightarrow> string \<Rightarrow> server \<Rightarrow> server \<times> resp" where
  "handleContainerKill sha env body pathId srv =
     (case sv_sup srv of
        None \<Rightarrow> (srv, refuse 503 (Unavailable ''supervisor''))
      | Some s \<Rightarrow>
          (case resolveContainerID sha (Some (List s)) (trim_space pathId) of
             Inl e \<Rightarrow> (srv, refuse (resolve_status e) (Resolve e))
           | Inr cid \<Rightarrow>
               (case Kill env (kill_signal body) cid s of
                  (s1, Some e) \<Rightarrow> (srv\<lparr>sv_sup := Some s1\<rparr>, refuse (stop_status e) (Stopping e))
                | (s1, None) \<Rightarrow> (srv\<lparr>sv_sup := Some s1\<rparr>, answer (Killed cid (kill_signal body))))))"

section \<open>Compose projects\<close>

record compose_request =
  cq_file :: string
  cq_yaml :: string
  cq_contextDir :: string
  cq_project :: string
  cq_removeVolumes :: bool
  cq_auth :: "string \<Rightarrow> registry_auth option"

record load_env =
  le_unmarshal :: "string \<Rightarrow> string + stack"
  le_files :: fs
  le_environ :: "string list"
  le_cwd :: string

definition ParseFile :: "load_env \<Rightarrow> string \<Rightarrow> compose_load_error + stack" where
  "ParseFile env path =
     (let p = path_abs (le_cwd env) path
      in case le_files env p of
           Contents raw \<Rightarrow>
             (case ParseInterpolated (le_unmarshal env) (le_files env) (le_environ env) raw (path_dir p) of
                Inl e \<Rightarrow> Inl (ParseFails e) | Inr st \<Rightarrow> Inr st)
         | _ \<Rightarrow> Inl (ReadFails p))"

definition load_file :: "load_env \<Rightarrow> compose_request \<Rightarrow> string \<Rightarrow> compose_load_error + stack \<times> string \<times> string" where
  "load_file env body filePath =
     (let p = path_abs (le_cwd env) filePath
      in bind_res (ParseFile env p) (\<lambda>st.
           Inr (st, path_dir p, if trim_space (cq_project body) = [] then ProjectName (Some st) p else cq_project body)))"

definition load_yaml :: "load_env \<Rightarrow> compose_request \<Rightarrow> string \<Rightarrow> compose_load_error + stack \<times> string \<times> string" where
  "load_yaml env body yamlBody =
     (let dir = trim_space (cq_contextDir body)
      in if dir = [] then Inl MissingContextDir
         else let composeDir = path_abs (le_cwd env) dir
              in case ParseInterpolated (le_unmarshal env) (le_files env) (le_environ env) yamlBody composeDir of
                   Inl e \<Rightarrow> Inl (ParseFails e)
                 | Inr st \<Rightarrow>
                     (let p1 = (if trim_space (cq_project body) = [] then st_name st else cq_project body);
                          p2 = (if trim_space p1 = [] then path_base composeDir else p1)
                      in Inr (st, composeDir, p2)))"

definition loadComposeProject :: "load_env \<Rightarrow> compose_request \<Rightarrow> compose_load_error + stack \<times> string \<times> string" where
  "loadComposeProject env body =
     (let filePath = trim_space (cq_file body); yamlBody = trim_space (cq_yaml body)
      in if (filePath = []) = (yamlBody = []) then Inl OneOfFileOrYaml
         else bind_res (if filePath \<noteq> [] then load_file env body filePath else load_yaml env body yamlBody) (\<lambda>(st, dir, p0).
                let p1 = trim_space p0; project = (if p1 = [] then ''compose'' else p1)
                in Inr ((SetBuildImages st project)\<lparr>st_name := project\<rparr>, dir, project)))"

text \<open>An error that says \<open>not found\<close>, in either case of letters, does not stop the loop.\<close>

definition says_not_found :: "stop_error \<Rightarrow> bool" where
  "says_not_found e = contains (to_lower (stop_msg e)) ''not found''"

fun stop_all :: "(stop_env \<Rightarrow> string \<Rightarrow> sup \<Rightarrow> sup \<times> stop_error option) \<Rightarrow> (stop_env \<times> string) list \<Rightarrow> sup \<Rightarrow> sup \<times> stop_error option" where
  "stop_all op [] s = (s, None)"
| "stop_all op ((env, cid) # rest) s =
     (case op env cid s of
        (s1, Some e) \<Rightarrow> if says_not_found e then stop_all op rest s1 else (s1, Some e)
      | (s1, None) \<Rightarrow> stop_all op rest s1)"

text \<open>\<open>envs\<close> is what the system does during the stop of each id, as often as there are ids.\<close>

definition handleComposeStop :: "load_env \<Rightarrow> (string \<Rightarrow> stop_env) \<Rightarrow> string + compose_request \<Rightarrow> server \<Rightarrow> server \<times> resp" where
  "handleComposeStop lenv envs body srv =
     (case sv_sup srv of
        None \<Rightarrow> (srv, refuse 503 (Unavailable ''supervisor''))
      | Some s \<Rightarrow> (case body of
          Inl e \<Rightarrow> (srv, refuse 400 (BadBody e))
        | Inr b \<Rightarrow> (case loadComposeProject lenv b of
            Inl e \<Rightarrow> (srv, refuse 400 (Compose e))
          | Inr (st, dir, project) \<Rightarrow>
              (let ids = ReverseOrderedContainerIDs st project
               in case stop_all Stop (map (\<lambda>i. (envs i, i)) ids) s of
                    (s1, Some e) \<Rightarrow> (srv\<lparr>sv_sup := Some s1\<rparr>, refuse 400 (Stopping e))
                  | (s1, None) \<Rightarrow> (srv\<lparr>sv_sup := Some s1\<rparr>, answer (Stopped ids))))))"

text \<open>\<open>rm\<close> is the error of RemoveAll, \<open>None\<close> when there is none.\<close>

definition remove_volumes :: "(string \<Rightarrow> string option) \<Rightarrow> string \<Rightarrow> string \<Rightarrow> stack \<Rightarrow> sup \<Rightarrow> string list" where
  "remove_volumes rm dataDir project st s =
     filter (\<lambda>p. \<not> IsBindSourceInUse p (tracked_entries s) \<and> rm p = None)
       (map (NamedVolumeHostPath dataDir project) (sort_strings (map fst (st_volumes st))))"

definition handleComposeDown ::
  "load_env \<Rightarrow> (string \<Rightarrow> stop_env) \<Rightarrow> (string \<Rightarrow> string option) \<Rightarrow> string + compose_request \<Rightarrow> server \<Rightarrow> server \<times> resp" where
  "handleComposeDown lenv envs rm body srv =
     (case sv_sup srv of
        None \<Rightarrow> (srv, refuse 503 (Unavailable ''supervisor''))
      | Some s \<Rightarrow> (case body of
          Inl e \<Rightarrow> (srv, refuse 400 (BadBody e))
        | Inr b \<Rightarrow> (case loadComposeProject lenv b of
            Inl e \<Rightarrow> (srv, refuse 400 (Compose e))
          | Inr (st, dir, project) \<Rightarrow>
              (let ids = ReverseOrderedContainerIDs st project
               in case stop_all Remove (map (\<lambda>i. (envs i, i)) ids) s of
                    (s1, Some e) \<Rightarrow> (srv\<lparr>sv_sup := Some s1\<rparr>, refuse 400 (Stopping e))
                  | (s1, None) \<Rightarrow>
                      (let gone = (if cq_removeVolumes b \<and> st_volumes st \<noteq> []
                                   then remove_volumes rm (sv_dataDir srv) project st s1 else [])
                       in (srv\<lparr>sv_sup := Some s1, sv_removedDirs := sv_removedDirs srv @ gone\<rparr>,
                           answer (Removed ids gone)))))))"

definition handleComposeUp ::
  "load_env \<Rightarrow> store image_store \<Rightarrow> up_env \<Rightarrow> (string \<Rightarrow> up_io) \<Rightarrow> string + compose_request \<Rightarrow> server \<Rightarrow> server \<times> resp" where
  "handleComposeUp lenv ist uenv ios body srv =
     (case sv_sup srv of
        None \<Rightarrow> (srv, refuse 503 (Unavailable ''supervisor''))
      | Some s \<Rightarrow> (case sv_store srv of
          None \<Rightarrow> (srv, refuse 503 (Unavailable ''image store''))
        | Some store0 \<Rightarrow> (case body of
            Inl e \<Rightarrow> (srv, refuse 400 (BadBody e))
          | Inr b \<Rightarrow> (case loadComposeProject lenv b of
              Inl e \<Rightarrow> (srv, refuse 400 (Compose e))
            | Inr (st, dir, project) \<Rightarrow>
                (case BuildContainerSpecs ist (uenv\<lparr>ue_netDriver := sv_netDriver srv, ue_dnsMode := sv_dnsMode srv\<rparr>) st
                        \<lparr>um_composeDir = dir, um_project = project, um_dataDir = sv_dataDir srv, um_auth = cq_auth b\<rparr> store0 of
                   (store1, Inl e) \<Rightarrow> (srv\<lparr>sv_store := Some store1\<rparr>, refuse 400 (Specs e))
                 | (store1, Inr specs) \<Rightarrow>
                     (let warnings = (if equal_fold (sv_netDriver srv) ''host'' \<or> StackUsesHostNetwork st
                                      then HostNetworkWarnings st else [])
                      in case StartComposeUp (map (\<lambda>sp. (ios (cs_id sp), sp)) specs) s of
                           (s1, Inl e) \<Rightarrow> (srv\<lparr>sv_store := Some store1, sv_sup := Some s1\<rparr>, refuse 400 (ComposeUp e))
                         | (s1, Inr rs) \<Rightarrow>
                             (srv\<lparr>sv_store := Some store1, sv_sup := Some s1\<rparr>, answer (Up (map cs_id specs) warnings))))))))"

section \<open>Images\<close>

definition handleImagesList :: "server \<Rightarrow> resp" where
  "handleImagesList srv =
     (case sv_store srv of
        None \<Rightarrow> refuse 503 (Unavailable ''image store'')
      | Some st \<Rightarrow> answer (Images (ListImageRefs st)))"

definition handleImageInspect :: "string \<Rightarrow> server \<Rightarrow> resp" where
  "handleImageInspect q srv =
     (case sv_store srv of
        None \<Rightarrow> refuse 503 (Unavailable ''image store'')
      | Some st \<Rightarrow>
          (let ref = trim_space q
           in if ref = [] then refuse 400 MissingRef
              else case ResolvePulledImage st ref of
                     Inl _ \<Rightarrow> refuse 404 (ImageMissing ref)
                   | Inr (m, _, _) \<Rightarrow> answer (ImageId ref (d_digest (mf_config m)))))"

definition handleImagesRemove :: "(string \<Rightarrow> string option) \<Rightarrow> string + string \<Rightarrow> server \<Rightarrow> server \<times> resp" where
  "handleImagesRemove rm body srv =
     (case sv_store srv of
        None \<Rightarrow> (srv, refuse 503 (Unavailable ''image store''))
      | Some st \<Rightarrow> (case body of
          Inl e \<Rightarrow> (srv, refuse 400 (BadBody e))
        | Inr b \<Rightarrow>
            (let ref = trim_space b
             in if ref = [] then (srv, refuse 400 MissingRef)
                else case RemoveImage rm ref st of
                       (st1, Some e) \<Rightarrow> (srv\<lparr>sv_store := Some st1\<rparr>, refuse 400 (Store e))
                     | (st1, None) \<Rightarrow> (srv\<lparr>sv_store := Some st1\<rparr>, answer (OkRef ref)))))"

text \<open>\<open>dryRun\<close> is false when the body does not decode.\<close>

definition handleImagesPrune :: "(string \<Rightarrow> string option) \<Rightarrow> bool \<Rightarrow> server \<Rightarrow> server \<times> resp" where
  "handleImagesPrune rm dryRun srv =
     (case sv_store srv of
        None \<Rightarrow> (srv, refuse 503 (Unavailable ''image store''))
      | Some st \<Rightarrow> (case sv_sup srv of
          None \<Rightarrow> (srv, refuse 503 (Unavailable ''supervisor''))
        | Some s \<Rightarrow>
            (let keep = ImageRefsInUse (tracked_entries s)
             in case PruneImagesNotIn rm keep dryRun st of
                  (st1, removed, Some e) \<Rightarrow> (srv\<lparr>sv_store := Some st1\<rparr>, refuse 400 (Store e))
                | (st1, removed, None) \<Rightarrow> (srv\<lparr>sv_store := Some st1\<rparr>, answer (Pruned dryRun removed (length keep))))))"

section \<open>Logs\<close>

text \<open>writeLogLine: \<open>dec\<close> gives the text of an entry, \<open>None\<close> when the line does not decode.\<close>

definition writeLogLine :: "(string \<Rightarrow> string option) \<Rightarrow> bool \<Rightarrow> string \<Rightarrow> string" where
  "writeLogLine dec pl line =
     (if \<not> pl then line @ [newline]
      else case dec line of
             Some l \<Rightarrow> if has_suffix l [newline] then l else l @ [newline]
           | None \<Rightarrow> line @ [newline])"

definition log_tail :: "string \<Rightarrow> int" where
  "log_tail v = (if v = [] then 200 else case atoi v of Some n \<Rightarrow> if n > 0 \<and> n < 100000 then n else 200 | None \<Rightarrow> 200)"

text \<open>drain: the complete lines of the file from an offset on, and the offset after them.\<close>

fun take_lines :: "string \<Rightarrow> string \<Rightarrow> string list \<times> nat" where
  "take_lines acc [] = ([], 0)"
| "take_lines acc (c # cs) =
     (if c = newline then (case take_lines [] cs of (ls, n) \<Rightarrow> (acc # ls, length acc + 1 + n))
      else take_lines (acc @ [c]) cs)"

definition drain :: "string \<Rightarrow> nat \<Rightarrow> string list \<times> nat" where
  "drain content offset0 =
     (let offset = (if length content < offset0 then 0 else offset0)
      in if length content = offset then ([], offset)
         else case take_lines [] (drop offset content) of (ls, n) \<Rightarrow> (ls, offset + n))"

text \<open>
  One tick of the follow loop. The file that is open and the file at the path are seen as their contents;
  \<open>tk_new\<close> is the content of the file at the path when it is another one and could be opened.
\<close>

record tick =
  tk_inSup :: bool
  tk_old :: string
  tk_new :: "string option"

definition follow_tick :: "tick \<Rightarrow> nat \<Rightarrow> string list \<times> nat" where
  "follow_tick t offset =
     (case drain (tk_old t) offset of (ls, off1) \<Rightarrow>
        (case tk_new t of
           None \<Rightarrow> (ls, off1)
         | Some c \<Rightarrow> (case drain c 0 of (ls2, off2) \<Rightarrow> (ls @ ls2, off2))))"

text \<open>The loop ends with the request's context (the end of the list) or after four idle ticks.\<close>

fun follow :: "tick list \<Rightarrow> nat \<Rightarrow> nat \<Rightarrow> string list" where
  "follow [] offset quiet_ticks = []"
| "follow (t # ts) offset quiet_ticks =
     (case follow_tick t offset of (ls, off1) \<Rightarrow>
        if \<not> tk_inSup t \<and> off1 = offset then
          (if quiet_ticks + 1 \<ge> 4 then ls else ls @ follow ts off1 (quiet_ticks + 1))
        else ls @ follow ts off1 0)"

record logs_request =
  lr_id :: string
  lr_tail :: string
  lr_follow :: bool
  lr_plain :: bool

text \<open>\<open>sz\<close>: the size of the file at the path when following starts, \<open>None\<close> when it cannot be read.\<close>

definition handleContainerLogs ::
  "(string \<Rightarrow> string) \<Rightarrow> (string \<Rightarrow> string option) \<Rightarrow> int option \<Rightarrow> tick list \<Rightarrow> logs_request \<Rightarrow> server \<Rightarrow> resp" where
  "handleContainerLogs sha dec sz ticks r srv =
     (let ids = map_option List (sv_sup srv);
          ex = (\<lambda>p. list_ex (\<lambda>(cid, fs). p = path_join [sv_dataDir srv, ''logs'', cid @ ''.log''] \<and> map_of fs 0 \<noteq> None) (sv_logs srv))
      in case resolveContainerIDForLogs sha ex (sv_dataDir srv) ids (trim_space (lr_id r)) of
           Inl e \<Rightarrow> refuse (resolve_status e) (Resolve e)
         | Inr cid \<Rightarrow>
             (case (case map_of (sv_logs srv) cid of None \<Rightarrow> None | Some fs \<Rightarrow> TailLines fs (log_tail (lr_tail r))) of
                None \<Rightarrow> refuse 404 NoLogFile
              | Some (ls, endpos) \<Rightarrow>
                  (let w = foldl (\<lambda>w l. write_out (OutLine (writeLogLine dec (lr_plain r) l)) w) no_resp ls
                   in if \<not> lr_follow r then w
                      else if sz = Some endpos \<and> \<not> containerInSupervisor ids cid then w
                      else foldl (\<lambda>w l. write_out (OutLine (writeLogLine dec (lr_plain r) l)) w) w
                             (follow ticks (nat endpos) 0))))"

end
