(* ===== verification/Control_Run.thy ===== *)
theory Control_Run
  imports Control
begin

text \<open>
  The handlers that run something: POST /v1/containers/run, POST /v1/images/pull and POST /v1/containers/{id}/exec
  (src/internal/control/server.go). A run request is checked, its image is resolved or pulled, the specification is built, its
  health check is read, and the supervisor starts it; with \<open>stream\<close> set, the progress of a pull and the outcome are lines of
  one response whose status is sent with the first of them.
\<close>

section \<open>Terminal sizes and header lines\<close>

record exec_request =
  xq_argv :: "string list"
  xq_tty :: bool
  xq_rows :: nat
  xq_cols :: nat

definition tty_size :: "bool \<Rightarrow> nat \<Rightarrow> nat \<Rightarrow> (nat \<times> nat) option" where
  "tty_size tty rows cols =
     (if \<not> tty then None
      else if rows = 0 \<and> cols = 0 then None
      else Some (if rows > 0 then rows else 24, if cols > 0 then cols else 80))"

definition execTTYWinSize :: "exec_request \<Rightarrow> (nat \<times> nat) option" where
  "execTTYWinSize body = tty_size (xq_tty body) (xq_rows body) (xq_cols body)"

text \<open>
  readExecJSONLine: the input up to its first newline. \<open>err\<close> is the error that ends the input when there is no newline, \<open>None\<close>
  for the end of the stream. The rest of the input is what a later reader of the same buffer gets.
\<close>

datatype header_error = HeaderTooLong | HeaderEmpty | HeaderRead string

definition readExecJSONLine :: "string \<Rightarrow> string option \<Rightarrow> nat \<Rightarrow> (header_error + string) \<times> string" where
  "readExecJSONLine input err mx =
     (let line0 = takeWhile (\<lambda>c. c \<noteq> newline) input; rest = dropWhile (\<lambda>c. c \<noteq> newline) input;
          line = (if rest = [] then line0 else line0 @ [newline]);
          failed = (if rest = [] then err else None);
          s = trim_space line
      in (if length line > mx then Inl HeaderTooLong
          else case failed of
                 Some e \<Rightarrow> Inl (HeaderRead e)
               | None \<Rightarrow> if s = [] then Inl HeaderEmpty else Inr s, drop 1 rest))"

section \<open>Run requests\<close>

record run_health =
  rh_type :: string
  rh_command :: "string list"
  rh_url :: string
  rh_address :: string
  rh_interval :: string
  rh_timeout :: string
  rh_retries :: int
  rh_startPeriod :: string

record run_port =
  rq_hostPort :: int
  rq_containerPort :: int
  rq_protocol :: string

record run_request =
  rr_id :: string
  rr_image :: string
  rr_args :: "string list"
  rr_env :: "string list"
  rr_hostname :: string
  rr_restart :: string
  rr_publish :: "string list"
  rr_stream :: bool
  rr_ports :: "run_port list"
  rr_healthcheck :: "run_health option"
  rr_username :: string
  rr_password :: string
  rr_tty :: bool
  rr_stdin :: bool
  rr_autoRemove :: bool
  rr_volumes :: "string list"
  rr_network :: string
  rr_rows :: nat
  rr_cols :: nat

definition runTTYWinSize :: "run_request \<Rightarrow> (nat \<times> nat) option" where
  "runTTYWinSize body = tty_size (rr_tty body) (rr_rows body) (rr_cols body)"

definition parseRestartPolicy :: "string \<Rightarrow> restart_policy" where
  "parseRestartPolicy s0 =
     (let s = to_lower (trim_space s0)
      in if s = ''unless-stopped'' \<or> s = ''unless_stopped'' then RestartUnlessStopped
         else if s = ''always'' then RestartAlways
         else if s = ''on-failure'' \<or> s = ''on_failure'' then RestartOnFailure
         else RestartNever)"

text \<open>\<open>dur\<close> is time.ParseDuration.\<close>

definition run_duration :: "(string \<Rightarrow> string + int) \<Rightarrow> (string \<Rightarrow> health_error) \<Rightarrow> string \<Rightarrow> health_error + int" where
  "run_duration dur bad v = (if v = [] then Inr 0 else case dur v of Inl e \<Rightarrow> Inl (bad e) | Inr d \<Rightarrow> Inr d)"

definition health_fields :: "health_config \<Rightarrow> string \<Rightarrow> health_error + health_config" where
  "health_fields cfg typ0 =
     (let typ = h_type cfg
      in if typ = ''exec'' then (if h_command cfg = [] then Inl ExecNeedsCommand else Inr cfg)
         else if typ = ''http'' then (if h_url cfg = [] then Inl HttpNeedsUrl else Inr cfg)
         else if typ = ''tcp'' then (if h_address cfg = [] then Inl TcpNeedsAddress else Inr cfg)
         else if typ = ''none'' then Inr cfg
         else Inl (UnknownType typ0))"

definition parseRunHealthcheck :: "(string \<Rightarrow> string + int) \<Rightarrow> run_health option \<Rightarrow> health_error + health_config option" where
  "parseRunHealthcheck dur j =
     (case j of
        None \<Rightarrow> Inr None
      | Some h \<Rightarrow>
          (let typ = to_lower (trim_space (rh_type h))
           in if typ = [] then Inl MissingType
              else bind_res (run_duration dur BadInterval (rh_interval h)) (\<lambda>a.
                   bind_res (run_duration dur BadTimeout (rh_timeout h)) (\<lambda>b.
                   bind_res (run_duration dur BadStartPeriod (rh_startPeriod h)) (\<lambda>c.
                   bind_res (health_fields \<lparr>h_type = typ, h_command = rh_command h, h_url = trim_space (rh_url h),
                       h_address = trim_space (rh_address h), h_interval = a, h_timeout = b, h_retries = rh_retries h,
                       h_start_period = c\<rparr> (rh_type h)) (\<lambda>cfg. Inr (Some cfg)))))))"

definition pullAuthFrom :: "string \<Rightarrow> string \<Rightarrow> registry_auth option" where
  "pullAuthFrom user password =
     (if trim_space user = [] then None else Some \<lparr>ra_username = trim_space user, ra_password = password\<rparr>)"

section \<open>Checking a run request\<close>

text \<open>What the handler has worked out before it looks at the image.\<close>

record run_plan =
  rp_id :: string
  rp_image :: string
  rp_policy :: restart_policy
  rp_ports :: "port_mapping list"
  rp_hostNet :: bool
  rp_mounts :: "mount list"

record run_env =
  rn_now :: nat
  rn_volumes :: volume_env
  rn_stat :: "string \<Rightarrow> bool"
  rn_pull :: pull_env
  rn_registry :: "registry_auth option \<Rightarrow> registry"
  rn_progress :: "string list"
  rn_dur :: "string \<Rightarrow> string + int"
  rn_duplex :: "string option"
  rn_start :: start_env
  rn_ready :: ready
  rn_wait :: wait_env
  rn_ctxDone :: bool

definition run_id :: "nat \<Rightarrow> string \<Rightarrow> string \<Rightarrow> (int \<times> ctl_error) + string" where
  "run_id now imgRef rid =
     (let cid = trim_space rid
      in if cid = [] then Inr (generateContainerID imgRef now)
         else if \<not> safeLogContainerID cid then Inl (400, InvalidID)
         else Inr cid)"

definition run_publish :: "string \<Rightarrow> (int \<times> ctl_error) + port_mapping" where
  "run_publish pub = (case ParseDockerPublish pub of Inl e \<Rightarrow> Inl (400, Publish e) | Inr p \<Rightarrow> Inr p)"

definition run_port_mapping :: "run_port \<Rightarrow> (int \<times> ctl_error) + port_mapping" where
  "run_port_mapping p =
     (let proto0 = to_lower (trim_space (rq_protocol p)); proto = (if proto0 = [] then ''tcp'' else proto0)
      in if proto \<noteq> ''tcp'' \<and> proto \<noteq> ''udp'' then Inl (400, PortProtocol proto)
         else if rq_hostPort p < 1 \<or> rq_hostPort p > 65535 \<or> rq_containerPort p < 1 \<or> rq_containerPort p > 65535
         then Inl (400, PortRange)
         else Inr \<lparr>pm_host = rq_hostPort p, pm_container = rq_containerPort p, pm_protocol = proto\<rparr>)"

definition run_network :: "string \<Rightarrow> (int \<times> ctl_error) + bool" where
  "run_network net =
     (let n = to_lower (trim_space net)
      in if n = [] \<or> n = ''bridge'' \<or> n = ''default'' then Inr False
         else if n = ''host'' then Inr True
         else Inl (400, NetworkName net))"

definition run_mount :: "run_env \<Rightarrow> string \<Rightarrow> (int \<times> ctl_error) + mount" where
  "run_mount env v =
     (case BindMount (rn_volumes env) v of
        Inl e \<Rightarrow> Inl (400, Volume e)
      | Inr m \<Rightarrow> if rn_stat env (m_source m) then Inr m else Inl (400, VolumeMissing v (m_source m)))"

definition run_check :: "run_env \<Rightarrow> run_request \<Rightarrow> server \<Rightarrow> (int \<times> ctl_error) + run_plan" where
  "run_check env body srv =
     (let imgRef = trim_space (rr_image body); policy = parseRestartPolicy (rr_restart body)
      in if imgRef = [] then Inl (400, NoImage)
         else bind_res (run_id (rn_now env) imgRef (rr_id body)) (\<lambda>cid.
              if sv_sup srv = None then Inl (503, Unavailable ''supervisor'')
              else if sv_store srv = None then Inl (503, Unavailable ''image store'')
              else if rr_autoRemove body \<and> (policy = RestartAlways \<or> policy = RestartUnlessStopped) then Inl (400, AutoRemovePolicy)
              else bind_res (map_res run_publish (rr_publish body)) (\<lambda>pubs.
                   bind_res (map_res run_port_mapping (rr_ports body)) (\<lambda>ports.
                   bind_res (run_network (rr_network body)) (\<lambda>hostNet.
                   if hostNet \<and> pubs @ ports \<noteq> [] then Inl (400, PortsOnHost)
                   else bind_res (map_res (run_mount env) (rr_volumes body)) (\<lambda>mounts.
                     Inr \<lparr>rp_id = cid, rp_image = imgRef, rp_policy = policy, rp_ports = pubs @ ports,
                          rp_hostNet = hostNet, rp_mounts = mounts\<rparr>))))))"

definition run_spec :: "run_plan \<Rightarrow> run_request \<Rightarrow> manifest \<times> image_config \<times> string list \<Rightarrow> container_spec" where
  "run_spec plan body img =
     (case img of (m, cfg, paths) \<Rightarrow>
        zero_spec\<lparr>cs_id := rp_id plan, cs_image := rp_image plan, cs_imageConfig := Some cfg, cs_manifestLayers := mf_layers m,
          cs_blobPaths := paths, cs_env := rr_env body, cs_args := rr_args body, cs_hostname := rr_hostname body,
          cs_restartPolicy := rp_policy plan, cs_readOnly := False, cs_portMappings := rp_ports plan, cs_terminal := rr_tty body,
          cs_stdinOpen := rr_stdin body, cs_autoRemove := rr_autoRemove body, cs_extraMounts := rp_mounts plan,
          cs_hostNetwork := rp_hostNet plan\<rparr>)"

section \<open>Running\<close>

text \<open>An error after the stream may have started: a line of the stream, or an error response.\<close>

definition run_failed :: "bool \<Rightarrow> int \<Rightarrow> ctl_error \<Rightarrow> resp \<Rightarrow> resp" where
  "run_failed stream code e w = (if stream then write_out (OutEvent (EvError e)) w else http_error code e w)"

text \<open>The image: resolved, or pulled and resolved again. \<open>rn_progress\<close> is what the pull reports on the way.\<close>

definition run_image ::
  "run_env \<Rightarrow> bool \<Rightarrow> registry_auth option \<Rightarrow> string \<Rightarrow> store \<Rightarrow> resp \<Rightarrow>
     (store \<times> resp \<times> (manifest \<times> image_config \<times> string list) option) option" where
  "run_image env stream auth imgRef st w =
     (case ResolvePulledImage st imgRef of
        Inr img \<Rightarrow> Some (st, w, Some img)
      | Inl _ \<Rightarrow>
          (let w1 = (if stream then foldl (\<lambda>w p. write_out (OutEvent (Progress p)) w) w (rn_progress env) else w)
           in case PullWithProgress (rn_pull env) (rn_registry env auth) imgRef st of
                None \<Rightarrow> None
              | Some (st1, Inl e) \<Rightarrow> Some (st1, run_failed stream 502 (Pulling e) w1, None)
              | Some (st1, Inr _) \<Rightarrow>
                  (case ResolvePulledImage st1 imgRef of
                     Inl e \<Rightarrow> Some (st1, run_failed stream 502 (Pulling e) w1, None)
                   | Inr img \<Rightarrow> Some (st1, if stream then write_out (OutEvent (EvDone imgRef)) w1 else w1, Some img))))"

definition run_attached :: "run_env \<Rightarrow> container_spec \<Rightarrow> resp \<Rightarrow> sup \<Rightarrow> sup \<times> resp" where
  "run_attached env spec w s =
     (case rn_duplex env of
        Some e \<Rightarrow> (s, http_error 500 (NoDuplex e) w)
      | None \<Rightarrow>
          (case RunAttached (rn_start env) (rn_ctxDone env) spec s of
             (s1, StartFailed e) \<Rightarrow> (s1, write_out (OutError (Starting e)) (write_header 200 w))
           | (s1, _) \<Rightarrow> (s1, write_header 200 w)))"

definition run_start :: "run_env \<Rightarrow> bool \<Rightarrow> container_spec \<Rightarrow> resp \<Rightarrow> sup \<Rightarrow> sup \<times> resp" where
  "run_start env stream spec w s =
     (case Start (rn_start env) (rn_ready env) (rn_wait env) spec s of
        (s1, StartFailed e) \<Rightarrow> (s1, run_failed stream 400 (Starting e) w)
      | (s1, _) \<Rightarrow>
          (s1, if stream then write_out (OutEvent (EvRun (cs_id spec) (cs_image spec))) w
               else write_out (OutJson (Ran (cs_id spec) (cs_image spec))) w))"

definition handleContainerRun ::
  "run_env \<Rightarrow> bool \<Rightarrow> string + run_request \<Rightarrow> server \<Rightarrow> (server \<times> resp) option" where
  "handleContainerRun env attach body0 srv =
     (case body0 of
        Inl e \<Rightarrow> Some (srv, refuse 400 (BadBody e))
      | Inr body \<Rightarrow> (case run_check env body srv of
          Inl (code, e) \<Rightarrow> Some (srv, refuse code e)
        | Inr plan \<Rightarrow>
            (let stream = rr_stream body \<and> \<not> attach
             in case run_image env stream (pullAuthFrom (rr_username body) (rr_password body)) (rp_image plan) (the (sv_store srv)) no_resp of
                  None \<Rightarrow> None
                | Some (st1, w, None) \<Rightarrow> Some (srv\<lparr>sv_store := Some st1\<rparr>, w)
                | Some (st1, w, Some img) \<Rightarrow>
                    (let srv1 = srv\<lparr>sv_store := Some st1\<rparr>
                     in case parseRunHealthcheck (rn_dur env) (rr_healthcheck body) of
                          Inl e \<Rightarrow> Some (srv1, http_error 400 (HealthCheck e) w)
                        | Inr hc \<Rightarrow>
                            (let spec = (run_spec plan body img)\<lparr>cs_healthcheck := hc\<rparr>;
                                 (s1, w1) = (if attach then run_attached env spec w (the (sv_sup srv))
                                             else run_start env stream spec w (the (sv_sup srv)))
                             in Some (srv1\<lparr>sv_sup := Some s1\<rparr>, w1))))))"

section \<open>Pulling and exec\<close>

record pull_request =
  pq_ref :: string
  pq_stream :: bool
  pq_username :: string
  pq_password :: string

definition handleImagePull :: "run_env \<Rightarrow> string + pull_request \<Rightarrow> server \<Rightarrow> (server \<times> resp) option" where
  "handleImagePull env body0 srv =
     (case sv_store srv of
        None \<Rightarrow> Some (srv, refuse 503 (Unavailable ''image store''))
      | Some st \<Rightarrow> (case body0 of
          Inl e \<Rightarrow> Some (srv, refuse 400 (BadBody e))
        | Inr body \<Rightarrow>
            if trim_space (pq_ref body) = [] then Some (srv, refuse 400 MissingRef)
            else case PullWithProgress (rn_pull env) (rn_registry env (pullAuthFrom (pq_username body) (pq_password body)))
                        (pq_ref body) st of
                   None \<Rightarrow> None
                 | Some (st1, r) \<Rightarrow>
                     (let srv1 = srv\<lparr>sv_store := Some st1\<rparr>;
                          w = (if pq_stream body
                               then foldl (\<lambda>w p. write_out (OutEvent (Progress p)) w) (write_header 200 no_resp) (rn_progress env)
                               else no_resp)
                      in case r of
                           Inl e \<Rightarrow> Some (srv1, run_failed (pq_stream body) 502 (Pulling e) w)
                         | Inr _ \<Rightarrow> Some (srv1, write_out (if pq_stream body then OutEvent (EvDone (pq_ref body))
                                                           else OutJson (OkRef (pq_ref body))) w))))"

text \<open>\<open>exec\<close> is what crun does with a command: its output, and its error.\<close>

definition handleExec ::
  "(string \<Rightarrow> string) \<Rightarrow> (string \<Rightarrow> string list \<Rightarrow> bool \<Rightarrow> (nat \<times> nat) option \<Rightarrow> string \<times> string option) \<Rightarrow> string option \<Rightarrow> bool \<Rightarrow>
     string \<Rightarrow> ctl_error + exec_request \<Rightarrow> server \<Rightarrow> resp" where
  "handleExec sha exec duplex isStream pathId body0 srv =
     (case resolveContainerID sha (map_option List (sv_sup srv)) (trim_space pathId) of
        Inl e \<Rightarrow> refuse (resolve_status e) (Resolve e)
      | Inr cid \<Rightarrow> (case body0 of
          Inl e \<Rightarrow> refuse 400 e
        | Inr body \<Rightarrow>
            if xq_argv body = [] then refuse 400 EmptyArgv
            else if isStream \<and> duplex \<noteq> None then refuse 500 (NoDuplex (the duplex))
            else (case exec cid (xq_argv body) (xq_tty body) (execTTYWinSize body) of
                    (outp, err) \<Rightarrow>
                      (let w = write_out (OutExec outp) (write_header 200 no_resp)
                       in case err of
                            None \<Rightarrow> w
                          | Some e \<Rightarrow> write_out (OutExec ([newline] @ ''nyxd: exec: '' @ e @ [newline])) w))))"

text \<open>The body of a streamed exec request: a header line, then the input of the command.\<close>

definition exec_body ::
  "(string \<Rightarrow> string + exec_request) \<Rightarrow> string \<Rightarrow> string option \<Rightarrow> (ctl_error + exec_request) \<times> string" where
  "exec_body dec input err =
     (case readExecJSONLine input err 1048576 of
        (Inl e, rest) \<Rightarrow> (Inl (HeaderLine (case e of HeaderRead t \<Rightarrow> t | HeaderTooLong \<Rightarrow> ''too long'' | HeaderEmpty \<Rightarrow> ''empty'')), rest)
      | (Inr hdr, rest) \<Rightarrow> (case dec hdr of Inl e \<Rightarrow> (Inl (BadBody e), rest) | Inr b \<Rightarrow> (Inr b, rest)))"

end
