(* ===== verification/Control_Props.thy ===== *)
theory Control_Props
  imports Control_Run Image_Pulls
begin

text \<open>
  What the API promises across components: compose down leaves nothing of the project and deletes no volume that is in use,
  pruning keeps the images of running containers, and following a log gives every line once.
\<close>

section \<open>Compose down\<close>

lemma index_str_found: "\<exists>k. index_str (a @ p @ b) p = Some k"
proof (induction a)
  case Nil
  have "has_prefix (p @ b) p" by (simp add: has_prefix_def)
  then show ?case by (cases "p @ b") auto
next
  case (Cons c a)
  then show ?case by auto
qed

lemma not_found_says: "says_not_found (stop_error.NotFound cid)"
proof -
  have "stop_msg (stop_error.NotFound cid) = (''container '' @ cid @ '' '') @ ''not found''" by (simp add: stop_msg_def)
  moreover have "to_lower (a @ ''not found'') = to_lower a @ ''not found'' @ []" for a
  proof -
    have "to_lower ''not found'' = ''not found''" by code_simp
    then show ?thesis by (simp add: to_lower_def)
  qed
  ultimately have low: "to_lower (stop_msg (stop_error.NotFound cid)) = to_lower (''container '' @ cid @ '' '') @ ''not found'' @ []"
    by (simp only:)
  obtain k where "index_str (to_lower (''container '' @ cid @ '' '') @ ''not found'' @ []) ''not found'' = Some k"
    using index_str_found by blast
  then show ?thesis unfolding says_not_found_def contains_def low by (simp only: option.distinct not_False_eq_True)
qed

text \<open>What the other goroutines may do while a container is stopped: they start nothing.\<close>

definition starts_nothing :: "stop_env \<Rightarrow> bool" where
  "starts_nothing env \<longleftrightarrow> (\<forall>s cid. sup_containers s cid = None \<longrightarrow> sup_containers (st_others env s) cid = None)"

lemma narrows_absent: "narrows s s' \<Longrightarrow> sup_containers s cid = None \<Longrightarrow> sup_containers s' cid = None"
  by (metis narrows_def option.exhaust_sel option.distinct(1))

lemma stop_poll_absent: "stop_poll w i s = (s', r) \<Longrightarrow> sup_containers s cid = None \<Longrightarrow> sup_containers s' cid = None"
  using narrows_absent narrows_stop_poll by blast

lemma stop_wait_absent:
  assumes "starts_nothing env" and "stop_wait env i b s = (s', r)" and "sup_containers s cid = None"
  shows "sup_containers s' cid = None"
proof -
  let ?s1 = "st_others env s"
  have s1: "sup_containers ?s1 cid = None" using assms(1,3) by (simp add: starts_nothing_def)
  then have "sup_containers (record_call c ?s1) cid = None" for c by simp
  with s1 assms(2) show ?thesis
    using stop_poll_absent [of "st_wait env" i]
    by (auto simp: stop_wait_def Let_def split: if_splits)
qed

lemma Stop_absent:
  assumes "starts_nothing env" and "sup_containers s cid = None"
  shows "sup_containers (fst (Stop env c s)) cid = None"
proof (cases "sup_containers s c")
  case None
  then show ?thesis using assms(2) by (simp add: Stop_def)
next
  case (Some i)
  obtain s1 r where sig: "stop_signals env i (set_stopped i True s) = (s1, r)" by fastforce
  have "sup_containers (set_stopped i True s) cid = None" using assms(2) by simp
  then have s1: "sup_containers s1 cid = None" using narrows_absent [OF narrows_stop_signals [OF sig]] by simp
  obtain s2 r2 where w: "stop_wait env i (e_exited (entry_at s1 i) \<noteq> None) s1 = (s2, r2)" by fastforce
  show ?thesis using Some sig w s1 stop_wait_absent [OF assms(1) w s1] by (simp add: Stop_def split: option.split)
qed

lemma Remove_cases:
  obtains (absent) "sup_containers s c = None" and "Remove env c s = (s, Some (stop_error.NotFound c))"
  | (gone) i where "sup_containers s c = Some i" and "Remove env c s = (remove_rest c i (fst (Stop env c s)), None)"
  by (cases "sup_containers s c") (auto simp: Remove_def)

lemma remove_rest_untracks: "sup_containers (remove_rest c i s) c = None"
proof (cases "sup_containers s c")
  case None
  then show ?thesis using narrows_absent [OF narrows_remove] by blast
next
  case (Some j)
  then have "remove_rest c i s = cleanup j (drop_id c (record_call (CrunDelete c True) s))" by (simp add: remove_rest_def Let_def)
  then show ?thesis using narrows_absent [OF narrows_finish(3) [of "drop_id c (record_call (CrunDelete c True) s)" j]] by simp
qed

lemma remove_all_untracks:
  assumes "\<And>i. starts_nothing (envs i)"
  shows "\<exists>s'. stop_all Remove (map (\<lambda>i. (envs i, i)) ids) s = (s', None) \<and> (\<forall>c \<in> set ids. sup_containers s' c = None) \<and>
    (\<forall>c. sup_containers s c = None \<longrightarrow> sup_containers s' c = None)"
proof (induction ids arbitrary: s)
  case Nil
  show ?case by simp
next
  case (Cons c ids)
  show ?case
  proof (cases rule: Remove_cases [of s c "envs c"])
    case absent
    from Cons.IH [of s] obtain s' where "stop_all Remove (map (\<lambda>i. (envs i, i)) ids) s = (s', None)"
      "\<forall>c \<in> set ids. sup_containers s' c = None" "\<forall>c. sup_containers s c = None \<longrightarrow> sup_containers s' c = None" by blast
    with absent not_found_says show ?thesis by simp
  next
    case (gone i)
    let ?s1 = "remove_rest c i (fst (Stop (envs c) c s))"
    from Cons.IH [of ?s1] obtain s' where "stop_all Remove (map (\<lambda>i. (envs i, i)) ids) ?s1 = (s', None)"
      "\<forall>c \<in> set ids. sup_containers s' c = None" "\<forall>c. sup_containers ?s1 c = None \<longrightarrow> sup_containers s' c = None" by blast
    moreover have "sup_containers ?s1 c = None" by (rule remove_rest_untracks)
    moreover have "sup_containers ?s1 d = None" if "sup_containers s d = None" for d
      using narrows_absent [OF narrows_remove Stop_absent [OF assms that]] .
    ultimately show ?thesis using gone by simp
  qed
qed

text \<open>C13. Compose down always finishes: it answers success, no container of the project is tracked any more, and the volume
  directories it deletes are volumes of the project below the data directory that no tracked container mounts. It needs that
  nothing starts a container while it runs.\<close>

theorem compose_down_complete:
  assumes "sv_sup srv = Some s" and "loadComposeProject lenv b = Inr (st, dir, project)"
    and "\<And>i. starts_nothing (envs i)"
  shows "\<exists>srv' s' gone. handleComposeDown lenv envs rm (Inr b) srv =
      (srv', answer (Removed (ReverseOrderedContainerIDs st project) gone)) \<and> sv_sup srv' = Some s' \<and>
    sv_removedDirs srv' = sv_removedDirs srv @ gone \<and>
    (\<forall>c \<in> set (ReverseOrderedContainerIDs st project). sup_containers s' c = None) \<and>
    (\<forall>p \<in> set gone. \<not> IsBindSourceInUse p (tracked_entries s') \<and>
       (\<exists>v. map_of (st_volumes st) v \<noteq> None \<and> p = NamedVolumeHostPath (sv_dataDir srv) project v))"
proof -
  let ?ids = "ReverseOrderedContainerIDs st project"
  obtain s' where s': "stop_all Remove (map (\<lambda>i. (envs i, i)) ?ids) s = (s', None)"
    "\<forall>c \<in> set ?ids. sup_containers s' c = None"
    using remove_all_untracks [of envs ?ids s] assms(3) by blast
  define gone where "gone = (if cq_removeVolumes b \<and> st_volumes st \<noteq> []
    then remove_volumes rm (sv_dataDir srv) project st s' else [])"
  have "handleComposeDown lenv envs rm (Inr b) srv =
      (srv\<lparr>sv_sup := Some s', sv_removedDirs := sv_removedDirs srv @ gone\<rparr>, answer (Removed ?ids gone))"
    using assms(1,2) s'(1) by (simp add: handleComposeDown_def gone_def Let_def)
  moreover have "\<not> IsBindSourceInUse p (tracked_entries s') \<and>
       (\<exists>v. map_of (st_volumes st) v \<noteq> None \<and> p = NamedVolumeHostPath (sv_dataDir srv) project v)" if "p \<in> set gone" for p
    using that by (auto simp: gone_def remove_volumes_def set_sort_strings map_of_eq_None_iff split: if_splits)
  ultimately show ?thesis using s'(2) by fastforce
qed

text \<open>For the witness: a project with the running container web and a volume.\<close>

definition demo_load :: load_env where
  "demo_load =
     \<lparr>le_unmarshal = (\<lambda>_. Inr \<lparr>st_name = ''default'', st_version = [], st_services = [(''web'', demo_service [])],
        st_networks = [], st_volumes = [(''data'', \<lparr>vol_driver = []\<rparr>)]\<rparr>),
      le_files = (\<lambda>_. NotExist), le_environ = [], le_cwd = ''/''\<rparr>"

definition demo_down_request :: compose_request where
  "demo_down_request =
     \<lparr>cq_file = [], cq_yaml = ''x'', cq_contextDir = ''/app'', cq_project = [], cq_removeVolumes = True, cq_auth = (\<lambda>_. None)\<rparr>"

definition demo_server :: server where
  "demo_server =
     \<lparr>sv_sup = Some demo_up, sv_store = None, sv_dataDir = ''/d'', sv_netDriver = ''native'', sv_dnsMode = [], sv_logs = [],
      sv_removedDirs = []\<rparr>"

theorem compose_down_complete_witness:
  "\<exists>srv' s' ids gone. handleComposeDown demo_load (\<lambda>_. demo_stop) (\<lambda>_. None) (Inr demo_down_request) demo_server =
     (srv', answer (Removed ids gone)) \<and> sv_sup srv' = Some s' \<and> sup_containers s' ''web'' = None"
proof -
  let ?l = "loadComposeProject demo_load demo_down_request"
  obtain st dir project where l: "?l = Inr (st, dir, project)"
  proof -
    have "\<not> isl ?l" by code_simp
    then show ?thesis using that by (cases ?l) auto
  qed
  have "''web'' \<in> set (case ?l of Inr (st, d, p) \<Rightarrow> ReverseOrderedContainerIDs st p | _ \<Rightarrow> [])" by code_simp
  then have web: "''web'' \<in> set (ReverseOrderedContainerIDs st project)" by (simp add: l)
  have "starts_nothing demo_stop" by (simp add: starts_nothing_def demo_stop_def)
  from compose_down_complete [OF _ l, of demo_server demo_up "\<lambda>_. demo_stop" "\<lambda>_. None", OF _ this] web
  show ?thesis by (fastforce simp: demo_server_def)
qed

section \<open>Pruning\<close>

text \<open>The metadata directories are those of references, two levels below the images directory.\<close>

definition proper_store :: "store \<Rightarrow> bool" where
  "proper_store st \<longleftrightarrow> is_abs (sto_root st) \<and>
     list_all (\<lambda>(dir, _). \<exists>repo tag. plain repo \<and> plain tag \<and>
       dir = render_abs (path_elems (sto_root st) @ [''images'', repo, tag])) (sto_images st)"

text \<open>What is done to a store leaves the metadata in a directory and every blob alone.\<close>

definition spares :: "string \<Rightarrow> store \<Rightarrow> store \<Rightarrow> bool" where
  "spares dir st st' \<longleftrightarrow> sto_root st' = sto_root st \<and> meta_at st' dir = meta_at st dir \<and>
     (\<forall>d. plain (blob_name d) \<longrightarrow> file_at st' (blob_path st d) = file_at st (blob_path st d))"

lemma spares_refl [simp]: "spares dir st st"
  by (simp add: spares_def)

lemma spares_trans: "spares dir st st1 \<Longrightarrow> spares dir st1 st2 \<Longrightarrow> spares dir st st2"
  by (simp add: spares_def blob_path_def)

lemma stored_dir:
  assumes "proper_store st" and "(ref, dir) \<in> set (storedImages st)"
  obtains repo tag where "plain repo" "plain tag" "dir = render_abs (path_elems (sto_root st) @ [''images'', repo, tag])"
proof -
  from assms(2) obtain im where "(dir, im) \<in> set (sto_images st)"
    by (auto simp: storedImages_def map_filter_def stored_ref_def Let_def split: if_splits option.splits)
  with assms(1) that show ?thesis by (fastforce simp: proper_store_def list_all_iff)
qed

lemma remove_all_spares:
  assumes "is_abs (sto_root st)" and "plain repo" "plain tag" "plain repo'" "plain tag'"
    and dir: "dir = render_abs (path_elems (sto_root st) @ [''images'', repo, tag])"
    and dir': "dir' = render_abs (path_elems (sto_root st) @ [''images'', repo', tag'])" and "dir \<noteq> dir'"
  shows "spares dir' st (remove_all dir st)"
proof -
  have e: "path_elems dir = path_elems (sto_root st) @ [''images'', repo, tag]"
    "path_elems dir' = path_elems (sto_root st) @ [''images'', repo', tag']"
    using assms(2-5) by (simp_all add: dir dir')
  have "\<not> below dir dir'" using assms(8) unfolding below_def e by (auto simp: dir dir')
  moreover have "\<not> below dir (blob_path st d)" if "plain (blob_name d)" for d
    unfolding below_def e using that by (auto simp: blob_path_render [OF assms(1)] prefix_def)
  ultimately show ?thesis by (simp add: spares_def meta_at_remove_all remove_all_file)
qed

lemma prune_images_spares:
  assumes "prune_images rm keep dryRun imgs removed st = (st', rem, r)"
    and "is_abs (sto_root st)" and "plain repo'" "plain tag'"
    and "dir' = render_abs (path_elems (sto_root st) @ [''images'', repo', tag'])" and "dir' \<in> set keep"
    and "\<forall>(ref, dir) \<in> set imgs. \<exists>repo tag. plain repo \<and> plain tag \<and>
       dir = render_abs (path_elems (sto_root st) @ [''images'', repo, tag])"
  shows "spares dir' st st'"
  using assms
proof (induction imgs arbitrary: removed st)
  case Nil
  then show ?case by simp
next
  case (Cons img imgs)
  obtain ref dir where img: "img = (ref, dir)" by fastforce
  show ?case
  proof (cases "dir \<in> set keep \<or> dryRun")
    case True
    with Cons img show ?thesis by (cases "dir \<in> set keep") auto
  next
    case False
    obtain repo tag where d: "plain repo" "plain tag" "dir = render_abs (path_elems (sto_root st) @ [''images'', repo, tag])"
      using Cons.prems(7) img by auto
    have ne: "dir \<noteq> dir'" using False Cons.prems(6) by blast
    note sp = remove_all_spares [OF Cons.prems(2) d(1,2) Cons.prems(3,4) d(3) Cons.prems(5) ne]
    show ?thesis
    proof (cases "rm dir")
      case None
      with False Cons.prems(1) img
      have p: "prune_images rm keep dryRun imgs (removed @ [ref]) (remove_all dir st) = (st', rem, r)" by simp
      have "spares dir' (remove_all dir st) st'"
        by (rule Cons.IH [OF p]) (use Cons.prems in simp_all)
      with sp show ?thesis by (rule spares_trans)
    next
      case (Some e)
      with False Cons.prems(1) img show ?thesis by simp
    qed
  qed
qed

lemma spares_loads: "spares (imageDir (sto_root st) ref) st st' \<Longrightarrow> loadImageMeta st' ref = loadImageMeta st ref"
  by (simp add: spares_def loadImageMeta_def)

lemma spares_resolves:
  assumes "spares (imageDir (sto_root st) ref) st st'"
    and "\<And>m cfg. loadImageMeta st ref = Inr (m, cfg) \<Longrightarrow> list_all (\<lambda>l. wf_digest (d_digest l)) (mf_layers m)"
  shows "ResolvePulledImage st' ref = ResolvePulledImage st ref"
proof (cases "loadImageMeta st ref")
  case (Inr mc)
  obtain m cfg where mc: "mc = (m, cfg)" by fastforce
  have "layer_path st' l = layer_path st l" if "l \<in> set (mf_layers m)" for l
    using assms Inr mc that by (auto simp: spares_def layer_path_def blob_path_def list_all_iff wf_digest_def)
  then show ?thesis unfolding ResolvePulledImage_def spares_loads [OF assms(1)] Inr mc by (simp cong: map_res_cong)
qed (simp add: ResolvePulledImage_def spares_loads [OF assms(1)])

lemma prune_blobs_resolves:
  assumes p: "PruneUnreferencedBlobs rm st = (st', r)" and "is_abs (sto_root st)" and "proper_ref ref"
    and "\<And>m cfg. loadImageMeta st ref = Inr (m, cfg) \<Longrightarrow> list_all (\<lambda>l. wf_digest (d_digest l)) (mf_layers m)"
  shows "ResolvePulledImage st' ref = ResolvePulledImage st ref"
proof -
  have root: "sto_root st' = sto_root st" using PruneUnreferencedBlobs_deletes [OF p] by (simp add: deletes_only_def)
  have meta: "loadImageMeta st' ref = loadImageMeta st ref"
    using PruneUnreferencedBlobs_images [OF p] by (simp add: loadImageMeta_def meta_at_def root)
  show ?thesis
  proof (cases "loadImageMeta st ref")
    case (Inr mc)
    obtain m cfg where mc: "mc = (m, cfg)" by fastforce
    have "layer_path st' l = layer_path st l" if l: "l \<in> set (mf_layers m)" for l
    proof -
      have wf: "wf_digest (d_digest l)" using assms(4) [of m cfg] Inr mc l by (auto simp: list_all_iff)
      from referenced_layer [OF _ proper_ref_below [OF assms(2,3)] l] Inr mc
      have "d_digest l \<in> set (collectReferencedDigests st)" by simp
      from PruneUnreferencedBlobs_keeps [OF p assms(2) wf this] show ?thesis by (simp add: layer_path_def blob_path_def root)
    qed
    then show ?thesis unfolding ResolvePulledImage_def meta Inr mc by (simp cong: map_res_cong)
  qed (simp add: ResolvePulledImage_def meta)
qed

lemma PruneImagesNotIn_keeps:
  assumes p: "PruneImagesNotIn rm keepRefs dryRun st = (st', removed, r)" and "proper_store st" and "ref \<in> set keepRefs"
    and "proper_ref ref"
    and wf: "\<And>m cfg. loadImageMeta st ref = Inr (m, cfg) \<Longrightarrow> list_all (\<lambda>l. wf_digest (d_digest l)) (mf_layers m)"
  shows "ResolvePulledImage st' ref = ResolvePulledImage st ref"
proof -
  let ?dir = "imageDir (sto_root st) ref" and ?keep = "map (imageDir (sto_root st)) keepRefs"
  have root: "is_abs (sto_root st)" using assms(2) by (simp add: proper_store_def)
  obtain repo tag where d: "?dir = render_abs (path_elems (sto_root st) @ [''images'', repo, tag])" "plain repo" "plain tag"
    using proper_ref_dir [OF root assms(4)] .
  obtain st1 rem r1 where i: "prune_images rm ?keep dryRun (storedImages st) [] st = (st1, rem, r1)" by (metis prod_cases3)
  have "\<forall>(ref, dir) \<in> set (storedImages st). \<exists>repo tag. plain repo \<and> plain tag \<and>
       dir = render_abs (path_elems (sto_root st) @ [''images'', repo, tag])"
    using stored_dir [OF assms(2)] by blast
  from prune_images_spares [OF i root d(2,3,1) _ this] assms(3) have sp: "spares ?dir st st1" by simp
  note res1 = spares_resolves [OF sp wf]
  have root1: "sto_root st1 = sto_root st" using sp by (simp add: spares_def)
  show ?thesis
  proof (cases "st' = st1")
    case True
    with res1 show ?thesis by simp
  next
    case False
    with p i obtain r2 where "PruneUnreferencedBlobs rm st1 = (st', r2)"
      by (auto simp: PruneImagesNotIn_def split: option.splits if_splits prod.splits sum.splits)
    from prune_blobs_resolves [OF this _ assms(4)] root root1 wf spares_loads [OF sp] res1 show ?thesis by simp
  qed
qed

text \<open>C14. Pruning images keeps the image of every tracked container: it resolves afterwards as it did before, layers that
  it shares with deleted images included, also when the pruning stops halfway.\<close>

theorem prune_keeps_running_images:
  assumes "handleImagesPrune rm dryRun srv = (srv', w)" and "sv_sup srv = Some s" and "sv_store srv = Some st"
    and "sup_containers s (id_at s i) = Some i" and "i < length (sup_entries s)"
    and "ref = trim_space (cs_image (e_spec (entry_at s i)))" and "ref \<noteq> []"
    and "proper_store st" and "proper_ref ref"
    and "\<And>m cfg. loadImageMeta st ref = Inr (m, cfg) \<Longrightarrow> list_all (\<lambda>l. wf_digest (d_digest l)) (mf_layers m)"
  shows "\<exists>st'. sv_store srv' = Some st' \<and> ResolvePulledImage st' ref = ResolvePulledImage st ref"
proof -
  let ?keep = "ImageRefsInUse (tracked_entries s)"
  have "entry_at s i \<in> set (tracked_entries s)" using assms(4,5) by (simp add: tracked_entries_def tracked_at_def)
  then have keep: "ref \<in> set ?keep" using assms(6,7) by (auto simp: ImageRefsInUse_def)
  obtain st' removed r where p: "PruneImagesNotIn rm ?keep dryRun st = (st', removed, r)" by (metis prod_cases3)
  with assms(1-3) have "sv_store srv' = Some st'" by (auto simp: handleImagesPrune_def Let_def split: option.splits)
  moreover have "ResolvePulledImage st' ref = ResolvePulledImage st ref"
    by (rule PruneImagesNotIn_keeps [OF p assms(8) keep assms(9)]) (rule assms(10))
  ultimately show ?thesis by blast
qed

definition demo_prune_sup :: sup where
  "demo_prune_sup = add_entry (demo_spec\<lparr>cs_image := ''b:1''\<rparr>) False (new_sup Supervisor_Runs.demo_cfg)"

definition demo_prune_server :: server where
  "demo_prune_server = demo_server\<lparr>sv_sup := Some demo_prune_sup, sv_store := Some demo_two\<rparr>"

lemma demo_two_proper: "proper_store demo_two"
proof -
  have d: "map fst (sto_images demo_two) = [''/s/images/library_a/1'', ''/s/images/library_b/1'']" "path_elems (sto_root demo_two) = [''s'']"
    "is_abs (sto_root demo_two)" by code_simp+
  have "x \<in> set (sto_images demo_two) \<Longrightarrow> fst x \<in> {''/s/images/library_a/1'', ''/s/images/library_b/1''}" for x
    using arg_cong [OF d(1), of set] by force
  moreover have "\<exists>repo tag. plain repo \<and> plain tag \<and> dir = render_abs ([''s''] @ [''images'', repo, tag])"
    if "dir \<in> {''/s/images/library_a/1'', ''/s/images/library_b/1''}" for dir
    using that
  proof (elim insertE emptyE)
    show ?thesis if "dir = ''/s/images/library_a/1''"
      by (rule exI [of _ "''library_a''"], rule exI [of _ "''1''"]) (simp add: that plain_def render_abs_def)
    show ?thesis if "dir = ''/s/images/library_b/1''"
      by (rule exI [of _ "''library_b''"], rule exI [of _ "''1''"]) (simp add: that plain_def render_abs_def)
  qed
  ultimately show ?thesis unfolding proper_store_def d(2) list_all_iff using d(3) by fastforce
qed

theorem prune_keeps_running_images_witness:
  "\<exists>st'. sv_store (fst (handleImagesPrune (\<lambda>_. None) False demo_prune_server)) = Some st' \<and>
     ResolvePulledImage st' ''b:1'' = Inr (demo_manifest ''sha256:b'', Image_Pulls.demo_cfg, [''/s/blobs/sha256/5''])"
proof -
  have "\<exists>st'. sv_store (fst (handleImagesPrune (\<lambda>_. None) False demo_prune_server)) = Some st' \<and>
     ResolvePulledImage st' ''b:1'' = ResolvePulledImage demo_two ''b:1''"
  proof (rule prune_keeps_running_images [OF _ _ _ _ _ _ _ demo_two_proper])
    show "handleImagesPrune (\<lambda>_. None) False demo_prune_server =
      (fst (handleImagesPrune (\<lambda>_. None) False demo_prune_server), snd (handleImagesPrune (\<lambda>_. None) False demo_prune_server))" by simp
    show "sv_sup demo_prune_server = Some demo_prune_sup" "sv_store demo_prune_server = Some demo_two"
      by (simp_all add: demo_prune_server_def)
    show "sup_containers demo_prune_sup (id_at demo_prune_sup 0) = Some 0" "0 < length (sup_entries demo_prune_sup)" by code_simp+
    show "''b:1'' = trim_space (cs_image (e_spec (entry_at demo_prune_sup 0)))" "''b:1'' \<noteq> []" "proper_ref ''b:1''" by code_simp+
    fix m cfg assume "loadImageMeta demo_two ''b:1'' = Inr (m, cfg)"
    moreover have "loadImageMeta demo_two ''b:1'' = Inr (demo_manifest ''sha256:b'', Image_Pulls.demo_cfg)" by code_simp
    ultimately have "m = demo_manifest ''sha256:b''" by simp
    moreover have "list_all (\<lambda>l. wf_digest (d_digest l)) (mf_layers (demo_manifest ''sha256:b''))" by code_simp
    ultimately show "list_all (\<lambda>l. wf_digest (d_digest l)) (mf_layers m)" by simp
  qed
  moreover have "ResolvePulledImage demo_two ''b:1'' = Inr (demo_manifest ''sha256:b'', Image_Pulls.demo_cfg, [''/s/blobs/sha256/5''])"
    by code_simp
  ultimately show ?thesis by simp
qed

section \<open>Following a log\<close>

lemma take_lines_none: "newline \<notin> set xs \<Longrightarrow> take_lines acc xs = ([], 0)"
  by (induction xs arbitrary: acc) auto

lemma take_lines_acc: "newline \<notin> set b \<Longrightarrow> take_lines a (b @ xs) = take_lines (a @ b) xs"
  by (induction b arbitrary: a) auto

lemma take_lines_line:
  "newline \<notin> set a \<Longrightarrow> take_lines [] (a @ newline # b) = (case take_lines [] b of (ls, n) \<Rightarrow> (a # ls, length a + 1 + n))"
  by (simp add: take_lines_acc [of a "[]"])

lemma take_lines_append:
  "take_lines [] xs = (ls, n) \<Longrightarrow>
     n \<le> length xs \<and> take_lines [] (xs @ ys) = (case take_lines [] (drop n xs @ ys) of (ls2, m) \<Rightarrow> (ls @ ls2, n + m))"
proof (induction xs arbitrary: ls n rule: length_induct)
  case (1 xs)
  show ?case
  proof (cases "newline \<in> set xs")
    case False
    with 1(2) show ?thesis by (simp add: take_lines_none split: prod.split)
  next
    case True
    then obtain a b where x: "xs = a @ newline # b" "newline \<notin> set a" by (metis split_list_first)
    obtain ls' n' where b: "take_lines [] b = (ls', n')" by fastforce
    have "length b < length xs" by (simp add: x)
    with 1(1) b have ih: "n' \<le> length b"
      "take_lines [] (b @ ys) = (case take_lines [] (drop n' b @ ys) of (ls2, m) \<Rightarrow> (ls' @ ls2, n' + m))" by blast+
    from 1(2) x b have "ls = a # ls'" "n = length a + 1 + n'" by (simp_all add: take_lines_line)
    with ih x show ?thesis by (auto simp: take_lines_line split: prod.splits)
  qed
qed

lemma drain_alt:
  "offset \<le> length c \<Longrightarrow> drain c offset = (case take_lines [] (drop offset c) of (ls, n) \<Rightarrow> (ls, offset + n))"
  by (auto simp: drain_def Let_def)

text \<open>Reading a file in two steps, at any two moments while it grows, gives what one read at the second moment gives.\<close>

lemma drain_grows:
  assumes "drain c offset = (ls, off1)" and "offset \<le> length c"
  shows "offset \<le> off1 \<and> off1 \<le> length c \<and> drain (c @ d) offset = (ls @ fst (drain (c @ d) off1), snd (drain (c @ d) off1))"
proof -
  obtain n where n: "take_lines [] (drop offset c) = (ls, n)" "off1 = offset + n"
    using assms by (auto simp: drain_alt split: prod.splits)
  note ap = take_lines_append [OF n(1), of d]
  have le: "off1 \<le> length c" using ap n(2) assms(2) by auto
  have "drop n (drop offset c) @ d = drop off1 (c @ d)" using le by (simp add: n(2) add.commute)
  with ap assms(2) le n(2) show ?thesis by (auto simp: drain_alt split: prod.splits)
qed

fun growing :: "string \<Rightarrow> string list \<Rightarrow> bool" where
  "growing c [] = True"
| "growing c (d # ds) \<longleftrightarrow> prefix c d \<and> growing d ds"

text \<open>Following the log of a running container loses and repeats nothing: whatever the moments at which the file is read while
  lines are appended, what is written is every complete line of the file from the starting offset on, once, in order.\<close>

theorem follow_reads_all:
  assumes "growing c cs" and "offset \<le> length c"
  shows "follow (map (\<lambda>c. \<lparr>tk_inSup = True, tk_old = c, tk_new = None\<rparr>) (c # cs)) offset k = fst (drain (last (c # cs)) offset)"
  using assms
proof (induction cs arbitrary: c offset k)
  case Nil
  then show ?case by (simp add: follow_tick_def split: prod.split)
next
  case (Cons c' cs)
  obtain d where d: "c' = c @ d" using Cons.prems(1) by (auto elim: prefixE)
  obtain ls off1 where dr: "drain c offset = (ls, off1)" by fastforce
  have le: "off1 \<le> length c'" using drain_grows [OF dr Cons.prems(2), of d] d by auto
  have last: "drain (last (c' # cs)) offset = (ls @ fst (drain (last (c' # cs)) off1), snd (drain (last (c' # cs)) off1))"
  proof -
    have "prefix c (last (c' # cs))"
    proof -
      have "growing x ys \<Longrightarrow> prefix x (last (x # ys))" for x ys by (induction ys arbitrary: x) (auto intro: prefix_order.trans)
      with Cons.prems(1) show ?thesis by (metis growing.simps(2) last_ConsR list.distinct(1))
    qed
    then obtain e where "last (c' # cs) = c @ e" by (auto elim: prefixE)
    with drain_grows [OF dr Cons.prems(2), of e] show ?thesis by simp
  qed
  have "follow (map (\<lambda>c. \<lparr>tk_inSup = True, tk_old = c, tk_new = None\<rparr>) (c # c' # cs)) offset k =
      ls @ follow (map (\<lambda>c. \<lparr>tk_inSup = True, tk_old = c, tk_new = None\<rparr>) (c' # cs)) off1 0"
    by (simp add: follow_tick_def dr)
  also have "\<dots> = ls @ fst (drain (last (c' # cs)) off1)" using Cons.IH [of c' off1 0] Cons.prems(1) le by simp
  finally show ?case using last by simp
qed

theorem follow_reads_all_witness:
  "follow [\<lparr>tk_inSup = True, tk_old = ''a'', tk_new = None\<rparr>, \<lparr>tk_inSup = True, tk_old = ''ab'' @ [newline] @ ''c'', tk_new = None\<rparr>] 0 0 =
     [''ab'']"
proof -
  have "fst (drain (''ab'' @ [newline] @ ''c'') 0) = [''ab'']" by code_simp
  with follow_reads_all [of "''a''" "[''ab'' @ [newline] @ ''c'']" 0 0] show ?thesis by simp
qed

end
