(* ===== verification/Control_Run_Props.thy ===== *)
theory Control_Run_Props
  imports Control_Props
begin

text \<open>
  What a run request can do: one that succeeds starts a container that is safe to name and complete, one that is refused leaves
  the tracked containers as they were, and one whose health check is wrong is reported with a success status when its image
  was pulled in the same stream.
\<close>

section \<open>The plan\<close>

definition port_valid :: "port_mapping \<Rightarrow> bool" where
  "port_valid p \<longleftrightarrow> port_ok (pm_host p) \<and> port_ok (pm_container p) \<and> pm_protocol p \<in> {''tcp'', ''udp''}"

lemma ParseDockerPublish_valid: "ParseDockerPublish s = Inr p \<Longrightarrow> port_valid p"
  by (auto simp: ParseDockerPublish_def parse_ports_def parse_pair_def port_valid_def Let_def
      split: if_splits option.splits list.splits prod.splits)

lemma run_port_valid: "run_port_mapping q = Inr p \<Longrightarrow> port_valid p"
  by (auto simp: run_port_mapping_def port_valid_def port_ok_def Let_def split: if_splits)

lemma map_res_all:
  assumes "map_res f xs = Inr ys" and "\<And>x y. f x = Inr y \<Longrightarrow> P y"
  shows "list_all P ys"
  using assms by (induction xs arbitrary: ys) (auto split: sum.splits)

lemma run_publish_valid: "run_publish s = Inr p \<Longrightarrow> port_valid p"
  by (auto simp: run_publish_def dest: ParseDockerPublish_valid split: sum.splits)

lemma run_mount_exists: "run_mount env v = Inr m \<Longrightarrow> rn_stat env (m_source m)"
  by (auto simp: run_mount_def split: sum.splits if_splits)

lemma run_id_safe: "run_id now img rid = Inr cid \<Longrightarrow> safeLogContainerID cid"
  by (auto simp: run_id_def Let_def safe_generated split: if_splits)

lemma run_checkD:
  assumes "run_check env body srv = Inr plan"
  shows "safeLogContainerID (rp_id plan)" and "list_all port_valid (rp_ports plan)" and "rp_hostNet plan \<Longrightarrow> rp_ports plan = []"
    and "list_all (\<lambda>m. rn_stat env (m_source m)) (rp_mounts plan)" and "sv_sup srv \<noteq> None" and "sv_store srv \<noteq> None"
    and "rr_autoRemove body \<Longrightarrow> rp_policy plan \<in> {RestartNever, RestartOnFailure}"
    and "rp_image plan = trim_space (rr_image body)" and "rp_image plan \<noteq> []"
proof -
  from assms obtain cid pubs ports hostNet mounts where
    c: "run_id (rn_now env) (trim_space (rr_image body)) (rr_id body) = Inr cid"
    "map_res run_publish (rr_publish body) = Inr pubs" "map_res run_port_mapping (rr_ports body) = Inr ports"
    "map_res (run_mount env) (rr_volumes body) = Inr mounts"
    "trim_space (rr_image body) \<noteq> []" "sv_sup srv \<noteq> None" "sv_store srv \<noteq> None"
    "\<not> (rr_autoRemove body \<and> (parseRestartPolicy (rr_restart body) = RestartAlways \<or> parseRestartPolicy (rr_restart body) = RestartUnlessStopped))"
    "\<not> (hostNet \<and> pubs @ ports \<noteq> [])"
    and plan: "plan = \<lparr>rp_id = cid, rp_image = trim_space (rr_image body), rp_policy = parseRestartPolicy (rr_restart body),
      rp_ports = pubs @ ports, rp_hostNet = hostNet, rp_mounts = mounts\<rparr>"
    unfolding run_check_def Let_def by (auto simp: bind_res_Inr_iff split: if_splits)
  show "safeLogContainerID (rp_id plan)" using run_id_safe [OF c(1)] by (simp add: plan)
  show "list_all port_valid (rp_ports plan)"
    using map_res_all [OF c(2) run_publish_valid] map_res_all [OF c(3) run_port_valid] by (simp add: plan)
  show "list_all (\<lambda>m. rn_stat env (m_source m)) (rp_mounts plan)" using map_res_all [OF c(4) run_mount_exists] by (simp add: plan)
  show "rp_hostNet plan \<Longrightarrow> rp_ports plan = []" using c(9) by (simp add: plan)
  show "rr_autoRemove body \<Longrightarrow> rp_policy plan \<in> {RestartNever, RestartOnFailure}"
    using c(8) by (auto simp: plan parseRestartPolicy_def Let_def split: if_splits)
qed (use assms in \<open>auto simp: run_check_def Let_def bind_res_Inr_iff split: if_splits\<close>)

section \<open>Responses\<close>

definition no_run :: "resp \<Rightarrow> bool" where
  "no_run w \<longleftrightarrow> (\<forall>cid img. OutJson (Ran cid img) \<notin> set (rs_out w) \<and> OutEvent (EvRun cid img) \<notin> set (rs_out w))"

definition unsent :: "resp \<Rightarrow> bool" where
  "unsent w \<longleftrightarrow> rs_status w = None \<or> rs_status w = Some 200"

lemma resp_simps [simp]:
  "rs_out (write_header code w) = rs_out w" "rs_out (write_out x w) = rs_out w @ [x]"
  "rs_out (http_error code e w) = rs_out w @ [OutError e]" "rs_out no_resp = []" "rs_status no_resp = None"
  "unsent no_resp" "no_run no_resp"
  by (auto simp: write_header_def write_out_def http_error_def no_resp_def unsent_def no_run_def Let_def split: option.splits)

lemma write_out_status: "unsent w \<Longrightarrow> rs_status (write_out x w) = Some 200"
  by (auto simp: unsent_def write_out_def write_header_def Let_def)

lemma unsent_progress: "unsent w \<Longrightarrow> unsent (foldl (\<lambda>w p. write_out (OutEvent (Progress p)) w) w ps)"
  by (induction ps arbitrary: w) (auto simp: write_out_status unsent_def)

lemma no_run_progress: "no_run w \<Longrightarrow> no_run (foldl (\<lambda>w p. write_out (OutEvent (Progress p)) w) w ps)"
  by (induction ps arbitrary: w) (auto simp: no_run_def)

lemma run_imageD:
  assumes "run_image env stream auth ref st no_resp = Some (st1, w, r)"
  shows "no_run w" and "r = Some img \<Longrightarrow> ResolvePulledImage st1 ref = Inr img" and "r \<noteq> None \<Longrightarrow> unsent w"
    and "r \<noteq> None \<Longrightarrow> stream \<Longrightarrow> ResolvePulledImage st ref \<noteq> Inr (the r) \<Longrightarrow> rs_status w = Some 200"
proof -
  let ?w = "foldl (\<lambda>w p. write_out (OutEvent (Progress p)) w) no_resp (rn_progress env)"
  have "no_run ?w" "unsent ?w" by (simp_all add: no_run_progress unsent_progress)
  with assms show "no_run w" "r = Some img \<Longrightarrow> ResolvePulledImage st1 ref = Inr img" "r \<noteq> None \<Longrightarrow> unsent w"
    "r \<noteq> None \<Longrightarrow> stream \<Longrightarrow> ResolvePulledImage st ref \<noteq> Inr (the r) \<Longrightarrow> rs_status w = Some 200"
    by (auto simp: run_image_def run_failed_def Let_def no_run_def write_out_status unsent_def
        split: sum.splits option.splits prod.splits if_splits)
qed

text \<open>The ways a checked request ends.\<close>

lemma run_cases:
  assumes "handleContainerRun env attach (Inr body) srv = Some (srv', w)"
  obtains (refused) code e where "srv' = srv" and "w = refuse code e"
  | (no_image) plan st1 where "run_check env body srv = Inr plan" and "srv' = srv\<lparr>sv_store := Some st1\<rparr>" and "no_run w"
  | (unhealthy) plan st1 w1 img e where "run_check env body srv = Inr plan"
      and "run_image env (rr_stream body \<and> \<not> attach) (pullAuthFrom (rr_username body) (rr_password body)) (rp_image plan)
        (the (sv_store srv)) no_resp = Some (st1, w1, Some img)"
      and "srv' = srv\<lparr>sv_store := Some st1\<rparr>" and "w = http_error 400 (HealthCheck e) w1"
  | (started) plan st1 w1 img hc s1 where "run_check env body srv = Inr plan"
      and "run_image env (rr_stream body \<and> \<not> attach) (pullAuthFrom (rr_username body) (rr_password body)) (rp_image plan)
        (the (sv_store srv)) no_resp = Some (st1, w1, Some img)"
      and "(if attach then run_attached env ((run_spec plan body img)\<lparr>cs_healthcheck := hc\<rparr>) w1 (the (sv_sup srv))
            else run_start env (rr_stream body \<and> \<not> attach) ((run_spec plan body img)\<lparr>cs_healthcheck := hc\<rparr>) w1 (the (sv_sup srv))) = (s1, w)"
      and "srv' = srv\<lparr>sv_store := Some st1, sv_sup := Some s1\<rparr>"
proof (cases "run_check env body srv")
  case (Inl ce)
  with assms refused show ?thesis by (cases ce) (auto simp: handleContainerRun_def)
next
  case (Inr plan)
  let ?i = "run_image env (rr_stream body \<and> \<not> attach) (pullAuthFrom (rr_username body) (rr_password body)) (rp_image plan)
        (the (sv_store srv)) no_resp"
  from assms Inr obtain st1 w1 r where i: "?i = Some (st1, w1, r)"
    by (cases ?i) (auto simp: handleContainerRun_def Let_def)
  show ?thesis
  proof (cases r)
    case None
    with assms Inr i have "srv' = srv\<lparr>sv_store := Some st1\<rparr>" "w = w1" by (simp_all add: handleContainerRun_def Let_def)
    with no_image [OF Inr] run_imageD(1) [OF i] show ?thesis by simp
  next
    case (Some img)
    show ?thesis
    proof (cases "parseRunHealthcheck (rn_dur env) (rr_healthcheck body)")
      case (Inl e)
      with assms Inr i Some unhealthy [OF Inr, of st1 w1 img e] show ?thesis by (simp add: handleContainerRun_def Let_def)
    next
      case hc: (Inr hc)
      with assms Inr i Some started [OF Inr, of st1 w1 img hc] show ?thesis
        by (auto simp: handleContainerRun_def Let_def split: prod.splits)
    qed
  qed
qed

lemma run_spec_simps [simp]:
  "cs_id (run_spec plan body (m, cfg, paths)) = rp_id plan" "cs_image (run_spec plan body (m, cfg, paths)) = rp_image plan"
  "cs_imageConfig (run_spec plan body (m, cfg, paths)) = Some cfg" "cs_blobPaths (run_spec plan body (m, cfg, paths)) = paths"
  "cs_manifestLayers (run_spec plan body (m, cfg, paths)) = mf_layers m"
  "cs_portMappings (run_spec plan body (m, cfg, paths)) = rp_ports plan"
  "cs_hostNetwork (run_spec plan body (m, cfg, paths)) = rp_hostNet plan"
  "cs_extraMounts (run_spec plan body (m, cfg, paths)) = rp_mounts plan"
  "cs_autoRemove (run_spec plan body (m, cfg, paths)) = rr_autoRemove body"
  "cs_restartPolicy (run_spec plan body (m, cfg, paths)) = rp_policy plan"
  by (simp_all add: run_spec_def)

text \<open>What the daemon promises of a container it says it started.\<close>

definition sound_spec :: "run_env \<Rightarrow> store \<Rightarrow> container_spec \<Rightarrow> bool" where
  "sound_spec env st spec \<longleftrightarrow>
     safeLogContainerID (cs_id spec) \<and>
     (\<exists>m cfg. ResolvePulledImage st (cs_image spec) = Inr (m, cfg, cs_blobPaths spec) \<and>
        cs_manifestLayers spec = mf_layers m \<and> cs_imageConfig spec = Some cfg) \<and>
     list_all port_valid (cs_portMappings spec) \<and> (cs_hostNetwork spec \<longrightarrow> cs_portMappings spec = []) \<and>
     list_all (\<lambda>m. rn_stat env (m_source m)) (cs_extraMounts spec) \<and>
     (cs_autoRemove spec \<longrightarrow> cs_restartPolicy spec \<in> {RestartNever, RestartOnFailure})"

lemma run_spec_sound:
  assumes "run_check env body srv = Inr plan" and "ResolvePulledImage st (rp_image plan) = Inr img"
  shows "sound_spec env st ((run_spec plan body img)\<lparr>cs_healthcheck := hc\<rparr>)"
proof -
  obtain m cfg paths where "img = (m, cfg, paths)" by (metis prod_cases3)
  with assms(2) run_checkD [OF assms(1)] show ?thesis by (simp add: sound_spec_def)
qed

section \<open>Properties\<close>

text \<open>For the witnesses: a request for an image that the store has, or that a registry has, and a start that works or fails.\<close>

definition demo_run_env :: "string option \<Rightarrow> run_env" where
  "demo_run_env fails =
     \<lparr>rn_now = 7, rn_volumes = \<lparr>ve_cwd = ''/'', ve_mkdir = (\<lambda>_. None)\<rparr>, rn_stat = (\<lambda>_. True), rn_pull = Image_Pulls.demo_env,
      rn_registry = (\<lambda>_. demo_registry), rn_progress = [''layer''], rn_dur = (\<lambda>v. Inl v), rn_duplex = None,
      rn_start = Supervisor_Runs.demo_env fails, rn_ready = Ready, rn_wait = demo_wait, rn_ctxDone = False\<rparr>"

definition demo_run_request :: "string \<Rightarrow> bool \<Rightarrow> run_health option \<Rightarrow> run_request" where
  "demo_run_request img stream hc =
     \<lparr>rr_id = ''web'', rr_image = img, rr_args = [], rr_env = [], rr_hostname = [], rr_restart = [], rr_publish = [], rr_stream = stream,
      rr_ports = [], rr_healthcheck = hc, rr_username = [], rr_password = [],
      rr_tty = False, rr_stdin = False, rr_autoRemove = False, rr_volumes = [], rr_network = [], rr_rows = 0, rr_cols = 0\<rparr>"

definition demo_run_server :: "store \<Rightarrow> server" where
  "demo_run_server st = demo_server\<lparr>sv_sup := Some (new_sup Supervisor_Runs.demo_cfg), sv_store := Some st\<rparr>"

definition demo_bad_health :: run_health where
  "demo_bad_health =
     \<lparr>rh_type = ''bogus'', rh_command = [], rh_url = [], rh_address = [], rh_interval = [], rh_timeout = [], rh_retries = 0, rh_startPeriod = []\<rparr>"

definition demo_run_body :: run_request where
  "demo_run_body = demo_run_request ''b:1'' False None"

definition demo_run_plan :: "run_plan" where
  "demo_run_plan = projr (run_check (demo_run_env None) demo_run_body (demo_run_server demo_two))"

definition demo_run_spec :: container_spec where
  "demo_run_spec = run_spec demo_run_plan demo_run_body (projr (ResolvePulledImage demo_two ''b:1''))"

definition demo_ran :: "string option \<Rightarrow> (server \<times> resp) option" where
  "demo_ran fails = handleContainerRun (demo_run_env fails) False (Inr demo_run_body) (demo_run_server demo_two)"

lemma run_check_demo: "run_check (demo_run_env fails) demo_run_body (demo_run_server demo_two) = Inr demo_run_plan"
proof -
  have "\<not> isl (run_check (demo_run_env None) demo_run_body (demo_run_server demo_two))" by code_simp
  moreover have "rn_now (demo_run_env fails) = rn_now (demo_run_env None)" "run_mount (demo_run_env fails) = run_mount (demo_run_env None)"
    by (auto simp: fun_eq_iff run_mount_def demo_run_env_def split: sum.split)
  then have "run_check (demo_run_env fails) b s = run_check (demo_run_env None) b s" for b s
    by (simp only: run_check_def)
  ultimately show ?thesis by (simp add: demo_run_plan_def)
qed

lemma demo_run_start:
  assumes "Start (Supervisor_Runs.demo_env fails) Ready demo_wait demo_run_spec (new_sup Supervisor_Runs.demo_cfg) = (s1, r)"
  shows "demo_ran fails = Some ((demo_run_server demo_two)\<lparr>sv_sup := Some s1\<rparr>,
    case r of StartFailed e \<Rightarrow> http_error 400 (Starting e) no_resp | _ \<Rightarrow> write_out (OutJson (Ran ''web'' ''b:1'')) no_resp)"
proof -
  have img: "\<not> isl (ResolvePulledImage demo_two ''b:1'')" by code_simp
  have ids: "cs_id demo_run_spec = ''web'' \<and> cs_image demo_run_spec = ''b:1''" by code_simp
  have ref: "rp_image demo_run_plan = ''b:1''" by code_simp
  have hc: "cs_healthcheck demo_run_spec = None" by (simp add: demo_run_spec_def run_spec_def zero_spec_def split: prod.split)
  have im: "run_image (demo_run_env fails) False auth ''b:1'' demo_two no_resp =
      Some (demo_two, no_resp, Some (projr (ResolvePulledImage demo_two ''b:1'')))" for auth
    using img by (cases "ResolvePulledImage demo_two ''b:1''") (simp_all add: run_image_def)
  have b: "rr_stream demo_run_body = False" "rr_healthcheck demo_run_body = None"
    by (simp_all add: demo_run_body_def demo_run_request_def)
  have srv: "sv_store (demo_run_server demo_two) = Some demo_two" "sv_sup (demo_run_server demo_two) = Some (new_sup Supervisor_Runs.demo_cfg)"
    "(demo_run_server demo_two)\<lparr>sv_store := Some demo_two\<rparr> = demo_run_server demo_two"
    by (simp_all add: demo_run_server_def)
  have sp: "(run_spec demo_run_plan demo_run_body (projr (ResolvePulledImage demo_two ''b:1'')))\<lparr>cs_healthcheck := None\<rparr> = demo_run_spec"
    using hc by (simp add: demo_run_spec_def [symmetric])
  have "run_start (demo_run_env fails) False demo_run_spec no_resp (new_sup Supervisor_Runs.demo_cfg) = (s1,
      case r of StartFailed e \<Rightarrow> http_error 400 (Starting e) no_resp | _ \<Rightarrow> write_out (OutJson (Ran ''web'' ''b:1'')) no_resp)"
    using assms ids by (cases r) (simp_all add: run_start_def run_failed_def demo_run_env_def)
  then show ?thesis
    by (simp add: demo_ran_def handleContainerRun_def run_check_demo b srv im ref sp parseRunHealthcheck_def Let_def)
qed

text \<open>C12. A run that the daemon reports as started was started by the supervisor, under an id that is a plain file name, from an image
  that is complete in the store, with valid ports, none of them on the host network, with mounts whose sources exist, and with no
  restart policy that contradicts removal.\<close>

theorem run_request_sound:
  assumes "handleContainerRun env attach (Inr body) srv = Some (srv', w)"
    and "OutJson (Ran cid img) \<in> set (rs_out w) \<or> OutEvent (EvRun cid img) \<in> set (rs_out w)"
  shows "\<exists>s s' st' spec r. sv_sup srv = Some s \<and> sv_sup srv' = Some s' \<and> sv_store srv' = Some st' \<and>
    Start (rn_start env) (rn_ready env) (rn_wait env) spec s = (s', r) \<and> (\<forall>e. r \<noteq> StartFailed e) \<and>
    cs_id spec = cid \<and> cs_image spec = img \<and> sound_spec env st' spec"
  using assms(1)
proof (cases rule: run_cases)
  case (refused code e)
  with assms(2) show ?thesis by (simp add: refuse_def)
next
  case (no_image plan st1)
  with assms(2) show ?thesis by (simp add: no_run_def)
next
  case (unhealthy plan st1 w1 i e)
  with assms(2) run_imageD(1) [OF unhealthy(2)] show ?thesis by (simp add: no_run_def)
next
  case (started plan st1 w1 i hc s1)
  let ?spec = "(run_spec plan body i)\<lparr>cs_healthcheck := hc\<rparr>"
  note d = run_imageD [OF started(2)] and ck = run_checkD [OF started(1)]
  obtain s where s: "sv_sup srv = Some s" using ck(5) by blast
  have "\<not> attach"
  proof
    assume "attach"
    with started(3) d(1) assms(2) show False
      by (auto simp: run_attached_def no_run_def split: option.splits prod.splits start_result.splits)
  qed
  with started(3) s have r: "run_start env (rr_stream body) ?spec w1 s = (s1, w)" by simp
  obtain r where st: "Start (rn_start env) (rn_ready env) (rn_wait env) ?spec s = (s1, r)"
    using r by (auto simp: run_start_def split: prod.splits start_result.splits)
  have "r \<noteq> StartFailed e \<and> cs_id ?spec = cid \<and> cs_image ?spec = img" for e
    using r st d(1) assms(2)
    by (cases r) (auto simp: run_start_def run_failed_def no_run_def split: if_splits)
  moreover have "sound_spec env st1 ?spec" by (rule run_spec_sound [OF started(1) d(2)]) (rule refl)
  ultimately show ?thesis
    using s started(4) st by (intro exI [of _ s] exI [of _ s1] exI [of _ st1] exI [of _ ?spec] exI [of _ r]) simp
qed

theorem run_request_sound_witness:
  "\<exists>s' st' spec r. Start (Supervisor_Runs.demo_env None) Ready demo_wait spec (new_sup Supervisor_Runs.demo_cfg) = (s', r) \<and>
     cs_id spec = ''web'' \<and> sound_spec (demo_run_env None) st' spec"
proof -
  have "snd (Start (Supervisor_Runs.demo_env None) Ready demo_wait demo_run_spec (new_sup Supervisor_Runs.demo_cfg)) = StartSupervised 0"
    by code_simp
  then obtain s1 where "Start (Supervisor_Runs.demo_env None) Ready demo_wait demo_run_spec (new_sup Supervisor_Runs.demo_cfg) =
      (s1, StartSupervised 0)" by (metis prod.collapse)
  then obtain srv' w where r: "demo_ran None = Some (srv', w)" "OutJson (Ran ''web'' ''b:1'') \<in> set (rs_out w)"
    using demo_run_start by (fastforce simp: write_out_def)
  from run_request_sound [OF r(1) [unfolded demo_ran_def], of "''web''" "''b:1''"] r(2) show ?thesis
    by (fastforce simp: demo_run_env_def demo_run_server_def)
qed

text \<open>C39. A run that is answered with an error status leaves the tracked containers exactly as they were, whether the request was
  malformed, its image could not be pulled, its health check was wrong, or the start failed.\<close>

theorem run_refused_untracked:
  assumes "handleContainerRun env attach (Inr body) srv = Some (srv', w)" and "rs_status w = Some code" and "code \<ge> 400"
    and "sv_sup srv = Some s" and "wf_map s"
  shows "\<exists>s'. sv_sup srv' = Some s' \<and> sup_containers s' = sup_containers s"
  using assms(1)
proof (cases rule: run_cases)
  case (started plan st1 w1 img hc s1)
  note d = run_imageD [OF started(2)]
  have un: "unsent w1" using d(3) by simp
  have low: "rs_status (write_out x (write_header 200 w1)) = Some 200" "rs_status (write_header 200 w1) = Some 200"
    "rs_status (write_out x w1) = Some 200" for x
    using un by (auto simp: unsent_def write_out_def write_header_def Let_def)
  show ?thesis
  proof (cases attach)
    case True
    with started(3) assms(2-4) low have "s1 = s"
      by (auto simp: run_attached_def split: option.splits prod.splits start_result.splits)
    with started(4) show ?thesis by simp
  next
    case False
    let ?spec = "(run_spec plan body img)\<lparr>cs_healthcheck := hc\<rparr>"
    obtain r where st: "Start (rn_start env) (rn_ready env) (rn_wait env) ?spec s = (s1, r)"
      using False started(3) assms(4) by (auto simp: run_start_def split: prod.splits start_result.splits)
    have "\<exists>e. r = StartFailed e"
      using False started(3) assms(2-4) st low by (cases r) (auto simp: run_start_def split: if_splits)
    with Start_frame [OF st assms(5)] have "sup_containers s1 = sup_containers s" by auto
    with started(4) show ?thesis by simp
  qed
qed (use assms(4) in simp_all)

theorem run_refused_untracked_witness:
  "\<exists>srv' w s'. demo_ran (Some ''disk full'') = Some (srv', w) \<and> rs_status w = Some 400 \<and> sv_sup srv' = Some s' \<and>
     sup_containers s' = Map.empty"
proof -
  have "snd (Start (Supervisor_Runs.demo_env (Some ''disk full'')) Ready demo_wait demo_run_spec (new_sup Supervisor_Runs.demo_cfg)) =
      StartFailed (BundleError ''disk full'')" by code_simp
  then obtain s1 where "Start (Supervisor_Runs.demo_env (Some ''disk full'')) Ready demo_wait demo_run_spec
      (new_sup Supervisor_Runs.demo_cfg) = (s1, StartFailed (BundleError ''disk full''))" by (metis prod.collapse)
  then obtain srv' w where r: "demo_ran (Some ''disk full'') = Some (srv', w)" "rs_status w = Some 400"
    using demo_run_start by (fastforce simp: http_error_def write_out_def write_header_def no_resp_def)
  have "wf_map (new_sup Supervisor_Runs.demo_cfg)" by (simp add: wf_map_def new_sup_def)
  from run_refused_untracked [OF r(1) [unfolded demo_ran_def] r(2) _ _ this] r show ?thesis
    by (simp add: demo_run_server_def new_sup_def)
qed

text \<open>With streaming, a wrong health check is found after the pull: the response has status 200 already, the error is written
  into the stream as plain text, and no container is started.\<close>

theorem bad_healthcheck_reported_ok:
  assumes "run_check env body srv = Inr plan" and "rr_stream body" and "sv_store srv = Some st"
    and "ResolvePulledImage st (rp_image plan) = Inl e0"
    and "PullWithProgress (rn_pull env) (rn_registry env (pullAuthFrom (rr_username body) (rr_password body))) (rp_image plan) st =
      Some (st1, Inr cfg)"
    and "ResolvePulledImage st1 (rp_image plan) = Inr img"
    and "parseRunHealthcheck (rn_dur env) (rr_healthcheck body) = Inl e"
  shows "\<exists>w. handleContainerRun env False (Inr body) srv = Some (srv\<lparr>sv_store := Some st1\<rparr>, w) \<and>
    rs_status w = Some 200 \<and> last (rs_out w) = OutError (HealthCheck e)"
proof -
  let ?w = "foldl (\<lambda>w p. write_out (OutEvent (Progress p)) w) no_resp (rn_progress env)"
  let ?w1 = "write_out (OutEvent (EvDone (rp_image plan))) ?w"
  have "rs_status ?w1 = Some 200" by (rule write_out_status [OF unsent_progress]) simp
  then have "rs_status (http_error 400 (HealthCheck e) ?w1) = Some 200"
    by (simp add: http_error_def write_header_def write_out_def Let_def)
  moreover have "handleContainerRun env False (Inr body) srv = Some (srv\<lparr>sv_store := Some st1\<rparr>, http_error 400 (HealthCheck e) ?w1)"
    using assms by (simp add: handleContainerRun_def run_image_def Let_def)
  ultimately show ?thesis by simp
qed

theorem bad_healthcheck_reported_ok_witness:
  "\<exists>w. handleContainerRun (demo_run_env None) False (Inr (demo_run_request ''a:1'' True (Some demo_bad_health))) (demo_run_server demo_store0) =
      Some ((demo_run_server demo_store0)\<lparr>sv_store := Some (fst demo_pull)\<rparr>, w) \<and>
    rs_status w = Some 200 \<and> last (rs_out w) = OutError (HealthCheck (UnknownType ''bogus''))"
proof -
  let ?b = "demo_run_request ''a:1'' True (Some demo_bad_health)" and ?srv = "demo_run_server demo_store0"
  let ?m = "\<lparr>mf_mediaType = [], mf_config = \<lparr>d_mediaType = [], d_digest = ''sha256:2'', d_size = 2\<rparr>, mf_layers = [demo_layer]\<rparr>"
  have "case run_check (demo_run_env None) ?b ?srv of Inr plan \<Rightarrow> rp_image plan = ''a:1'' | Inl _ \<Rightarrow> False" by code_simp
  then obtain plan where plan: "run_check (demo_run_env None) ?b ?srv = Inr plan" "rp_image plan = ''a:1''" by (auto split: sum.splits)
  have "\<not> isl (ResolvePulledImage (fst demo_pull) ''a:1'')" by code_simp
  then obtain img where img: "ResolvePulledImage (fst demo_pull) ''a:1'' = Inr img" by (cases "ResolvePulledImage (fst demo_pull) ''a:1''") simp_all
  have "isl (ResolvePulledImage demo_store0 ''a:1'')" by code_simp
  then obtain e0 where e0: "ResolvePulledImage demo_store0 ''a:1'' = Inl e0" unfolding isl_def by blast
  have tag: "snd (snd (parseRef ''a:1'')) = ''1''" by code_simp
  have "client_manifest (rg_manifest demo_registry) os arch ''1'' = Some (Inr ?m)" for os arch
    by (subst client_manifest.simps) (simp add: demo_registry_def)
  moreover have "rg_auth demo_registry = None" by (simp add: demo_registry_def)
  moreover have "snd demo_pull = Inr Image_Pulls.demo_cfg" by code_simp
  then have "pull_manifest Image_Pulls.demo_env demo_registry ''a:1'' ?m demo_store0 = (fst demo_pull, Inr Image_Pulls.demo_cfg)"
    unfolding demo_pull_def by (metis prod.collapse)
  ultimately have pull: "PullWithProgress Image_Pulls.demo_env demo_registry ''a:1'' demo_store0 = Some (fst demo_pull, Inr Image_Pulls.demo_cfg)"
    unfolding PullWithProgress_def tag by simp
  have "parseRunHealthcheck (\<lambda>v. Inl v) (Some demo_bad_health) = Inl (UnknownType ''bogus'')" by code_simp
  with bad_healthcheck_reported_ok [OF plan(1), of demo_store0 e0 "fst demo_pull" Image_Pulls.demo_cfg img "UnknownType ''bogus''"] plan(2) img e0 pull
  show ?thesis by (simp add: demo_run_env_def demo_run_request_def demo_run_server_def)
qed

end
