(* ===== verification/Layer.thy ===== *)
theory Layer
  imports Go_Path "HOL-Library.AList"
begin

text \<open>
  Image layers (src/internal/layer): applying the entries of a layer archive to a directory, and turning the upper
  directory of an overlay mount into the entries of a layer. A name is the list of its components, cleaned; \<open>[]\<close> is the
  directory itself, which the code writes as \<open>.\<close> or as the empty string. The tar reader and writer are lists of entries.

  A directory tree is a map from names to inodes. A hard link is a second copy of the inode: applying a layer never changes an
  inode after it was linked (a name is removed before it is written again, and the attributes of a link are left alone), so
  the copies stay equal. \<open>host\<close> has what the system decides: the number of symbolic links os.Root follows, the clock, the owner of new
  files, the umask, and the calls that fail for reasons outside the tree; a call that fails changes nothing.
\<close>

section \<open>Trees\<close>

record attrs =
  at_uid :: int
  at_gid :: int
  at_mode :: int
  at_mtime :: int
  at_xattrs :: "(string, string) gomap"

text \<open>\<open>White\<close> is the whiteout of overlayfs, a character device 0/0, with its modification time.\<close>

datatype inode = Dir attrs | Reg attrs string | Sym attrs string | Fifo attrs | White int | Device attrs int int | Sock

type_synonym name = "string list"
type_synonym tree = "(name, inode) gomap"

datatype root_error = NotExist | Exists | NotDir | NotEmpty | Escapes | LinkLoop | Denied | IOFails string

record host =
  ho_links :: nat
  ho_now :: int
  ho_uid :: int
  ho_gid :: int
  ho_umask :: "int \<Rightarrow> int"
  ho_fault :: "string \<Rightarrow> name \<Rightarrow> string option"

definition new_attrs :: "host \<Rightarrow> int \<Rightarrow> attrs" where
  "new_attrs h mode = \<lparr>at_uid = ho_uid h, at_gid = ho_gid h, at_mode = ho_umask h mode, at_mtime = ho_now h, at_xattrs = []\<rparr>"

fun map_attrs :: "(attrs \<Rightarrow> attrs) \<Rightarrow> inode \<Rightarrow> inode" where
  "map_attrs f (Dir a) = Dir (f a)"
| "map_attrs f (Reg a c) = Reg (f a) c"
| "map_attrs f (Sym a t) = Sym (f a) t"
| "map_attrs f (Fifo a) = Fifo (f a)"
| "map_attrs f (White m) = White m"
| "map_attrs f (Device a x y) = Device (f a) x y"
| "map_attrs f Sock = Sock"

fun is_dir :: "inode \<Rightarrow> bool" where
  "is_dir (Dir _) = True"
| "is_dir _ = False"

section \<open>os.Root\<close>

text \<open>
  The name a path leads to, with symbolic links followed on the way and, for \<open>follow\<close>, at the end. A link that is absolute or
  leaves the root is an error.
\<close>

function locate_from :: "nat \<Rightarrow> tree \<Rightarrow> bool \<Rightarrow> name \<Rightarrow> name \<Rightarrow> nat \<Rightarrow> root_error + name" where
  "locate_from limit t follow [] cur hops = Inr cur"
| "locate_from limit t follow (c # parts) cur hops =
     (if c = [] \<or> c = ''.'' then locate_from limit t follow parts cur hops
      else if c = ''..'' then (if cur = [] then Inl Escapes else locate_from limit t follow parts (butlast cur) hops)
      else case map_of t (cur @ [c]) of
             None \<Rightarrow> if parts = [] then Inr (cur @ [c]) else Inl NotExist
           | Some (Dir _) \<Rightarrow> locate_from limit t follow parts (cur @ [c]) hops
           | Some (Sym _ target) \<Rightarrow>
               if parts = [] \<and> \<not> follow then Inr (cur @ [c])
               else if hops \<ge> limit then Inl LinkLoop
               else if is_abs target then Inl Escapes
               else locate_from limit t follow (filter (\<lambda>e. e \<noteq> [] \<and> e \<noteq> ''.'') (split_on (CHR ''/'') target) @ parts) cur (hops + 1)
           | Some _ \<Rightarrow> if parts = [] then Inr (cur @ [c]) else Inl NotDir)"
  by pat_completeness auto
termination
  by (relation "measures [\<lambda>(limit, t, follow, parts, cur, hops). limit - hops,
      \<lambda>(limit, t, follow, parts, cur, hops). length parts]") auto

definition locate :: "host \<Rightarrow> tree \<Rightarrow> bool \<Rightarrow> name \<Rightarrow> root_error + name" where
  "locate h t follow p = locate_from (ho_links h) t follow p [] 0"

definition at_name :: "host \<Rightarrow> string \<Rightarrow> bool \<Rightarrow> name \<Rightarrow> tree \<Rightarrow> root_error + name \<times> inode" where
  "at_name h op follow p t =
     (case ho_fault h op p of
        Some e \<Rightarrow> Inl (IOFails e)
      | None \<Rightarrow> bind_res (locate h t follow p) (\<lambda>q. case map_of t q of None \<Rightarrow> Inl NotExist | Some n \<Rightarrow> Inr (q, n)))"

definition root_Lstat :: "host \<Rightarrow> name \<Rightarrow> tree \<Rightarrow> root_error + inode" where
  "root_Lstat h p t = map_sum (\<lambda>e. e) snd (at_name h ''lstat'' False p t)"

definition root_Stat :: "host \<Rightarrow> name \<Rightarrow> tree \<Rightarrow> root_error + inode" where
  "root_Stat h p t = map_sum (\<lambda>e. e) snd (at_name h ''stat'' True p t)"

text \<open>A change of a directory sets its modification time.\<close>

definition touch :: "host \<Rightarrow> name \<Rightarrow> tree \<Rightarrow> tree" where
  "touch h d t =
     (case map_of t d of
        Some (Dir a) \<Rightarrow> AList.update d (Dir (a\<lparr>at_mtime := ho_now h\<rparr>)) t
      | _ \<Rightarrow> t)"

definition put_new :: "host \<Rightarrow> name \<Rightarrow> inode \<Rightarrow> tree \<Rightarrow> tree" where
  "put_new h q n t = AList.update q n (touch h (butlast q) t)"

definition del_tree :: "host \<Rightarrow> name \<Rightarrow> tree \<Rightarrow> tree" where
  "del_tree h q t = filter (\<lambda>(r, _). \<not> prefix q r) (touch h (butlast q) t)"

definition create :: "host \<Rightarrow> string \<Rightarrow> name \<Rightarrow> inode \<Rightarrow> tree \<Rightarrow> tree \<times> root_error option" where
  "create h op p n t =
     (case ho_fault h op p of
        Some e \<Rightarrow> (t, Some (IOFails e))
      | None \<Rightarrow>
          (case locate h t False p of
             Inl e \<Rightarrow> (t, Some e)
           | Inr q \<Rightarrow> if q = [] \<or> map_of t q \<noteq> None then (t, Some Exists) else (put_new h q n t, None)))"

definition root_Mkdir :: "host \<Rightarrow> name \<Rightarrow> int \<Rightarrow> tree \<Rightarrow> tree \<times> root_error option" where
  "root_Mkdir h p mode = create h ''mkdir'' p (Dir (new_attrs h mode))"

definition root_Symlink :: "host \<Rightarrow> string \<Rightarrow> name \<Rightarrow> tree \<Rightarrow> tree \<times> root_error option" where
  "root_Symlink h target p = create h ''symlink'' p (Sym ((new_attrs h 0)\<lparr>at_mode := 511\<rparr>) target)"

definition root_Link :: "host \<Rightarrow> name \<Rightarrow> name \<Rightarrow> tree \<Rightarrow> tree \<times> root_error option" where
  "root_Link h old p t =
     (case at_name h ''link'' False old t of
        Inl e \<Rightarrow> (t, Some e)
      | Inr (_, n) \<Rightarrow> if is_dir n then (t, Some Denied) else create h ''link'' p n t)"

definition root_RemoveAll :: "host \<Rightarrow> name \<Rightarrow> tree \<Rightarrow> tree \<times> root_error option" where
  "root_RemoveAll h p t =
     (case at_name h ''removeall'' False p t of
        Inl NotExist \<Rightarrow> (t, None)
      | Inl e \<Rightarrow> (t, Some e)
      | Inr (q, _) \<Rightarrow> if q = [] then (t, Some Denied) else (del_tree h q t, None))"

definition root_Remove :: "host \<Rightarrow> name \<Rightarrow> tree \<Rightarrow> tree \<times> root_error option" where
  "root_Remove h p t =
     (case at_name h ''remove'' False p t of
        Inl e \<Rightarrow> (t, Some e)
      | Inr (q, _) \<Rightarrow>
          if q = [] then (t, Some Denied)
          else if list_ex (\<lambda>(r, _). strict_prefix q r) t then (t, Some NotEmpty)
          else (del_tree h q t, None))"

text \<open>MkdirAll walks as \<open>locate\<close> does and makes the directories that are missing.\<close>

function mkdir_from :: "host \<Rightarrow> inode \<Rightarrow> tree \<Rightarrow> name \<Rightarrow> name \<Rightarrow> nat \<Rightarrow> tree \<times> root_error option" where
  "mkdir_from h n t [] cur hops = (t, None)"
| "mkdir_from h n t (c # parts) cur hops =
     (if c = [] \<or> c = ''.'' then mkdir_from h n t parts cur hops
      else if c = ''..'' then (if cur = [] then (t, Some Escapes) else mkdir_from h n t parts (butlast cur) hops)
      else case map_of t (cur @ [c]) of
             None \<Rightarrow> mkdir_from h n (put_new h (cur @ [c]) n t) parts (cur @ [c]) hops
           | Some (Dir _) \<Rightarrow> mkdir_from h n t parts (cur @ [c]) hops
           | Some (Sym _ target) \<Rightarrow>
               if hops \<ge> ho_links h then (t, Some LinkLoop)
               else if is_abs target then (t, Some Escapes)
               else mkdir_from h n t (filter (\<lambda>e. e \<noteq> [] \<and> e \<noteq> ''.'') (split_on (CHR ''/'') target) @ parts) cur (hops + 1)
           | Some _ \<Rightarrow> (t, Some NotDir))"
  by pat_completeness auto
termination
  by (relation "measures [\<lambda>(h, n, t, parts, cur, hops). ho_links h - hops,
      \<lambda>(h, n, t, parts, cur, hops). length parts]") auto

definition root_MkdirAll :: "host \<Rightarrow> name \<Rightarrow> int \<Rightarrow> tree \<Rightarrow> tree \<times> root_error option" where
  "root_MkdirAll h p mode t =
     (case ho_fault h ''mkdirall'' p of
        Some e \<Rightarrow> (t, Some (IOFails e))
      | None \<Rightarrow> mkdir_from h (Dir (new_attrs h mode)) t p [] 0)"

definition change :: "host \<Rightarrow> string \<Rightarrow> bool \<Rightarrow> name \<Rightarrow> (attrs \<Rightarrow> attrs) \<Rightarrow> tree \<Rightarrow> tree \<times> root_error option" where
  "change h op follow p f t =
     (case at_name h op follow p t of
        Inl e \<Rightarrow> (t, Some e)
      | Inr (q, n) \<Rightarrow> (AList.update q (map_attrs f n) t, None))"

text \<open>The kernel takes the set-user-id and set-group-id bits from a file that changes its owner.\<close>

definition clear_suid :: "int \<Rightarrow> int" where
  "clear_suid m = m - m div 2048 mod 2 * 2048 - m div 1024 mod 2 * 1024"

definition root_Lchown :: "host \<Rightarrow> name \<Rightarrow> int \<Rightarrow> int \<Rightarrow> tree \<Rightarrow> tree \<times> root_error option" where
  "root_Lchown h p uid gid t =
     (case at_name h ''lchown'' False p t of
        Inl e \<Rightarrow> (t, Some e)
      | Inr (q, n) \<Rightarrow>
          (AList.update q (map_attrs (\<lambda>a. a\<lparr>at_uid := uid, at_gid := gid,
             at_mode := if is_dir n then at_mode a else clear_suid (at_mode a)\<rparr>) n) t, None))"

definition root_Chmod :: "host \<Rightarrow> name \<Rightarrow> int \<Rightarrow> tree \<Rightarrow> tree \<times> root_error option" where
  "root_Chmod h p mode = change h ''chmod'' True p (\<lambda>a. a\<lparr>at_mode := mode\<rparr>)"

definition root_Chtimes :: "host \<Rightarrow> name \<Rightarrow> int \<Rightarrow> tree \<Rightarrow> tree \<times> root_error option" where
  "root_Chtimes h p mtime = change h ''chtimes'' True p (\<lambda>a. a\<lparr>at_mtime := mtime\<rparr>)"

section \<open>Relative to an open parent (sys\_linux.go)\<close>

text \<open>withParent opens the parent of a name, following links, and hands on the place of the last component.\<close>

definition withParent :: "host \<Rightarrow> name \<Rightarrow> tree \<Rightarrow> root_error + name" where
  "withParent h p t =
     (if p = [] then Inr []
      else bind_res (at_name h ''open'' True (butlast p) t) (\<lambda>(d, n). if is_dir n then Inr (d @ [last p]) else Inl NotDir))"

definition mknod_at :: "host \<Rightarrow> string \<Rightarrow> name \<Rightarrow> inode \<Rightarrow> tree \<Rightarrow> tree \<times> root_error option" where
  "mknod_at h op p n t =
     (case withParent h p t of
        Inl e \<Rightarrow> (t, Some e)
      | Inr q \<Rightarrow>
          (case ho_fault h op p of
             Some e \<Rightarrow> (t, Some (IOFails e))
           | None \<Rightarrow> if q = [] \<or> last q = ''..'' \<or> map_of t q \<noteq> None then (t, Some Exists) else (put_new h q n t, None)))"

definition mkWhiteoutAt :: "host \<Rightarrow> name \<Rightarrow> tree \<Rightarrow> tree \<times> root_error option" where
  "mkWhiteoutAt h p = mknod_at h ''mknod'' p (White (ho_now h))"

definition mkfifoAt :: "host \<Rightarrow> name \<Rightarrow> int \<Rightarrow> tree \<Rightarrow> tree \<times> root_error option" where
  "mkfifoAt h p perm = mknod_at h ''mkfifo'' p (Fifo (new_attrs h perm))"

definition setXattrAt :: "host \<Rightarrow> name \<Rightarrow> string \<Rightarrow> string \<Rightarrow> tree \<Rightarrow> tree \<times> root_error option" where
  "setXattrAt h p key v t =
     (case withParent h p t of
        Inl e \<Rightarrow> (t, Some e)
      | Inr q \<Rightarrow>
          (case ho_fault h ''setxattr'' p of
             Some e \<Rightarrow> (t, Some (IOFails e))
           | None \<Rightarrow>
               (case map_of t q of
                  None \<Rightarrow> (t, Some NotExist)
                | Some n \<Rightarrow>
                    if has_prefix key ''user.'' \<and> \<not> (case n of Dir _ \<Rightarrow> True | Reg _ _ \<Rightarrow> True | _ \<Rightarrow> False) then (t, Some Denied)
                    else (AList.update q (map_attrs (\<lambda>a. a\<lparr>at_xattrs := AList.update key v (at_xattrs a)\<rparr>) n) t, None))))"

section \<open>Applying a layer (layer.go)\<close>

datatype layer_mode = ModeOverlay | ModeFlatten

definition whiteoutPrefix :: string where "whiteoutPrefix = ''.wh.''"
definition whiteoutMeta :: string where "whiteoutMeta = ''.wh..wh.''"
definition whiteoutOpaque :: string where "whiteoutOpaque = ''.wh..wh..opq''"
definition DefaultXattrPrefix :: string where "DefaultXattrPrefix = ''trusted.''"

record apply_options =
  ao_mode :: layer_mode
  ao_xattrPrefix :: string
  ao_chown :: bool
  ao_idMap :: "(int \<Rightarrow> int \<Rightarrow> int \<times> int) option"

definition xattrPrefix :: "apply_options \<Rightarrow> string" where
  "xattrPrefix o0 = (if ao_xattrPrefix o0 = [] then DefaultXattrPrefix else ao_xattrPrefix o0)"

datatype tar_type = TypeDir | TypeReg | TypeSymlink | TypeLink | TypeFifo | TypeOther

text \<open>An entry of an archive: its header and the bytes that follow, with the error that ends them early if there is one.\<close>

record tar_entry =
  te_name :: string
  te_type :: tar_type
  te_linkname :: string
  te_mode :: int
  te_uid :: int
  te_gid :: int
  te_mtime :: int
  te_pax :: "(string, string) gomap"
  te_body :: string
  te_bodyErr :: "string option"

datatype entry_error = RootErr root_error | LinkRejected string | BodyErr string | XattrErr string root_error | InvalidWhiteout

record applier =
  ap_tree :: tree
  ap_written :: "name list"
  ap_opaques :: "name list"
  ap_dirTimes :: "(name \<times> int) list"

text \<open>A step that fails ends the entry; the steps before it stay done.\<close>

definition on_tree :: "(tree \<Rightarrow> tree \<times> root_error option) \<Rightarrow> applier \<Rightarrow> applier \<times> entry_error option" where
  "on_tree f a = (case f (ap_tree a) of (t, e) \<Rightarrow> (a\<lparr>ap_tree := t\<rparr>, map_option RootErr e))"

definition and_then :: "'a \<times> 'e option \<Rightarrow> ('a \<Rightarrow> 'a \<times> 'e option) \<Rightarrow> 'a \<times> 'e option" where
  "and_then r f = (case r of (a, Some e) \<Rightarrow> (a, Some e) | (a, None) \<Rightarrow> f a)"

definition cleanName :: "string \<Rightarrow> name" where
  "cleanName nm = path_elems (CHR ''/'' # map (\<lambda>c. if c = CHR 0x5C then CHR ''/'' else c) nm)"

definition markWritten :: "name \<Rightarrow> applier \<Rightarrow> applier" where
  "markWritten p a = a\<lparr>ap_written := filter (\<lambda>q. q \<noteq> []) (prefixes p) @ ap_written a\<rparr>"

definition replace :: "host \<Rightarrow> name \<Rightarrow> tree \<Rightarrow> tree \<times> root_error option" where
  "replace h p t = (case root_Lstat h p t of Inr _ \<Rightarrow> root_RemoveAll h p t | Inl _ \<Rightarrow> (t, None))"

definition ensureDir :: "host \<Rightarrow> name \<Rightarrow> tree \<Rightarrow> tree \<times> root_error option" where
  "ensureDir h d t =
     (case root_Stat h d t of
        Inr n \<Rightarrow> if is_dir n then (t, None)
                 else and_then (root_Remove h d t) (root_MkdirAll h d 493)
      | Inl NotExist \<Rightarrow> root_MkdirAll h d 493 t
      | Inl e \<Rightarrow> (t, Some e))"

text \<open>The bits of a mode: permissions, set-user-id, set-group-id and sticky.\<close>

definition tarMode :: "int \<Rightarrow> int" where
  "tarMode m = m mod 512 + (if m div 2048 mod 2 \<noteq> 0 then 2048 else 0) + (if m div 1024 mod 2 \<noteq> 0 then 1024 else 0) +
     (if m div 512 mod 2 \<noteq> 0 then 512 else 0)"

definition skipXattr :: "string \<Rightarrow> bool" where
  "skipXattr key \<longleftrightarrow> has_prefix key ''trusted.'' \<or> has_prefix key ''user.overlay.'' \<or> key = ''security.selinux''"

fun set_xattrs :: "host \<Rightarrow> name \<Rightarrow> (string, string) gomap \<Rightarrow> applier \<Rightarrow> applier \<times> entry_error option" where
  "set_xattrs h p [] a = (a, None)"
| "set_xattrs h p ((k, v) # pax) a =
     (let key = drop 13 k
      in if \<not> has_prefix k ''SCHILY.xattr.'' \<or> skipXattr key then set_xattrs h p pax a
         else case setXattrAt h p key v (ap_tree a) of
                (t, Some e) \<Rightarrow> (a\<lparr>ap_tree := t\<rparr>, Some (XattrErr key e))
              | (t, None) \<Rightarrow> set_xattrs h p pax (a\<lparr>ap_tree := t\<rparr>))"

definition chown_step :: "host \<Rightarrow> apply_options \<Rightarrow> name \<Rightarrow> tar_entry \<Rightarrow> applier \<Rightarrow> applier \<times> entry_error option" where
  "chown_step h opts p hdr a =
     (if ao_chown opts
      then (case (case ao_idMap opts of Some f \<Rightarrow> f (te_uid hdr) (te_gid hdr) | None \<Rightarrow> (te_uid hdr, te_gid hdr)) of
              (uid, gid) \<Rightarrow> on_tree (root_Lchown h p uid gid) a)
      else (a, None))"

definition metadata :: "host \<Rightarrow> apply_options \<Rightarrow> name \<Rightarrow> tar_entry \<Rightarrow> applier \<Rightarrow> applier \<times> entry_error option" where
  "metadata h opts p hdr a =
     and_then (chown_step h opts p hdr a) (\<lambda>a1.
       if te_type hdr = TypeSymlink then (a1, None)
       else and_then (on_tree (root_Chmod h p (tarMode (te_mode hdr))) a1) (\<lambda>a2.
            and_then (set_xattrs h p (te_pax hdr) a2) (\<lambda>a3.
            if te_type hdr \<noteq> TypeDir then on_tree (root_Chtimes h p (te_mtime hdr)) a3 else (a3, None))))"

definition whiteout :: "host \<Rightarrow> apply_options \<Rightarrow> name \<Rightarrow> string \<Rightarrow> applier \<Rightarrow> applier \<times> entry_error option" where
  "whiteout h opts d base a =
     and_then (if d \<noteq> [] then on_tree (ensureDir h d) a else (a, None)) (\<lambda>a1.
       if base = whiteoutOpaque then
         (if ao_mode opts = ModeFlatten then (a1\<lparr>ap_opaques := ap_opaques a1 @ [d]\<rparr>, None)
          else on_tree (setXattrAt h d (xattrPrefix opts @ ''overlay.opaque'') ''y'') a1)
       else if has_prefix base whiteoutMeta then (a1, None)
       else let target = clean_elems False [] (d @ [trim_prefix base whiteoutPrefix])
            in if target = [] then (a1, Some InvalidWhiteout)
               else and_then (on_tree (replace h target) a1) (\<lambda>a2.
                 if ao_mode opts = ModeFlatten then (a2, None) else on_tree (mkWhiteoutAt h target) a2))"

definition dir_entry :: "host \<Rightarrow> name \<Rightarrow> int \<Rightarrow> applier \<Rightarrow> applier \<times> entry_error option" where
  "dir_entry h p mtime a =
     and_then (case root_Lstat h p (ap_tree a) of
                 Inr n \<Rightarrow> if is_dir n then (a, None) else on_tree (root_RemoveAll h p) a
               | Inl _ \<Rightarrow> (a, None)) (\<lambda>a1.
       case root_Mkdir h p 448 (ap_tree a1) of
         (t, Some e) \<Rightarrow> if e = Exists then (a1\<lparr>ap_tree := t, ap_dirTimes := ap_dirTimes a1 @ [(p, mtime)]\<rparr>, None)
                        else (a1\<lparr>ap_tree := t\<rparr>, Some (RootErr e))
       | (t, None) \<Rightarrow> (a1\<lparr>ap_tree := t, ap_dirTimes := ap_dirTimes a1 @ [(p, mtime)]\<rparr>, None))"

definition file_entry :: "host \<Rightarrow> name \<Rightarrow> tar_entry \<Rightarrow> applier \<Rightarrow> applier \<times> entry_error option" where
  "file_entry h p hdr a =
     and_then (on_tree (replace h p) a) (\<lambda>a1.
     and_then (on_tree (create h ''openfile'' p (Reg (new_attrs h 384) (te_body hdr))) a1) (\<lambda>a2.
       case te_bodyErr hdr of
         Some e \<Rightarrow> (a2, Some (BodyErr e))
       | None \<Rightarrow> (a2, map_option BodyErr (ho_fault h ''close'' p))))"

definition link_entry :: "host \<Rightarrow> name \<Rightarrow> tar_entry \<Rightarrow> applier \<Rightarrow> applier \<times> entry_error option" where
  "link_entry h p hdr a =
     (let target = cleanName (te_linkname hdr)
      in if target = [] then (a, Some (LinkRejected (te_linkname hdr)))
         else and_then (on_tree (replace h p) a) (\<lambda>a1.
              and_then (on_tree (root_Link h target p) a1) (\<lambda>a2. (markWritten p a2, None))))"

definition made :: "host \<Rightarrow> apply_options \<Rightarrow> name \<Rightarrow> tar_entry \<Rightarrow> applier \<times> entry_error option \<Rightarrow> applier \<times> entry_error option" where
  "made h opts p hdr r = and_then r (\<lambda>a. metadata h opts p hdr (markWritten p a))"

definition apply_entry :: "host \<Rightarrow> apply_options \<Rightarrow> tar_entry \<Rightarrow> applier \<Rightarrow> applier \<times> entry_error option" where
  "apply_entry h opts hdr a =
     (let p = cleanName (te_name hdr)
      in if p = [] then (a, None)
         else if has_prefix (last p) whiteoutPrefix then whiteout h opts (butlast p) (last p) a
         else and_then (if butlast p \<noteq> [] then on_tree (ensureDir h (butlast p)) a else (a, None)) (\<lambda>a1.
           case te_type hdr of
             TypeDir \<Rightarrow> made h opts p hdr (dir_entry h p (te_mtime hdr) a1)
           | TypeReg \<Rightarrow> made h opts p hdr (file_entry h p hdr a1)
           | TypeSymlink \<Rightarrow> made h opts p hdr
               (and_then (on_tree (replace h p) a1) (on_tree (root_Symlink h (te_linkname hdr) p)))
           | TypeLink \<Rightarrow> link_entry h p hdr a1
           | TypeFifo \<Rightarrow> made h opts p hdr
               (and_then (on_tree (replace h p) a1) (on_tree (mkfifoAt h p (te_mode hdr mod 4096))))
           | TypeOther \<Rightarrow> (a1, None)))"

section \<open>The end of a layer\<close>

text \<open>
  pruneOpaque goes down at most as far as the tree is deep: \<open>depth\<close> bounds the recursion and is the length of the longest name when it
  starts. The names of a directory are read before anything in it is removed.
\<close>

definition names_in :: "name \<Rightarrow> tree \<Rightarrow> string list" where
  "names_in d t = map last (filter (\<lambda>q. q \<noteq> [] \<and> butlast q = d) (map fst t))"

primrec each :: "('x \<Rightarrow> tree \<Rightarrow> tree \<times> root_error option) \<Rightarrow> 'x list \<Rightarrow> tree \<Rightarrow> tree \<times> root_error option" where
  "each f [] t = (t, None)"
| "each f (x # xs) t = and_then (f x t) (each f xs)"

primrec pruneOpaque :: "host \<Rightarrow> name list \<Rightarrow> nat \<Rightarrow> name \<Rightarrow> tree \<Rightarrow> tree \<times> root_error option" where
  "pruneOpaque h written 0 d t = (t, None)"
| "pruneOpaque h written (Suc depth) d t =
     (case at_name h ''open'' True d t of
        Inl e \<Rightarrow> (t, Some e)
      | Inr (r, n) \<Rightarrow>
          if \<not> is_dir n then (t, Some NotDir)
          else each (\<lambda>x t.
            let p = d @ [x]
            in if p \<notin> set written then root_RemoveAll h p t
               else case root_Lstat h p t of
                      Inr m \<Rightarrow> if is_dir m then pruneOpaque h written depth p t else (t, None)
                    | Inl _ \<Rightarrow> (t, None)) (names_in r t) t)"

definition tree_depth :: "tree \<Rightarrow> nat" where
  "tree_depth t = foldr (\<lambda>(q, _). max (length q)) t 0"

datatype apply_error =
    HeaderUnread string | GzipErr string | ZstdErr | OpenRootErr string | TarNextErr string | EntryErr string entry_error
  | OpaqueErr name root_error | TimesErr root_error

fun prune_all :: "host \<Rightarrow> name list \<Rightarrow> name list \<Rightarrow> applier \<Rightarrow> applier \<times> apply_error option" where
  "prune_all h written [] a = (a, None)"
| "prune_all h written (d # ds) a =
     (case pruneOpaque h written (Suc (tree_depth (ap_tree a))) d (ap_tree a) of
        (t, Some e) \<Rightarrow> (a\<lparr>ap_tree := t\<rparr>, Some (OpaqueErr d e))
      | (t, None) \<Rightarrow> prune_all h written ds (a\<lparr>ap_tree := t\<rparr>))"

fun set_times :: "host \<Rightarrow> (name \<times> int) list \<Rightarrow> applier \<Rightarrow> applier \<times> apply_error option" where
  "set_times h [] a = (a, None)"
| "set_times h ((d, mtime) # ds) a =
     (case root_Chtimes h d mtime (ap_tree a) of
        (t, Some e) \<Rightarrow> (a\<lparr>ap_tree := t\<rparr>, Some (TimesErr e))
      | (t, None) \<Rightarrow> set_times h ds (a\<lparr>ap_tree := t\<rparr>))"

definition finish :: "host \<Rightarrow> applier \<Rightarrow> applier \<times> apply_error option" where
  "finish h a = and_then (prune_all h (ap_written a) (ap_opaques a) a) (\<lambda>a1. set_times h (rev (ap_dirTimes a1)) a1)"

text \<open>The entries of an archive, one after the other; an archive may end with an error instead of its end.\<close>

fun apply_entries :: "host \<Rightarrow> apply_options \<Rightarrow> (string + tar_entry) list \<Rightarrow> applier \<Rightarrow> applier \<times> apply_error option" where
  "apply_entries h opts [] a = finish h a"
| "apply_entries h opts (Inl e # rest) a = (a, Some (TarNextErr e))"
| "apply_entries h opts (Inr hdr # rest) a =
     (case apply_entry h opts hdr a of
        (a1, Some e) \<Rightarrow> (a1, Some (EntryErr (te_name hdr) e))
      | (a1, None) \<Rightarrow> apply_entries h opts rest a1)"

text \<open>
  Decompress looks at the first four bytes. \<open>gunzip\<close> is the gzip reader and \<open>untar\<close> the tar reader on the bytes it delivers;
  \<open>err\<close> is the error of reading the first bytes, the end of the stream apart.
\<close>

definition Decompress :: "(string \<Rightarrow> string + string) \<Rightarrow> string option \<Rightarrow> string \<Rightarrow> apply_error + string" where
  "Decompress gunzip err s =
     (case err of
        Some e \<Rightarrow> Inl (HeaderUnread e)
      | None \<Rightarrow>
          if has_prefix s [CHR 0x1F, CHR 0x8B] then (case gunzip s of Inl e \<Rightarrow> Inl (GzipErr e) | Inr x \<Rightarrow> Inr x)
          else if has_prefix s [CHR 0x28, CHR 0xB5, CHR 0x2F, CHR 0xFD] then Inl ZstdErr
          else Inr s)"

definition Apply ::
  "(string \<Rightarrow> string + string) \<Rightarrow> (string \<Rightarrow> (string + tar_entry) list) \<Rightarrow> host \<Rightarrow> apply_options \<Rightarrow> string option \<Rightarrow> string \<Rightarrow> tree \<Rightarrow>
     tree \<times> apply_error option" where
  "Apply gunzip untar h opts err s dest =
     (case Decompress gunzip err s of
        Inl e \<Rightarrow> (dest, Some e)
      | Inr bytes \<Rightarrow>
          (case ho_fault h ''openroot'' [] of
             Some e \<Rightarrow> (dest, Some (OpenRootErr e))
           | None \<Rightarrow>
               (case apply_entries h opts (untar bytes) \<lparr>ap_tree = dest, ap_written = [], ap_opaques = [], ap_dirTimes = []\<rparr> of
                  (a, e) \<Rightarrow> (ap_tree a, e))))"

section \<open>Making a layer (diff\_linux.go)\<close>

text \<open>\<open>di_ino\<close> and \<open>di_nlink\<close> are the inode number and the number of links of a file.\<close>

record diff_env =
  di_ino :: "name \<Rightarrow> nat"
  di_nlink :: "name \<Rightarrow> nat"
  di_fault :: "string \<Rightarrow> name \<Rightarrow> string option"

record diff_options =
  do_xattrPrefix :: string
  do_epoch :: "int option"

datatype diff_error = DiffIO string | SocketErr name | BlobIO string

definition clamp :: "int \<Rightarrow> int option \<Rightarrow> int" where
  "clamp t epoch = (case epoch of Some e \<Rightarrow> if t > e then e else t | None \<Rightarrow> t)"

definition slash_name :: "name \<Rightarrow> string" where
  "slash_name p = join_with ''/'' p"

definition marker :: "name \<Rightarrow> int \<Rightarrow> tar_entry" where
  "marker p mtime =
     \<lparr>te_name = slash_name p, te_type = TypeReg, te_linkname = [], te_mode = 384, te_uid = 0, te_gid = 0, te_mtime = mtime,
      te_pax = [], te_body = [], te_bodyErr = None\<rparr>"

text \<open>A symbolic link has no attributes in a layer, nor does any file have those of overlayfs.\<close>

definition addXattrs :: "(string, string) gomap \<Rightarrow> (string, string) gomap" where
  "addXattrs xs = map (\<lambda>(k, v). (''SCHILY.xattr.'' @ k, v)) (filter (\<lambda>(k, v). \<not> skipXattr k) xs)"

definition header :: "diff_options \<Rightarrow> name \<Rightarrow> tar_type \<Rightarrow> attrs \<Rightarrow> tar_entry" where
  "header opts p ty a =
     \<lparr>te_name = slash_name p, te_type = ty, te_linkname = [], te_mode = at_mode a, te_uid = at_uid a, te_gid = at_gid a,
      te_mtime = clamp (at_mtime a) (do_epoch opts), te_pax = addXattrs (at_xattrs a), te_body = [], te_bodyErr = None\<rparr>"

definition diff_prefix :: "diff_options \<Rightarrow> string" where
  "diff_prefix opts = (if do_xattrPrefix opts = [] then DefaultXattrPrefix else do_xattrPrefix opts)"

definition is_opaque :: "string \<Rightarrow> attrs \<Rightarrow> bool" where
  "is_opaque pre a = (map_of (at_xattrs a) (pre @ ''overlay.opaque'') = Some ''y'')"

definition reg_entry :: "diff_env \<Rightarrow> diff_options \<Rightarrow> (nat, name) gomap \<Rightarrow> name \<Rightarrow> attrs \<Rightarrow> string \<Rightarrow> tar_entry list \<times> (nat, name) gomap" where
  "reg_entry io opts links p a c =
     (let hdr = header opts p TypeReg a
      in if di_nlink io p > 1 then
           (case map_of links (di_ino io p) of
              Some first \<Rightarrow> ([hdr\<lparr>te_type := TypeLink, te_linkname := slash_name first\<rparr>], links)
            | None \<Rightarrow> ([hdr\<lparr>te_body := c\<rparr>], (di_ino io p, p) # links))
         else ([hdr\<lparr>te_body := c\<rparr>], links))"

definition diff_entry ::
  "diff_env \<Rightarrow> diff_options \<Rightarrow> (nat, name) gomap \<Rightarrow> name \<Rightarrow> inode \<Rightarrow> diff_error + tar_entry list \<times> (nat, name) gomap" where
  "diff_entry io opts links p n =
     (case di_fault io ''file'' p of
        Some e \<Rightarrow> Inl (DiffIO e)
      | None \<Rightarrow>
          (case n of
             White m \<Rightarrow> Inr ([marker (butlast p @ [whiteoutPrefix @ last p]) (clamp m (do_epoch opts))], links)
           | Sock \<Rightarrow> Inl (SocketErr p)
           | Dir a \<Rightarrow>
               Inr ((header opts p TypeDir a)\<lparr>te_name := slash_name p @ ''/''\<rparr> #
                 (if is_opaque (diff_prefix opts) a
                  then [marker (p @ [whiteoutOpaque]) (clamp (at_mtime a) (do_epoch opts))] else []), links)
           | Sym a target \<Rightarrow> Inr ([(header opts p TypeSymlink a)\<lparr>te_linkname := target, te_pax := []\<rparr>], links)
           | Reg a c \<Rightarrow> Inr (reg_entry io opts links p a c)
           | Fifo a \<Rightarrow> Inr ([header opts p TypeFifo a], links)
           | Device a x y \<Rightarrow> Inr ([header opts p TypeOther a], links)))"

fun diff_from ::
  "diff_env \<Rightarrow> diff_options \<Rightarrow> tree \<Rightarrow> (nat, name) gomap \<Rightarrow> name list \<Rightarrow> diff_error + tar_entry list" where
  "diff_from io opts t links [] = Inr []"
| "diff_from io opts t links (p # ps) =
     (case map_of t p of
        None \<Rightarrow> Inl (DiffIO ''no such file'')
      | Some n \<Rightarrow>
          bind_res (diff_entry io opts links p n) (\<lambda>(es, links1).
          bind_res (diff_from io opts t links1 ps) (\<lambda>rest. Inr (es @ rest))))"

text \<open>
  WalkDir visits a directory before what is in it, and the names of a directory in lexical order: that is the lexicographic
  order of the names as lists of components.
\<close>

definition walk_tree :: "tree \<Rightarrow> name list" where
  "walk_tree t = sort (filter (\<lambda>p. p \<noteq> []) (map fst t))"

definition Diff :: "diff_env \<Rightarrow> diff_options \<Rightarrow> tree \<Rightarrow> diff_error + tar_entry list" where
  "Diff io opts upper = diff_from io opts upper [] (walk_tree upper)"

record layer_descriptor =
  ld_digest :: string
  ld_diffID :: string
  ld_size :: nat

text \<open>\<open>tarred\<close> and \<open>gz\<close> are the tar and the gzip writer; a blob that cannot be written leaves nothing behind.\<close>

definition WriteBlob ::
  "(string \<Rightarrow> string) \<Rightarrow> (tar_entry list \<Rightarrow> string) \<Rightarrow> (string \<Rightarrow> string) \<Rightarrow> diff_env \<Rightarrow> diff_options \<Rightarrow> tree \<Rightarrow>
     diff_error + layer_descriptor \<times> string" where
  "WriteBlob sha tarred gz io opts upper =
     (case di_fault io ''createtemp'' [] of
        Some e \<Rightarrow> Inl (BlobIO e)
      | None \<Rightarrow>
          bind_res (Diff io opts upper) (\<lambda>es.
            let bytes = tarred es; blob = gz bytes
            in case di_fault io ''rename'' [] of
                 Some e \<Rightarrow> Inl (BlobIO e)
               | None \<Rightarrow> Inr (\<lparr>ld_digest = ''sha256:'' @ sha blob, ld_diffID = ''sha256:'' @ sha bytes, ld_size = length blob\<rparr>, blob)))"

end
