(* ===== verification/Layer_Props.thy ===== *)
theory Layer_Props
  imports Layer
begin

text \<open>
  A layer that is made from an upper directory and applied to an empty directory gives the upper directory back, whiteouts and
  opaque directories included.
\<close>

section \<open>Names without symbolic links\<close>

definition dirs_to :: "tree \<Rightarrow> name \<Rightarrow> bool" where
  "dirs_to t p \<longleftrightarrow> list_all plain p \<and> (\<forall>q. strict_prefix q p \<longrightarrow> (\<exists>a. map_of t q = Some (Dir a)))"

lemma dirs_to_butlast: "dirs_to t p \<Longrightarrow> dirs_to t (butlast p)"
  unfolding dirs_to_def
  by (metis append_butlast_last_id butlast.simps(1) list_all_append prefixeq_butlast prefix_order.less_le_trans)

lemma dirs_to_parent: "dirs_to t p \<Longrightarrow> p \<noteq> [] \<Longrightarrow> \<exists>a. map_of t (butlast p) = Some (Dir a)"
  unfolding dirs_to_def by (metis append_butlast_last_id not_Cons_self2 self_append_conv prefixeq_butlast strict_prefixI)

lemma locate_from_dirs:
  assumes "list_all plain parts"
    and "\<And>q. strict_prefix q parts \<Longrightarrow> q \<noteq> [] \<Longrightarrow> \<exists>a. map_of t (cur @ q) = Some (Dir a)"
    and "follow \<longrightarrow> (\<forall>a s. map_of t (cur @ parts) \<noteq> Some (Sym a s))"
  shows "locate_from limit t follow parts cur hops = Inr (cur @ parts)"
  using assms
proof (induction parts arbitrary: cur)
  case Nil
  show ?case by simp
next
  case (Cons c parts)
  have pl: "c \<noteq> []" "c \<noteq> ''.''" "c \<noteq> ''..''" using Cons.prems(1) by (auto simp: plain_def)
  show ?case
  proof (cases "parts = []")
    case True
    with pl Cons.prems(3) show ?thesis by (auto split: option.split inode.split)
  next
    case False
    then obtain a where a: "map_of t (cur @ [c]) = Some (Dir a)"
      using Cons.prems(2) [of "[c]"] by (auto simp: strict_prefix_def)
    have "locate_from limit t follow parts (cur @ [c]) hops = Inr ((cur @ [c]) @ parts)"
    proof (rule Cons.IH)
      show "list_all plain parts" using Cons.prems(1) by simp
      show "\<exists>a. map_of t ((cur @ [c]) @ q) = Some (Dir a)" if "strict_prefix q parts" "q \<noteq> []" for q
        using Cons.prems(2) [of "c # q"] that by simp
    qed (use Cons.prems(3) in simp)
    with a pl show ?thesis by simp
  qed
qed

lemma locate_dirs:
  assumes "dirs_to t p" and "follow \<longrightarrow> (\<forall>a s. map_of t p \<noteq> Some (Sym a s))"
  shows "locate h t follow p = Inr p"
  using assms locate_from_dirs [of p t "[]" follow] by (simp add: locate_def dirs_to_def)

definition no_faults :: "host \<Rightarrow> bool" where
  "no_faults h \<longleftrightarrow> (\<forall>op p. ho_fault h op p = None)"

lemma at_name_dirs:
  assumes "dirs_to t p" and "no_faults h" and "follow \<longrightarrow> (\<forall>a s. map_of t p \<noteq> Some (Sym a s))"
  shows "at_name h op follow p t = (case map_of t p of None \<Rightarrow> Inl NotExist | Some n \<Rightarrow> Inr (p, n))"
  using assms by (simp add: at_name_def no_faults_def locate_dirs)

text \<open>Two trees that differ at one name and in the times of directories.\<close>

fun untimed :: "inode \<Rightarrow> inode" where
  "untimed (Dir a) = Dir (a\<lparr>at_mtime := 0\<rparr>)"
| "untimed n = n"

definition same_but :: "name \<Rightarrow> tree \<Rightarrow> tree \<Rightarrow> bool" where
  "same_but p t t' \<longleftrightarrow> (\<forall>q. q \<noteq> p \<longrightarrow> map_option untimed (map_of t' q) = map_option untimed (map_of t q))"

lemma same_but_refl [simp]: "same_but p t t"
  by (simp add: same_but_def)

lemma same_but_trans: "same_but p t t1 \<Longrightarrow> same_but p t1 t2 \<Longrightarrow> same_but p t t2"
  by (simp add: same_but_def)

lemma same_but_update [simp]: "same_but p t (AList.update p n t)"
  by (simp add: same_but_def update_conv')

lemma untimed_Dir:
  assumes "map_option untimed (Some (Dir a)) = map_option untimed x"
  shows "\<exists>b. x = Some (Dir b)"
proof (cases x)
  case (Some n)
  with assms show ?thesis by (cases n) auto
qed (use assms in simp)

lemma same_but_Dir: "same_but p t t' \<Longrightarrow> q \<noteq> p \<Longrightarrow> map_of t q = Some (Dir a) \<Longrightarrow> \<exists>b. map_of t' q = Some (Dir b)"
  unfolding same_but_def by (metis untimed_Dir)

lemma dirs_to_same: "same_but p t t' \<Longrightarrow> dirs_to t p \<Longrightarrow> dirs_to t' p"
  unfolding dirs_to_def by (metis prefix_order.less_irrefl same_but_Dir)

lemma map_of_touch:
  "map_of (touch h d t) q = (case map_of t q of
     Some (Dir a) \<Rightarrow> Some (Dir (if q = d then a\<lparr>at_mtime := ho_now h\<rparr> else a)) | x \<Rightarrow> x)"
  by (auto simp: touch_def update_conv' split: option.split inode.split)

lemma same_but_touch [simp]: "same_but p t (touch h d t)"
  by (auto simp: same_but_def map_of_touch split: option.split inode.split)

lemma same_but_put [simp]: "same_but p t (put_new h p n t)"
  unfolding put_new_def by (rule same_but_trans [OF same_but_touch same_but_update])

lemma map_of_put [simp]: "map_of (put_new h p n t) p = Some n"
  by (simp add: put_new_def update_conv')

section \<open>The operations on such names\<close>

lemma Lstat_dirs:
  "dirs_to t p \<Longrightarrow> no_faults h \<Longrightarrow> root_Lstat h p t = (case map_of t p of None \<Rightarrow> Inl NotExist | Some n \<Rightarrow> Inr n)"
  by (simp add: root_Lstat_def at_name_dirs split: option.split)

lemma replace_dirs: "dirs_to t p \<Longrightarrow> no_faults h \<Longrightarrow> map_of t p = None \<Longrightarrow> replace h p t = (t, None)"
  by (simp add: replace_def Lstat_dirs)

lemma create_dirs:
  "dirs_to t p \<Longrightarrow> no_faults h \<Longrightarrow> p \<noteq> [] \<Longrightarrow> map_of t p = None \<Longrightarrow> create h op p n t = (put_new h p n t, None)"
  by (simp add: create_def no_faults_def locate_dirs)

lemma ensureDir_dirs: "dirs_to t d \<Longrightarrow> no_faults h \<Longrightarrow> map_of t d = Some (Dir a) \<Longrightarrow> ensureDir h d t = (t, None)"
  by (simp add: ensureDir_def root_Stat_def at_name_dirs)

lemma withParent_dirs: "dirs_to t p \<Longrightarrow> no_faults h \<Longrightarrow> withParent h p t = Inr p"
  using dirs_to_parent [of t p] dirs_to_butlast [of t p]
  by (auto simp: withParent_def at_name_dirs)

lemma change_dirs:
  assumes "dirs_to t p" and "no_faults h" and "map_of t p = Some n" and "follow \<longrightarrow> (\<forall>a s. n \<noteq> Sym a s)"
  shows "change h op follow p f t = (AList.update p (map_attrs f n) t, None)"
  using assms by (simp add: change_def at_name_dirs)

lemma Lchown_dirs:
  assumes "dirs_to t p" and "no_faults h" and "map_of t p = Some n"
  shows "root_Lchown h p uid gid t = (AList.update p (map_attrs (\<lambda>a. a\<lparr>at_uid := uid, at_gid := gid,
    at_mode := if is_dir n then at_mode a else clear_suid (at_mode a)\<rparr>) n) t, None)"
  using assms by (simp add: root_Lchown_def at_name_dirs)

lemma mknod_dirs:
  assumes "dirs_to t p" and "no_faults h" and "p \<noteq> []" and "map_of t p = None"
  shows "mknod_at h op p n t = (put_new h p n t, None)"
proof -
  have "last p \<noteq> ''..''" using assms(1,3) by (auto simp: dirs_to_def plain_def list_all_iff)
  with assms show ?thesis by (simp add: mknod_at_def withParent_dirs no_faults_def)
qed

definition xattr_allowed :: "inode \<Rightarrow> string \<Rightarrow> bool" where
  "xattr_allowed n key \<longleftrightarrow> has_prefix key ''user.'' \<longrightarrow> (case n of Dir _ \<Rightarrow> True | Reg _ _ \<Rightarrow> True | _ \<Rightarrow> False)"

lemma setXattr_dirs:
  assumes "dirs_to t p" and "no_faults h" and "map_of t p = Some n" and "xattr_allowed n key"
  shows "setXattrAt h p key v t =
    (AList.update p (map_attrs (\<lambda>a. a\<lparr>at_xattrs := AList.update key v (at_xattrs a)\<rparr>) n) t, None)"
  using assms by (auto simp: setXattrAt_def withParent_dirs no_faults_def xattr_allowed_def)

section \<open>The attributes of an entry\<close>

lemma update_fresh: "k \<notin> fst ` set xs \<Longrightarrow> AList.update k v xs = xs @ [(k, v)]"
  by (induction xs) auto

lemma tarMode_id:
  assumes "0 \<le> m" and "m < 4096"
  shows "tarMode m = m"
proof -
  let ?k = "m div 512"
  have d: "m div 1024 = ?k div 2" "m div 2048 = ?k div 4" by (simp_all flip: zdiv_zmult2_eq)
  have m: "m = m mod 512 + 512 * ?k" by simp
  have "0 \<le> ?k" "?k < 8" using assms by auto
  then consider "?k = 0" | "?k = 1" | "?k = 2" | "?k = 3" | "?k = 4" | "?k = 5" | "?k = 6" | "?k = 7" by linarith
  then have "tarMode m = m mod 512 + 512 * ?k" unfolding tarMode_def d by cases simp_all
  with m show ?thesis by simp
qed

lemma set_xattrs_dirs:
  assumes "dirs_to (ap_tree a) p" and "no_faults h" and "map_of (ap_tree a) p = Some n"
    and "list_all (\<lambda>(k, v). \<not> skipXattr k \<longrightarrow> xattr_allowed n k) xs"
    and "distinct (map fst xs)"
  shows "\<exists>t'. set_xattrs h p (addXattrs xs) a = (a\<lparr>ap_tree := t'\<rparr>, None) \<and> same_but p (ap_tree a) t' \<and>
    map_of t' p = Some (map_attrs (\<lambda>x. x\<lparr>at_xattrs := foldl (\<lambda>ys (k, v). AList.update k v ys) (at_xattrs x)
      (filter (\<lambda>(k, v). \<not> skipXattr k) xs)\<rparr>) n)"
  using assms
proof (induction xs arbitrary: a n)
  case Nil
  have "map_attrs (\<lambda>x. x) n = n" by (cases n) simp_all
  with Nil show ?case by (intro exI [of _ "ap_tree a"]) (simp add: addXattrs_def)
next
  case (Cons kv xs)
  obtain k v where kv: "kv = (k, v)" by force
  show ?case
  proof (cases "skipXattr k")
    case True
    with Cons kv show ?thesis by (simp add: addXattrs_def)
  next
    case False
    let ?n = "map_attrs (\<lambda>x. x\<lparr>at_xattrs := AList.update k v (at_xattrs x)\<rparr>) n"
    let ?t = "AList.update p ?n (ap_tree a)"
    let ?a = "a\<lparr>ap_tree := ?t\<rparr>"
    have "xattr_allowed n k" using Cons.prems(4) kv False by simp
    then have x: "setXattrAt h p k v (ap_tree a) = (?t, None)" by (rule setXattr_dirs [OF Cons.prems(1-3)])
    have "xattr_allowed ?n = xattr_allowed n" by (cases n) (auto simp: xattr_allowed_def fun_eq_iff)
    then obtain t' where t': "set_xattrs h p (addXattrs xs) ?a = (?a\<lparr>ap_tree := t'\<rparr>, None)" "same_but p ?t t'"
      "map_of t' p = Some (map_attrs (\<lambda>x. x\<lparr>at_xattrs := foldl (\<lambda>ys (k, v). AList.update k v ys) (at_xattrs x)
        (filter (\<lambda>(k, v). \<not> skipXattr k) xs)\<rparr>) ?n)"
      using Cons.IH [of ?a ?n] Cons.prems dirs_to_same [OF same_but_update Cons.prems(1)] kv by (auto simp: update_conv')
    have "map_attrs f (map_attrs g m) = map_attrs (f \<circ> g) m" for f g m by (cases m) simp_all
    moreover have "same_but p (ap_tree a) t'" by (rule same_but_trans [OF same_but_update t'(2)])
    ultimately show ?thesis
      using t' x kv False by (auto simp: addXattrs_def has_prefix_def comp_def)
  qed
qed

lemma foldl_update_distinct:
  "distinct (map fst (ys @ xs)) \<Longrightarrow> foldl (\<lambda>ys (k, v). AList.update k v ys) ys xs = ys @ xs"
proof (induction xs arbitrary: ys)
  case (Cons kv xs)
  have "foldl (\<lambda>ys (k, v). AList.update k v ys) (ys @ [kv]) xs = (ys @ [kv]) @ xs" by (rule Cons.IH) (use Cons.prems in auto)
  moreover have "(case kv of (k, v) \<Rightarrow> AList.update k v ys) = ys @ [kv]"
    using Cons.prems by (cases kv) (auto simp: update_fresh)
  ultimately show ?case by simp
qed simp

lemma distinct_filter_fst: "distinct (map fst xs) \<Longrightarrow> distinct (map fst (filter P xs))"
  by (induction xs) auto

definition given :: "tar_entry \<Rightarrow> (string, string) gomap \<Rightarrow> int \<Rightarrow> attrs" where
  "given hdr xs mtime =
     \<lparr>at_uid = te_uid hdr, at_gid = te_gid hdr, at_mode = tarMode (te_mode hdr), at_mtime = mtime,
      at_xattrs = filter (\<lambda>(k, v). \<not> skipXattr k) xs\<rparr>"

lemma map_attrs_comp: "map_attrs f (map_attrs g m) = map_attrs (f \<circ> g) m"
  by (cases m) simp_all

lemma metadata_dirs:
  assumes d: "dirs_to (ap_tree a) p" and q: "no_faults h" and n: "map_of (ap_tree a) p = Some n"
    and opts: "ao_chown opts" "ao_idMap opts = None"
    and hdr: "te_type hdr \<noteq> TypeSymlink" "te_pax hdr = addXattrs xs" "(te_type hdr = TypeDir) = is_dir n"
    and xs: "list_all (\<lambda>(k, v). \<not> skipXattr k \<longrightarrow> xattr_allowed n k) xs" "distinct (map fst xs)"
    and fresh: "\<And>b s. n \<noteq> Sym b s" "\<And>f g. (\<And>x. at_xattrs x = [] \<Longrightarrow> f x = g x) \<Longrightarrow> map_attrs f n = map_attrs g n"
  shows "\<exists>t'. metadata h opts p hdr a = (a\<lparr>ap_tree := t'\<rparr>, None) \<and> same_but p (ap_tree a) t' \<and>
    map_of t' p = Some (map_attrs (\<lambda>x. given hdr xs (if is_dir n then at_mtime x else te_mtime hdr)) n)"
proof -
  let ?chown = "\<lambda>x. x\<lparr>at_uid := te_uid hdr, at_gid := te_gid hdr,
    at_mode := if is_dir n then at_mode x else clear_suid (at_mode x)\<rparr>"
  let ?chmod = "\<lambda>x. x\<lparr>at_mode := tarMode (te_mode hdr)\<rparr>"
  let ?n2 = "map_attrs (?chmod \<circ> ?chown) n"
  let ?t1 = "AList.update p (map_attrs ?chown n) (ap_tree a)"
  let ?t2 = "AList.update p ?n2 ?t1"
  let ?xs = "\<lambda>x. x\<lparr>at_xattrs := foldl (\<lambda>ys (k, v). AList.update k v ys) (at_xattrs x) (filter (\<lambda>(k, v). \<not> skipXattr k) xs)\<rparr>"
  have sym: "\<And>f b s. map_attrs f n \<noteq> Sym b s" using fresh(1) by (cases n) auto
  have c: "root_Lchown h p (te_uid hdr) (te_gid hdr) (ap_tree a) = (?t1, None)" by (rule Lchown_dirs [OF d q n])
  have d1: "dirs_to ?t1 p" by (rule dirs_to_same [OF same_but_update d])
  have m: "root_Chmod h p (tarMode (te_mode hdr)) ?t1 = (?t2, None)"
    unfolding root_Chmod_def using change_dirs [OF d1 q, of "map_attrs ?chown n" True] sym by (simp add: update_conv' map_attrs_comp)
  have d2: "dirs_to ?t2 p" by (rule dirs_to_same [OF same_but_update d1])
  have al: "xattr_allowed ?n2 = xattr_allowed n" by (cases n) (auto simp: xattr_allowed_def fun_eq_iff)
  obtain t3 where x: "set_xattrs h p (te_pax hdr) (a\<lparr>ap_tree := ?t2\<rparr>) = (a\<lparr>ap_tree := t3\<rparr>, None)" "same_but p ?t2 t3"
      "map_of t3 p = Some (map_attrs ?xs ?n2)"
    using set_xattrs_dirs [of "a\<lparr>ap_tree := ?t2\<rparr>" p h ?n2 xs] d2 q xs al hdr(2) by (auto simp: update_conv')
  have s3: "same_but p (ap_tree a) t3"
    by (rule same_but_trans [OF same_but_update same_but_trans [OF same_but_update x(2)]])
  have fl: "foldl (\<lambda>ys (k, v). AList.update k v ys) [] (filter (\<lambda>(k, v). \<not> skipXattr k) xs) = filter (\<lambda>(k, v). \<not> skipXattr k) xs"
    using foldl_update_distinct [of "[]" "filter (\<lambda>(k, v). \<not> skipXattr k) xs"]
      distinct_filter_fst [OF xs(2), of "\<lambda>(k, v). \<not> skipXattr k"] by simp
  have n3: "map_attrs ?xs ?n2 = map_attrs (\<lambda>x. given hdr xs (at_mtime x)) n"
    unfolding map_attrs_comp by (rule fresh(2)) (simp add: given_def fl)
  have pre: "metadata h opts p hdr a =
    (if te_type hdr \<noteq> TypeDir then on_tree (root_Chtimes h p (te_mtime hdr)) (a\<lparr>ap_tree := t3\<rparr>) else (a\<lparr>ap_tree := t3\<rparr>, None))"
    using hdr(1) opts c m x(1) by (simp add: metadata_def chown_step_def and_then_def on_tree_def)
  show ?thesis
  proof (cases "is_dir n")
    case True
    with pre hdr(3) s3 x(3) n3 show ?thesis by auto
  next
    case False
    let ?n4 = "map_attrs (\<lambda>x. x\<lparr>at_mtime := te_mtime hdr\<rparr>) (map_attrs ?xs ?n2)"
    have d3: "dirs_to t3 p" by (rule dirs_to_same [OF x(2) d2])
    have "root_Chtimes h p (te_mtime hdr) t3 = (AList.update p ?n4 t3, None)"
      unfolding root_Chtimes_def using change_dirs [OF d3 q x(3), of True] sym by (simp add: map_attrs_comp)
    moreover have "?n4 = map_attrs (\<lambda>x. given hdr xs (te_mtime hdr)) n"
      unfolding n3 map_attrs_comp by (rule fresh(2)) (simp add: given_def fl)
    moreover have "same_but p (ap_tree a) (AList.update p ?n4 t3)" by (rule same_but_trans [OF s3 same_but_update])
    ultimately show ?thesis using False pre hdr(3) by (auto simp: on_tree_def update_conv')
  qed
qed

section \<open>Entries\<close>

definition layer_name :: "name \<Rightarrow> bool" where
  "layer_name p \<longleftrightarrow> list_all (\<lambda>c. plain c \<and> CHR 0x5C \<notin> set c) p"

lemma layer_name_plain: "layer_name p \<Longrightarrow> list_all plain p"
  by (simp add: layer_name_def list_all_iff)

lemma slash_name_set: "layer_name p \<Longrightarrow> CHR 0x5C \<notin> set (slash_name p)"
  unfolding slash_name_def layer_name_def
  by (induction "''/''" p rule: join_with.induct) auto

lemma unslashed: "CHR 0x5C \<notin> set s \<Longrightarrow> map (\<lambda>c. if c = CHR 0x5C then CHR ''/'' else c) s = s"
  by (induction s) auto

lemma cleanName_slash:
  assumes "layer_name p"
  shows "cleanName (slash_name p) = p" and "cleanName (slash_name p @ ''/'') = p"
proof -
  have e: "path_elems (CHR ''/'' # slash_name p) = p"
    using path_elems_render [OF layer_name_plain [OF assms]] by (simp add: render_abs_def slash_name_def)
  then show "cleanName (slash_name p) = p" by (simp add: cleanName_def unslashed slash_name_set [OF assms])
  have "path_elems ((CHR ''/'' # slash_name p) @ CHR ''/'' # []) = p" unfolding path_elems_snoc e by simp
  then show "cleanName (slash_name p @ ''/'') = p" by (simp add: cleanName_def unslashed slash_name_set [OF assms])
qed

text \<open>The place of a new entry: its parents are directories and nothing is there.\<close>

definition vacant :: "name \<Rightarrow> applier \<Rightarrow> bool" where
  "vacant p a \<longleftrightarrow> dirs_to (ap_tree a) p \<and> p \<noteq> [] \<and> map_of (ap_tree a) p = None"

definition overlay_opts :: "apply_options \<Rightarrow> bool" where
  "overlay_opts opts \<longleftrightarrow> ao_mode opts = ModeOverlay \<and> ao_chown opts \<and> ao_idMap opts = None"

lemma vacant_parent:
  assumes "vacant p a" and "no_faults h"
  shows "(if butlast p \<noteq> [] then on_tree (ensureDir h (butlast p)) a else (a, None)) = (a, None)"
proof -
  obtain b where "map_of (ap_tree a) (butlast p) = Some (Dir b)"
    using assms(1) dirs_to_parent unfolding vacant_def by blast
  with assms show ?thesis
    by (simp add: on_tree_def vacant_def ensureDir_dirs [OF dirs_to_butlast])
qed

text \<open>An entry that lands: it makes \<open>n\<close> at \<open>p\<close>, leaves the rest alone, and asks for the time of a directory.\<close>

definition lands :: "name \<Rightarrow> inode \<Rightarrow> (name \<times> int) list \<Rightarrow> applier \<Rightarrow> applier \<times> 'e option \<Rightarrow> bool" where
  "lands p n tms a r \<longleftrightarrow> (\<exists>a'. r = (a', None) \<and> same_but p (ap_tree a) (ap_tree a') \<and>
     map_option untimed (map_of (ap_tree a') p) = Some (untimed n) \<and> ap_opaques a' = ap_opaques a \<and>
     ap_dirTimes a' = ap_dirTimes a @ tms)"

lemma entry_at:
  assumes "vacant p a" and "no_faults h" and "cleanName (te_name hdr) = p" and "\<not> has_prefix (last p) whiteoutPrefix"
  shows "te_type hdr = TypeDir \<Longrightarrow> apply_entry h opts hdr a = made h opts p hdr (dir_entry h p (te_mtime hdr) a)"
    and "te_type hdr = TypeReg \<Longrightarrow> apply_entry h opts hdr a = made h opts p hdr (file_entry h p hdr a)"
    and "te_type hdr = TypeSymlink \<Longrightarrow> apply_entry h opts hdr a = made h opts p hdr
        (and_then (on_tree (replace h p) a) (on_tree (root_Symlink h (te_linkname hdr) p)))"
    and "te_type hdr = TypeLink \<Longrightarrow> apply_entry h opts hdr a = link_entry h p hdr a"
    and "te_type hdr = TypeFifo \<Longrightarrow> apply_entry h opts hdr a = made h opts p hdr
        (and_then (on_tree (replace h p) a) (on_tree (mkfifoAt h p (te_mode hdr mod 4096))))"
  using assms(3,4) vacant_parent [OF assms(1,2)] assms(1) by (simp_all add: apply_entry_def and_then_def vacant_def)

lemma made_lands:
  assumes v: "vacant p a" and q: "no_faults h" and o: "overlay_opts opts"
    and r: "r = (a\<lparr>ap_tree := put_new h p n (ap_tree a), ap_dirTimes := ap_dirTimes a @ tms\<rparr>, None)"
    and hdr: "te_type hdr \<noteq> TypeSymlink" "te_pax hdr = addXattrs xs" "(te_type hdr = TypeDir) = is_dir n"
    and xs: "list_all (\<lambda>(k, v). \<not> skipXattr k \<longrightarrow> xattr_allowed n k) xs" "distinct (map fst xs)"
    and n: "n = Dir b \<or> n = Reg b c \<or> n = Fifo b" "at_xattrs b = []"
  shows "lands p (map_attrs (\<lambda>x. given hdr xs (te_mtime hdr)) n) tms a (made h opts p hdr r)"
proof -
  let ?a = "markWritten p (a\<lparr>ap_tree := put_new h p n (ap_tree a), ap_dirTimes := ap_dirTimes a @ tms\<rparr>)"
  have d: "dirs_to (ap_tree ?a) p"
    using dirs_to_same [OF same_but_put] v by (simp add: markWritten_def vacant_def)
  have n2: "map_of (ap_tree ?a) p = Some n" by (simp add: markWritten_def)
  have f1: "n \<noteq> Sym b0 s" for b0 s using n(1) by auto
  have f2: "map_attrs f n = map_attrs g n" if "\<And>x. at_xattrs x = [] \<Longrightarrow> f x = g x" for f g
    using n that by auto
  obtain t' where t': "metadata h opts p hdr ?a = (?a\<lparr>ap_tree := t'\<rparr>, None)" "same_but p (ap_tree ?a) t'"
    "map_of t' p = Some (map_attrs (\<lambda>x. given hdr xs (if is_dir n then at_mtime x else te_mtime hdr)) n)"
    using metadata_dirs [OF d q n2 _ _ hdr xs f1 f2, of opts] o by (auto simp: overlay_opts_def)
  have "same_but p (ap_tree a) t'"
    by (rule same_but_trans [OF same_but_put]) (use t'(2) in \<open>simp add: markWritten_def\<close>)
  moreover have "untimed (map_attrs (\<lambda>x. given hdr xs (if is_dir n then at_mtime x else te_mtime hdr)) n) =
      untimed (map_attrs (\<lambda>x. given hdr xs (te_mtime hdr)) n)"
    using n(1) by (auto simp: given_def)
  ultimately show ?thesis using t' r by (simp add: lands_def made_def and_then_def markWritten_def)
qed

section \<open>What a layer keeps of a file\<close>

definition kept_attrs :: "diff_options \<Rightarrow> attrs \<Rightarrow> attrs" where
  "kept_attrs opts a = a\<lparr>at_mtime := clamp (at_mtime a) (do_epoch opts), at_xattrs := filter (\<lambda>(k, v). \<not> skipXattr k) (at_xattrs a)\<rparr>"

fun kept_node :: "host \<Rightarrow> diff_options \<Rightarrow> inode \<Rightarrow> inode" where
  "kept_node h opts (Dir a) = Dir ((kept_attrs opts a)\<lparr>at_xattrs := at_xattrs (kept_attrs opts a) @
     (if is_opaque (diff_prefix opts) a then [(diff_prefix opts @ ''overlay.opaque'', ''y'')] else [])\<rparr>)"
| "kept_node h opts (Reg a c) = Reg (kept_attrs opts a) c"
| "kept_node h opts (Sym a s) = Sym \<lparr>at_uid = at_uid a, at_gid = at_gid a, at_mode = 511, at_mtime = ho_now h, at_xattrs = []\<rparr> s"
| "kept_node h opts (Fifo a) = Fifo (kept_attrs opts a)"
| "kept_node h opts (White m) = White (ho_now h)"
| "kept_node h opts n = n"

definition attrs_ok :: "attrs \<Rightarrow> bool" where
  "attrs_ok a \<longleftrightarrow> 0 \<le> at_mode a \<and> at_mode a < 4096 \<and> distinct (map fst (at_xattrs a))"

fun node_ok :: "inode \<Rightarrow> bool" where
  "node_ok (Dir a) = attrs_ok a"
| "node_ok (Reg a c) = attrs_ok a"
| "node_ok (Sym a s) = True"
| "node_ok (Fifo a) = (attrs_ok a \<and> list_all (\<lambda>(k, v). \<not> has_prefix k ''user.'') (at_xattrs a))"
| "node_ok (White m) = True"
| "node_ok n = False"

lemma given_kept:
  "attrs_ok b \<Longrightarrow> given ((header opts p ty b)\<lparr>te_name := nm\<rparr>) (at_xattrs b) (clamp (at_mtime b) (do_epoch opts)) = kept_attrs opts b"
  "attrs_ok b \<Longrightarrow> given ((header opts p ty b)\<lparr>te_body := c\<rparr>) (at_xattrs b) (clamp (at_mtime b) (do_epoch opts)) = kept_attrs opts b"
  "attrs_ok b \<Longrightarrow> given (header opts p ty b) (at_xattrs b) (clamp (at_mtime b) (do_epoch opts)) = kept_attrs opts b"
  by (simp_all add: given_def kept_attrs_def header_def tarMode_id attrs_ok_def)

lemma all_allowed: "list_all (\<lambda>(k, v). \<not> skipXattr k \<longrightarrow> xattr_allowed (Dir b) k) xs"
    "list_all (\<lambda>(k, v). \<not> skipXattr k \<longrightarrow> xattr_allowed (Reg b c) k) xs"
    "list_all (\<lambda>(k, v). \<not> has_prefix k ''user.'') xs \<Longrightarrow> list_all (\<lambda>(k, v). \<not> skipXattr k \<longrightarrow> xattr_allowed (Fifo b) k) xs"
  by (auto simp: xattr_allowed_def list_all_iff)

lemma dir_lands:
  assumes "vacant p a" and "no_faults h" and "overlay_opts opts" and "layer_name p" and "\<not> has_prefix (last p) whiteoutPrefix" and "attrs_ok b"
  shows "lands p (Dir (kept_attrs dopts b)) [(p, clamp (at_mtime b) (do_epoch dopts))] a
    (apply_entry h opts ((header dopts p TypeDir b)\<lparr>te_name := slash_name p @ ''/''\<rparr>) a)"
proof -
  let ?hdr = "(header dopts p TypeDir b)\<lparr>te_name := slash_name p @ ''/''\<rparr>"
  let ?n = "Dir (new_attrs h 448)"
  have "dir_entry h p (te_mtime ?hdr) a =
      (a\<lparr>ap_tree := put_new h p ?n (ap_tree a), ap_dirTimes := ap_dirTimes a @ [(p, te_mtime ?hdr)]\<rparr>, None)"
    using assms(1,2) by (simp add: dir_entry_def vacant_def Lstat_dirs and_then_def root_Mkdir_def create_dirs)
  then have "lands p (map_attrs (\<lambda>x. given ?hdr (at_xattrs b) (te_mtime ?hdr)) ?n) [(p, te_mtime ?hdr)] a
      (made h opts p ?hdr (dir_entry h p (te_mtime ?hdr) a))"
    by (rule made_lands [OF assms(1-3)]) (use assms(6) in \<open>auto simp: header_def all_allowed attrs_ok_def new_attrs_def\<close>)
  moreover have "apply_entry h opts ?hdr a = made h opts p ?hdr (dir_entry h p (te_mtime ?hdr) a)"
    by (rule entry_at(1) [OF assms(1,2)]) (use assms in \<open>auto simp: cleanName_slash header_def\<close>)
  ultimately show ?thesis using given_kept(1) [OF assms(6), where opts = dopts and ty = TypeDir] by (simp add: header_def)
qed

lemma file_lands:
  assumes "vacant p a" and "no_faults h" and "overlay_opts opts" and "layer_name p" and "\<not> has_prefix (last p) whiteoutPrefix" and "attrs_ok b"
  shows "lands p (Reg (kept_attrs dopts b) c) [] a (apply_entry h opts ((header dopts p TypeReg b)\<lparr>te_body := c\<rparr>) a)"
proof -
  let ?hdr = "(header dopts p TypeReg b)\<lparr>te_body := c\<rparr>"
  let ?n = "Reg (new_attrs h 384) c"
  have "file_entry h p ?hdr a = (a\<lparr>ap_tree := put_new h p ?n (ap_tree a), ap_dirTimes := ap_dirTimes a @ []\<rparr>, None)"
    using assms(1,2) by (simp add: file_entry_def vacant_def replace_dirs and_then_def on_tree_def create_dirs header_def no_faults_def)
  then have "lands p (map_attrs (\<lambda>x. given ?hdr (at_xattrs b) (te_mtime ?hdr)) ?n) [] a (made h opts p ?hdr (file_entry h p ?hdr a))"
    by (rule made_lands [OF assms(1-3)]) (use assms(6) in \<open>auto simp: header_def all_allowed attrs_ok_def new_attrs_def\<close>)
  moreover have "apply_entry h opts ?hdr a = made h opts p ?hdr (file_entry h p ?hdr a)"
    by (rule entry_at(2) [OF assms(1,2)]) (use assms in \<open>auto simp: cleanName_slash header_def\<close>)
  ultimately show ?thesis using given_kept(2) [OF assms(6), where opts = dopts and ty = TypeReg] by (simp add: header_def)
qed

lemma fifo_lands:
  assumes "vacant p a" and "no_faults h" and "overlay_opts opts" and "layer_name p" and "\<not> has_prefix (last p) whiteoutPrefix"
    and "node_ok (Fifo b)"
  shows "lands p (Fifo (kept_attrs dopts b)) [] a (apply_entry h opts (header dopts p TypeFifo b) a)"
proof -
  let ?hdr = "header dopts p TypeFifo b"
  let ?n = "Fifo (new_attrs h (te_mode ?hdr mod 4096))"
  let ?r = "and_then (on_tree (replace h p) a) (on_tree (mkfifoAt h p (te_mode ?hdr mod 4096)))"
  have "?r = (a\<lparr>ap_tree := put_new h p ?n (ap_tree a), ap_dirTimes := ap_dirTimes a @ []\<rparr>, None)"
    using assms(1,2) by (simp add: vacant_def replace_dirs and_then_def on_tree_def mkfifoAt_def mknod_dirs)
  then have "lands p (map_attrs (\<lambda>x. given ?hdr (at_xattrs b) (te_mtime ?hdr)) ?n) [] a (made h opts p ?hdr ?r)"
    by (rule made_lands [OF assms(1-3)]) (use assms(6) in \<open>auto simp: header_def all_allowed attrs_ok_def new_attrs_def\<close>)
  moreover have "apply_entry h opts ?hdr a = made h opts p ?hdr ?r"
    by (rule entry_at(5) [OF assms(1,2)]) (use assms in \<open>auto simp: cleanName_slash header_def\<close>)
  ultimately show ?thesis using given_kept(3) [of b dopts p TypeFifo] assms(6) by (simp add: header_def)
qed

lemma sym_lands:
  assumes "vacant p a" and "no_faults h" and "overlay_opts opts" and "layer_name p" and "\<not> has_prefix (last p) whiteoutPrefix"
  shows "lands p (kept_node h dopts (Sym b s)) [] a (apply_entry h opts ((header dopts p TypeSymlink b)\<lparr>te_linkname := s, te_pax := []\<rparr>) a)"
proof -
  let ?hdr = "(header dopts p TypeSymlink b)\<lparr>te_linkname := s, te_pax := []\<rparr>"
  let ?n = "Sym ((new_attrs h 0)\<lparr>at_mode := 511\<rparr>) s"
  let ?t = "put_new h p ?n (ap_tree a)"
  have "apply_entry h opts ?hdr a = made h opts p ?hdr (and_then (on_tree (replace h p) a) (on_tree (root_Symlink h (te_linkname ?hdr) p)))"
    by (rule entry_at(3) [OF assms(1,2)]) (use assms in \<open>auto simp: cleanName_slash header_def\<close>)
  also have "and_then (on_tree (replace h p) a) (on_tree (root_Symlink h (te_linkname ?hdr) p)) = (a\<lparr>ap_tree := ?t\<rparr>, None)"
    using assms(1,2) by (simp add: vacant_def replace_dirs and_then_def on_tree_def root_Symlink_def create_dirs)
  finally have e: "apply_entry h opts ?hdr a = metadata h opts p ?hdr (markWritten p (a\<lparr>ap_tree := ?t\<rparr>))" by (simp add: made_def and_then_def)
  have "dirs_to ?t p" using dirs_to_same [OF same_but_put] assms(1) by (simp add: vacant_def)
  from Lchown_dirs [OF this assms(2) map_of_put] e assms(3) show ?thesis
    using same_but_trans [OF same_but_put same_but_update]
    by (simp add: lands_def metadata_def chown_step_def overlay_opts_def and_then_def on_tree_def markWritten_def header_def
        update_conv' new_attrs_def clear_suid_def)
qed

lemma link_lands:
  assumes "vacant p a" and "no_faults h" and "layer_name p" and "\<not> has_prefix (last p) whiteoutPrefix"
    and "dirs_to (ap_tree a) first" and "map_of (ap_tree a) first = Some n" and "\<not> is_dir n" and "layer_name first" and "first \<noteq> []"
  shows "lands p n [] a (apply_entry h opts ((header dopts p TypeReg b)\<lparr>te_type := TypeLink, te_linkname := slash_name first\<rparr>) a)"
proof -
  let ?hdr = "(header dopts p TypeReg b)\<lparr>te_type := TypeLink, te_linkname := slash_name first\<rparr>"
  have "apply_entry h opts ?hdr a = link_entry h p ?hdr a"
    by (rule entry_at(4) [OF assms(1,2)]) (use assms in \<open>auto simp: cleanName_slash header_def\<close>)
  moreover have "root_Link h first p (ap_tree a) = (put_new h p n (ap_tree a), None)"
    using assms by (simp add: root_Link_def at_name_dirs create_dirs vacant_def)
  ultimately show ?thesis
    using assms by (simp add: link_entry_def cleanName_slash vacant_def replace_dirs and_then_def on_tree_def lands_def markWritten_def)
qed

lemma whiteout_name:
  assumes "layer_name p" and "p \<noteq> []"
  shows "cleanName (slash_name (butlast p @ [whiteoutPrefix @ last p])) = butlast p @ [whiteoutPrefix @ last p]"
proof -
  have "layer_name (butlast p @ [last p])" using assms by simp
  then have "layer_name (butlast p @ [whiteoutPrefix @ last p])" by (simp add: layer_name_def plain_def whiteoutPrefix_def)
  then show ?thesis by (rule cleanName_slash)
qed

lemma white_lands:
  assumes "vacant p a" and "no_faults h" and "overlay_opts opts" and "layer_name p" and "\<not> has_prefix (last p) whiteoutPrefix"
  shows "lands p (White (ho_now h)) [] a (apply_entry h opts (marker (butlast p @ [whiteoutPrefix @ last p]) m) a)"
proof -
  have np: "p \<noteq> []" using assms(1) by (simp add: vacant_def)
  let ?base = "whiteoutPrefix @ last p"
  have b: "has_prefix ?base whiteoutPrefix" "?base \<noteq> whiteoutOpaque" "\<not> has_prefix ?base whiteoutMeta" "trim_prefix ?base whiteoutPrefix = last p"
    using assms(5) by (auto simp: has_prefix_def whiteoutPrefix_def whiteoutOpaque_def whiteoutMeta_def trim_prefix_def)
  have c: "clean_elems False [] (butlast p @ [last p]) = p"
    using np clean_elems_plain [OF layer_name_plain [OF assms(4)]] by simp
  have "apply_entry h opts (marker (butlast p @ [?base]) m) a = whiteout h opts (butlast p) ?base a"
    using whiteout_name [OF assms(4) np] b(1) by (simp add: apply_entry_def marker_def Let_def)
  also have "\<dots> = (a\<lparr>ap_tree := put_new h p (White (ho_now h)) (ap_tree a)\<rparr>, None)"
    using vacant_parent [OF assms(1,2)] b(2-) c np assms(1-3)
    by (simp add: whiteout_def and_then_def vacant_def on_tree_def replace_dirs mkWhiteoutAt_def mknod_dirs overlay_opts_def Let_def)
  finally show ?thesis by (simp add: lands_def)
qed

lemma opaque_marks:
  assumes "dirs_to (ap_tree a) p" and "p \<noteq> []" and "no_faults h" and "overlay_opts opts" and "layer_name p" and "map_of (ap_tree a) p = Some (Dir b)"
  shows "apply_entry h opts (marker (p @ [whiteoutOpaque]) m) a =
    (a\<lparr>ap_tree := AList.update p (Dir (b\<lparr>at_xattrs := AList.update (xattrPrefix opts @ ''overlay.opaque'') ''y'' (at_xattrs b)\<rparr>))
      (ap_tree a)\<rparr>, None)"
proof -
  have "layer_name (p @ [whiteoutOpaque])" using assms(5) by (simp add: layer_name_def plain_def whiteoutOpaque_def)
  then have "apply_entry h opts (marker (p @ [whiteoutOpaque]) m) a = whiteout h opts p whiteoutOpaque a"
    by (simp add: apply_entry_def marker_def cleanName_slash Let_def has_prefix_def whiteoutOpaque_def whiteoutPrefix_def)
  with assms show ?thesis
    by (simp add: whiteout_def and_then_def on_tree_def ensureDir_dirs overlay_opts_def setXattr_dirs xattr_allowed_def)
qed

section \<open>The entries of one file\<close>

primrec run_entries :: "host \<Rightarrow> apply_options \<Rightarrow> tar_entry list \<Rightarrow> applier \<Rightarrow> applier \<times> entry_error option" where
  "run_entries h opts [] a = (a, None)"
| "run_entries h opts (e # es) a = and_then (apply_entry h opts e a) (run_entries h opts es)"

lemma and_then_nil [simp]: "and_then r (run_entries h opts []) = r"
  by (auto simp: and_then_def split: prod.split option.split)

definition dir_times :: "diff_options \<Rightarrow> name \<Rightarrow> inode \<Rightarrow> (name \<times> int) list" where
  "dir_times dopts p n = (case n of Dir b \<Rightarrow> [(p, clamp (at_mtime b) (do_epoch dopts))] | _ \<Rightarrow> [])"

lemma dir_entries_land:
  assumes "vacant p a" and "no_faults h" and "overlay_opts opts" and "layer_name p" and "\<not> has_prefix (last p) whiteoutPrefix" and "attrs_ok b"
    and "xattrPrefix opts = diff_prefix dopts" and "skipXattr (diff_prefix dopts @ ''overlay.opaque'')"
  shows "lands p (kept_node h dopts (Dir b)) [(p, clamp (at_mtime b) (do_epoch dopts))] a
    (run_entries h opts ((header dopts p TypeDir b)\<lparr>te_name := slash_name p @ ''/''\<rparr> #
      (if is_opaque (diff_prefix dopts) b then [marker (p @ [whiteoutOpaque]) m] else [])) a)"
proof -
  let ?e = "(header dopts p TypeDir b)\<lparr>te_name := slash_name p @ ''/''\<rparr>"
  let ?key = "diff_prefix dopts @ ''overlay.opaque''"
  from dir_lands [OF assms(1-6), of dopts] obtain a1 where a1: "apply_entry h opts ?e a = (a1, None)" "same_but p (ap_tree a) (ap_tree a1)"
    "map_option untimed (map_of (ap_tree a1) p) = Some (untimed (Dir (kept_attrs dopts b)))"
    "ap_opaques a1 = ap_opaques a" "ap_dirTimes a1 = ap_dirTimes a @ [(p, clamp (at_mtime b) (do_epoch dopts))]"
    unfolding lands_def by blast
  show ?thesis
  proof (cases "is_opaque (diff_prefix dopts) b")
    case False
    with a1 show ?thesis by (simp add: lands_def and_then_def)
  next
    case True
    obtain c where c: "map_of (ap_tree a1) p = Some (Dir c)" using untimed_Dir [of "kept_attrs dopts b" "map_of (ap_tree a1) p"] a1(3) by auto
    then have cb: "c\<lparr>at_mtime := 0\<rparr> = (kept_attrs dopts b)\<lparr>at_mtime := 0\<rparr>" using a1(3) by simp
    then have xs: "at_xattrs c = at_xattrs (kept_attrs dopts b)" by (cases c; cases "kept_attrs dopts b") simp
    have d: "dirs_to (ap_tree a1) p" "p \<noteq> []" using dirs_to_same [OF a1(2)] assms(1) by (auto simp: vacant_def)
    have "?key \<notin> fst ` set (at_xattrs c)" unfolding xs using assms(8) by (auto simp: kept_attrs_def)
    then have "AList.update ?key ''y'' (at_xattrs c) = at_xattrs (kept_attrs dopts b) @ [(?key, ''y'')]"
      unfolding xs by (rule update_fresh)
    moreover have "c\<lparr>at_xattrs := ys, at_mtime := 0\<rparr> = (kept_attrs dopts b)\<lparr>at_xattrs := ys, at_mtime := 0\<rparr>" for ys
      using cb by (cases c; cases "kept_attrs dopts b") simp
    ultimately show ?thesis
      using a1 opaque_marks [OF d assms(2-4) c, of m] True assms(7) same_but_trans [OF a1(2) same_but_update]
      by (simp add: lands_def and_then_def update_conv')
  qed
qed

text \<open>\<open>link_ok\<close>: the file a link refers to was applied before, and is the same file.\<close>

definition link_ok :: "host \<Rightarrow> diff_options \<Rightarrow> applier \<Rightarrow> inode \<Rightarrow> name \<Rightarrow> bool" where
  "link_ok h dopts a n first \<longleftrightarrow> dirs_to (ap_tree a) first \<and> map_of (ap_tree a) first = Some (kept_node h dopts n) \<and> layer_name first \<and> first \<noteq> []"

lemma diff_entry_lands:
  assumes "vacant p a" and "no_faults h" and "overlay_opts opts" and "layer_name p" and "\<not> has_prefix (last p) whiteoutPrefix" and "node_ok n"
    and "xattrPrefix opts = diff_prefix dopts" and "skipXattr (diff_prefix dopts @ ''overlay.opaque'')"
    and "\<And>op q. di_fault io op q = None"
    and "\<And>b c first. n = Reg b c \<Longrightarrow> di_nlink io p > 1 \<Longrightarrow> map_of links (di_ino io p) = Some first \<Longrightarrow> link_ok h dopts a n first"
  shows "\<exists>es links'. diff_entry io dopts links p n = Inr (es, links') \<and>
    lands p (kept_node h dopts n) (dir_times dopts p n) a (run_entries h opts es a) \<and>
    (links' = links \<or> (links' = (di_ino io p, p) # links \<and> di_nlink io p > 1 \<and> (\<exists>b c. n = Reg b c)))"
proof (cases n)
  case (Dir b)
  with dir_entries_land [OF assms(1-5) _ assms(7,8), of b] assms(6,9) show ?thesis
    by (simp add: diff_entry_def dir_times_def)
next
  case (Reg b c)
  have f: "lands p (kept_node h dopts n) [] a (apply_entry h opts ((header dopts p TypeReg b)\<lparr>te_body := c\<rparr>) a)"
    using file_lands [OF assms(1-5)] assms(6) Reg by simp
  have l: "lands p (kept_node h dopts n) [] a
      (apply_entry h opts ((header dopts p TypeReg b)\<lparr>te_type := TypeLink, te_linkname := slash_name first\<rparr>) a)"
    if "di_nlink io p > 1" "map_of links (di_ino io p) = Some first" for first
    using link_lands [OF assms(1,2,4,5)] assms(10) [OF Reg that] Reg by (simp add: link_ok_def)
  show ?thesis
    using f l assms(9) Reg by (auto simp: diff_entry_def reg_entry_def dir_times_def Let_def split: option.split)
next
  case (Sym b s)
  with sym_lands [OF assms(1-5)] assms(9) show ?thesis by (simp add: diff_entry_def dir_times_def)
next
  case (Fifo b)
  with fifo_lands [OF assms(1-5)] assms(6,9) show ?thesis by (simp add: diff_entry_def dir_times_def)
next
  case (White m)
  with white_lands [OF assms(1-5)] assms(9) show ?thesis by (simp add: diff_entry_def dir_times_def)
qed (use assms(6) in simp_all)

section \<open>The files of a layer, one after the other\<close>

definition layer_tree :: "tree \<Rightarrow> bool" where
  "layer_tree t \<longleftrightarrow> distinct (map fst t) \<and> (\<exists>b. map_of t [] = Some (Dir b)) \<and>
     list_all (\<lambda>(p, n). p \<noteq> [] \<longrightarrow> (case map_of t (butlast p) of Some m \<Rightarrow> is_dir m | None \<Rightarrow> False) \<and> layer_name p \<and>
       \<not> has_prefix (last p) whiteoutPrefix \<and> node_ok n) t"

lemma is_dir_iff: "is_dir n \<longleftrightarrow> (\<exists>b. n = Dir b)"
  by (cases n) auto

lemma layer_treeD:
  assumes "layer_tree t" and "map_of t p = Some n" and "p \<noteq> []"
  shows "\<exists>b. map_of t (butlast p) = Some (Dir b)" and "layer_name p" and "\<not> has_prefix (last p) whiteoutPrefix" and "node_ok n"
  using assms(1,3) map_of_SomeD [OF assms(2)] by (fastforce simp: layer_tree_def list_all_iff is_dir_iff split: option.splits)+

lemma prefix_dirs:
  assumes "layer_tree t"
  shows "map_of t p = Some n \<Longrightarrow> strict_prefix q p \<Longrightarrow> \<exists>b. map_of t q = Some (Dir b)"
proof (induction p arbitrary: n rule: rev_induct)
  case (snoc c p)
  from layer_treeD(1) [OF assms snoc.prems(1)] obtain b where b: "map_of t p = Some (Dir b)" by auto
  show ?case
  proof (cases "q = p")
    case False
    with snoc.prems(2) have "strict_prefix q p" by (auto simp: strict_prefix_def)
    with snoc.IH [OF b] show ?thesis by blast
  qed (use b in simp)
qed simp

definition applied :: "host \<Rightarrow> diff_options \<Rightarrow> tree \<Rightarrow> name set \<Rightarrow> applier \<Rightarrow> bool" where
  "applied h dopts upper S a \<longleftrightarrow> (\<exists>b. map_of (ap_tree a) [] = Some (Dir b)) \<and> ap_opaques a = [] \<and>
     (\<forall>p. p \<noteq> [] \<longrightarrow> map_option untimed (map_of (ap_tree a) p) =
        (if p \<in> S then map_option (untimed \<circ> kept_node h dopts) (map_of upper p) else None)) \<and>
     set (ap_dirTimes a) = {(p, clamp (at_mtime b) (do_epoch dopts)) | p b. p \<in> S \<and> map_of upper p = Some (Dir b)}"

definition closed :: "name set \<Rightarrow> bool" where
  "closed S \<longleftrightarrow> (\<forall>p q. p \<in> S \<longrightarrow> strict_prefix q p \<longrightarrow> q \<noteq> [] \<longrightarrow> q \<in> S)"

lemma applied_dirs_to:
  assumes "applied h dopts upper S a" and "layer_tree upper" and "map_of upper p = Some n" and "p \<noteq> []"
    and "\<And>q. strict_prefix q p \<Longrightarrow> q \<noteq> [] \<Longrightarrow> q \<in> S"
  shows "dirs_to (ap_tree a) p"
  unfolding dirs_to_def
proof (intro conjI allI impI)
  show "list_all plain p" using layer_treeD(2) [OF assms(2-4)] by (rule layer_name_plain)
next
  fix q assume q: "strict_prefix q p"
  show "\<exists>a'. map_of (ap_tree a) q = Some (Dir a')"
  proof (cases "q = []")
    case True
    with assms(1) show ?thesis by (simp add: applied_def)
  next
    case False
    obtain b where b: "map_of upper q = Some (Dir b)" using prefix_dirs [OF assms(2,3) q] by blast
    with assms(1,5) q False have "map_option untimed (map_of (ap_tree a) q) = Some (untimed (kept_node h dopts (Dir b)))"
      by (auto simp: applied_def)
    then show ?thesis using untimed_Dir [of _ "map_of (ap_tree a) q"] by fastforce
  qed
qed

definition links_ok :: "diff_env \<Rightarrow> tree \<Rightarrow> name set \<Rightarrow> (nat, name) gomap \<Rightarrow> bool" where
  "links_ok io upper S links \<longleftrightarrow> (\<forall>i f. (i, f) \<in> set links \<longrightarrow> f \<in> S \<and> f \<noteq> [] \<and> di_ino io f = i \<and> di_nlink io f > 1 \<and>
     (\<exists>b c. map_of upper f = Some (Reg b c)))"

text \<open>Names of one file have one inode.\<close>

definition inodes_ok :: "diff_env \<Rightarrow> tree \<Rightarrow> bool" where
  "inodes_ok io upper \<longleftrightarrow> (\<forall>p q b c b' c'. map_of upper p = Some (Reg b c) \<longrightarrow> map_of upper q = Some (Reg b' c') \<longrightarrow>
     di_nlink io p > 1 \<longrightarrow> di_nlink io q > 1 \<longrightarrow> di_ino io p = di_ino io q \<longrightarrow> (b, c) = (b', c'))"

lemma applied_link_ok:
  assumes "applied h dopts upper S a" and "layer_tree upper" and "closed S" and "f \<in> S" and "f \<noteq> []" and "map_of upper f = Some (Reg b c)"
  shows "link_ok h dopts a (Reg b c) f"
proof -
  have "map_option untimed (map_of (ap_tree a) f) = Some (kept_node h dopts (Reg b c))" using assms by (auto simp: applied_def)
  then obtain m where m: "map_of (ap_tree a) f = Some m" "untimed m = kept_node h dopts (Reg b c)" by auto
  then have "m = kept_node h dopts (Reg b c)" by (cases m) auto
  moreover have "dirs_to (ap_tree a) f"
    using applied_dirs_to [OF assms(1,2,6,5)] assms(3,4) by (auto simp: closed_def)
  ultimately show ?thesis using m(1) layer_treeD(2) [OF assms(2,6,5)] assms(5) by (simp add: link_ok_def)
qed

lemma applied_insert:
  assumes "applied h dopts upper S a" and "p \<noteq> []" and "map_of upper p = Some n"
    and "lands p (kept_node h dopts n) (dir_times dopts p n) a (a', None)"
  shows "applied h dopts upper (insert p S) a'"
proof -
  have l: "same_but p (ap_tree a) (ap_tree a')" "map_option untimed (map_of (ap_tree a') p) = Some (untimed (kept_node h dopts n))"
    "ap_opaques a' = ap_opaques a" "ap_dirTimes a' = ap_dirTimes a @ dir_times dopts p n"
    using assms(4) by (auto simp: lands_def)
  obtain b where "map_of (ap_tree a) [] = Some (Dir b)" using assms(1) by (auto simp: applied_def)
  then have "\<exists>b. map_of (ap_tree a') [] = Some (Dir b)" using same_but_Dir [OF l(1)] assms(2) by metis
  moreover have "map_option untimed (map_of (ap_tree a') q) =
      (if q \<in> insert p S then map_option (untimed \<circ> kept_node h dopts) (map_of upper q) else None)" if "q \<noteq> []" for q
    using that assms(1,3) l(1,2) by (cases "q = p") (auto simp: applied_def same_but_def)
  moreover have "set (dir_times dopts p n) = {(q, clamp (at_mtime b) (do_epoch dopts)) | q b. q = p \<and> map_of upper q = Some (Dir b)}"
    using assms(3) by (cases n) (auto simp: dir_times_def)
  then have "set (ap_dirTimes a') =
      {(q, clamp (at_mtime b) (do_epoch dopts)) | q b. q \<in> insert p S \<and> map_of upper q = Some (Dir b)}"
    using assms(1) l(4) by (auto simp: applied_def)
  ultimately show ?thesis using assms(1) l(3) by (simp add: applied_def)
qed

definition fit :: "host \<Rightarrow> apply_options \<Rightarrow> diff_env \<Rightarrow> diff_options \<Rightarrow> bool" where
  "fit h opts io dopts \<longleftrightarrow> no_faults h \<and> overlay_opts opts \<and> xattrPrefix opts = diff_prefix dopts \<and>
     diff_prefix dopts \<in> {''trusted.'', ''user.''} \<and> (\<forall>op q. di_fault io op q = None)"

lemma fit_skips: "fit h opts io dopts \<Longrightarrow> skipXattr (diff_prefix dopts @ ''overlay.opaque'')"
  by (auto simp: fit_def skipXattr_def has_prefix_def)

lemma file_applied:
  assumes "fit h opts io dopts" and "layer_tree upper" and "inodes_ok io upper"
    and "applied h dopts upper S a" and "closed S" and "links_ok io upper S links"
    and "p \<notin> S" and "p \<noteq> []" and "map_of upper p = Some n" and "\<And>q. strict_prefix q p \<Longrightarrow> q \<noteq> [] \<Longrightarrow> q \<in> S"
  shows "\<exists>es links' a'. diff_entry io dopts links p n = Inr (es, links') \<and> run_entries h opts es a = (a', None) \<and>
    applied h dopts upper (insert p S) a' \<and> links_ok io upper (insert p S) links'"
proof -
  have v: "vacant p a"
    using applied_dirs_to [OF assms(4,2,9,8,10)] assms(4,7,8) by (auto simp: vacant_def applied_def)
  have "link_ok h dopts a n first"
    if "n = Reg b c" "di_nlink io p > 1" "map_of links (di_ino io p) = Some first" for b c first
  proof -
    from assms(6) map_of_SomeD [OF that(3)] obtain b' c' where f: "first \<in> S" "first \<noteq> []" "di_ino io first = di_ino io p"
      "di_nlink io first > 1" "map_of upper first = Some (Reg b' c')" unfolding links_ok_def by metis
    with assms(3,9) that have "(b, c) = (b', c')" unfolding inodes_ok_def by metis
    with applied_link_ok [OF assms(4,2,5) f(1,2,5)] that(1) show ?thesis by simp
  qed
  moreover have q: "no_faults h" "overlay_opts opts" "xattrPrefix opts = diff_prefix dopts" "\<And>op q. di_fault io op q = None"
    using assms(1) by (simp_all add: fit_def)
  ultimately obtain es links' where e: "diff_entry io dopts links p n = Inr (es, links')"
    "lands p (kept_node h dopts n) (dir_times dopts p n) a (run_entries h opts es a)"
    "links' = links \<or> (links' = (di_ino io p, p) # links \<and> di_nlink io p > 1 \<and> (\<exists>b c. n = Reg b c))"
    using diff_entry_lands [OF v q(1,2) layer_treeD(2,3,4) [OF assms(2,9,8)] q(3) fit_skips [OF assms(1)] q(4)] by blast
  from e(2) obtain a' where a': "run_entries h opts es a = (a', None)" unfolding lands_def by blast
  have "links_ok io upper (insert p S) links'" using e(3) assms(6,8,9) by (fastforce simp: links_ok_def)
  with e a' applied_insert [OF assms(4,8,9)] show ?thesis by auto
qed

lemma run_entries_append: "run_entries h opts (es @ fs) a = and_then (run_entries h opts es a) (run_entries h opts fs)"
  by (induction es arbitrary: a) (auto simp: and_then_def split: prod.split option.split)

lemma strict_prefix_less: "strict_prefix q p \<Longrightarrow> q < (p :: name)"
  by (auto simp: list_less_def strict_prefix_def prefix_def intro: lexord_append_rightI) (metis lexord_append_rightI neq_Nil_conv)

lemma sorted_split: "sorted (xs @ ys) \<Longrightarrow> p \<in> set xs \<Longrightarrow> q \<in> set (xs @ ys) \<Longrightarrow> q < p \<Longrightarrow> q \<in> set xs"
  by (fastforce simp: sorted_append)

lemma files_applied:
  assumes "fit h opts io dopts" and "layer_tree upper" and "inodes_ok io upper"
    and "sorted (before @ ps)" and "distinct (before @ ps)" and "set (before @ ps) = {p. p \<noteq> [] \<and> map_of upper p \<noteq> None}"
    and "applied h dopts upper (set before) a" and "links_ok io upper (set before) links"
  shows "\<exists>es a'. diff_from io dopts upper links ps = Inr es \<and> run_entries h opts es a = (a', None) \<and>
    applied h dopts upper (set (before @ ps)) a'"
  using assms(4-)
proof (induction ps arbitrary: before a links)
  case (Cons p ps)
  have earlier: "q \<in> set xs" if "xs @ ys = before @ p # ps" "x \<in> set xs" "strict_prefix q x" "q \<noteq> []" for q x xs ys
  proof (rule sorted_split [of xs ys x q])
    show "sorted (xs @ ys)" using Cons.prems(1) that(1) by simp
    have "x \<in> set (before @ p # ps)" using that(2) by (simp flip: that(1))
    then obtain n where "map_of upper x = Some n" using Cons.prems(3) by auto
    from prefix_dirs [OF assms(2) this that(3)] that(4) Cons.prems(3) show "q \<in> set (xs @ ys)" unfolding that(1) by auto
  qed (use that strict_prefix_less in auto)
  have "p \<in> set (before @ p # ps)" by simp
  then obtain n where n: "p \<noteq> []" "map_of upper p = Some n" using Cons.prems(3) by auto
  have cl: "closed (set before)" unfolding closed_def using earlier [of before "p # ps"] by blast
  have pre: "q \<in> set before" if "strict_prefix q p" "q \<noteq> []" for q
    using earlier [of "before @ [p]" ps p q] that by auto
  have "p \<notin> set before" using Cons.prems(2) by simp
  from file_applied [OF assms(1-3) Cons.prems(4) cl Cons.prems(5) this n pre]
  obtain es links' a1 where e: "diff_entry io dopts links p n = Inr (es, links')" "run_entries h opts es a = (a1, None)"
    "applied h dopts upper (insert p (set before)) a1" "links_ok io upper (insert p (set before)) links'" by blast
  obtain fs a2 where f: "diff_from io dopts upper links' ps = Inr fs" "run_entries h opts fs a1 = (a2, None)"
    "applied h dopts upper (set ((before @ [p]) @ ps)) a2"
    using Cons.IH [of "before @ [p]" a1 links'] Cons.prems e by (auto simp: insert_commute)
  have "diff_from io dopts upper links (p # ps) = Inr (es @ fs)" using e(1) f(1) n(2) by simp
  moreover have "run_entries h opts (es @ fs) a = (a2, None)" using e(2) f(2) by (simp add: run_entries_append and_then_def)
  ultimately show ?case using f(3) by auto
qed simp

section \<open>The end of a layer\<close>

lemma apply_entries_run: "run_entries h opts es a = (a', None) \<Longrightarrow> apply_entries h opts (map Inr es) a = finish h a'"
  by (induction es arbitrary: a) (auto simp: and_then_def split: prod.splits option.splits)

definition timed :: "(name \<times> int) list \<Rightarrow> name \<Rightarrow> inode option \<Rightarrow> inode option" where
  "timed L q n = (case n of Some (Dir b) \<Rightarrow> Some (Dir (case map_of L q of Some m \<Rightarrow> b\<lparr>at_mtime := m\<rparr> | None \<Rightarrow> b)) | x \<Rightarrow> x)"

lemma times_set:
  assumes "no_faults h" and "\<And>d m. (d, m) \<in> set L \<Longrightarrow> dirs_to (ap_tree a) d \<and> (\<exists>b. map_of (ap_tree a) d = Some (Dir b))"
  shows "\<exists>a'. set_times h L a = (a', None) \<and>
      (\<forall>q. map_of (ap_tree a') q = timed (rev L) q (map_of (ap_tree a) q))"
  using assms(2)
proof (induction L arbitrary: a)
  case Nil
  have "timed [] q n = n" for q n by (auto simp: timed_def split: option.split inode.split)
  then show ?case by simp
next
  case (Cons dm L)
  obtain d m where dm: "dm = (d, m)" by force
  obtain b where b: "dirs_to (ap_tree a) d" "map_of (ap_tree a) d = Some (Dir b)" using Cons.prems [of d m] dm by auto
  let ?t = "AList.update d (Dir (b\<lparr>at_mtime := m\<rparr>)) (ap_tree a)"
  let ?a = "a\<lparr>ap_tree := ?t\<rparr>"
  have c: "root_Chtimes h d m (ap_tree a) = (?t, None)"
    unfolding root_Chtimes_def using change_dirs [OF b(1) assms(1) b(2)] by simp
  have "dirs_to ?t d' \<and> (\<exists>b. map_of ?t d' = Some (Dir b))" if "(d', m') \<in> set L" for d' m'
  proof -
    have "dirs_to (ap_tree a) d'" "\<exists>b. map_of (ap_tree a) d' = Some (Dir b)" using Cons.prems [of d' m'] that dm by auto
    then show ?thesis by (auto simp: dirs_to_def update_conv')
  qed
  then obtain a' where a': "set_times h L ?a = (a', None)"
      "\<And>q. map_of (ap_tree a') q = timed (rev L) q (map_of ?t q)"
    using Cons.IH [of ?a] by auto
  have "timed (rev L) q (map_of ?t q) = timed (rev (dm # L)) q (map_of (ap_tree a) q)" for q
    using b(2) dm by (cases "q = d") (auto simp: timed_def update_conv' map_add_def split: option.split inode.split)
  with a' c dm show ?case by simp
qed

lemma attrs_mtime: "c\<lparr>at_mtime := 0\<rparr> = k\<lparr>at_mtime := 0\<rparr> \<Longrightarrow> c\<lparr>at_mtime := at_mtime k\<rparr> = (k :: attrs)"
  by (cases c; cases k) simp

lemma finish_applied:
  assumes "applied h dopts upper S a" and "layer_tree upper" and "no_faults h" and "closed S" and "S = {p. p \<noteq> [] \<and> map_of upper p \<noteq> None}"
  shows "\<exists>a'. finish h a = (a', None) \<and> (\<forall>p. p \<noteq> [] \<longrightarrow> map_of (ap_tree a') p = map_option (kept_node h dopts) (map_of upper p))"
proof -
  let ?L = "rev (ap_dirTimes a)"
  have times: "set (ap_dirTimes a) = {(p, clamp (at_mtime b) (do_epoch dopts)) | p b. p \<in> S \<and> map_of upper p = Some (Dir b)}"
    using assms(1) by (simp add: applied_def)
  have dirs: "dirs_to (ap_tree a) d \<and> (\<exists>b. map_of (ap_tree a) d = Some (Dir b))" if "(d, m) \<in> set ?L" for d m
  proof -
    from that times obtain b where b: "d \<in> S" "map_of upper d = Some (Dir b)" by auto
    then have "d \<noteq> []" using assms(5) by simp
    moreover have "dirs_to (ap_tree a) d"
      using applied_dirs_to [OF assms(1,2) b(2) \<open>d \<noteq> []\<close>] assms(4) b(1) by (auto simp: closed_def)
    moreover have "map_option untimed (map_of (ap_tree a) d) = Some (untimed (kept_node h dopts (Dir b)))"
      using assms(1) b \<open>d \<noteq> []\<close> by (auto simp: applied_def)
    ultimately show ?thesis using untimed_Dir [of _ "map_of (ap_tree a) d"] by fastforce
  qed
  obtain a' where a': "finish h a = (a', None)" "\<And>q. map_of (ap_tree a') q = timed (ap_dirTimes a) q (map_of (ap_tree a) q)"
    using times_set [OF assms(3), of ?L a] dirs assms(1) by (auto simp: finish_def applied_def and_then_def)
  have "map_of (ap_tree a') p = map_option (kept_node h dopts) (map_of upper p)" if "p \<noteq> []" for p
  proof (cases "map_of upper p")
    case None
    with assms(1,5) that have "map_of (ap_tree a) p = None" by (auto simp: applied_def)
    with None a'(2) show ?thesis by (simp add: timed_def)
  next
    case (Some n)
    have "p \<in> S" using Some assms(5) that by simp
    with Some assms(1) that have "map_option untimed (map_of (ap_tree a) p) = Some (untimed (kept_node h dopts n))"
      by (simp add: applied_def)
    then obtain m where m: "map_of (ap_tree a) p = Some m" "untimed m = untimed (kept_node h dopts n)" by auto
    show ?thesis
    proof (cases n)
      case (Dir b)
      obtain c where c: "m = Dir c" using m(2) Dir by (cases m) auto
      have "(p, clamp (at_mtime b) (do_epoch dopts)) \<in> set (ap_dirTimes a)" using times Some Dir that assms(5) by auto
      moreover have "y = clamp (at_mtime b) (do_epoch dopts)" if "(p, y) \<in> set (ap_dirTimes a)" for y
        using that times Some Dir by auto
      ultimately have "map_of (ap_dirTimes a) p = Some (clamp (at_mtime b) (do_epoch dopts))"
        by (metis map_of_SomeD not_None_eq map_of_eq_None_iff image_eqI fst_conv)
      moreover obtain k where k: "kept_node h dopts n = Dir k" "at_mtime k = clamp (at_mtime b) (do_epoch dopts)"
        using Dir by (simp add: kept_attrs_def)
      moreover have "c\<lparr>at_mtime := at_mtime k\<rparr> = k" by (rule attrs_mtime) (use m(2) c k(1) in simp)
      ultimately show ?thesis using a'(2) [of p] m(1) c Some by (simp add: timed_def)
    qed (use a'(2) [of p] m Some in \<open>cases m; simp add: timed_def\<close>)+
  qed
  with a'(1) show ?thesis by blast
qed

section \<open>Properties\<close>


definition layer_host :: host where
  "layer_host = \<lparr>ho_links = 8, ho_now = 9, ho_uid = 0, ho_gid = 0, ho_umask = (\<lambda>m. m), ho_fault = (\<lambda>_ _. None)\<rparr>"

definition demo_attrs :: "int \<Rightarrow> attrs" where
  "demo_attrs mode = \<lparr>at_uid = 3, at_gid = 4, at_mode = mode, at_mtime = 5, at_xattrs = [(''trusted.overlay.opaque'', ''y'')]\<rparr>"

definition demo_upper :: tree where
  "demo_upper = [([], Dir (demo_attrs 493)), ([''old''], White 2), ([''etc''], Dir (demo_attrs 493)), ([''etc'', ''passwd''], Reg (demo_attrs 420) ''root'')]"

definition demo_apply :: apply_options where
  "demo_apply = \<lparr>ao_mode = ModeOverlay, ao_xattrPrefix = [], ao_chown = True, ao_idMap = None\<rparr>"

definition demo_diff :: diff_env where
  "demo_diff = \<lparr>di_ino = (\<lambda>_. 0), di_nlink = (\<lambda>_. 1), di_fault = (\<lambda>_ _. None)\<rparr>"

definition demo_diff_opts :: diff_options where
  "demo_diff_opts = \<lparr>do_xattrPrefix = [], do_epoch = None\<rparr>"

definition demo_layer_entries :: "tar_entry list" where
  "demo_layer_entries = projr (Diff demo_diff demo_diff_opts demo_upper)"


end
