(* ===== verification/Layer_Safety.thy ===== *)
theory Layer_Safety
  imports Layer_Props
begin

text \<open>
  No layer can set the attributes that overlayfs trusts or make a device, and an opaque directory of a layer that is flattened keeps
  what the layer wrote.
\<close>

section \<open>What a layer cannot do\<close>

definition trusted_ok :: "string \<Rightarrow> attrs \<Rightarrow> bool" where
  "trusted_ok pre a \<longleftrightarrow> list_all (\<lambda>(k, v). skipXattr k \<longrightarrow> k = pre @ ''overlay.opaque'' \<and> v = ''y'') (at_xattrs a)"

fun node_safe :: "string \<Rightarrow> inode \<Rightarrow> bool" where
  "node_safe pre (Dir a) = trusted_ok pre a"
| "node_safe pre (Reg a c) = trusted_ok pre a"
| "node_safe pre (Sym a s) = trusted_ok pre a"
| "node_safe pre (Fifo a) = trusted_ok pre a"
| "node_safe pre (White m) = True"
| "node_safe pre _ = False"

definition tree_safe :: "string \<Rightarrow> tree \<Rightarrow> bool" where
  "tree_safe pre t \<longleftrightarrow> list_all (\<lambda>(p, n). node_safe pre n) t"

lemma tree_safe_at: "tree_safe pre t \<Longrightarrow> map_of t q = Some n \<Longrightarrow> node_safe pre n"
  by (auto simp: tree_safe_def list_all_iff dest: map_of_SomeD)

lemma tree_safe_update: "tree_safe pre t \<Longrightarrow> node_safe pre n \<Longrightarrow> tree_safe pre (AList.update q n t)"
  unfolding tree_safe_def by (induction t) auto

lemma tree_safe_touch: "tree_safe pre t \<Longrightarrow> tree_safe pre (touch h d t)"
  using tree_safe_at [of pre t d]
  by (auto simp: touch_def trusted_ok_def split: option.split inode.split intro!: tree_safe_update)

lemma tree_safe_put: "tree_safe pre t \<Longrightarrow> node_safe pre n \<Longrightarrow> tree_safe pre (put_new h q n t)"
  by (simp add: put_new_def tree_safe_update tree_safe_touch)

lemma tree_safe_del: "tree_safe pre t \<Longrightarrow> tree_safe pre (del_tree h q t)"
  using tree_safe_touch [of pre t h "butlast q"] by (auto simp: del_tree_def tree_safe_def list_all_iff)

lemma new_safe [simp]: "trusted_ok pre (new_attrs h m)" "trusted_ok pre ((new_attrs h m)\<lparr>at_mode := k\<rparr>)"
  by (simp_all add: new_attrs_def trusted_ok_def)

lemma map_attrs_safe: "node_safe pre n \<Longrightarrow> (\<And>a. trusted_ok pre a \<Longrightarrow> trusted_ok pre (f a)) \<Longrightarrow> node_safe pre (map_attrs f n)"
  by (cases n) auto

lemma at_name_safe: "tree_safe pre t \<Longrightarrow> at_name h op follow p t = Inr (q, n) \<Longrightarrow> node_safe pre n"
  by (auto simp: at_name_def bind_res_def split: option.splits sum.splits dest: tree_safe_at)

lemma create_safe: "tree_safe pre t \<Longrightarrow> node_safe pre n \<Longrightarrow> tree_safe pre (fst (create h op p n t))"
  by (auto simp: create_def tree_safe_put split: option.split sum.split)

lemma mknod_safe: "tree_safe pre t \<Longrightarrow> node_safe pre n \<Longrightarrow> tree_safe pre (fst (mknod_at h op p n t))"
  by (auto simp: mknod_at_def tree_safe_put split: option.split sum.split)

lemma Link_safe: "tree_safe pre t \<Longrightarrow> tree_safe pre (fst (root_Link h old p t))"
  by (auto simp: root_Link_def create_safe at_name_safe split: sum.split)

lemma RemoveAll_safe: "tree_safe pre t \<Longrightarrow> tree_safe pre (fst (root_RemoveAll h p t))"
  by (auto simp: root_RemoveAll_def tree_safe_del split: sum.split root_error.split)

lemma Remove_safe: "tree_safe pre t \<Longrightarrow> tree_safe pre (fst (root_Remove h p t))"
  by (auto simp: root_Remove_def tree_safe_del split: sum.split)

lemma mkdir_from_safe: "tree_safe pre t \<Longrightarrow> node_safe pre n \<Longrightarrow> tree_safe pre (fst (mkdir_from h n t ps cur hops))"
  by (induction h n t ps cur hops rule: mkdir_from.induct) (auto simp: tree_safe_put split: option.splits inode.splits)

lemma MkdirAll_safe: "tree_safe pre t \<Longrightarrow> tree_safe pre (fst (root_MkdirAll h p m t))"
  by (auto simp: root_MkdirAll_def mkdir_from_safe split: option.split)

lemma change_safe:
  "tree_safe pre t \<Longrightarrow> (\<And>a. trusted_ok pre a \<Longrightarrow> trusted_ok pre (f a)) \<Longrightarrow> tree_safe pre (fst (change h op follow p f t))"
  by (auto simp: change_def split: sum.split intro!: tree_safe_update map_attrs_safe dest: at_name_safe)

lemma Lchown_safe: "tree_safe pre t \<Longrightarrow> tree_safe pre (fst (root_Lchown h p u g t))"
  by (auto simp: root_Lchown_def trusted_ok_def split: sum.split intro!: tree_safe_update map_attrs_safe dest: at_name_safe)

lemma xattr_update_safe:
  "trusted_ok pre a \<Longrightarrow> (skipXattr k \<Longrightarrow> k = pre @ ''overlay.opaque'' \<and> v = ''y'') \<Longrightarrow>
   trusted_ok pre (a\<lparr>at_xattrs := AList.update k v (at_xattrs a)\<rparr>)"
proof -
  have "list_all P (AList.update k v xs)" if "list_all P xs" "P (k, v)" for P and xs :: "(string, string) gomap"
    using that by (induction xs) auto
  then show "trusted_ok pre a \<Longrightarrow> (skipXattr k \<Longrightarrow> k = pre @ ''overlay.opaque'' \<and> v = ''y'') \<Longrightarrow>
    trusted_ok pre (a\<lparr>at_xattrs := AList.update k v (at_xattrs a)\<rparr>)"
    by (simp add: trusted_ok_def)
qed

lemma setXattr_safe:
  assumes "tree_safe pre t" and "skipXattr k \<Longrightarrow> k = pre @ ''overlay.opaque'' \<and> v = ''y''"
  shows "tree_safe pre (fst (setXattrAt h p k v t))"
  using assms by (auto simp: setXattrAt_def split: sum.split option.split intro!: tree_safe_update map_attrs_safe xattr_update_safe dest: tree_safe_at)

definition safe :: "string \<Rightarrow> applier \<Rightarrow> bool" where
  "safe pre a \<longleftrightarrow> tree_safe pre (ap_tree a)"

lemma and_then_safe: "safe pre (fst r) \<Longrightarrow> (\<And>a. safe pre a \<Longrightarrow> safe pre (fst (f a))) \<Longrightarrow> safe pre (fst (and_then r f))"
  by (auto simp: and_then_def split: prod.split option.split)

lemma and_then_tree_safe:
  "tree_safe pre (fst r) \<Longrightarrow> (\<And>t. tree_safe pre t \<Longrightarrow> tree_safe pre (fst (f t))) \<Longrightarrow> tree_safe pre (fst (and_then r f))"
  by (auto simp: and_then_def split: prod.split option.split)

lemma on_tree_safe: "safe pre a \<Longrightarrow> (\<And>t. tree_safe pre t \<Longrightarrow> tree_safe pre (fst (f t))) \<Longrightarrow> safe pre (fst (on_tree f a))"
  by (auto simp: on_tree_def safe_def split: prod.split) (metis fst_conv)

lemma replace_safe: "tree_safe pre t \<Longrightarrow> tree_safe pre (fst (replace h p t))"
  by (auto simp: replace_def RemoveAll_safe split: sum.split)

lemma ensureDir_safe: "tree_safe pre t \<Longrightarrow> tree_safe pre (fst (ensureDir h p t))"
  by (auto simp: ensureDir_def MkdirAll_safe Remove_safe and_then_tree_safe split: sum.split root_error.split)

lemma markWritten_safe [simp]: "safe pre (markWritten p a) = safe pre a"
  by (simp add: safe_def markWritten_def)

lemma chmod_safe: "tree_safe pre t \<Longrightarrow> tree_safe pre (fst (root_Chmod h p m t))"
  unfolding root_Chmod_def by (rule change_safe) (auto simp: trusted_ok_def)

lemma chtimes_safe: "tree_safe pre t \<Longrightarrow> tree_safe pre (fst (root_Chtimes h p m t))"
  unfolding root_Chtimes_def by (rule change_safe) (auto simp: trusted_ok_def)

lemma set_xattrs_safe: "safe pre a \<Longrightarrow> safe pre (fst (set_xattrs h p pax a))"
proof (induction h p pax a rule: set_xattrs.induct)
  case (2 h p k v pax a)
  show ?case
  proof (cases "\<not> has_prefix k ''SCHILY.xattr.'' \<or> skipXattr (drop 13 k)")
    case True
    with 2 show ?thesis by (simp add: Let_def)
  next
    case False
    obtain t e where x: "setXattrAt h p (drop 13 k) v (ap_tree a) = (t, e)" by force
    have "tree_safe pre t" using setXattr_safe [of pre "ap_tree a" "drop 13 k" v h p] 2(3) False x by (auto simp: safe_def)
    with 2 False x show ?thesis by (auto simp: Let_def safe_def split: option.split)
  qed
qed simp

lemma metadata_safe: "safe pre a \<Longrightarrow> safe pre (fst (metadata h opts p hdr a))"
  unfolding metadata_def chown_step_def
  by (intro and_then_safe) (auto simp: chmod_safe chtimes_safe set_xattrs_safe Lchown_safe
      split: prod.split intro!: on_tree_safe and_then_safe)

lemma whiteout_safe:
  assumes "safe pre a" and "pre = xattrPrefix opts"
  shows "safe pre (fst (whiteout h opts d base a))"
  unfolding whiteout_def
proof (rule and_then_safe)
  show "safe pre (fst (if d \<noteq> [] then on_tree (ensureDir h d) a else (a, None)))"
    using assms(1) by (auto intro!: on_tree_safe ensureDir_safe)
next
  fix a1 assume a1: "safe pre a1"
  have o: "safe pre (fst (on_tree (setXattrAt h d (xattrPrefix opts @ ''overlay.opaque'') ''y'') a1))"
    by (rule on_tree_safe [OF a1]) (simp add: setXattr_safe assms(2))
  have w: "safe pre (fst (and_then (on_tree (replace h q) a1)
      (\<lambda>a2. if ao_mode opts = ModeFlatten then (a2, None) else on_tree (mkWhiteoutAt h q) a2)))" for q
    by (rule and_then_safe)
      (use a1 in \<open>auto simp: mkWhiteoutAt_def intro!: on_tree_safe replace_safe mknod_safe\<close>)
  show "safe pre (fst (if base = whiteoutOpaque then
         (if ao_mode opts = ModeFlatten then (a1\<lparr>ap_opaques := ap_opaques a1 @ [d]\<rparr>, None)
          else on_tree (setXattrAt h d (xattrPrefix opts @ ''overlay.opaque'') ''y'') a1)
       else if has_prefix base whiteoutMeta then (a1, None)
       else let target = clean_elems False [] (d @ [trim_prefix base whiteoutPrefix])
            in if target = [] then (a1, Some InvalidWhiteout)
               else and_then (on_tree (replace h target) a1) (\<lambda>a2.
                 if ao_mode opts = ModeFlatten then (a2, None) else on_tree (mkWhiteoutAt h target) a2)))"
    using a1 o w by (simp add: Let_def safe_def)
qed

lemma dir_entry_safe: "safe pre a \<Longrightarrow> safe pre (fst (dir_entry h p m a))"
  unfolding dir_entry_def
proof (rule and_then_safe)
  assume a: "safe pre a"
  show "safe pre (fst (case root_Lstat h p (ap_tree a) of
                 Inr n \<Rightarrow> if is_dir n then (a, None) else on_tree (root_RemoveAll h p) a
               | Inl _ \<Rightarrow> (a, None)))"
    using a by (auto split: sum.split intro!: on_tree_safe RemoveAll_safe)
next
  fix a1 assume "safe pre a1"
  then have "tree_safe pre (fst (root_Mkdir h p 448 (ap_tree a1)))" by (simp add: root_Mkdir_def create_safe safe_def)
  then show "safe pre (fst (case root_Mkdir h p 448 (ap_tree a1) of
         (t, Some e) \<Rightarrow> if e = Exists then (a1\<lparr>ap_tree := t, ap_dirTimes := ap_dirTimes a1 @ [(p, m)]\<rparr>, None)
                        else (a1\<lparr>ap_tree := t\<rparr>, Some (RootErr e))
       | (t, None) \<Rightarrow> (a1\<lparr>ap_tree := t, ap_dirTimes := ap_dirTimes a1 @ [(p, m)]\<rparr>, None)))"
    by (auto simp: safe_def split: prod.split option.split)
qed

lemma file_entry_safe: "safe pre a \<Longrightarrow> safe pre (fst (file_entry h p hdr a))"
  unfolding file_entry_def
  by (intro and_then_safe on_tree_safe replace_safe create_safe) (auto split: option.split)

lemma link_entry_safe: "safe pre a \<Longrightarrow> safe pre (fst (link_entry h p hdr a))"
  by (auto simp: link_entry_def Let_def intro!: and_then_safe on_tree_safe replace_safe Link_safe)

lemma made_safe: "safe pre (fst r) \<Longrightarrow> safe pre (fst (made h opts p hdr r))"
  unfolding made_def by (rule and_then_safe) (auto intro: metadata_safe)

lemma entry_safe:
  assumes "safe pre a" and "pre = xattrPrefix opts"
  shows "safe pre (fst (apply_entry h opts hdr a))"
proof -
  let ?p = "cleanName (te_name hdr)"
  have s: "safe pre (fst (and_then (on_tree (replace h ?p) a1) (on_tree (root_Symlink h (te_linkname hdr) ?p))))" if "safe pre a1" for a1
    using that by (intro and_then_safe on_tree_safe replace_safe) (auto simp: root_Symlink_def create_safe)
  have f: "safe pre (fst (and_then (on_tree (replace h ?p) a1) (on_tree (mkfifoAt h ?p (te_mode hdr mod 4096)))))" if "safe pre a1" for a1
    using that by (intro and_then_safe on_tree_safe replace_safe) (auto simp: mkfifoAt_def mknod_safe)
  have e: "safe pre (fst (if butlast ?p \<noteq> [] then on_tree (ensureDir h (butlast ?p)) a else (a, None)))"
    using assms(1) by (auto intro!: on_tree_safe ensureDir_safe)
  show ?thesis
    using assms whiteout_safe [OF assms] s f e
    by (auto simp: apply_entry_def Let_def made_safe dir_entry_safe file_entry_safe link_entry_safe split: tar_type.split intro!: and_then_safe)
qed

lemma each_safe: "tree_safe pre t \<Longrightarrow> (\<And>x t. tree_safe pre t \<Longrightarrow> tree_safe pre (fst (f x t))) \<Longrightarrow> tree_safe pre (fst (each f xs t))"
  by (induction xs arbitrary: t) (auto intro!: and_then_tree_safe)

lemma pruneOpaque_safe: "tree_safe pre t \<Longrightarrow> tree_safe pre (fst (pruneOpaque h written depth d t))"
proof (induction depth arbitrary: d t)
  case (Suc depth)
  then show ?case
    by (auto simp: RemoveAll_safe Let_def split: sum.split prod.split intro!: each_safe)
qed simp

lemma prune_all_safe: "safe pre a \<Longrightarrow> safe pre (fst (prune_all h written ds a))"
proof (induction h written ds a rule: prune_all.induct)
  case (2 h written d ds a)
  obtain t e where p: "pruneOpaque h written (Suc (tree_depth (ap_tree a))) d (ap_tree a) = (t, e)" by force
  have "tree_safe pre t" using pruneOpaque_safe [of pre "ap_tree a" h written _ d] 2(2) p by (metis fst_conv safe_def)
  with 2(1) p show ?case by (auto simp: safe_def simp del: pruneOpaque.simps split: option.split)
qed simp

lemma set_times_safe: "safe pre a \<Longrightarrow> safe pre (fst (set_times h L a))"
proof (induction h L a rule: set_times.induct)
  case (2 h d m ds a)
  have "tree_safe pre (fst (root_Chtimes h d m (ap_tree a)))" using 2(2) by (simp add: chtimes_safe safe_def)
  with 2(1) show ?case by (auto simp: safe_def split: prod.split option.split)
qed simp

lemma apply_entries_safe: "safe pre a \<Longrightarrow> pre = xattrPrefix opts \<Longrightarrow> safe pre (fst (apply_entries h opts es a))"
proof (induction h opts es a rule: apply_entries.induct)
  case (1 h opts a)
  then show ?case by (auto simp: finish_def prune_all_safe intro!: and_then_safe set_times_safe)
next
  case (3 h opts hdr rest a)
  then show ?case using entry_safe [OF 3(2,3), of h hdr] by (auto split: prod.split option.split)
qed simp

lemma Apply_safe:
  assumes "tree_safe (xattrPrefix opts) dest" and "Apply gunzip untar h opts err s dest = (t, e)"
  shows "tree_safe (xattrPrefix opts) t"
proof -
  let ?a = "\<lparr>ap_tree = dest, ap_written = [], ap_opaques = [], ap_dirTimes = []\<rparr>"
  have "safe (xattrPrefix opts) (fst (apply_entries h opts es ?a))" for es
    by (rule apply_entries_safe) (simp_all add: safe_def assms(1))
  with assms show ?thesis by (auto simp: Apply_def safe_def split: sum.splits option.splits prod.splits) (metis fst_conv)
qed


definition demo_evil :: tar_entry where
  "demo_evil =
     \<lparr>te_name = ''../etc/shadow'', te_type = TypeReg, te_linkname = [], te_mode = 420, te_uid = 0, te_gid = 0, te_mtime = 1,
      te_pax = [(''SCHILY.xattr.trusted.overlay.redirect'', ''/etc'')], te_body = ''x'', te_bodyErr = None\<rparr>"

definition demo_forged :: "tree \<times> apply_error option" where
  "demo_forged = Apply Inr (\<lambda>_. [Inr demo_evil, Inr (demo_evil\<lparr>te_name := ''sda'', te_type := TypeOther\<rparr>)]) layer_host demo_apply None ''tar''
     [([], Dir ((demo_attrs 493)\<lparr>at_xattrs := []\<rparr>))]"


text \<open>A backslash in the name of a file is taken for a separator.\<close>

lemma backslash_separates: "cleanName (a @ [CHR 0x5C] @ b) = cleanName (a @ ''/'' @ b)"
  by (simp add: cleanName_def)

section \<open>Opaque directories of a flattened layer\<close>

text \<open>A tree in which the parents of every name are directories.\<close>

definition wf_tree :: "tree \<Rightarrow> bool" where
  "wf_tree t \<longleftrightarrow> (\<forall>q. map_of t q \<noteq> None \<longrightarrow> dirs_to t q)"

definition pruned :: "name list \<Rightarrow> (name \<Rightarrow> bool) \<Rightarrow> tree \<Rightarrow> tree \<Rightarrow> bool" where
  "pruned w U t t' \<longleftrightarrow> (\<forall>q. map_option untimed (map_of t' q) = (if U q \<and> q \<notin> set w then None else map_option untimed (map_of t q)))"

definition upward :: "(name \<Rightarrow> bool) \<Rightarrow> bool" where
  "upward U \<longleftrightarrow> (\<forall>q r. U q \<longrightarrow> prefix q r \<longrightarrow> U r)"

definition closed_list :: "name list \<Rightarrow> bool" where
  "closed_list w \<longleftrightarrow> (\<forall>q r. r \<in> set w \<longrightarrow> prefix q r \<longrightarrow> q \<noteq> [] \<longrightarrow> q \<in> set w)"

lemma pruned_trans: "pruned w U t t1 \<Longrightarrow> pruned w V t1 t2 \<Longrightarrow> pruned w (\<lambda>q. U q \<or> V q) t t2"
  by (simp add: pruned_def)

lemma pruned_None: "pruned w U t t' \<Longrightarrow> map_of t q = None \<Longrightarrow> map_of t' q = None"
  unfolding pruned_def by (metis map_option_is_None)

lemma pruned_Dir: "pruned w U t t' \<Longrightarrow> map_of t q = Some (Dir b) \<Longrightarrow> \<not> U q \<or> q \<in> set w \<Longrightarrow> \<exists>b. map_of t' q = Some (Dir b)"
  unfolding pruned_def by (metis untimed_Dir)

lemma wf_pruned:
  assumes "pruned w U t t'" and "wf_tree t" and "upward U" and "closed_list w" and "\<not> U []"
  shows "wf_tree t'"
  unfolding wf_tree_def dirs_to_def
proof (intro allI impI conjI)
  fix q assume q: "map_of t' q \<noteq> None"
  with assms(1) have old: "map_of t q \<noteq> None" and keep: "\<not> U q \<or> q \<in> set w"
    unfolding pruned_def by (metis map_option_is_None)+
  with assms(2) have d: "dirs_to t q" by (simp add: wf_tree_def)
  then show "list_all plain q" by (simp add: dirs_to_def)
  fix r assume r: "strict_prefix r q"
  with d obtain b where "map_of t r = Some (Dir b)" unfolding dirs_to_def by blast
  moreover have "\<not> U r \<or> r \<in> set w"
    using keep r assms(3-5) unfolding upward_def closed_list_def by (metis strict_prefix_def)
  ultimately show "\<exists>a. map_of t' r = Some (Dir a)" by (rule pruned_Dir [OF assms(1)])
qed

lemma map_of_filter_keys: "map_of (filter (\<lambda>(r, _). P r) t) q = (if P q then map_of t q else None)"
  by (induction t) auto

lemma RemoveAll_pruned:
  assumes "wf_tree t" and "no_faults h" and "dirs_to t p" and "p \<noteq> []" and "p \<notin> set w" and "closed_list w"
  shows "\<exists>t'. root_RemoveAll h p t = (t', None) \<and> pruned w (prefix p) t t'"
proof (cases "map_of t p")
  case None
  have "map_of t q = None" if "prefix p q" for q
  proof (rule ccontr)
    assume "map_of t q \<noteq> None"
    then have "dirs_to t q" using assms(1) by (simp add: wf_tree_def)
    with None that \<open>map_of t q \<noteq> None\<close> show False unfolding dirs_to_def by (metis option.distinct(1) strict_prefix_def)
  qed
  with None assms show ?thesis by (auto simp: root_RemoveAll_def at_name_dirs pruned_def)
next
  case (Some n)
  have "q \<notin> set w" if "prefix p q" for q using assms(4-6) that unfolding closed_list_def by blast
  moreover have "map_option untimed (map_of (touch h d t) q) = map_option untimed (map_of t q)" for d q
    by (auto simp: map_of_touch split: option.split inode.split)
  ultimately show ?thesis
    using Some assms by (auto simp: root_RemoveAll_def at_name_dirs pruned_def del_tree_def map_of_filter_keys)
qed

definition prune_child :: "host \<Rightarrow> name list \<Rightarrow> nat \<Rightarrow> name \<Rightarrow> string \<Rightarrow> tree \<Rightarrow> tree \<times> root_error option" where
  "prune_child h w n d x t =
     (let p = d @ [x]
      in if p \<notin> set w then root_RemoveAll h p t
         else case root_Lstat h p t of
                Inr m \<Rightarrow> if is_dir m then pruneOpaque h w n p t else (t, None)
              | Inl _ \<Rightarrow> (t, None))"

lemma prune_children: "no_faults h \<Longrightarrow> dirs_to t d \<Longrightarrow> map_of t d = Some (Dir b) \<Longrightarrow>
    pruneOpaque h w (Suc n) d t = each (prune_child h w n d) (names_in d t) t"
  by (simp add: at_name_dirs prune_child_def [abs_def])

text \<open>What the recursion promises with \<open>n\<close> levels left.\<close>

definition prunes :: "host \<Rightarrow> name list \<Rightarrow> nat \<Rightarrow> bool" where
  "prunes h w n \<longleftrightarrow> (\<forall>d t. wf_tree t \<longrightarrow> (\<exists>b. map_of t d = Some (Dir b)) \<longrightarrow> (\<forall>q. map_of t q \<noteq> None \<longrightarrow> length q < length d + n) \<longrightarrow>
     (\<exists>t'. pruneOpaque h w n d t = (t', None) \<and> pruned w (strict_prefix d) t t'))"

lemma prune_child_pruned:
  assumes "prunes h w n" and "no_faults h" and "closed_list w" and "wf_tree t" and "map_of t d = Some (Dir b)" and "plain x"
    and "\<And>q. map_of t q \<noteq> None \<Longrightarrow> length q < length d + Suc n"
  shows "\<exists>t'. prune_child h w n d x t = (t', None) \<and> pruned w (prefix (d @ [x])) t t'"
proof -
  let ?p = "d @ [x]"
  have "dirs_to t d" using assms(4,5) by (simp add: wf_tree_def)
  then have dp: "dirs_to t ?p" using assms(5,6) by (auto simp: dirs_to_def strict_prefix_def)
  show ?thesis
  proof (cases "?p \<in> set w")
    case False
    with RemoveAll_pruned [OF assms(4,2) dp _ False assms(3)] show ?thesis by (simp add: prune_child_def)
  next
    case True
    have leaf: "pruned w (prefix ?p) t t" if "\<And>b. map_of t ?p \<noteq> Some (Dir b)"
      unfolding pruned_def
    proof (intro allI)
      fix q
      have "map_of t q = None" if "prefix ?p q" "q \<noteq> ?p"
      proof (rule ccontr)
        assume "map_of t q \<noteq> None"
        then have "dirs_to t q" using assms(4) by (simp add: wf_tree_def)
        with that \<open>\<And>b. map_of t ?p \<noteq> Some (Dir b)\<close> show False unfolding dirs_to_def by (metis strict_prefix_def)
      qed
      with True show "map_option untimed (map_of t q) = (if prefix ?p q \<and> q \<notin> set w then None else map_option untimed (map_of t q))"
        by (cases "q = ?p") auto
    qed
    show ?thesis
    proof (cases "\<exists>b. map_of t ?p = Some (Dir b)")
      case dir: True
      have "\<forall>q. map_of t q \<noteq> None \<longrightarrow> length q < length ?p + n" using assms(7) by fastforce
      with assms(1,4) dir obtain t' where t': "pruneOpaque h w n ?p t = (t', None)" "pruned w (strict_prefix ?p) t t'"
        unfolding prunes_def by blast
      have "pruned w (prefix ?p) t t'" using t'(2) True by (auto simp: pruned_def strict_prefix_def)
      with t' dir True dp assms(2) show ?thesis by (auto simp: prune_child_def Lstat_dirs)
    next
      case False
      with leaf True dp assms(2) show ?thesis by (cases "map_of t ?p") (auto simp: prune_child_def Lstat_dirs is_dir_iff Let_def)
    qed
  qed
qed

lemma each_pruned:
  assumes "prunes h w n" and "no_faults h" and "closed_list w" and "wf_tree t" and "map_of t d = Some (Dir b)" and "list_all plain xs"
    and "\<And>q. map_of t q \<noteq> None \<Longrightarrow> length q < length d + Suc n"
  shows "\<exists>t'. each (prune_child h w n d) xs t = (t', None) \<and> pruned w (\<lambda>q. \<exists>x \<in> set xs. prefix (d @ [x]) q) t t'"
  using assms(4-)
proof (induction xs arbitrary: t b)
  case Nil
  then show ?case by (simp add: pruned_def)
next
  case (Cons x xs)
  obtain t1 where t1: "prune_child h w n d x t = (t1, None)" "pruned w (prefix (d @ [x])) t t1"
    using prune_child_pruned [OF assms(1-3) Cons.prems(1,2) _ Cons.prems(4)] Cons.prems(3) by auto
  have "wf_tree t1" by (rule wf_pruned [OF t1(2) Cons.prems(1) _ assms(3)]) (auto simp: upward_def)
  moreover obtain b1 where "map_of t1 d = Some (Dir b1)"
    using pruned_Dir [OF t1(2) Cons.prems(2)] by (auto simp: prefix_def)
  moreover have "length q < length d + Suc n" if "map_of t1 q \<noteq> None" for q
    by (rule Cons.prems(4)) (use pruned_None [OF t1(2), of q] that in auto)
  ultimately obtain t2 where t2: "each (prune_child h w n d) xs t1 = (t2, None)"
    "pruned w (\<lambda>q. \<exists>x \<in> set xs. prefix (d @ [x]) q) t1 t2"
    using Cons.IH [of t1 b1] Cons.prems(3) by auto
  have "pruned w (\<lambda>q. \<exists>y \<in> set (x # xs). prefix (d @ [y]) q) t t2"
    using pruned_trans [OF t1(2) t2(2)] by simp
  with t1 t2 show ?case by (auto simp: and_then_def)
qed

lemma names_in_iff: "x \<in> set (names_in d t) \<longleftrightarrow> map_of t (d @ [x]) \<noteq> None"
proof
  assume "x \<in> set (names_in d t)"
  then obtain q where "q \<in> set (map fst t)" "q \<noteq> []" "butlast q = d" "last q = x" unfolding names_in_def by auto
  then have "d @ [x] \<in> set (map fst t)" by (metis append_butlast_last_id)
  then show "map_of t (d @ [x]) \<noteq> None" by (simp add: map_of_eq_None_iff)
next
  assume "map_of t (d @ [x]) \<noteq> None"
  then have "d @ [x] \<in> set (filter (\<lambda>q. q \<noteq> [] \<and> butlast q = d) (map fst t))" by (simp add: map_of_eq_None_iff)
  then show "x \<in> set (names_in d t)" unfolding names_in_def set_map by (rule image_eqI [rotated]) simp
qed

lemma prunes_all:
  assumes "no_faults h" and "closed_list w"
  shows "prunes h w n"
proof (induction n)
  case 0
  show ?case unfolding prunes_def by fastforce
next
  case (Suc n)
  show ?case
    unfolding prunes_def
  proof (intro allI impI, elim exE)
    fix d t b
    assume wf: "wf_tree t" and d: "map_of t d = Some (Dir b)" and len: "\<forall>q. map_of t q \<noteq> None \<longrightarrow> length q < length d + Suc n"
    have "list_all plain (names_in d t)"
      unfolding list_all_iff
    proof (intro ballI)
      fix x assume "x \<in> set (names_in d t)"
      then have "dirs_to t (d @ [x])" using wf names_in_iff by (simp add: wf_tree_def)
      then show "plain x" by (simp add: dirs_to_def)
    qed
    from each_pruned [OF Suc.IH assms wf d this] len obtain t' where t': "each (prune_child h w n d) (names_in d t) t = (t', None)"
      "pruned w (\<lambda>q. \<exists>x \<in> set (names_in d t). prefix (d @ [x]) q) t t'" by blast
    have "map_of t q = None \<or> (\<exists>x \<in> set (names_in d t). prefix (d @ [x]) q) = strict_prefix d q" for q
    proof (cases "map_of t q = None \<or> \<not> strict_prefix d q")
      case True
      then show ?thesis by (auto simp: strict_prefix_def prefix_def)
    next
      case False
      then obtain x z where q: "q = d @ x # z" by (auto elim: strict_prefixE')
      have "map_of t (d @ [x]) \<noteq> None"
      proof (cases "z = []")
        case False
        have "dirs_to t q" using \<open>\<not> (map_of t q = None \<or> \<not> strict_prefix d q)\<close> wf by (simp add: wf_tree_def)
        moreover have "strict_prefix (d @ [x]) q" using q False by (simp add: strict_prefix_def)
        ultimately show ?thesis unfolding dirs_to_def by fastforce
      qed (use False q in simp)
      with names_in_iff q False show ?thesis by auto
    qed
    with t'(2) have "pruned w (strict_prefix d) t t'" unfolding pruned_def by (metis map_option_is_None)
    moreover have "dirs_to t d" using wf d by (simp add: wf_tree_def)
    ultimately show "\<exists>t'. pruneOpaque h w (Suc n) d t = (t', None) \<and> pruned w (strict_prefix d) t t'"
      using t'(1) prune_children [OF assms(1) _ d] by auto
  qed
qed

lemma depth_bound: "map_of t q \<noteq> None \<Longrightarrow> length q \<le> tree_depth t"
  unfolding tree_depth_def by (induction t) (auto split: if_splits)

text \<open>C40. An opaque directory of a flattened layer keeps what the layer wrote into it and loses everything else below it; nothing outside
  it changes but times of directories, and the levels the recursion is given are enough.\<close>

theorem opaque_keeps_written:
  assumes "no_faults h" and "closed_list written" and "wf_tree t" and "map_of t d = Some (Dir b)"
  shows "\<exists>t'. pruneOpaque h written (Suc (tree_depth t)) d t = (t', None) \<and>
    (\<forall>q. map_option untimed (map_of t' q) =
      (if strict_prefix d q \<and> q \<notin> set written then None else map_option untimed (map_of t q)))"
proof -
  have "length q < length d + Suc (tree_depth t)" if "map_of t q \<noteq> None" for q using depth_bound [OF that] by simp
  with prunes_all [OF assms(1,2), of "Suc (tree_depth t)"] assms(3,4) show ?thesis
    unfolding prunes_def pruned_def by blast
qed

lemma wf_layer_tree: "layer_tree t \<Longrightarrow> wf_tree t"
  unfolding wf_tree_def dirs_to_def
proof (intro allI impI conjI)
  fix q assume t: "layer_tree t" and q: "map_of t q \<noteq> None"
  then show "list_all plain q" by (cases "q = []") (auto dest: layer_treeD(2) layer_name_plain)
  show "\<exists>a. map_of t r = Some (Dir a)" if "strict_prefix r q" for r
    using prefix_dirs [OF t _ that] q by blast
qed

theorem opaque_keeps_written_witness:
  "\<exists>t'. pruneOpaque layer_host [[''etc'']] (Suc (tree_depth demo_upper)) [''etc''] demo_upper = (t', None) \<and>
     map_of t' [''etc'', ''passwd''] = None \<and> map_option untimed (map_of t' [''old'']) = Some (White 2)"
proof -
  have "layer_tree demo_upper"
    by (simp add: layer_tree_def demo_upper_def layer_name_def plain_def attrs_ok_def demo_attrs_def has_prefix_def whiteoutPrefix_def)
  then have "wf_tree demo_upper" by (rule wf_layer_tree)
  moreover have "no_faults layer_host" by (simp add: no_faults_def layer_host_def)
  moreover have "closed_list [[''etc'']]" by (auto simp: closed_list_def prefix_Cons)
  moreover have "map_of demo_upper [''etc''] = Some (Dir (demo_attrs 493))" by (simp add: demo_upper_def)
  ultimately obtain t' where t': "pruneOpaque layer_host [[''etc'']] (Suc (tree_depth demo_upper)) [''etc''] demo_upper = (t', None)"
    "\<And>q. map_option untimed (map_of t' q) =
      (if strict_prefix [''etc''] q \<and> q \<notin> set [[''etc'']] then None else map_option untimed (map_of demo_upper q))"
    using opaque_keeps_written by blast
  have "map_of t' [''etc'', ''passwd''] = None" using t'(2) [of "[''etc'', ''passwd'']"] by (simp add: strict_prefix_def)
  moreover have "map_option untimed (map_of t' [''old'']) = Some (White 2)"
    using t'(2) [of "[''old'']"] by (simp add: strict_prefix_def demo_upper_def)
  ultimately show ?thesis using t'(1) by blast
qed

end
