(* ===== verification/Overlay.thy ===== *)
theory Overlay
  imports Layer_Safety Transition_Systems
begin

text \<open>
  The overlay mounts of containers (src/internal/overlay/overlay.go): the shared directories of extracted layers, the mount of
  a container and its removal. The directory of a layer is its tree; a container has its directories and at most one mount, with
  the options it was mounted with. \<open>overlay_env\<close> has what the system answers, and the gzip and tar readers.
\<close>

section \<open>State\<close>

record overlay_options =
  oo_rootless :: bool
  oo_singleID :: bool

record overlay =
  ov_base :: string
  ov_opts :: overlay_options
  ov_layers :: "(string, tree) gomap"
  ov_dirs :: "string list"
  ov_mounts :: "(string, string) gomap"
  ov_legacy :: bool

datatype unmount_reply = Unmounted | EINVAL | ENOENT | UnmountFails string

record overlay_env =
  oe_host :: host
  oe_gunzip :: "string \<Rightarrow> string + string"
  oe_untar :: "string \<Rightarrow> (string + tar_entry) list"
  oe_root :: bool
  oe_blob :: "string \<Rightarrow> string option"
  oe_mkdir :: "string \<Rightarrow> string option"
  oe_temp :: "string option"
  oe_chmod :: "string option"
  oe_rename :: "string option"
  oe_mount :: "string option"
  oe_unmount :: unmount_reply
  oe_removeAll :: "string option"
  oe_procMounts :: "string option"

datatype overlay_error =
    DirsErr string | BadDigest string | TempErr string | ExtractErr string "apply_error option" | ChmodErr string | RenameErr string
  | MountErr string | UnmountErr string string | RemoveErr string | InitErr string

definition layersDirName :: string where "layersDirName = ''_layers''"
definition legacyCacheDir :: string where "legacyCacheDir = ''_cache''"

definition removeLegacyCache :: "overlay_env \<Rightarrow> overlay \<Rightarrow> overlay" where
  "removeLegacyCache env m =
     (let legacy = path_join [ov_base m, legacyCacheDir]
      in if \<not> ov_legacy m then m
         else if (case oe_procMounts env of Some mounts \<Rightarrow> contains mounts (legacy @ ''/'') | None \<Rightarrow> False) then m
         else if oe_removeAll env \<noteq> None then m
         else m\<lparr>ov_legacy := False\<rparr>)"

text \<open>NewManager on a data directory that has the layers and mounts of \<open>m\<close>.\<close>

definition NewManager :: "overlay_env \<Rightarrow> overlay \<Rightarrow> overlay_error + overlay" where
  "NewManager env m =
     (case oe_mkdir env (path_join [ov_base m, layersDirName]) of
        Some e \<Rightarrow> Inl (InitErr e)
      | None \<Rightarrow> Inr (removeLegacyCache env m))"

section \<open>Layers\<close>

definition layerDigestFromBlobPath :: "string \<Rightarrow> string" where
  "layerDigestFromBlobPath blobPath =
     (let base = path_base blobPath in if length base = 64 then ''sha256:'' @ base else base)"

definition applyOptions :: "overlay_env \<Rightarrow> overlay \<Rightarrow> apply_options" where
  "applyOptions env m =
     \<lparr>ao_mode = ModeOverlay, ao_xattrPrefix = (if oo_rootless (ov_opts m) then ''user.'' else []), ao_chown = oe_root env,
      ao_idMap = (if oo_singleID (ov_opts m) then Some (\<lambda>_ _. (0, 0)) else None)\<rparr>"

definition empty_dir :: "overlay_env \<Rightarrow> tree" where
  "empty_dir env = [([], Dir (new_attrs (oe_host env) 448))]"

definition extractLayer :: "overlay_env \<Rightarrow> string \<Rightarrow> overlay \<Rightarrow> (tree \<times> apply_error option) option" where
  "extractLayer env src m =
     (case oe_blob env src of
        None \<Rightarrow> None
      | Some blob \<Rightarrow> Some (Apply (oe_gunzip env) (oe_untar env) (oe_host env) (applyOptions env m) None blob (empty_dir env)))"

definition layer_dir :: "overlay \<Rightarrow> string \<Rightarrow> string" where
  "layer_dir m hex = path_join [ov_base m, layersDirName, hex]"

definition chmod_root :: "tree \<Rightarrow> tree" where
  "chmod_root t = (case map_of t [] of Some r \<Rightarrow> AList.update [] (map_attrs (\<lambda>a. a\<lparr>at_mode := 493\<rparr>) r) t | None \<Rightarrow> t)"

text \<open>The temporary directory is removed on every failure, so that it leaves no trace.\<close>

definition layerDirForDigest :: "overlay_env \<Rightarrow> string \<Rightarrow> string \<Rightarrow> overlay \<Rightarrow> overlay \<times> (overlay_error + string)" where
  "layerDirForDigest env digest blobPath m =
     (let hex = trim_prefix digest ''sha256:''; dir = layer_dir m hex
      in if hex = [] \<or> CHR ''/'' \<in> set hex \<or> contains hex ''..'' then (m, Inl (BadDigest digest))
         else if map_of (ov_layers m) hex \<noteq> None then (m, Inr dir)
         else case oe_temp env of
                Some e \<Rightarrow> (m, Inl (TempErr e))
              | None \<Rightarrow>
                  (case extractLayer env blobPath m of
                     None \<Rightarrow> (m, Inl (ExtractErr digest None))
                   | Some (t, Some e) \<Rightarrow> (m, Inl (ExtractErr digest (Some e)))
                   | Some (t, None) \<Rightarrow>
                       (case oe_chmod env of
                          Some e \<Rightarrow> (m, Inl (ChmodErr e))
                        | None \<Rightarrow>
                            (case oe_rename env of
                               Some e \<Rightarrow> (m, Inl (RenameErr e))
                             | None \<Rightarrow>
                                 (m\<lparr>ov_layers := (hex, chmod_root t) # ov_layers m\<rparr>, Inr dir)))))"

fun lower_dirs :: "overlay_env \<Rightarrow> string list \<Rightarrow> overlay \<Rightarrow> overlay \<times> (overlay_error + string list)" where
  "lower_dirs env [] m = (m, Inr [])"
| "lower_dirs env (b # bs) m =
     (case layerDirForDigest env (layerDigestFromBlobPath b) b m of
        (m1, Inl e) \<Rightarrow> (m1, Inl e)
      | (m1, Inr d) \<Rightarrow>
          (case lower_dirs env bs m1 of
             (m2, Inl e) \<Rightarrow> (m2, Inl e)
           | (m2, Inr ds) \<Rightarrow> (m2, Inr (d # ds))))"

definition reverseStrings :: "string list \<Rightarrow> string list" where
  "reverseStrings s = rev s"

section \<open>Mounts\<close>

definition container_dir :: "overlay \<Rightarrow> string \<Rightarrow> string" where
  "container_dir m cid = path_join [ov_base m, cid]"

definition MergedDir :: "overlay \<Rightarrow> string \<Rightarrow> string" where
  "MergedDir m cid = path_join [ov_base m, cid, ''merged'']"

definition UpperDir :: "overlay \<Rightarrow> string \<Rightarrow> string" where
  "UpperDir m cid = path_join [ov_base m, cid, ''diff'']"

definition XattrPrefix :: "overlay \<Rightarrow> string" where
  "XattrPrefix m = (if oo_rootless (ov_opts m) then ''user.'' else DefaultXattrPrefix)"

definition container_dirs :: "overlay \<Rightarrow> string \<Rightarrow> string list" where
  "container_dirs m cid = map (\<lambda>d. path_join [container_dir m cid, d]) [''layers'', ''diff'', ''work'', ''merged'']"

definition mount_options :: "overlay \<Rightarrow> string \<Rightarrow> string list \<Rightarrow> string" where
  "mount_options m cid lowers =
     (let opts = ''lowerdir='' @ join_with '':'' (reverseStrings lowers) @ '',upperdir='' @ path_join [container_dir m cid, ''diff''] @
            '',workdir='' @ path_join [container_dir m cid, ''work'']
      in if oo_rootless (ov_opts m) then ''userxattr,'' @ opts else opts)"

definition Prepare :: "overlay_env \<Rightarrow> string \<Rightarrow> string list \<Rightarrow> overlay \<Rightarrow> overlay \<times> (overlay_error + string)" where
  "Prepare env cid blobPaths m0 =
     (case find (\<lambda>d. oe_mkdir env d \<noteq> None) (container_dirs m0 cid) of
        Some d \<Rightarrow>
          (m0\<lparr>ov_dirs := takeWhile (\<lambda>x. x \<noteq> d) (container_dirs m0 cid) @ ov_dirs m0\<rparr>, Inl (DirsErr (the (oe_mkdir env d))))
      | None \<Rightarrow>
          (let m = m0\<lparr>ov_dirs := container_dirs m0 cid @ ov_dirs m0\<rparr>
           in case lower_dirs env blobPaths m of
                (m1, Inl e) \<Rightarrow> (m1, Inl e)
              | (m1, Inr ds) \<Rightarrow>
                  (let none = layer_dir m0 ''empty''
                   in if ds = [] \<and> oe_mkdir env none \<noteq> None then (m1, Inl (DirsErr (the (oe_mkdir env none))))
                      else let m2 = (if ds = [] \<and> map_of (ov_layers m1) ''empty'' = None
                                     then m1\<lparr>ov_layers := (''empty'', [([], Dir (new_attrs (oe_host env) 493))]) # ov_layers m1\<rparr> else m1);
                               lowers = (if ds = [] then [none] else ds)
                           in case oe_mount env of
                                Some e \<Rightarrow> (m2, Inl (MountErr e))
                              | None \<Rightarrow>
                                  (m2\<lparr>ov_mounts := (MergedDir m2 cid, mount_options m2 cid lowers) # ov_mounts m2\<rparr>, Inr (MergedDir m2 cid)))))"

text \<open>Several mounts on one directory are a stack, of which an unmount takes the top.\<close>

fun drop_mount :: "string \<Rightarrow> (string, string) gomap \<Rightarrow> (string, string) gomap" where
  "drop_mount d [] = []"
| "drop_mount d ((x, opts) # ms) = (if x = d then ms else (x, opts) # drop_mount d ms)"

definition Unmount :: "overlay_env \<Rightarrow> string \<Rightarrow> overlay \<Rightarrow> overlay \<times> overlay_error option" where
  "Unmount env cid m =
     (case oe_unmount env of
        UnmountFails e \<Rightarrow> (m, Some (UnmountErr cid e))
      | Unmounted \<Rightarrow> (m\<lparr>ov_mounts := drop_mount (MergedDir m cid) (ov_mounts m)\<rparr>, None)
      | _ \<Rightarrow> (m, None))"

definition overlay_Remove :: "overlay_env \<Rightarrow> string \<Rightarrow> overlay \<Rightarrow> overlay \<times> overlay_error option" where
  "overlay_Remove env cid m =
     (case Unmount env cid m of
        (m1, Some e) \<Rightarrow> (m1, Some e)
      | (m1, None) \<Rightarrow>
          (case oe_removeAll env of
             Some e \<Rightarrow> (m1, Some (RemoveErr e))
           | None \<Rightarrow> (m1\<lparr>ov_dirs := filter (\<lambda>d. d \<notin> set (container_dirs m1 cid)) (ov_dirs m1)\<rparr>, None)))"

definition IsMounted :: "overlay_env \<Rightarrow> string \<Rightarrow> overlay \<Rightarrow> bool" where
  "IsMounted env cid m = (case oe_procMounts env of Some s \<Rightarrow> contains s (MergedDir m cid) | None \<Rightarrow> False)"

section \<open>Invariant\<close>

definition blob_hex :: "string \<Rightarrow> string" where
  "blob_hex blobPath = trim_prefix (layerDigestFromBlobPath blobPath) ''sha256:''"

text \<open>A layer directory is what applying the whole blob gave, with the mode of its root set.\<close>

definition complete_layer ::
  "(string \<Rightarrow> string + string) \<Rightarrow> (string \<Rightarrow> (string + tar_entry) list) \<Rightarrow> (string \<Rightarrow> string) \<Rightarrow> string \<Rightarrow> string \<Rightarrow> tree \<Rightarrow> bool" where
  "complete_layer G U content pre hex t \<longleftrightarrow> (\<exists>h opts a0 t0. ao_mode opts = ModeOverlay \<and> xattrPrefix opts = pre \<and>
     Apply G U h opts None (content hex) [([], Dir a0)] = (t0, None) \<and> (\<forall>p. p \<noteq> [] \<longrightarrow> map_of t p = map_of t0 p))"

definition overlay_inv ::
  "(string \<Rightarrow> string + string) \<Rightarrow> (string \<Rightarrow> (string + tar_entry) list) \<Rightarrow> (string \<Rightarrow> string) \<Rightarrow> overlay \<Rightarrow> bool" where
  "overlay_inv G U content m \<longleftrightarrow> list_all (\<lambda>(hex, t). tree_safe (XattrPrefix m) t \<and>
     (hex = ''empty'' \<or> complete_layer G U content (XattrPrefix m) hex t)) (ov_layers m)"

text \<open>A blob file holds the content of its digest.\<close>

definition env_ok :: "(string \<Rightarrow> string + string) \<Rightarrow> (string \<Rightarrow> (string + tar_entry) list) \<Rightarrow> (string \<Rightarrow> string) \<Rightarrow> overlay_env \<Rightarrow> bool" where
  "env_ok G U content env \<longleftrightarrow> oe_gunzip env = G \<and> oe_untar env = U \<and> (\<forall>src c. oe_blob env src = Some c \<longrightarrow> c = content (blob_hex src))"

lemma xattrPrefix_apply: "xattrPrefix (applyOptions env m) = XattrPrefix m"
  by (simp add: xattrPrefix_def applyOptions_def XattrPrefix_def)

lemma new_root_safe: "tree_safe pre [([], Dir (new_attrs h k))]"
  by (simp add: tree_safe_def)

lemma inv_add:
  assumes "overlay_inv G U content m" and "tree_safe (XattrPrefix m) t" and "hex = ''empty'' \<or> complete_layer G U content (XattrPrefix m) hex t"
  shows "overlay_inv G U content (m\<lparr>ov_layers := (hex, t) # ov_layers m\<rparr>)"
  using assms by (simp add: overlay_inv_def XattrPrefix_def)

lemma layerDir_cases:
  assumes "layerDirForDigest env digest b m = (m', r)" and "hex = trim_prefix digest ''sha256:''"
  obtains (same) "m' = m" and "\<And>d. r = Inr d \<Longrightarrow> d = layer_dir m hex \<and> map_of (ov_layers m) hex \<noteq> None"
  | (new) t where "extractLayer env b m = Some (t, None)" and "r = Inr (layer_dir m hex)"
      and "m' = m\<lparr>ov_layers := (hex, chmod_root t) # ov_layers m\<rparr>"
proof (cases "hex = [] \<or> CHR ''/'' \<in> set hex \<or> contains hex ''..'' \<or> map_of (ov_layers m) hex \<noteq> None \<or> oe_temp env \<noteq> None")
  case True
  with assms have "m' = m \<and> (\<forall>d. r = Inr d \<longrightarrow> d = layer_dir m hex \<and> map_of (ov_layers m) hex \<noteq> None)"
    by (auto simp: layerDirForDigest_def Let_def split: if_splits)
  with same show thesis by blast
next
  case False
  show thesis
  proof (cases "\<exists>t. extractLayer env b m = Some (t, None) \<and> oe_chmod env = None \<and> oe_rename env = None")
    case True
    with False assms new show thesis by (auto simp: layerDirForDigest_def Let_def)
  next
    case fails: False
    have "\<exists>e. (m', r) = (m, Inl e)"
      using False fails assms by (auto simp: layerDirForDigest_def Let_def split: option.splits)
    with same show thesis by auto
  qed
qed

lemma layerDir_inv:
  assumes "layerDirForDigest env (layerDigestFromBlobPath b) b m = (m', r)" and "overlay_inv G U content m" and "env_ok G U content env"
  shows "overlay_inv G U content m' \<and> m' = m\<lparr>ov_layers := ov_layers m'\<rparr> \<and>
    (\<forall>x. map_of (ov_layers m) x \<noteq> None \<longrightarrow> map_of (ov_layers m') x \<noteq> None) \<and>
    (\<forall>d. r = Inr d \<longrightarrow> d = layer_dir m (blob_hex b) \<and> map_of (ov_layers m') (blob_hex b) \<noteq> None)"
  using assms(1) blob_hex_def
proof (cases rule: layerDir_cases)
  case same
  with assms(2) show ?thesis by simp
next
  case (new t)
  from new(1) assms(3) have a: "Apply G U (oe_host env) (applyOptions env m) None (content (blob_hex b)) (empty_dir env) = (t, None)"
    by (auto simp: extractLayer_def env_ok_def split: option.splits)
  have "tree_safe (XattrPrefix m) t"
    using Apply_safe [OF _ a] by (simp add: xattrPrefix_apply empty_dir_def new_root_safe)
  then have s: "tree_safe (XattrPrefix m) (chmod_root t)"
    by (auto simp: chmod_root_def trusted_ok_def split: option.split intro!: tree_safe_update map_attrs_safe dest: tree_safe_at)
  have "map_of (chmod_root t) p = map_of t p" if "p \<noteq> []" for p
    using that by (simp add: chmod_root_def update_conv' split: option.split)
  with a have "complete_layer G U content (XattrPrefix m) (blob_hex b) (chmod_root t)"
    unfolding complete_layer_def empty_dir_def
    by (intro exI [of _ "oe_host env"] exI [of _ "applyOptions env m"] exI [of _ "new_attrs (oe_host env) 448"] exI [of _ t])
      (simp add: xattrPrefix_apply, simp add: applyOptions_def)
  with inv_add [OF assms(2) s] new show ?thesis by simp
qed

lemma lower_dirs_inv:
  assumes "env_ok G U content env"
  shows "lower_dirs env bs m = (m', r) \<Longrightarrow> overlay_inv G U content m \<Longrightarrow>
    overlay_inv G U content m' \<and> m' = m\<lparr>ov_layers := ov_layers m'\<rparr> \<and>
    (\<forall>x. map_of (ov_layers m) x \<noteq> None \<longrightarrow> map_of (ov_layers m') x \<noteq> None) \<and>
    (\<forall>ds. r = Inr ds \<longrightarrow> ds = map (\<lambda>b. layer_dir m (blob_hex b)) bs \<and> list_all (\<lambda>b. map_of (ov_layers m') (blob_hex b) \<noteq> None) bs)"
proof (induction bs arbitrary: m m' r)
  case (Cons b bs)
  obtain m1 r1 where l: "layerDirForDigest env (layerDigestFromBlobPath b) b m = (m1, r1)" by force
  note i = layerDir_inv [OF l Cons.prems(2) assms]
  show ?case
  proof (cases r1)
    case (Inl e)
    with Cons.prems(1) l i show ?thesis by auto
  next
    case (Inr d)
    obtain m2 r2 where l2: "lower_dirs env bs m1 = (m2, r2)" by force
    have i2: "overlay_inv G U content m2 \<and> m2 = m1\<lparr>ov_layers := ov_layers m2\<rparr> \<and>
      (\<forall>x. map_of (ov_layers m1) x \<noteq> None \<longrightarrow> map_of (ov_layers m2) x \<noteq> None) \<and>
      (\<forall>ds. r2 = Inr ds \<longrightarrow> ds = map (\<lambda>b. layer_dir m1 (blob_hex b)) bs \<and> list_all (\<lambda>b. map_of (ov_layers m2) (blob_hex b) \<noteq> None) bs)"
      using Cons.IH [OF l2] i by blast
    have ld: "layer_dir m1 = layer_dir m" using i by (metis (no_types, lifting) layer_dir_def overlay.simps(1) overlay.surjective overlay.update_convs(3) ext)
    have m: "m' = m2" "\<And>ds. r = Inr ds \<Longrightarrow> \<exists>ds'. r2 = Inr ds' \<and> ds = d # ds'"
      using Cons.prems(1) l l2 Inr by (auto split: sum.splits)
    have "m2 = m\<lparr>ov_layers := ov_layers m2\<rparr>" using i i2 by (metis (no_types, lifting) overlay.surjective overlay.update_convs(3))
    with i i2 m ld Inr show ?thesis by fastforce
  qed
qed simp

lemma inv_cong: "XattrPrefix m' = XattrPrefix m \<Longrightarrow> ov_layers m' = ov_layers m \<Longrightarrow> overlay_inv G U content m' = overlay_inv G U content m"
  by (simp add: overlay_inv_def)

text \<open>What a container sees below its own files: the layers of its image, the last one on top.\<close>

definition lowers_of :: "overlay \<Rightarrow> string list \<Rightarrow> string list" where
  "lowers_of m bs = (if bs = [] then [layer_dir m ''empty''] else map (\<lambda>b. layer_dir m (blob_hex b)) bs)"

lemma Prepare_cases:
  assumes "Prepare env cid bs m0 = (m', r)" and "overlay_inv G U content m0" and "env_ok G U content env"
  shows "overlay_inv G U content m' \<and>
    (\<forall>d. r = Inr d \<longrightarrow> d = MergedDir m0 cid \<and> map_of (ov_mounts m') d = Some (mount_options m0 cid (lowers_of m0 bs)) \<and>
      list_all (\<lambda>b. map_of (ov_layers m') (blob_hex b) \<noteq> None) bs)"
proof (cases "find (\<lambda>d. oe_mkdir env d \<noteq> None) (container_dirs m0 cid)")
  case (Some d)
  with assms show ?thesis by (auto simp: Prepare_def overlay_inv_def XattrPrefix_def)
next
  case None
  let ?m = "m0\<lparr>ov_dirs := container_dirs m0 cid @ ov_dirs m0\<rparr>"
  obtain m1 rl where l: "lower_dirs env bs ?m = (m1, rl)" by force
  have "overlay_inv G U content ?m" using assms(2) by (simp add: overlay_inv_def XattrPrefix_def)
  note i = lower_dirs_inv [OF assms(3) l this]
  have same: "XattrPrefix m1 = XattrPrefix m0" "MergedDir m1 = MergedDir m0" "mount_options m1 = mount_options m0" "layer_dir m1 = layer_dir m0"
  proof -
    have b: "ov_base m1 = ov_base m0" "ov_opts m1 = ov_opts m0"
      using i by (metis overlay.ext_inject overlay.surjective overlay.update_convs(3,4))+
    then show "XattrPrefix m1 = XattrPrefix m0" "MergedDir m1 = MergedDir m0" "mount_options m1 = mount_options m0" "layer_dir m1 = layer_dir m0"
      by (auto simp: XattrPrefix_def MergedDir_def mount_options_def container_dir_def layer_dir_def fun_eq_iff)
  qed
  show ?thesis
  proof (cases rl)
    case (Inl e)
    with None l assms(1) i show ?thesis by (auto simp: Prepare_def)
  next
    case (Inr ds)
    let ?none = "layer_dir m0 ''empty''"
    let ?m2 = "if ds = [] \<and> map_of (ov_layers m1) ''empty'' = None
      then m1\<lparr>ov_layers := (''empty'', [([], Dir (new_attrs (oe_host env) 493))]) # ov_layers m1\<rparr> else m1"
    have m2: "overlay_inv G U content ?m2" "list_all (\<lambda>b. map_of (ov_layers ?m2) (blob_hex b) \<noteq> None) bs"
      "MergedDir ?m2 cid = MergedDir m0 cid" "mount_options ?m2 cid = mount_options m0 cid"
      using inv_add [of G U content m1 _ "''empty''"] i Inr same
      by (auto simp: new_root_safe MergedDir_def mount_options_def container_dir_def list_all_iff fun_eq_iff)
    have ds: "(if ds = [] then [?none] else ds) = lowers_of m0 bs"
      using i Inr by (auto simp: lowers_of_def layer_dir_def)
    have p: "Prepare env cid bs m0 =
      (if ds = [] \<and> oe_mkdir env ?none \<noteq> None then (m1, Inl (DirsErr (the (oe_mkdir env ?none))))
       else case oe_mount env of
              Some e \<Rightarrow> (?m2, Inl (MountErr e))
            | None \<Rightarrow> (?m2\<lparr>ov_mounts := (MergedDir ?m2 cid, mount_options ?m2 cid (lowers_of m0 bs)) # ov_mounts ?m2\<rparr>, Inr (MergedDir ?m2 cid)))"
      using None l Inr unfolding ds [symmetric] by (auto simp: Prepare_def Let_def)
    have keep: "overlay_inv G U content (?m2\<lparr>ov_mounts := x\<rparr>)" for x
      using m2(1) by (subst inv_cong [of _ ?m2]) (simp_all add: XattrPrefix_def)
    show ?thesis
    proof (cases "ds = [] \<and> oe_mkdir env ?none \<noteq> None")
      case True
      with assms(1) p i show ?thesis by auto
    next
      case False
      show ?thesis
      proof (cases "oe_mount env")
        case None
        with assms(1) p False m2 keep show ?thesis by auto
      next
        case (Some e)
        with assms(1) p False m2 show ?thesis by auto
      qed
    qed
  qed
qed

section \<open>Runs\<close>

text \<open>The operations of the manager, in any order, each with its own answers of the system.\<close>

inductive overlay_step :: "overlay \<Rightarrow> overlay_env \<Rightarrow> overlay \<Rightarrow> bool" where
  prepare: "Prepare env cid bs m = (m', r) \<Longrightarrow> overlay_step m env m'"
| remove: "overlay_Remove env cid m = (m', r) \<Longrightarrow> overlay_step m env m'"
| unmount: "Unmount env cid m = (m', r) \<Longrightarrow> overlay_step m env m'"
| restart: "NewManager env m = Inr m' \<Longrightarrow> overlay_step m env m'"

lemma Unmount_keeps: "Unmount env cid m = (m', r) \<Longrightarrow> XattrPrefix m' = XattrPrefix m \<and> ov_layers m' = ov_layers m"
  by (auto simp: Unmount_def XattrPrefix_def split: unmount_reply.splits)

lemma Remove_keeps: "overlay_Remove env cid m = (m', r) \<Longrightarrow> XattrPrefix m' = XattrPrefix m \<and> ov_layers m' = ov_layers m"
  using Unmount_keeps [of env cid m] by (auto simp: overlay_Remove_def XattrPrefix_def split: prod.splits option.splits)

lemma NewManager_keeps: "NewManager env m = Inr m' \<Longrightarrow> XattrPrefix m' = XattrPrefix m \<and> ov_layers m' = ov_layers m"
  by (auto simp: NewManager_def removeLegacyCache_def XattrPrefix_def Let_def split: option.splits if_splits)

lemma overlay_step_inv:
  assumes "overlay_inv G U content m" and "overlay_step m env m'" and "env_ok G U content env"
  shows "overlay_inv G U content m'"
  using assms(2)
proof cases
  case (prepare cid bs r)
  with Prepare_cases [OF prepare assms(1,3)] show ?thesis by blast
qed (use assms(1) inv_cong Unmount_keeps Remove_keeps NewManager_keeps in blast)+

interpretation layers: transition_invariant overlay_step "env_ok G U content" "overlay_inv G U content" for G U content
  by unfold_locales (rule overlay_step_inv)


definition demo_overlay :: overlay where
  "demo_overlay = \<lparr>ov_base = ''/o'', ov_opts = \<lparr>oo_rootless = False, oo_singleID = False\<rparr>, ov_layers = [], ov_dirs = [], ov_mounts = [],
     ov_legacy = False\<rparr>"

definition demo_overlay_env :: overlay_env where
  "demo_overlay_env = \<lparr>oe_host = layer_host, oe_gunzip = Inr, oe_untar = (\<lambda>_. [Inr demo_evil]), oe_root = True, oe_blob = (\<lambda>_. Some ''tar''),
     oe_mkdir = (\<lambda>_. None), oe_temp = None, oe_chmod = None, oe_rename = None, oe_mount = None, oe_unmount = Unmounted,
     oe_removeAll = None, oe_procMounts = None\<rparr>"

definition demo_prepared :: "overlay \<times> (overlay_error + string)" where
  "demo_prepared = Prepare demo_overlay_env ''web'' [''/b/1'', ''/b/2''] demo_overlay"

lemma demo_overlay_ok:
  "env_ok Inr (\<lambda>_. [Inr demo_evil]) (\<lambda>_. ''tar'') demo_overlay_env" "overlay_inv Inr (\<lambda>_. [Inr demo_evil]) (\<lambda>_. ''tar'') demo_overlay"
  by (simp_all add: env_ok_def demo_overlay_env_def overlay_inv_def demo_overlay_def)


text \<open>A container whose root was prepared has the directories of the layers of its image below its own files, the last layer on top,
  and each of them was extracted.\<close>

theorem Prepare_mounts_layers:
  assumes "Prepare env cid bs m = (m', Inr d)" and "overlay_inv G U content m" and "env_ok G U content env"
  shows "d = MergedDir m cid \<and> map_of (ov_mounts m') d = Some (mount_options m cid (lowers_of m bs)) \<and>
    list_all (\<lambda>b. map_of (ov_layers m') (blob_hex b) \<noteq> None) bs"
  using Prepare_cases [OF assms] by blast

theorem Prepare_mounts_layers_witness:
  "map_of (ov_mounts (fst demo_prepared)) ''/o/web/merged'' =
     Some ''lowerdir=/o/_layers/2:/o/_layers/1,upperdir=/o/web/diff,workdir=/o/web/work''"
proof -
  have "snd demo_prepared = Inr ''/o/web/merged''" by code_simp
  then have p: "Prepare demo_overlay_env ''web'' [''/b/1'', ''/b/2''] demo_overlay = (fst demo_prepared, Inr ''/o/web/merged'')"
    unfolding demo_prepared_def by (metis prod.collapse)
  have "mount_options demo_overlay ''web'' (lowers_of demo_overlay [''/b/1'', ''/b/2'']) =
      ''lowerdir=/o/_layers/2:/o/_layers/1,upperdir=/o/web/diff,workdir=/o/web/work''" by code_simp
  moreover have "map_of (ov_mounts (fst demo_prepared)) ''/o/web/merged'' =
      Some (mount_options demo_overlay ''web'' (lowers_of demo_overlay [''/b/1'', ''/b/2'']))"
    using Prepare_mounts_layers [OF p demo_overlay_ok(2,1)] by blast
  ultimately show ?thesis by (simp only:)
qed

text \<open>
  The options of a mount are one page at most. With the directory the daemon uses by default, the options of an image with 43
  layers are longer.
\<close>

lemma length_join: "xs \<noteq> [] \<Longrightarrow> length (join_with '':'' xs) + 1 = (\<Sum>x \<leftarrow> xs. length x + 1)"
  by (induction "'':''" xs rule: join_with.induct) auto

lemma long_mount_options:
  assumes "ov_base m = ''/var/lib/nyxd/overlay''" and "43 \<le> length bs" and "list_all (\<lambda>b. plain (blob_hex b) \<and> length (blob_hex b) = 64) bs"
  shows "4095 < length (mount_options m cid (lowers_of m bs))"
proof -
  have l: "length (layer_dir m (blob_hex b)) = 94" if "b \<in> set bs" for b
  proof -
    have p: "plain (blob_hex b)" "length (blob_hex b) = 64" using assms(3) that by (auto simp: list_all_iff)
    have "path_elems ''/var/lib/nyxd/overlay'' = [''var'', ''lib'', ''nyxd'', ''overlay'']" by code_simp
    moreover have "is_abs ''/var/lib/nyxd/overlay''" "plain ''_layers''" by code_simp+
    ultimately have "layer_dir m (blob_hex b) = render_abs [''var'', ''lib'', ''nyxd'', ''overlay'', ''_layers'', blob_hex b]"
      unfolding layer_dir_def assms(1) layersDirName_def by (subst path_join_plain) (use p in simp_all)
    with p show ?thesis by (simp add: render_abs_def)
  qed
  let ?ls = "map (\<lambda>b. layer_dir m (blob_hex b)) bs"
  have ne: "bs \<noteq> []" using assms(2) by auto
  have "length (join_with '':'' (rev ?ls)) + 1 = (\<Sum>x \<leftarrow> rev ?ls. length x + 1)" by (rule length_join) (use ne in simp)
  also have "\<dots> = (\<Sum>b \<leftarrow> bs. 95)" using l by (simp add: rev_map [symmetric] sum_list_rev o_def cong: map_cong)
  also have "\<dots> = 95 * length bs" by (simp add: sum_list_triv)
  finally have "4084 \<le> length (join_with '':'' (rev ?ls))" using assms(2) by linarith
  then show ?thesis using ne by (simp add: mount_options_def lowers_of_def reverseStrings_def Let_def)
qed

end
