(* ===== verification/Netdns.thy ===== *)
theory Netdns
  imports Go_Net "HOL-Library.AList"
begin

text \<open>
  The embedded resolver (src/internal/netdns): one zone per bridge gateway, registration of container
  names, answers and forwarding. Opening the UDP socket of a gateway is the argument \<open>listen\<close>, asking an
  upstream resolver the argument \<open>exchange\<close>, and \<open>fqdn\<close> is dns.Fqdn of the DNS library: a name without a
  trailing dot gets one.
\<close>

section \<open>State\<close>

record zone =
  zn_records :: "(string, ip4) gomap"
  zn_server :: bool
  zn_started :: bool
  zn_err :: "string option"

record zones =
  zs_defaultGW :: string
  zs_upstreams :: "string list"
  zs_zones :: "(string, zone) gomap"

datatype dns_error = BadGateway string | BadAddress string | EmptyHost | BadLabel string | ListenFails string

datatype dns_mode = NoopBackend | ZonesBackend

definition NewBackend :: "string \<Rightarrow> dns_mode" where
  "NewBackend dnsMode =
     (let m0 = to_lower (trim_space dnsMode); m = (if m0 = [] then ''auto'' else m0)
      in if m = ''off'' \<or> m = ''cni'' then NoopBackend
         else if m = ''embedded'' \<or> m = ''auto'' then ZonesBackend else NoopBackend)"

definition NewZones :: "string list \<Rightarrow> ip4 option \<Rightarrow> zones" where
  "NewZones upstreams defaultGW =
     \<lparr>zs_defaultGW = (case defaultGW of None \<Rightarrow> [] | Some g \<Rightarrow> ip4_string g), zs_upstreams = upstreams, zs_zones = []\<rparr>"

definition DefaultGateway :: "string \<Rightarrow> ip4" where
  "DefaultGateway env =
     (let s0 = trim_space env; s = (if s0 = [] then ''10.88.0.1'' else s0)
      in case parse_ip4 s of Some g \<Rightarrow> g | None \<Rightarrow> of_octets 10 88 0 1)"

section \<open>Names\<close>

definition isDNSLabel :: "string \<Rightarrow> bool" where
  "isDNSLabel s \<longleftrightarrow> s \<noteq> [] \<and> length s \<le> 63 \<and> list_all (\<lambda>c. is_lower c \<or> is_digit c \<or> c = CHR ''-'' \<or> c = CHR ''_'') s \<and>
     hd s \<noteq> CHR ''-'' \<and> last s \<noteq> CHR ''-''"

definition parseGateway :: "string \<Rightarrow> dns_error + ip4" where
  "parseGateway gateway = (case parse_ip4 (trim_space gateway) of Some g \<Rightarrow> Inr g | None \<Rightarrow> Inl (BadGateway gateway))"

section \<open>Zones\<close>

definition startZone :: "(string \<Rightarrow> string option) \<Rightarrow> string \<Rightarrow> zone \<Rightarrow> zone \<times> string option" where
  "startZone listen gw zn =
     (if zn_started zn then (zn, zn_err zn)
      else case listen gw of
             Some e \<Rightarrow> (zn, Some e)
           | None \<Rightarrow> (zn\<lparr>zn_server := True, zn_started := True, zn_err := None\<rparr>, None))"

definition put_zone :: "string \<Rightarrow> zone \<Rightarrow> zones \<Rightarrow> zones" where
  "put_zone gw zn z = z\<lparr>zs_zones := AList.update gw zn (zs_zones z)\<rparr>"

definition ensureZoneLocked :: "(string \<Rightarrow> string option) \<Rightarrow> ip4 \<Rightarrow> zones \<Rightarrow> zones \<times> (dns_error + zone)" where
  "ensureZoneLocked listen gw z =
     (let key = ip4_string gw;
          start = (\<lambda>zn. case startZone listen key zn of (zn1, r) \<Rightarrow>
             let zn2 = zn1\<lparr>zn_err := r\<rparr>
             in (put_zone key zn2 z, case r of Some e \<Rightarrow> Inl (ListenFails e) | None \<Rightarrow> Inr zn2))
      in case map_of (zs_zones z) key of
           Some zn \<Rightarrow> (case zn_err zn of
             Some e \<Rightarrow> (z, Inl (ListenFails e))
           | None \<Rightarrow> if \<not> zn_started zn then start zn else (z, Inr zn))
         | None \<Rightarrow> start \<lparr>zn_records = [], zn_server = False, zn_started = False, zn_err = None\<rparr>)"

definition RegisterOn ::
  "(string \<Rightarrow> string option) \<Rightarrow> (string \<Rightarrow> string) \<Rightarrow> string \<Rightarrow> string \<Rightarrow> string \<Rightarrow> zones \<Rightarrow> zones \<times> dns_error option" where
  "RegisterOn listen fqdn gateway host0 ipStr z =
     (case parseGateway gateway of
        Inl e \<Rightarrow> (z, Some e)
      | Inr gw \<Rightarrow> (case parse_ip4 (trim_space ipStr) of
          None \<Rightarrow> (z, Some (BadAddress ipStr))
        | Some ip \<Rightarrow>
            (let host = trim_space (to_lower host0)
             in if host = [] then (z, Some EmptyHost)
                else if \<not> isDNSLabel host then (z, Some (BadLabel host))
                else (case ensureZoneLocked listen gw z of
                        (z1, Inl e) \<Rightarrow> (z1, Some e)
                      | (z1, Inr zn) \<Rightarrow>
                          (put_zone (ip4_string gw)
                             (zn\<lparr>zn_records := AList.update (fqdn (host @ ''.nyxd.local'')) ip (AList.update (fqdn host) ip (zn_records zn))\<rparr>) z1,
                           None)))))"

definition DeregisterOn :: "(string \<Rightarrow> string) \<Rightarrow> string \<Rightarrow> string \<Rightarrow> zones \<Rightarrow> zones" where
  "DeregisterOn fqdn gateway host0 z =
     (case parseGateway gateway of
        Inl _ \<Rightarrow> z
      | Inr gw \<Rightarrow>
          (let host = trim_space (to_lower host0)
           in if host = [] then z
              else case map_of (zs_zones z) (ip4_string gw) of
                     None \<Rightarrow> z
                   | Some zn \<Rightarrow> put_zone (ip4_string gw)
                       (zn\<lparr>zn_records := AList.delete (fqdn (host @ ''.nyxd.local'')) (AList.delete (fqdn host) (zn_records zn))\<rparr>) z))"

definition Register :: "(string \<Rightarrow> string option) \<Rightarrow> (string \<Rightarrow> string) \<Rightarrow> string \<Rightarrow> string \<Rightarrow> zones \<Rightarrow> zones \<times> dns_error option" where
  "Register listen fqdn host ip z = RegisterOn listen fqdn (zs_defaultGW z) host ip z"

definition Deregister :: "(string \<Rightarrow> string) \<Rightarrow> string \<Rightarrow> zones \<Rightarrow> zones" where
  "Deregister fqdn host z = DeregisterOn fqdn (zs_defaultGW z) host z"

definition Shutdown :: "zones \<Rightarrow> zones" where
  "Shutdown z = z\<lparr>zs_zones := map (\<lambda>(g, zn). (g, if zn_server zn then zn\<lparr>zn_server := False, zn_started := False\<rparr> else zn)) (zs_zones z)\<rparr>"

section \<open>Answers\<close>

datatype qtype = TypeA | TypeOther nat

datatype 'm reply = FormatError | NoData | Answer string ip4 nat | Forwarded 'm | ServerFailure

fun forward :: "(string \<Rightarrow> 'q \<Rightarrow> 'm option) \<Rightarrow> 'q \<Rightarrow> string list \<Rightarrow> 'm option" where
  "forward exchange r [] = None"
| "forward exchange r (a # as) = (case exchange a r of Some m \<Rightarrow> Some m | None \<Rightarrow> forward exchange r as)"

definition serveZone :: "(string \<Rightarrow> (string \<times> qtype) list \<Rightarrow> 'm option) \<Rightarrow> string list \<Rightarrow> zone \<Rightarrow> (string \<times> qtype) list \<Rightarrow> 'm reply" where
  "serveZone exchange upstreams zn question =
     (case question of
        [(name, qt)] \<Rightarrow>
          (case map_of (zn_records zn) (to_lower name) of
             Some ip \<Rightarrow> if qt \<noteq> TypeA then NoData else Answer name ip 30
           | None \<Rightarrow> (case forward exchange question upstreams of Some m \<Rightarrow> Forwarded m | None \<Rightarrow> ServerFailure))
      | _ \<Rightarrow> FormatError)"

section \<open>Upstream resolvers\<close>

definition resolv_line :: "(string \<Rightarrow> string option) \<Rightarrow> string \<Rightarrow> string option" where
  "resolv_line host_port raw =
     (let line = trim_space raw
      in if line = [] \<or> has_prefix line ''#'' \<or> has_prefix line '';'' then None
         else case Nyx_Prelude.fields line of
                k # v # _ \<Rightarrow> if equal_fold k ''nameserver'' then host_port (trim_by (\<lambda>c. c = CHR ''['' \<or> c = CHR '']'') v) else None
              | _ \<Rightarrow> None)"

definition parseResolvConfNameservers :: "(string \<Rightarrow> string option) \<Rightarrow> string option \<Rightarrow> string list" where
  "parseResolvConfNameservers host_port data =
     (case data of None \<Rightarrow> [] | Some text \<Rightarrow> List.map_filter (resolv_line host_port) (split_on (CHR 0x0A) text))"

definition hostUpstreamResolvers :: "(string \<Rightarrow> string option) \<Rightarrow> (string \<Rightarrow> string option) \<Rightarrow> string list" where
  "hostUpstreamResolvers host_port read_file =
     (case filter (\<lambda>ns. ns \<noteq> []) (map (\<lambda>p. parseResolvConfNameservers host_port (read_file p))
              [''/run/systemd/resolve/resolv.conf'', ''/etc/resolv.conf'']) of
        ns # _ \<Rightarrow> ns | [] \<Rightarrow> [''8.8.8.8:53'', ''1.1.1.1:53''])"

section \<open>What the zones hold\<close>

text \<open>The abstract state: the address of a name on a gateway.\<close>

definition names_on :: "zones \<Rightarrow> string \<Rightarrow> string \<Rightarrow> ip4 option" where
  "names_on z gw name = (case map_of (zs_zones z) gw of None \<Rightarrow> None | Some zn \<Rightarrow> map_of (zn_records zn) name)"

definition answer_on :: "(string \<Rightarrow> (string \<times> qtype) list \<Rightarrow> 'm option) \<Rightarrow> zones \<Rightarrow> string \<Rightarrow> string \<Rightarrow> 'm reply option" where
  "answer_on exchange z gw name =
     map_option (\<lambda>zn. serveZone exchange (zs_upstreams z) zn [(name, TypeA)]) (map_of (zs_zones z) gw)"

lemma ensureZone_names:
  assumes "ensureZoneLocked listen gw z = (z1, r)"
  shows "names_on z1 = names_on z" and "r = Inr zn \<Longrightarrow> map_of (zs_zones z1) (ip4_string gw) = Some zn \<and> zn_started zn"
    and "zs_upstreams z1 = zs_upstreams z"
  using assms
  by (auto simp: ensureZoneLocked_def startZone_def put_zone_def names_on_def update_conv' fun_eq_iff Let_def
      split: option.splits if_splits prod.splits)

text \<open>C19. The zones implement one table of names per gateway. A registration that succeeds adds the name and
  its form under nyxd.local to the table of its gateway, and a query for them on this gateway, in any
  case, is answered with the address; a registration that fails and any operation on another gateway
  leave a table as it is; removing a name removes these two; stopping the listeners loses no name.\<close>

theorem zones_refine:
  assumes "RegisterOn listen fqdn gateway host ipStr z = (z', r)"
    and "\<And>s. s \<noteq> [] \<Longrightarrow> last s \<noteq> CHR ''.'' \<Longrightarrow> fqdn s = s @ ''.''"
  shows "(r \<noteq> None \<longrightarrow> names_on z' = names_on z) \<and>
    (r = None \<longrightarrow> (\<exists>gw ip. parse_ip4 (trim_space gateway) = Some gw \<and> parse_ip4 (trim_space ipStr) = Some ip \<and>
       (let h = trim_space (to_lower host); g = ip4_string gw in
        names_on z' = (names_on z)(g := (names_on z g)(h @ ''.'' \<mapsto> ip, h @ ''.nyxd.local.'' \<mapsto> ip)) \<and>
        (\<forall>name. to_lower name = h @ ''.'' \<longrightarrow> answer_on (exchange :: string \<Rightarrow> (string \<times> qtype) list \<Rightarrow> 'm option) z' g name = Some (Answer name ip 30)) \<and>
        names_on (DeregisterOn fqdn gateway host z') = (names_on z')(g := (names_on z' g)(h @ ''.'' := None, h @ ''.nyxd.local.'' := None))))) \<and>
    names_on (Shutdown z) = names_on z"
proof -
  let ?h = "trim_space (to_lower host)"
  have sd: "names_on (Shutdown z) = names_on z"
    by (auto simp: names_on_def Shutdown_def fun_eq_iff map_of_map split: option.splits)
  show ?thesis
  proof (cases r)
    case (Some e)
    then have "names_on z' = names_on z" using assms(1)
      by (auto simp: RegisterOn_def Let_def split: sum.splits option.splits if_splits prod.splits dest: ensureZone_names(1))
    with Some sd show ?thesis by simp
  next
    case None
    with assms(1) obtain gw ip z1 zn where g: "parse_ip4 (trim_space gateway) = Some gw" "parse_ip4 (trim_space ipStr) = Some ip"
      and h: "isDNSLabel ?h" and e: "ensureZoneLocked listen gw z = (z1, Inr zn)"
      and z': "z' = put_zone (ip4_string gw)
        (zn\<lparr>zn_records := AList.update (fqdn (?h @ ''.nyxd.local'')) ip (AList.update (fqdn ?h) ip (zn_records zn))\<rparr>) z1"
      by (auto simp: RegisterOn_def parseGateway_def Let_def split: sum.splits option.splits if_splits prod.splits)
    have ne: "?h \<noteq> []" "last ?h \<noteq> CHR ''.''" using h unfolding isDNSLabel_def
      by (auto simp: list_all_iff is_lower_def is_digit_def dest!: bspec [OF _ last_in_set])
    have f: "fqdn ?h = ?h @ ''.''" "fqdn (?h @ ''.nyxd.local'') = ?h @ ''.nyxd.local.''"
      using assms(2) [OF ne] assms(2) [of "?h @ ''.nyxd.local''"] by simp_all
    note n = ensureZone_names(1) [OF e] and m = ensureZone_names(2) [OF e refl]
    have zn: "map_of (zn_records zn) = names_on z (ip4_string gw)" using m by (simp add: names_on_def fun_eq_iff flip: n)
    have reg: "names_on z' = (names_on z)(ip4_string gw := (names_on z (ip4_string gw))(?h @ ''.'' \<mapsto> ip, ?h @ ''.nyxd.local.'' \<mapsto> ip))"
      unfolding n [symmetric] using m by (auto simp: z' f names_on_def put_zone_def update_conv' fun_eq_iff)
    have ans: "answer_on exchange z' (ip4_string gw) name = Some (Answer name ip 30)" if "to_lower name = ?h @ ''.''"
      for name and exchange :: "string \<Rightarrow> (string \<times> qtype) list \<Rightarrow> 'm option"
      using that by (simp add: answer_on_def z' put_zone_def update_conv' serveZone_def f)
    have "names_on (DeregisterOn fqdn gateway host z') =
      (names_on z')(ip4_string gw := (names_on z' (ip4_string gw))(?h @ ''.'' := None, ?h @ ''.nyxd.local.'' := None))"
      using ne(1) by (auto simp: DeregisterOn_def parseGateway_def g(1) Let_def z' put_zone_def names_on_def update_conv' delete_conv' f fun_eq_iff)
    with None g reg ans sd show ?thesis by (simp add: Let_def)
  qed
qed

definition demo_fqdn :: "string \<Rightarrow> string" where
  "demo_fqdn s = (if s \<noteq> [] \<and> last s = CHR ''.'' then s else s @ ''.'')"

definition demo_zones :: zones where
  "demo_zones = fst (RegisterOn (\<lambda>_. None) demo_fqdn ''10.2.3.4'' ''web'' ''10.2.3.9'' (NewZones [] None))"

theorem zones_refine_witness:
  "names_on demo_zones ''10.2.3.4'' ''web.nyxd.local.'' = Some (of_octets 10 2 3 9) \<and> names_on demo_zones ''10.7.3.4'' ''web.'' = None"
proof -
  have s: "snd (RegisterOn (\<lambda>_. None) demo_fqdn ''10.2.3.4'' ''web'' ''10.2.3.9'' (NewZones [] None)) = None" by code_simp
  then have r: "RegisterOn (\<lambda>_. None) demo_fqdn ''10.2.3.4'' ''web'' ''10.2.3.9'' (NewZones [] None) = (demo_zones, None)"
    unfolding demo_zones_def by (metis prod.collapse)
  have p: "parse_ip4 (trim_space ''10.2.3.4'') = Some (of_octets 10 2 3 4)" "parse_ip4 (trim_space ''10.2.3.9'') = Some (of_octets 10 2 3 9)"
    "ip4_string (of_octets 10 2 3 4) = ''10.2.3.4''" "trim_space (to_lower ''web'') = ''web''" by code_simp+
  have "names_on demo_zones = (names_on (NewZones [] None))(''10.2.3.4'' := (names_on (NewZones [] None) ''10.2.3.4'')
      (''web.'' \<mapsto> of_octets 10 2 3 9, ''web.nyxd.local.'' \<mapsto> of_octets 10 2 3 9))"
    using zones_refine [OF r, where exchange = "\<lambda>_ _. None :: unit option"] by (simp add: demo_fqdn_def p Let_def)
  then show ?thesis by (simp add: names_on_def NewZones_def)
qed

section \<open>What the zones do not do\<close>

text \<open>A name belongs to no one: when two containers on a gateway register the same name, the first one to
  leave removes it, and the other one can no longer be found.\<close>

lemma shared_name_lost:
  fixes z :: zones
  assumes "RegisterOn listen fqdn gateway host ip1 z = (z1, None)" and "RegisterOn listen fqdn gateway host ip2 z1 = (z2, None)"
    and "\<And>s. s \<noteq> [] \<Longrightarrow> last s \<noteq> CHR ''.'' \<Longrightarrow> fqdn s = s @ ''.''" and "parse_ip4 (trim_space gateway) = Some gw"
  shows "names_on (DeregisterOn fqdn gateway host z2) (ip4_string gw) (trim_space (to_lower host) @ ''.'') = None"
proof -
  have "isDNSLabel (trim_space (to_lower host))"
    using assms(2) by (auto simp: RegisterOn_def Let_def split: sum.splits option.splits if_splits prod.splits)
  then have "trim_space (to_lower host) \<noteq> []" "last (trim_space (to_lower host)) \<noteq> CHR ''.''"
    unfolding isDNSLabel_def by (auto simp: list_all_iff is_lower_def is_digit_def dest!: bspec [OF _ last_in_set])
  with assms(3,4) show ?thesis
    by (auto simp: DeregisterOn_def parseGateway_def Let_def names_on_def put_zone_def update_conv' delete_conv' split: option.splits)
qed

text \<open>A gateway whose socket could not be opened once stays without a resolver: no later registration tries
  again.\<close>

lemma failed_listen_sticks:
  assumes "map_of (zs_zones z) (ip4_string gw) = Some zn" and "zn_err zn = Some e"
  shows "ensureZoneLocked listen gw z = (z, Inl (ListenFails e))"
  using assms by (simp add: ensureZoneLocked_def Let_def)

end
