(* ===== verification/Spec2Isabelle.thy ===== *)
theory Spec2Isabelle
  imports Health Netlink Native_Driver Dockerignore Build_Props Control_Run_Props Overlay Netdns
begin

text \<open>
  A verification of nyxd, a daemon that runs OCI containers with crun, builds images from Dockerfiles and brings up
  compose projects (sources under src/; the programs are src/cmd/nyxd and its client src/cmd/nyx).

  \<^bold>\<open>The program.\<close> A client sends a request to the HTTP API of the daemon (src/internal/control). A run request names an image,
  which the image store (src/internal/image) has or pulls; the supervisor (src/internal/supervisor) then prepares the root file
  system, a network namespace and an address (src/internal/network), writes the OCI bundle (src/internal/bundle), starts crun
  and supervises the container: health checks (src/internal/health), restarts with back-off, logs (src/internal/logs), names
  in the resolver (src/internal/netdns), and records on disk from which a restarted daemon adopts what still runs. A compose
  file (src/internal/compose) is interpolated, parsed, checked and ordered, and becomes a list of container specifications.
  A build (src/internal/build) parses a Dockerfile, runs its stages step by step with a cache and commits an image.

  \<^bold>\<open>The theories,\<close> in the order of the layers:
  \<^item> Nyx_Prelude, Go_Path, Go_Net, Go_Json: what nyxd uses of Go's strings, strconv, sort, path/filepath, net and
    encoding/json packages, Go maps as association lists (a theorem for every list with distinct keys holds for every order of
    iteration), results that carry an error, and the shared lemmas. Transition_Systems: runs of a labelled transition
    system and invariants of runs.
  \<^item> Compose_Types, Compose_Env, Compose_Graph, Compose_Parse, Compose_Mounts, Compose_Specs: types.go, env.go, envfile.go,
    file.go, parse.go, order.go, mounts.go, specs.go and the smaller files of src/internal/compose. The search for cycles is
    exact, the start order puts dependencies first, volumes stay below the compose directory, the specifications are those the
    services ask for, and the bridge that is chosen is one the network driver accepts.
  \<^item> Oci_Types, Bundle: bundle.go, caps.go, seccomp.go; a container that is not privileged is confined.
  \<^item> Network_Publish, Native_Ipam, Native_Nft, Native_Driver, Netlink: publish.go, host.go and native/bridge.go, manager.go,
    nft_helpers.go. The allocator refines the choice of the lowest free address, a failed Setup gives everything back except
    the rules of published ports, Teardown undoes Setup, and messages to the kernel are read back as they were written.
  \<^item> Health, Logs, Netdns: health.go, logger.go, and the zones, upstream resolvers and modes of src/internal/netdns. The status of a
    checker is a function of the results of the probes, a rotated log is the most recent part of what was written, and the
    resolver implements one table of names for each gateway.
  \<^item> Rootfs, Layer, Layer_Props, Layer_Safety, Overlay: rootfs.go, layer.go, diff_linux.go, sys_linux.go and overlay.go. Resolved
    paths stay inside the root, a layer that is committed and extracted again is the same directory, no archive forges what
    overlayfs trusts, and the shared directories of layers are complete whatever fails.
  \<^item> Image_Refs, Image_Store, Image_Blobs, Image_Pulls: puller.go, local.go, auth.go and registry.go of src/internal/image. Every blob
    has its digest after any sequence of operations, a pull leaves an image that resolves, and removing an image hurts no other.
  \<^item> Dockerfile_Shell, Dockerfile_Parse, Dockerignore, Builder, Build_Copy, Build_Exec, Build_Props: shell.go, parse.go,
    dockerignore.go, builder.go, copy.go, run.go and cache.go of src/internal/build. No instruction is lost, sources of COPY
    stay inside the context, a stage extends its base, the cache replays a step without running it, and a build leaves a complete image
    under each tag.
  \<^item> Supervisor_Spec, Supervisor, Supervisor_Resources, Supervisor_System, Supervisor_Runs, Supervisor_Adopt: supervisor.go,
    hostports.go, supervisor_dns.go, bundle_meta.go, persist.go and compose_up.go. A start that fails releases what it
    acquired; under every interleaving of starts, exits, restarts, stops, kills and removals, and across a restart of the daemon,
    nothing is held for a container that is not tracked; compose up a second time changes nothing.
  \<^item> Control_Ids, Control, Control_Run, Control_Props, Control_Run_Props: resolve.go, handlers_more.go and the handlers of
    server.go. A handler takes the server and a request and gives the server after it and the response, with the status and
    what is written. Names resolve when they mean one container, a run that is reported as started is sound, one that is
    refused leaves the containers alone, compose down leaves nothing behind, pruning keeps the images in use, and
    following a log gives each line once.

  \<^bold>\<open>How the code is read.\<close> A struct is a record, a nil pointer an option, an error a value of a sum type with one constructor for each
  way to fail. Integers are int, nat or words; where the code can leave the range of an int64 the wrap-around is written out.
  What the daemon asks of the outside world (crun, the kernel, a registry, the file system, the clock, codecs of JSON and YAML,
  SHA-256) is an argument of the operation that asks, so a theorem holds for every answer. Calls that acquire or release
  something are recorded in a log, from which it can be read what is held. Objects that several goroutines share are kept in
  a store and addressed by index.

  \<^bold>\<open>Interfaces.\<close> The locale \<open>dependency_order\<close> (Compose_Graph) is what the supervisor and compose down rely on of an order of
  services, \<open>network_backend\<close> (Network_Publish) the contract of a network driver, \<open>address_pool\<close> (Native_Ipam) that of an allocator, and
  \<open>transition_invariant\<close> (Transition_Systems) an invariant under every run; they are interpreted on the topological sort, the
  host driver, the file-backed allocator, and the steps of the supervisor (twice), of the image store and of the overlay manager.

  \<^bold>\<open>Loops.\<close> Every loop of the model ends by a measure, except two that only an outside program ends: the deletion of packet filter
  rules (Native_Nft), which is shown to end when nft deletes what it is told to, and the chase of image indexes (Image_Store),
  which a registry can prolong for ever; these are functions into option, and not to return is \<open>None\<close>. The only
  fuel is the depth of the recursion into opaque directories (Layer), one more than the tree is deep, which is shown to be enough
  (Layer_Safety). The bounds are those of the code: five attempts for a blob, a limit of symbolic links for a path, four idle ticks for a followed log.

  \<^bold>\<open>Not modelled:\<close> the command line client and the entry point of the daemon, which parse flags and print; crun, CNI plugins, ufw
  and firewalld, AppArmor and rootless re-execution, which are system calls and child processes; archives and
  pushes of whole images; statistics and inspection, which only report; the handlers for builds and uploads, which unpack an archive
  and call what is modelled; texts of errors, except where the code looks into them. Case mapping and white space are those of
  ASCII.
\<close>

end
